(* ===== verification/Nimbus_Prelude.thy ===== *)
theory Nimbus_Prelude
  imports Main "HOL-Library.Word" "HOL-Library.Sublist"
begin

text \<open>
  Shared vocabulary of the development: the identifiers and clock of the model, the
  proof collections, the list operations that stand for the SQL statements of the Go
  repositories (a table is the list of its rows), Go's signed 64-bit arithmetic and
  Postgres' checked \<^verbatim>\<open>bigint\<close> arithmetic, and decimal formatting.
\<close>

section \<open>Identifiers, time and proof collections\<close>

text \<open>UUIDs, node ids, hashes and tokens are Go strings; instants and durations are
  integers of one common unit.\<close>

type_synonym id = string
type_synonym time = int
type_synonym duration = int

named_theorems db_defs \<open>definitions of repository statements, unfolded to table updates\<close>
named_theorems inv_intros \<open>preservation facts: an operation keeps the database invariant\<close>
named_theorems frames \<open>tables an operation leaves alone\<close>

section \<open>Errors as values\<close>

text \<open>
  A Go \<^verbatim>\<open>error\<close> is an interface value compared by identity (\<^verbatim>\<open>errors.Is\<close>). Each
  package's sentinel errors are one datatype, prefixed by the package where two packages
  use one name, and \<open>goerr\<close> is their union. \<open>PgError\<close> is an error of the database driver
  with its SQLSTATE class, \<open>IOError\<close> any other I/O failure, and \<open>Diverges\<close> stands for a
  query that never returns (a recursive CTE on a cyclic table).
\<close>

datatype storage_err = ErrNoNodes | ErrInsufficientHealthyNodes | ErrUnknownNode | ErrNoMinioClient

datatype upload_err =
    ErrUploadNotFound | upload_ErrInvalidFolder | ErrTargetFileNotFound | ErrForbidden
  | ErrChunkNotFound | ErrInvalidState | ErrChecksumMismatch | ErrUploadNotInProgress
  | ErrEmptyChunkOrder | ErrMissingChunks | ErrFileTooLarge | ErrQuotaExceeded
  | ErrInsufficientReplicas | ErrChunkTooLarge | ErrAlreadyCompleting

datatype file_err =
  file_ErrNotFound | file_ErrInvalidFolder | ErrNotTrashed | ErrVersionNotFound | ErrNoThumbnail

datatype folder_err = folder_ErrNotFound | ErrNameConflict | ErrInvalidParent | ErrCyclicMove

datatype org_err =
    ErrNotMember | ErrOwnerRequired | ErrAlreadyMember | ErrCannotRemoveOwner
  | ErrTargetUserNotFound | org_ErrNotFound | ErrElevatedRoleNeedsOwner
  | ErrAdminRemovesMembersOnly

datatype auth_err =
    ErrEmailTaken | ErrInvalidCredentials | ErrInvalidRefresh | ErrUserNotFound
  | ErrInvalidResetToken | ErrTOTPAlreadyEnabled | ErrTOTPNotEnrolled | ErrInvalidTOTPCode
  | ErrInvalidChallenge | ErrInvalidToken

datatype sharing_err =
    sharing_ErrNotFound | ErrExpired | ErrFileHasNoVersion | ErrNotInShare | ErrEmptyBundle
  | ErrFileNotShareable

datatype pg_code =
    UniqueViolation | ForeignKeyViolation | CheckViolation | OutOfRange | ConnectionLost

datatype goerr =
    Storage storage_err | Upload upload_err | File file_err | Folder folder_err | Org org_err
  | Auth auth_err | Sharing sharing_err | ErrDeadEventNotFound | ErrInvalidCursor
  | ErrNoRows | PgError pg_code | IOError | Diverges

type_synonym 'a res = "goerr + 'a"

section \<open>Tables as lists of rows\<close>

text \<open>\<open>UPDATE t SET \<dots> WHERE P\<close>, \<open>DELETE FROM t WHERE P\<close>, and the affected-row count
  (\<^verbatim>\<open>tag.RowsAffected()\<close>).\<close>

definition update_where :: "('r \<Rightarrow> bool) \<Rightarrow> ('r \<Rightarrow> 'r) \<Rightarrow> 'r list \<Rightarrow> 'r list" where
  "update_where P f rows = map (\<lambda>r. if P r then f r else r) rows"

definition delete_where :: "('r \<Rightarrow> bool) \<Rightarrow> 'r list \<Rightarrow> 'r list" where
  "delete_where P rows = filter (\<lambda>r. \<not> P r) rows"

definition rows_affected :: "('r \<Rightarrow> bool) \<Rightarrow> 'r list \<Rightarrow> nat" where
  "rows_affected P rows = length (filter P rows)"

lemma set_update_where:
  "set (update_where P f rows) = f ` {r \<in> set rows. P r} \<union> {r \<in> set rows. \<not> P r}"
  by (auto simp: update_where_def)

lemma in_update_where:
  "r \<in> set (update_where P f rows) \<longleftrightarrow>
     (\<exists>q \<in> set rows. if P q then r = f q else r = q)"
  by (auto simp: update_where_def)

lemma ball_update_where [simp]:
  "(\<forall>r \<in> set (update_where P f rows). Q r) \<longleftrightarrow>
     (\<forall>r \<in> set rows. if P r then Q (f r) else Q r)"
  by (auto simp: update_where_def)

lemma bex_update_where [simp]:
  "(\<exists>r \<in> set (update_where P f rows). Q r) \<longleftrightarrow>
     (\<exists>r \<in> set rows. if P r then Q (f r) else Q r)"
  by (auto simp: update_where_def)

lemma set_delete_where [simp]: "set (delete_where P rows) = {r \<in> set rows. \<not> P r}"
  by (simp add: delete_where_def)

lemma update_where_nil [simp]: "update_where P f [] = []"
  by (simp add: update_where_def)

lemma update_where_cons [simp]:
  "update_where P f (r # rows) = (if P r then f r else r) # update_where P f rows"
  by (simp add: update_where_def)

lemma update_where_append [simp]:
  "update_where P f (xs @ ys) = update_where P f xs @ update_where P f ys"
  by (simp add: update_where_def)

lemma delete_where_nil [simp]: "delete_where P [] = []"
  by (simp add: delete_where_def)

lemma delete_where_cons [simp]:
  "delete_where P (r # rows) = (if P r then delete_where P rows else r # delete_where P rows)"
  by (simp add: delete_where_def)

lemma delete_where_append [simp]:
  "delete_where P (xs @ ys) = delete_where P xs @ delete_where P ys"
  by (simp add: delete_where_def)

lemma map_update_where [simp]:
  assumes "\<And>r. P r \<Longrightarrow> k (f r) = k r"
  shows "map k (update_where P f rows) = map k rows"
  using assms by (simp add: update_where_def)

lemma map_update_where_in:
  assumes "\<And>r. r \<in> set rows \<Longrightarrow> P r \<Longrightarrow> k (f r) = k r"
  shows "map k (update_where P f rows) = map k rows"
  using assms by (simp add: update_where_def)

lemma distinct_delete_where [intro]:
  "distinct (map k rows) \<Longrightarrow> distinct (map k (delete_where P rows))"
  by (simp add: delete_where_def distinct_map_filter)

lemma rows_affected_zero: "rows_affected P rows = 0 \<longleftrightarrow> (\<forall>r \<in> set rows. \<not> P r)"
  by (auto simp: rows_affected_def filter_empty_conv)

lemma update_where_none: "\<forall>r \<in> set rows. \<not> P r \<Longrightarrow> update_where P f rows = rows"
  by (induction rows) auto

lemma delete_where_none: "\<forall>r \<in> set rows. \<not> P r \<Longrightarrow> delete_where P rows = rows"
  by (induction rows) auto

section \<open>Reading one row\<close>

text \<open>\<open>SELECT \<dots> WHERE P\<close> scanned with \<^verbatim>\<open>QueryRow\<close>: the first matching row, or
  \<^verbatim>\<open>pgx.ErrNoRows\<close>.\<close>

lemma find_SomeD: "List.find P xs = Some x \<Longrightarrow> x \<in> set xs \<and> P x"
  by (auto simp: find_Some_iff)

lemma find_NoneD: "List.find P xs = None \<Longrightarrow> x \<in> set xs \<Longrightarrow> \<not> P x"
  by (auto simp: find_None_iff)

lemma find_key:
  assumes "distinct (map k xs)" and "x \<in> set xs"
  shows "List.find (\<lambda>y. k y = k x) xs = Some x"
  using assms by (induction xs) (auto simp: rev_image_eqI)

lemma key_unique:
  assumes "distinct (map k xs)" and "x \<in> set xs" and "y \<in> set xs" and "k x = k y"
  shows "x = y"
  using assms by (auto simp: distinct_map dest: inj_onD)

lemma find_append_rows:
  "List.find P (xs @ ys) = (case List.find P xs of None \<Rightarrow> List.find P ys | Some x \<Rightarrow> Some x)"
  by (induction xs) auto

lemma find_update_where:
  assumes "\<And>r. Q r \<Longrightarrow> P (f r) = P r"
  shows "List.find P (update_where Q f rows) =
    map_option (\<lambda>r. if Q r then f r else r) (List.find P rows)"
  using assms by (induction rows) auto

section \<open>Sums over rows\<close>

lemma sum_list_filter_split:
  fixes g :: "'a \<Rightarrow> int"
  shows "sum_list (map g (filter P xs)) =
     sum_list (map g (filter (\<lambda>x. P x \<and> Q x) xs)) + sum_list (map g (filter (\<lambda>x. P x \<and> \<not> Q x) xs))"
  by (induction xs) auto

lemma sum_list_filter_cong:
  assumes "\<And>x. x \<in> set xs \<Longrightarrow> P x = Q x"
  shows "sum_list (map g (filter P xs)) = sum_list (map g (filter Q xs))"
  using assms by (metis filter_cong)

lemma sum_list_map_nonneg:
  fixes g :: "'a \<Rightarrow> int"
  assumes "\<And>x. x \<in> set xs \<Longrightarrow> 0 \<le> g x"
  shows "0 \<le> sum_list (map g xs)"
  using assms by (induction xs) auto

section \<open>Integers\<close>

text \<open>Go's \<^verbatim>\<open>int64\<close> wraps around; Postgres' \<^verbatim>\<open>bigint\<close> and \<^verbatim>\<open>integer\<close> raise
  \<^verbatim>\<open>22003 numeric_value_out_of_range\<close>.\<close>

definition wrap64 :: "int \<Rightarrow> int" where
  "wrap64 x = (x + 2 ^ 63) mod 2 ^ 64 - 2 ^ 63"

definition in_int64 :: "int \<Rightarrow> bool" where
  "in_int64 x \<longleftrightarrow> - (2 ^ 63) \<le> x \<and> x < 2 ^ 63"

definition in_int32 :: "int \<Rightarrow> bool" where
  "in_int32 x \<longleftrightarrow> - (2 ^ 31) \<le> x \<and> x < 2 ^ 31"

lemma wrap64_id: "in_int64 x \<Longrightarrow> wrap64 x = x"
  by (simp add: wrap64_def in_int64_def)

lemma wrap64_in_int64: "in_int64 (wrap64 x)"
proof -
  have "0 \<le> (x + 2 ^ 63) mod 2 ^ 64" and "(x + 2 ^ 63) mod 2 ^ 64 < (2 ^ 64 :: int)"
    by simp_all
  then show ?thesis by (simp add: wrap64_def in_int64_def)
qed

text \<open>The wrapped value is the one a 64-bit two's complement word holds.\<close>

lemma wrap64_sint: "wrap64 x = sint (word_of_int x :: 64 word)"
  by (simp add: wrap64_def int_word_sint)

section \<open>Decimal formatting\<close>

text \<open>\<^verbatim>\<open>%d\<close> and \<^verbatim>\<open>strconv.FormatInt(n, 10)\<close>.\<close>

definition digit_char :: "nat \<Rightarrow> char" where
  "digit_char d = char_of (48 + d)"

fun dec :: "nat \<Rightarrow> string" where
  "dec n = (if n < 10 then [digit_char n] else dec (n div 10) @ [digit_char (n mod 10)])"

declare dec.simps [simp del]

definition dec_int :: "int \<Rightarrow> string" where
  "dec_int i = (if i < 0 then CHR ''-'' # dec (nat (- i)) else dec (nat i))"

end
