(* ===== verification/Schema.thy ===== *)
theory Schema
  imports Nimbus_Prelude
begin

text \<open>
  The Postgres tables of \<^verbatim>\<open>backend/migrations\<close> that the metadata, upload and garbage
  collection code shares, as one record \<open>db\<close> of row lists: the row types are the Go
  structs the repositories scan into, the statements' constraint checks (primary and unique
  keys, foreign keys, \<^verbatim>\<open>CHECK\<close>s) are written into the operations, and \<open>ON DELETE\<close> actions
  are the deletion functions below. A repository operation maps a database to a result and a
  database; a transaction that fails returns the database it started from.
\<close>

section \<open>Rows\<close>

record User =
  us_id :: id
  us_email :: string
  us_hash :: string
  us_admin :: bool
  us_created :: time

datatype Role = RoleOwner | RoleAdmin | RoleMember

record Organization =
  o_id :: id
  o_name :: string
  o_owner :: id
  o_created :: time
  o_usage :: int
  o_quota :: "int option"

record Membership =
  m_org :: id
  m_user :: id
  m_role :: Role
  m_created :: time

record Folder =
  fo_id :: id
  fo_org :: id
  fo_parent :: "id option"
  fo_name :: string
  fo_created :: time
  fo_updated :: time
  fo_deleted :: "time option"

record File =
  f_id :: id
  f_org :: id
  f_folder :: id
  f_name :: string
  f_latest :: "id option"
  f_created_by :: id
  f_created :: time
  f_updated :: time
  f_deleted :: "time option"

record Version =
  v_id :: id
  v_file :: id
  v_size :: int
  v_checksum :: string
  v_mime :: string
  v_thumb :: "string option"
  v_created_by :: id
  v_created :: time

record VersionChunk =
  vc_version :: id
  vc_seq :: nat
  vc_hash :: string

datatype gc_state = Live | Doomed

record Chunk =
  c_hash :: string
  c_size :: int
  c_gc :: gc_state
  c_seen :: time
  c_doomed :: "time option"

datatype location_status = Committed | Degraded

record ChunkLocation =
  cl_hash :: string
  cl_node :: string
  cl_status :: location_status

datatype upload_status = StatusInProgress | StatusCompleted | StatusAborted

record Upload =
  u_id :: id
  u_org :: id
  u_folder :: id
  u_name :: string
  u_declared :: int
  u_mime :: string
  u_by :: id
  u_status :: upload_status
  u_idem :: "string option"
  u_target :: "id option"
  u_file :: "id option"
  u_version :: "id option"
  u_created :: time

datatype ChunkState = ChunkPending | ChunkPresigned | ChunkCommitted

record UploadChunk =
  uc_upload :: id
  uc_hash :: string
  uc_state :: ChunkState
  uc_etags :: "(string \<times> string) list"

record ShareLink =
  sl_id :: id
  sl_org :: id
  sl_file :: "id option"
  sl_folder :: "id option"
  sl_token :: string
  sl_by :: id
  sl_expires :: "time option"
  sl_created :: time

section \<open>The database\<close>

record db =
  users :: "User list"
  organizations :: "Organization list"
  memberships :: "Membership list"
  folders :: "Folder list"
  files :: "File list"
  file_versions :: "Version list"
  file_version_chunks :: "VersionChunk list"
  chunks :: "Chunk list"
  storage_nodes :: "string list"
  chunk_locations :: "ChunkLocation list"
  uploads :: "Upload list"
  upload_chunks :: "UploadChunk list"
  org_chunk_proofs :: "(id \<times> string) list"
  share_links :: "ShareLink list"
  share_link_files :: "(id \<times> id) list"

definition empty_db :: db where
  "empty_db = \<lparr>users = [], organizations = [], memberships = [], folders = [], files = [],
     file_versions = [], file_version_chunks = [], chunks = [], storage_nodes = [],
     chunk_locations = [], uploads = [], upload_chunks = [], org_chunk_proofs = [],
     share_links = [], share_link_files = []\<rparr>"

text \<open>Running a transaction: \<^verbatim>\<open>defer tx.Rollback\<close> undoes everything on an error.\<close>

type_synonym 'a dbop = "db \<Rightarrow> 'a res \<times> db"

definition transaction :: "(db \<Rightarrow> ('a \<times> db) res) \<Rightarrow> 'a dbop" where
  "transaction body d = (case body d of Inl e \<Rightarrow> (Inl e, d) | Inr (x, d') \<Rightarrow> (Inr x, d'))"

text \<open>A Go function returning \<^verbatim>\<open>(int64, error)\<close> that reports its progress even when it fails.\<close>

type_synonym purge_op = "db \<Rightarrow> (int \<times> goerr option) \<times> db"

section \<open>Lookups\<close>

definition has_user :: "db \<Rightarrow> id \<Rightarrow> bool" where
  "has_user d uid \<longleftrightarrow> uid \<in> us_id ` set (users d)"

definition has_org :: "db \<Rightarrow> id \<Rightarrow> bool" where
  "has_org d oid \<longleftrightarrow> oid \<in> o_id ` set (organizations d)"

definition has_folder :: "db \<Rightarrow> id \<Rightarrow> bool" where
  "has_folder d fid \<longleftrightarrow> fid \<in> fo_id ` set (folders d)"

definition has_file :: "db \<Rightarrow> id \<Rightarrow> bool" where
  "has_file d fid \<longleftrightarrow> fid \<in> f_id ` set (files d)"

definition has_version :: "db \<Rightarrow> id \<Rightarrow> bool" where
  "has_version d vid \<longleftrightarrow> vid \<in> v_id ` set (file_versions d)"

definition has_chunk :: "db \<Rightarrow> string \<Rightarrow> bool" where
  "has_chunk d h \<longleftrightarrow> h \<in> c_hash ` set (chunks d)"

definition referenced :: "db \<Rightarrow> string \<Rightarrow> bool" where
  "referenced d h \<longleftrightarrow> h \<in> vc_hash ` set (file_version_chunks d)"

section \<open>Storage accounting\<close>

text \<open>\<^verbatim>\<open>UPDATE organizations SET usage_bytes = usage_bytes + $1 WHERE id = $2\<close>, with the
  \<^verbatim>\<open>bigint\<close> range and the \<^verbatim>\<open>usage_bytes >= 0\<close> check.\<close>

definition add_usage :: "int \<Rightarrow> id \<Rightarrow> db \<Rightarrow> db res" where
  "add_usage delta oid d =
     (if \<exists>g \<in> set (organizations d). o_id g = oid \<and> \<not> in_int64 (o_usage g + delta)
        then Inl (PgError OutOfRange)
      else if \<exists>g \<in> set (organizations d). o_id g = oid \<and> o_usage g + delta < 0
        then Inl (PgError CheckViolation)
      else Inr (d\<lparr>organizations := update_where (\<lambda>g. o_id g = oid)
                    (\<lambda>g. g\<lparr>o_usage := o_usage g + delta\<rparr>) (organizations d)\<rparr>))"

text \<open>The bytes an organization stores, as migration 15 backfills them: every version of every
  file it has, trashed or not.\<close>

definition file_in_org :: "File list \<Rightarrow> id \<Rightarrow> id \<Rightarrow> bool" where
  "file_in_org fs oid fid \<longleftrightarrow> (\<exists>f \<in> set fs. f_id f = fid \<and> f_org f = oid)"

definition org_bytes :: "File list \<Rightarrow> Version list \<Rightarrow> id \<Rightarrow> int" where
  "org_bytes fs vs oid = sum_list (map v_size (filter (\<lambda>v. file_in_org fs oid (v_file v)) vs))"

definition file_bytes :: "Version list \<Rightarrow> id \<Rightarrow> int" where
  "file_bytes vs fid = sum_list (map v_size (filter (\<lambda>v. v_file v = fid) vs))"

section \<open>Cascading deletes\<close>

text \<open>
  Deleting \<^verbatim>\<open>files\<close> rows cascades to their versions, those versions' chunk lists, share links
  and bundle memberships, and sets the uploads' references to NULL; deleting \<^verbatim>\<open>share_links\<close>
  cascades to the bundle memberships. Files left behind whose \<^verbatim>\<open>latest_version_id\<close> would
  dangle make the statement fail.
\<close>

definition delete_shares :: "(ShareLink \<Rightarrow> bool) \<Rightarrow> db \<Rightarrow> db" where
  "delete_shares P d =
     (let gone = map sl_id (filter P (share_links d))
      in d\<lparr>share_links := delete_where P (share_links d),
           share_link_files := delete_where (\<lambda>(s, _). s \<in> set gone) (share_link_files d)\<rparr>)"

definition null_if :: "('a \<Rightarrow> bool) \<Rightarrow> 'a option \<Rightarrow> 'a option" where
  "null_if P x = (case x of None \<Rightarrow> None | Some y \<Rightarrow> if P y then None else Some y)"

definition delete_files :: "(File \<Rightarrow> bool) \<Rightarrow> db \<Rightarrow> db res" where
  "delete_files P d =
     (let gone = map f_id (filter P (files d));
          vgone = map v_id (filter (\<lambda>v. v_file v \<in> set gone) (file_versions d));
          d1 = delete_shares (\<lambda>l. \<exists>f \<in> set gone. sl_file l = Some f) d
      in if \<exists>f \<in> set (files d). \<not> P f \<and> (\<exists>v \<in> set vgone. f_latest f = Some v)
           then Inl (PgError ForeignKeyViolation)
         else Inr (d1\<lparr>files := delete_where P (files d),
              file_versions := delete_where (\<lambda>v. v_file v \<in> set gone) (file_versions d),
              file_version_chunks := delete_where (\<lambda>c. vc_version c \<in> set vgone) (file_version_chunks d),
              share_link_files := delete_where (\<lambda>(_, f). f \<in> set gone) (share_link_files d1),
              uploads := map (\<lambda>u. u\<lparr>u_file := null_if (\<lambda>x. x \<in> set gone) (u_file u),
                                    u_target := null_if (\<lambda>x. x \<in> set gone) (u_target u),
                                    u_version := null_if (\<lambda>x. x \<in> set vgone) (u_version u)\<rparr>) (uploads d)\<rparr>))"

text \<open>Deleting uploads cascades to their chunk attempts; deleting folders (the list \<open>S\<close> is
  closed under the parent cascade) to the uploads, shares and files in them.\<close>

definition delete_uploads :: "(Upload \<Rightarrow> bool) \<Rightarrow> db \<Rightarrow> db" where
  "delete_uploads P d =
     (let gone = map u_id (filter P (uploads d))
      in d\<lparr>uploads := delete_where P (uploads d),
           upload_chunks := delete_where (\<lambda>c. uc_upload c \<in> set gone) (upload_chunks d)\<rparr>)"

definition delete_folders :: "id list \<Rightarrow> db \<Rightarrow> db res" where
  "delete_folders S d =
     (case delete_files (\<lambda>f. f_folder f \<in> set S) d of
        Inl e \<Rightarrow> Inl e
      | Inr d1 \<Rightarrow>
          (let d2 = delete_shares (\<lambda>l. \<exists>f \<in> set S. sl_folder l = Some f)
                      (delete_uploads (\<lambda>u. u_folder u \<in> set S) d1)
           in Inr (d2\<lparr>folders := delete_where (\<lambda>f. fo_id f \<in> set S) (folders d2)\<rparr>)))"

section \<open>Integrity\<close>

text \<open>
  What the rows of a database satisfy: keys are unique; references point to rows of the same
  organization; the folder tree has no cycle; live siblings have distinct names; a file's
  latest version is one of its versions; sizes are not negative and \<^verbatim>\<open>usage_bytes\<close> is the
  number of bytes stored; every organization has its owner as a member.
\<close>

definition keys_ok :: "db \<Rightarrow> bool" where
  "keys_ok d \<longleftrightarrow> distinct (map o_id (organizations d)) \<and> distinct (map fo_id (folders d)) \<and>
     distinct (map f_id (files d)) \<and> distinct (map v_id (file_versions d)) \<and>
     distinct (map c_hash (chunks d)) \<and> distinct (map u_id (uploads d)) \<and>
     distinct (map (\<lambda>m. (m_org m, m_user m)) (memberships d))"

definition folders_ok :: "id set \<Rightarrow> Folder list \<Rightarrow> bool" where
  "folders_ok orgs fs \<longleftrightarrow>
     (\<forall>f \<in> set fs. fo_org f \<in> orgs \<and>
        (\<forall>p. fo_parent f = Some p \<longrightarrow> (\<exists>g \<in> set fs. fo_id g = p \<and> fo_org g = fo_org f)))"

definition parent_rel :: "Folder list \<Rightarrow> (id \<times> id) set" where
  "parent_rel fs = {(fo_id f, p) | f p. f \<in> set fs \<and> fo_parent f = Some p}"

definition tree_ok :: "Folder list \<Rightarrow> bool" where
  "tree_ok fs \<longleftrightarrow> acyclic (parent_rel fs)"

definition folder_in_org :: "Folder list \<Rightarrow> id \<Rightarrow> id \<Rightarrow> bool" where
  "folder_in_org fs oid fid \<longleftrightarrow> (\<exists>g \<in> set fs. fo_id g = fid \<and> fo_org g = oid)"

definition files_ok :: "Folder list \<Rightarrow> File list \<Rightarrow> Version list \<Rightarrow> bool" where
  "files_ok gs fs vs \<longleftrightarrow>
     (\<forall>f \<in> set fs. folder_in_org gs (f_org f) (f_folder f) \<and>
        (\<forall>v. f_latest f = Some v \<longrightarrow> (\<exists>w \<in> set vs. v_id w = v \<and> v_file w = f_id f)))"

definition versions_ok :: "File list \<Rightarrow> Version list \<Rightarrow> bool" where
  "versions_ok fs vs \<longleftrightarrow> (\<forall>v \<in> set vs. v_file v \<in> f_id ` set fs \<and> 0 \<le> v_size v)"

definition chunks_ok :: "Version list \<Rightarrow> VersionChunk list \<Rightarrow> Chunk list \<Rightarrow> bool" where
  "chunks_ok vs vcs cs \<longleftrightarrow>
     (\<forall>c \<in> set vcs. vc_version c \<in> v_id ` set vs \<and> vc_hash c \<in> c_hash ` set cs)"

definition uploads_ok :: "Folder list \<Rightarrow> File list \<Rightarrow> Upload list \<Rightarrow> bool" where
  "uploads_ok gs fs us \<longleftrightarrow>
     (\<forall>u \<in> set us. folder_in_org gs (u_org u) (u_folder u) \<and>
        (\<forall>t. u_target u = Some t \<longrightarrow> file_in_org fs (u_org u) t))"

definition usage_ok :: "Organization list \<Rightarrow> File list \<Rightarrow> Version list \<Rightarrow> bool" where
  "usage_ok os fs vs \<longleftrightarrow> (\<forall>g \<in> set os. o_usage g = org_bytes fs vs (o_id g) \<and> in_int64 (o_usage g))"

definition owners_ok :: "Organization list \<Rightarrow> Membership list \<Rightarrow> bool" where
  "owners_ok os ms \<longleftrightarrow>
     (\<forall>g \<in> set os. \<exists>m \<in> set ms. m_org m = o_id g \<and> m_user m = o_owner g \<and> m_role m = RoleOwner)"

text \<open>\<^verbatim>\<open>uq_folders_sibling_name\<close>: live folders are unique by organization, parent (the nil UUID
  for a root) and lower-cased name.\<close>

definition lower_char :: "char \<Rightarrow> char" where
  "lower_char c = (let n = of_char c :: nat in if 65 \<le> n \<and> n \<le> 90 then char_of (n + 32) else c)"

definition nil_uuid :: id where
  "nil_uuid = ''00000000-0000-0000-0000-000000000000''"

definition sibling_key :: "Folder \<Rightarrow> id \<times> id \<times> string" where
  "sibling_key f =
     (fo_org f, (case fo_parent f of None \<Rightarrow> nil_uuid | Some p \<Rightarrow> p), map lower_char (fo_name f))"

definition names_ok :: "Folder list \<Rightarrow> bool" where
  "names_ok fs \<longleftrightarrow> distinct (map sibling_key (filter (\<lambda>f. fo_deleted f = None) fs))"

text \<open>\<open>struct_inv\<close> is everything but the byte counter, which a transaction restores last.\<close>

definition struct_inv :: "db \<Rightarrow> bool" where
  "struct_inv d \<longleftrightarrow> keys_ok d \<and> folders_ok (o_id ` set (organizations d)) (folders d) \<and>
     tree_ok (folders d) \<and> names_ok (folders d) \<and>
     files_ok (folders d) (files d) (file_versions d) \<and>
     versions_ok (files d) (file_versions d) \<and>
     chunks_ok (file_versions d) (file_version_chunks d) (chunks d) \<and>
     uploads_ok (folders d) (files d) (uploads d) \<and>
     owners_ok (organizations d) (memberships d)"

definition db_inv :: "db \<Rightarrow> bool" where
  "db_inv d \<longleftrightarrow> struct_inv d \<and> usage_ok (organizations d) (files d) (file_versions d)"

definition preserves :: "(db \<Rightarrow> bool) \<Rightarrow> 'a dbop \<Rightarrow> bool" where
  "preserves I op \<longleftrightarrow> (\<forall>d. I d \<longrightarrow> I (snd (op d)))"

lemma preservesI: "(\<And>d. I d \<Longrightarrow> I (snd (op d))) \<Longrightarrow> preserves I op"
  by (simp add: preserves_def)

lemma preservesD: "preserves I op \<Longrightarrow> I d \<Longrightarrow> I (snd (op d))"
  by (simp add: preserves_def)

lemma preserves_transaction:
  assumes "\<And>d x d'. I d \<Longrightarrow> body d = Inr (x, d') \<Longrightarrow> I d'"
  shows "preserves I (transaction body)"
  using assms by (auto simp: preserves_def transaction_def split: sum.splits)

lemma db_inv_empty: "db_inv empty_db"
  by (simp add: db_inv_def struct_inv_def empty_db_def keys_ok_def folders_ok_def tree_ok_def
      parent_rel_def names_ok_def files_ok_def versions_ok_def chunks_ok_def uploads_ok_def
      usage_ok_def owners_ok_def acyclic_def)

text \<open>Destruction rules for the parts.\<close>

lemma struct_invD:
  assumes "struct_inv d"
  shows "keys_ok d" and "folders_ok (o_id ` set (organizations d)) (folders d)"
    and "tree_ok (folders d)" and "names_ok (folders d)"
    and "files_ok (folders d) (files d) (file_versions d)"
    and "versions_ok (files d) (file_versions d)"
    and "chunks_ok (file_versions d) (file_version_chunks d) (chunks d)"
    and "uploads_ok (folders d) (files d) (uploads d)"
    and "owners_ok (organizations d) (memberships d)"
  using assms by (simp_all add: struct_inv_def)

lemma db_invD:
  assumes "db_inv d"
  shows "struct_inv d" and "usage_ok (organizations d) (files d) (file_versions d)"
  using assms by (simp_all add: db_inv_def)

lemma keys_okD:
  assumes "keys_ok d"
  shows "distinct (map o_id (organizations d))" and "distinct (map fo_id (folders d))"
    and "distinct (map f_id (files d))" and "distinct (map v_id (file_versions d))"
    and "distinct (map c_hash (chunks d))" and "distinct (map u_id (uploads d))"
    and "distinct (map (\<lambda>m. (m_org m, m_user m)) (memberships d))"
  using assms by (simp_all add: keys_ok_def)

section \<open>Sums over versions\<close>

lemma org_bytes_append:
  "org_bytes fs (vs @ ws) oid = org_bytes fs vs oid + org_bytes fs ws oid"
  by (simp add: org_bytes_def)

lemma org_bytes_cong:
  assumes "\<And>v. v \<in> set vs \<Longrightarrow> file_in_org fs oid (v_file v) = file_in_org gs oid (v_file v)"
  shows "org_bytes fs vs oid = org_bytes gs vs oid"
  using assms by (auto simp: org_bytes_def intro!: sum_list_filter_cong)

lemma org_bytes_nonneg:
  assumes "versions_ok fs' vs"
  shows "0 \<le> org_bytes fs vs oid"
  using assms by (auto simp: org_bytes_def versions_ok_def intro!: sum_list_map_nonneg)

lemma file_in_org_unique:
  assumes "distinct (map f_id fs)" and "f \<in> set fs"
  shows "file_in_org fs oid (f_id f) \<longleftrightarrow> f_org f = oid"
  using assms key_unique [of f_id fs] by (auto simp: file_in_org_def)

text \<open>Summing a set of files' versions file by file, or over the versions at once.\<close>

lemma sum_file_bytes:
  assumes "distinct fids"
  shows "sum_list (map (file_bytes vs) fids) = sum_list (map v_size (filter (\<lambda>v. v_file v \<in> set fids) vs))"
  using assms
proof (induction fids)
  case (Cons x xs)
  have "sum_list (map v_size (filter (\<lambda>v. v_file v \<in> set (x # xs)) vs)) =
    sum_list (map v_size (filter (\<lambda>v. v_file v \<in> set (x # xs) \<and> v_file v = x) vs)) +
    sum_list (map v_size (filter (\<lambda>v. v_file v \<in> set (x # xs) \<and> v_file v \<noteq> x) vs))"
    by (rule sum_list_filter_split)
  also have "filter (\<lambda>v. v_file v \<in> set (x # xs) \<and> v_file v = x) vs = filter (\<lambda>v. v_file v = x) vs"
    by (rule filter_cong) auto
  also have "filter (\<lambda>v. v_file v \<in> set (x # xs) \<and> v_file v \<noteq> x) vs = filter (\<lambda>v. v_file v \<in> set xs) vs"
    using Cons.prems by (intro filter_cong) auto
  finally show ?case using Cons by (simp add: file_bytes_def)
qed (simp add: file_bytes_def)

lemma org_bytes_deleted:
  fixes gone :: "id list"
  shows "org_bytes fs vs oid =
    org_bytes fs (delete_where (\<lambda>v. v_file v \<in> set gone) vs) oid +
    sum_list (map v_size (filter (\<lambda>v. file_in_org fs oid (v_file v) \<and> v_file v \<in> set gone) vs))"
  unfolding org_bytes_def delete_where_def filter_filter
  using sum_list_filter_split [of v_size "\<lambda>v. file_in_org fs oid (v_file v)" vs "\<lambda>v. v_file v \<in> set gone"]
  by (simp add: conj_commute add.commute)

section \<open>Deleting files keeps the structure\<close>

lemma delete_shares_frame [simp, frames]:
  "organizations (delete_shares P d) = organizations d" "folders (delete_shares P d) = folders d"
  "memberships (delete_shares P d) = memberships d"
  "files (delete_shares P d) = files d" "file_versions (delete_shares P d) = file_versions d"
  "file_version_chunks (delete_shares P d) = file_version_chunks d"
  "chunks (delete_shares P d) = chunks d" "uploads (delete_shares P d) = uploads d"
  "upload_chunks (delete_shares P d) = upload_chunks d" "users (delete_shares P d) = users d"
  "chunk_locations (delete_shares P d) = chunk_locations d"
  "storage_nodes (delete_shares P d) = storage_nodes d"
  "org_chunk_proofs (delete_shares P d) = org_chunk_proofs d"
  by (simp_all add: delete_shares_def Let_def)

lemma struct_inv_shares [simp]: "struct_inv (delete_shares P d) = struct_inv d"
  by (simp add: struct_inv_def keys_ok_def)

lemma delete_files_frame:
  assumes "delete_files P d = Inr d'"
  shows "organizations d' = organizations d" and "folders d' = folders d"
    and "memberships d' = memberships d" and "chunks d' = chunks d"
    and "chunk_locations d' = chunk_locations d" and "storage_nodes d' = storage_nodes d"
    and "upload_chunks d' = upload_chunks d" and "org_chunk_proofs d' = org_chunk_proofs d"
    and "users d' = users d"
    and "files d' = delete_where P (files d)"
    and "file_versions d' =
      delete_where (\<lambda>v. v_file v \<in> set (map f_id (filter P (files d)))) (file_versions d)"
    and "set (file_version_chunks d') \<subseteq> set (file_version_chunks d)"
    and "map u_id (uploads d') = map u_id (uploads d)"
    and "map u_status (uploads d') = map u_status (uploads d)"
  using assms by (auto simp: delete_files_def Let_def comp_def split: if_splits)

lemma latest_not_deleted:
  assumes "struct_inv d" and "f \<in> set (files d)" and "\<not> P f" and "f_latest f = Some v"
  shows "v \<notin> set (map v_id (filter (\<lambda>v. v_file v \<in> set (map f_id (filter P (files d)))) (file_versions d)))"
proof
  note inv = struct_invD [OF assms(1)]
  note keys = keys_okD [OF inv(1)]
  assume "v \<in> set (map v_id (filter (\<lambda>v. v_file v \<in> set (map f_id (filter P (files d)))) (file_versions d)))"
  then obtain w g where w: "w \<in> set (file_versions d)" "v_id w = v" "v_file w = f_id g"
    and g: "g \<in> set (files d)" "P g" by auto
  obtain w' where w': "w' \<in> set (file_versions d)" "v_id w' = v" "v_file w' = f_id f"
    using inv(5) assms(2,4) by (auto simp: files_ok_def)
  have "w = w'" by (rule key_unique [OF keys(4)]) (use w w' in simp_all)
  then have "g = f" using key_unique [OF keys(3) g(1) assms(2)] w w' by simp
  with g(2) assms(3) show False by simp
qed

lemma delete_files_ok:
  assumes "struct_inv d"
  shows "\<exists>d'. delete_files P d = Inr d'"
proof -
  have "\<not> (\<exists>f \<in> set (files d). \<not> P f \<and>
    (\<exists>v \<in> set (map v_id (filter (\<lambda>v. v_file v \<in> set (map f_id (filter P (files d)))) (file_versions d))).
      f_latest f = Some v))"
    using latest_not_deleted [OF assms] by blast
  then show ?thesis unfolding delete_files_def Let_def by (simp only: if_False) blast
qed

text \<open>The versions and files that survive.\<close>

lemma surviving_version:
  assumes "distinct (map f_id fs)" and "f \<in> set fs" and "\<not> P f"
  shows "f_id f \<notin> set (map f_id (filter P fs))"
proof
  assume "f_id f \<in> set (map f_id (filter P fs))"
  then obtain g where "g \<in> set fs" and "P g" and "f_id g = f_id f" by auto
  then show False using key_unique [OF assms(1) _ assms(2)] assms(3) by blast
qed

lemma file_in_org_delete:
  assumes "fid \<notin> set (map f_id (filter P fs))"
  shows "file_in_org (delete_where P fs) oid fid \<longleftrightarrow> file_in_org fs oid fid"
  using assms by (auto simp: file_in_org_def image_iff)

lemma delete_files_files_ok:
  assumes "struct_inv d" and "delete_files P d = Inr d'"
  shows "files_ok (folders d') (files d') (file_versions d')"
proof -
  note inv = struct_invD [OF assms(1)] and fr = delete_files_frame [OF assms(2)]
  note keys = keys_okD [OF inv(1)]
  show ?thesis
    unfolding files_ok_def fr
  proof (intro ballI conjI allI impI)
    fix f assume "f \<in> set (delete_where P (files d))"
    then have f: "f \<in> set (files d)" "\<not> P f" by simp_all
    then show "folder_in_org (folders d) (f_org f) (f_folder f)"
      using inv(5) by (simp add: files_ok_def)
    fix v assume "f_latest f = Some v"
    then obtain w where "w \<in> set (file_versions d)" "v_id w = v" "v_file w = f_id f"
      using f inv(5) by (auto simp: files_ok_def)
    then show "\<exists>w \<in> set (delete_where (\<lambda>v. v_file v \<in> set (map f_id (filter P (files d)))) (file_versions d)).
        v_id w = v \<and> v_file w = f_id f"
      using surviving_version [OF keys(3), of f P] f
      by (intro bexI [of _ w]) simp_all
  qed
qed

lemma delete_files_versions_ok:
  assumes "struct_inv d" and "delete_files P d = Inr d'"
  shows "versions_ok (files d') (file_versions d')"
proof -
  note inv = struct_invD [OF assms(1)] and fr = delete_files_frame [OF assms(2)]
  show ?thesis unfolding versions_ok_def fr
  proof (intro ballI conjI)
    fix v assume "v \<in> set (delete_where (\<lambda>v. v_file v \<in> set (map f_id (filter P (files d)))) (file_versions d))"
    then have v: "v \<in> set (file_versions d)" "v_file v \<notin> set (map f_id (filter P (files d)))" by simp_all
    then show "0 \<le> v_size v" using inv(6) by (simp add: versions_ok_def)
    obtain f where "f \<in> set (files d)" "f_id f = v_file v"
      using v inv(6) by (auto simp: versions_ok_def)
    then show "v_file v \<in> f_id ` set (delete_where P (files d))" using v(2) by force
  qed
qed

lemma delete_files_chunks_ok:
  assumes "struct_inv d" and "delete_files P d = Inr d'"
  shows "chunks_ok (file_versions d') (file_version_chunks d') (chunks d')"
proof -
  note inv = struct_invD [OF assms(1)] and fr = delete_files_frame [OF assms(2)]
  have vcs: "file_version_chunks d' = delete_where (\<lambda>c. vc_version c \<in> set (map v_id
      (filter (\<lambda>v. v_file v \<in> set (map f_id (filter P (files d)))) (file_versions d)))) (file_version_chunks d)"
    using assms(2) by (auto simp: delete_files_def Let_def split: if_splits)
  show ?thesis
    using inv(7) unfolding chunks_ok_def fr vcs by fastforce
qed

lemma delete_files_uploads_ok:
  assumes "struct_inv d" and "delete_files P d = Inr d'"
  shows "uploads_ok (folders d') (files d') (uploads d')"
proof -
  note inv = struct_invD [OF assms(1)] and fr = delete_files_frame [OF assms(2)]
  have us: "uploads d' = map (\<lambda>u. u\<lparr>u_file := null_if (\<lambda>x. x \<in> set (map f_id (filter P (files d)))) (u_file u),
      u_target := null_if (\<lambda>x. x \<in> set (map f_id (filter P (files d)))) (u_target u),
      u_version := null_if (\<lambda>x. x \<in> set (map v_id
        (filter (\<lambda>v. v_file v \<in> set (map f_id (filter P (files d)))) (file_versions d)))) (u_version u)\<rparr>) (uploads d)"
    using assms(2) by (auto simp: delete_files_def Let_def split: if_splits)
  have target: "file_in_org (delete_where P (files d)) (u_org u) t"
    if "u \<in> set (uploads d)" and "null_if (\<lambda>x. x \<in> set (map f_id (filter P (files d)))) (u_target u) = Some t"
    for u t
  proof -
    have t: "u_target u = Some t" "t \<notin> set (map f_id (filter P (files d)))"
      using that(2) by (auto simp: null_if_def split: option.splits if_splits)
    then have "file_in_org (files d) (u_org u) t" using that(1) inv(8) by (simp add: uploads_ok_def)
    with t(2) show ?thesis by (auto simp: file_in_org_def)
  qed
  have fo: "folder_in_org (folders d) (u_org u) (u_folder u)" if "u \<in> set (uploads d)" for u
    using inv(8) that by (simp add: uploads_ok_def)
  show ?thesis
    unfolding uploads_ok_def fr us by (auto intro: target fo)
qed

lemma delete_files_struct:
  assumes "struct_inv d" and "delete_files P d = Inr d'"
  shows "struct_inv d'"
proof -
  note inv = struct_invD [OF assms(1)] and fr = delete_files_frame [OF assms(2)]
  have "keys_ok d'"
    using inv(1) unfolding keys_ok_def fr by (auto intro!: distinct_delete_where)
  moreover have "folders_ok (o_id ` set (organizations d')) (folders d')" "tree_ok (folders d')"
    "names_ok (folders d')" "owners_ok (organizations d') (memberships d')"
    unfolding fr by (rule inv)+
  ultimately show ?thesis
    unfolding struct_inv_def
    using delete_files_files_ok [OF assms] delete_files_versions_ok [OF assms]
      delete_files_chunks_ok [OF assms] delete_files_uploads_ok [OF assms] by blast
qed

text \<open>What an organization loses.\<close>

definition lost_bytes :: "(File \<Rightarrow> bool) \<Rightarrow> db \<Rightarrow> id \<Rightarrow> int" where
  "lost_bytes P d oid =
     sum_list (map (\<lambda>f. file_bytes (file_versions d) (f_id f)) (filter (\<lambda>f. P f \<and> f_org f = oid) (files d)))"

lemma lost_bytes_versions:
  assumes "struct_inv d"
  shows "lost_bytes P d oid = sum_list (map v_size
    (filter (\<lambda>v. file_in_org (files d) oid (v_file v) \<and> v_file v \<in> set (map f_id (filter P (files d)))) (file_versions d)))"
proof -
  note keys = keys_okD [OF struct_invD(1) [OF assms]]
  define fids where "fids = map f_id (filter (\<lambda>f. P f \<and> f_org f = oid) (files d))"
  have "distinct fids" using keys(3) by (simp add: fids_def distinct_map_filter)
  then have "lost_bytes P d oid = sum_list (map v_size (filter (\<lambda>v. v_file v \<in> set fids) (file_versions d)))"
    using sum_file_bytes [of fids "file_versions d"] by (simp add: lost_bytes_def fids_def comp_def)
  moreover have "v_file v \<in> set fids \<longleftrightarrow>
      file_in_org (files d) oid (v_file v) \<and> v_file v \<in> set (map f_id (filter P (files d)))" for v :: Version
    using key_unique [OF keys(3)] by (auto simp: fids_def file_in_org_def) blast
  ultimately show ?thesis by (simp only:)
qed

lemma lost_bytes_nonneg:
  assumes "versions_ok fs (file_versions d)"
  shows "0 \<le> lost_bytes P d oid"
  using assms unfolding lost_bytes_def file_bytes_def versions_ok_def
  by (auto intro!: sum_list_map_nonneg)

lemma delete_files_bytes:
  assumes "struct_inv d" and "delete_files P d = Inr d'"
  shows "org_bytes (files d') (file_versions d') oid =
    org_bytes (files d) (file_versions d) oid - lost_bytes P d oid"
proof -
  note fr = delete_files_frame [OF assms(2)]
  have "org_bytes (files d') (file_versions d') oid = org_bytes (files d) (file_versions d') oid"
    unfolding fr by (rule org_bytes_cong) (rule file_in_org_delete, simp)
  then show ?thesis
    using org_bytes_deleted [of "files d" "file_versions d" oid "map f_id (filter P (files d))"]
    by (simp only: fr lost_bytes_versions [OF assms(1)])
qed

section \<open>Moving the byte counter\<close>

lemma add_usage_frame:
  assumes "add_usage delta oid d = Inr d'"
  shows "d' = d\<lparr>organizations := update_where (\<lambda>g. o_id g = oid)
    (\<lambda>g. g\<lparr>o_usage := o_usage g + delta\<rparr>) (organizations d)\<rparr>"
  using assms by (auto simp: add_usage_def split: if_splits)

lemma struct_inv_orgs:
  assumes "struct_inv d" and "map (\<lambda>g. (o_id g, o_owner g)) gs = map (\<lambda>g. (o_id g, o_owner g)) (organizations d)"
  shows "struct_inv (d\<lparr>organizations := gs\<rparr>)"
proof -
  note inv = struct_invD [OF assms(1)]
  have ids: "map o_id gs = map o_id (organizations d)"
    using arg_cong [OF assms(2), of "map fst"] by (simp add: comp_def)
  have "owners_ok gs (memberships d)"
    unfolding owners_ok_def
  proof
    fix g assume "g \<in> set gs"
    then have "(o_id g, o_owner g) \<in> set (map (\<lambda>g. (o_id g, o_owner g)) (organizations d))"
      using assms(2) [symmetric] by auto
    then obtain g' where "g' \<in> set (organizations d)" "o_id g' = o_id g" "o_owner g' = o_owner g" by auto
    then show "\<exists>m \<in> set (memberships d). m_org m = o_id g \<and> m_user m = o_owner g \<and> m_role m = RoleOwner"
      using inv(9) by (metis owners_ok_def)
  qed
  moreover have "o_id ` set gs = o_id ` set (organizations d)" using ids by (metis list.set_map)
  ultimately show ?thesis
    using inv ids by (simp add: struct_inv_def keys_ok_def)
qed

lemma add_usage_struct:
  assumes "struct_inv d" and "add_usage delta oid d = Inr d'"
  shows "struct_inv d'"
  unfolding add_usage_frame [OF assms(2)]
  by (rule struct_inv_orgs [OF assms(1)]) (auto intro: map_update_where)

lemma usage_restored:
  assumes "db_inv d" and "struct_inv d1" and "organizations d1 = organizations d"
    and bytes: "\<And>x. org_bytes (files d1) (file_versions d1) x =
      org_bytes (files d) (file_versions d) x + (if x = oid then delta else 0)"
    and "add_usage delta oid d1 = Inr d2"
  shows "db_inv d2"
proof -
  have d2: "d2 = d1\<lparr>organizations := update_where (\<lambda>g. o_id g = oid)
      (\<lambda>g. g\<lparr>o_usage := o_usage g + delta\<rparr>) (organizations d)\<rparr>"
    using add_usage_frame [OF assms(5)] assms(3) by simp
  have range: "\<forall>g \<in> set (organizations d). o_id g = oid \<longrightarrow> in_int64 (o_usage g + delta)"
    using assms(5) assms(3) by (auto simp: add_usage_def split: if_splits)
  have "struct_inv d2" by (rule add_usage_struct [OF assms(2,5)])
  moreover have "usage_ok (organizations d2) (files d2) (file_versions d2)"
    using db_invD(2) [OF assms(1)] range by (auto simp: d2 usage_ok_def bytes)
  ultimately show ?thesis by (simp add: db_inv_def)
qed

lemma usage_unchanged:
  assumes "db_inv d" and "struct_inv d1" and "organizations d1 = organizations d"
    and "\<And>x. org_bytes (files d1) (file_versions d1) x = org_bytes (files d) (file_versions d) x"
  shows "db_inv d1"
  using assms by (auto simp: db_inv_def usage_ok_def)

text \<open>A decrement by what was deleted cannot fail.\<close>

lemma add_usage_freed:
  assumes "db_inv d" and "struct_inv d1" and "organizations d1 = organizations d"
    and "org_bytes (files d1) (file_versions d1) oid =
      org_bytes (files d) (file_versions d) oid - freed" and "0 \<le> freed"
  shows "\<exists>d2. add_usage (- freed) oid d1 = Inr d2"
proof -
  have "0 \<le> org_bytes (files d1) (file_versions d1) oid"
    by (rule org_bytes_nonneg [OF struct_invD(6) [OF assms(2)]])
  moreover have "\<forall>g \<in> set (organizations d). o_id g = oid \<longrightarrow>
      o_usage g = org_bytes (files d) (file_versions d) oid \<and> in_int64 (o_usage g)"
    using db_invD(2) [OF assms(1)] by (auto simp: usage_ok_def)
  ultimately have "\<forall>g \<in> set (organizations d). o_id g = oid \<longrightarrow>
      in_int64 (o_usage g + - freed) \<and> 0 \<le> o_usage g + - freed"
    using assms(4,5) by (auto simp: in_int64_def)
  then have "\<not> (\<exists>g \<in> set (organizations d1). o_id g = oid \<and> \<not> in_int64 (o_usage g + - freed))"
    and "\<not> (\<exists>g \<in> set (organizations d1). o_id g = oid \<and> o_usage g + - freed < 0)"
    unfolding assms(3) by force+
  then show ?thesis unfolding add_usage_def by (simp only: if_False) blast
qed

section \<open>Deleting a closed set of folders\<close>

definition child_closed :: "Folder list \<Rightarrow> id set \<Rightarrow> bool" where
  "child_closed fs S \<longleftrightarrow> (\<forall>f \<in> set fs. \<forall>p \<in> S. fo_parent f = Some p \<longrightarrow> fo_id f \<in> S)"

lemma parent_rel_mono: "set fs \<subseteq> set gs \<Longrightarrow> parent_rel fs \<subseteq> parent_rel gs"
  by (auto simp: parent_rel_def)

lemma tree_ok_subset: "set fs \<subseteq> set gs \<Longrightarrow> tree_ok gs \<Longrightarrow> tree_ok fs"
  unfolding tree_ok_def by (rule acyclic_subset [OF _ parent_rel_mono])

lemma names_ok_delete:
  assumes "names_ok fs"
  shows "names_ok (delete_where P fs)"
proof -
  have "filter (\<lambda>f. fo_deleted f = None) (delete_where P fs) =
      filter (\<lambda>f. \<not> P f) (filter (\<lambda>f. fo_deleted f = None) fs)"
    by (simp add: delete_where_def conj_commute)
  then show ?thesis using assms by (simp only: names_ok_def distinct_map_filter)
qed

lemma folder_in_org_delete:
  "fid \<notin> S \<Longrightarrow> folder_in_org (delete_where (\<lambda>f. fo_id f \<in> S) fs) oid fid = folder_in_org fs oid fid"
  by (auto simp: folder_in_org_def)

lemma folders_ok_delete:
  assumes "folders_ok orgs fs" and "child_closed fs S"
  shows "folders_ok orgs (delete_where (\<lambda>f. fo_id f \<in> S) fs)"
  using assms unfolding folders_ok_def child_closed_def by fastforce

lemma delete_uploads_frame [simp, frames]:
  "organizations (delete_uploads P d) = organizations d" "folders (delete_uploads P d) = folders d"
  "memberships (delete_uploads P d) = memberships d"
  "files (delete_uploads P d) = files d" "file_versions (delete_uploads P d) = file_versions d"
  "file_version_chunks (delete_uploads P d) = file_version_chunks d"
  "chunks (delete_uploads P d) = chunks d"
  "uploads (delete_uploads P d) = delete_where P (uploads d)"
  "chunk_locations (delete_uploads P d) = chunk_locations d"
  "org_chunk_proofs (delete_uploads P d) = org_chunk_proofs d"
  by (simp_all add: delete_uploads_def Let_def)

lemma delete_folders_frame:
  assumes "delete_folders S d = Inr d'" and "delete_files (\<lambda>f. f_folder f \<in> set S) d = Inr d1"
  shows "organizations d' = organizations d" and "memberships d' = memberships d"
    and "chunks d' = chunks d" and "chunk_locations d' = chunk_locations d"
    and "files d' = files d1" and "file_versions d' = file_versions d1"
    and "file_version_chunks d' = file_version_chunks d1"
    and "folders d' = delete_where (\<lambda>f. fo_id f \<in> set S) (folders d)"
    and "uploads d' = delete_where (\<lambda>u. u_folder u \<in> set S) (uploads d1)"
    and "org_chunk_proofs d' = org_chunk_proofs d"
  using assms delete_files_frame [OF assms(2)] by (auto simp: delete_folders_def Let_def)

lemma delete_folders_struct:
  assumes "struct_inv d" and "child_closed (folders d) (set S)" and "delete_folders S d = Inr d'"
  shows "struct_inv d'"
proof -
  obtain d1 where d1: "delete_files (\<lambda>f. f_folder f \<in> set S) d = Inr d1"
    using delete_files_ok [OF assms(1)] by blast
  note s1 = struct_invD [OF delete_files_struct [OF assms(1) d1]]
  note fr1 = delete_files_frame [OF d1] and fr = delete_folders_frame [OF assms(3) d1]
  have "keys_ok d'"
    using s1(1) unfolding keys_ok_def fr fr1 by (auto intro!: distinct_delete_where simp: fr1(13))
  moreover have "folders_ok (o_id ` set (organizations d')) (folders d')"
    using s1(2) assms(2) unfolding fr fr1 by (rule folders_ok_delete)
  moreover have "tree_ok (folders d')"
    using s1(3) unfolding fr fr1 by (rule tree_ok_subset [rotated]) auto
  moreover have "names_ok (folders d')" using s1(4) unfolding fr fr1 by (rule names_ok_delete)
  moreover have "files_ok (folders d') (files d') (file_versions d')"
    using s1(5) unfolding files_ok_def fr fr1 by (auto simp: folder_in_org_delete)
  moreover have "uploads_ok (folders d') (files d') (uploads d')"
    using s1(8) unfolding uploads_ok_def fr fr1 by (auto simp: folder_in_org_delete)
  moreover have "owners_ok (organizations d') (memberships d')" using s1(9) by (simp add: fr fr1)
  moreover have "versions_ok (files d') (file_versions d')" using s1(6) by (simp add: fr)
  moreover have "chunks_ok (file_versions d') (file_version_chunks d') (chunks d')"
    using s1(7) by (simp add: fr fr1)
  ultimately show ?thesis unfolding struct_inv_def by blast
qed

lemma delete_folders_ok:
  assumes "struct_inv d"
  shows "\<exists>d'. delete_folders S d = Inr d'"
  using delete_files_ok [OF assms, of "\<lambda>f. f_folder f \<in> set S"]
  by (auto simp: delete_folders_def Let_def)

lemma delete_folders_bytes:
  assumes "struct_inv d" and "delete_folders S d = Inr d'"
  shows "org_bytes (files d') (file_versions d') oid =
    org_bytes (files d) (file_versions d) oid - lost_bytes (\<lambda>f. f_folder f \<in> set S) d oid"
proof -
  obtain d1 where d1: "delete_files (\<lambda>f. f_folder f \<in> set S) d = Inr d1"
    using delete_files_ok [OF assms(1)] by blast
  show ?thesis
    using delete_files_bytes [OF assms(1) d1] by (simp add: delete_folders_frame [OF assms(2) d1])
qed

section \<open>Row updates that keep the structure\<close>

lemma folder_in_org_map:
  assumes "map (\<lambda>f. (fo_id f, fo_org f)) fs = map (\<lambda>f. (fo_id f, fo_org f)) gs"
  shows "folder_in_org fs = folder_in_org gs"
proof -
  have "folder_in_org hs oid fid \<longleftrightarrow> (fid, oid) \<in> set (map (\<lambda>f. (fo_id f, fo_org f)) hs)" for hs oid fid
    by (auto simp: folder_in_org_def)
  then show ?thesis by (simp only: fun_eq_iff assms simp_thms)
qed

lemma file_in_org_map:
  assumes "map (\<lambda>f. (f_id f, f_org f)) fs = map (\<lambda>f. (f_id f, f_org f)) gs"
  shows "file_in_org fs = file_in_org gs"
proof -
  have "file_in_org hs oid fid \<longleftrightarrow> (fid, oid) \<in> set (map (\<lambda>f. (f_id f, f_org f)) hs)" for hs oid fid
    by (auto simp: file_in_org_def)
  then show ?thesis by (simp only: fun_eq_iff assms simp_thms)
qed

lemma map_fst_eq: "map (\<lambda>x. (f x, g x)) xs = map (\<lambda>x. (f x, g x)) ys \<Longrightarrow> map f xs = map f ys"
  by (drule arg_cong [where f = "map fst"]) (simp add: comp_def)

lemma db_inv_folders:
  assumes "db_inv d"
    and same: "map (\<lambda>f. (fo_id f, fo_org f)) fs = map (\<lambda>f. (fo_id f, fo_org f)) (folders d)"
    and "folders_ok (o_id ` set (organizations d)) fs" and "tree_ok fs" and "names_ok fs"
  shows "db_inv (d\<lparr>folders := fs\<rparr>)"
  using assms map_fst_eq [OF same] folder_in_org_map [OF same]
  by (simp add: db_inv_def struct_inv_def keys_ok_def files_ok_def uploads_ok_def)

lemma db_inv_files:
  assumes "db_inv d"
    and same: "map (\<lambda>f. (f_id f, f_org f)) fs = map (\<lambda>f. (f_id f, f_org f)) (files d)"
    and "files_ok (folders d) fs (file_versions d)"
  shows "db_inv (d\<lparr>files := fs\<rparr>)"
proof -
  have "f_id ` set fs = f_id ` set (files d)" using map_fst_eq [OF same] by (metis list.set_map)
  moreover have "org_bytes fs = org_bytes (files d)"
    using file_in_org_map [OF same] by (simp add: fun_eq_iff org_bytes_def)
  ultimately show ?thesis
    using assms map_fst_eq [OF same] file_in_org_map [OF same]
    by (auto simp: db_inv_def struct_inv_def keys_ok_def versions_ok_def uploads_ok_def usage_ok_def)
qed

lemma files_ok_update:
  assumes "files_ok gs fs vs"
    and "\<And>f. f \<in> set fs \<Longrightarrow> P f \<Longrightarrow> f_id (u f) = f_id f \<and> f_org (u f) = f_org f \<and>
      folder_in_org gs (f_org f) (f_folder (u f)) \<and>
      (\<forall>v. f_latest (u f) = Some v \<longrightarrow> (\<exists>w \<in> set vs. v_id w = v \<and> v_file w = f_id f))"
  shows "files_ok gs (update_where P u fs) vs"
  using assms unfolding files_ok_def ball_update_where by simp

text \<open>Sibling names, row against row.\<close>

lemma names_ok_iff:
  assumes "distinct (map fo_id fs)"
  shows "names_ok fs \<longleftrightarrow>
    (\<forall>f \<in> set fs. \<forall>g \<in> set fs. fo_deleted f = None \<longrightarrow> fo_deleted g = None \<longrightarrow>
       sibling_key f = sibling_key g \<longrightarrow> fo_id f = fo_id g)"
proof -
  have "distinct fs" using assms by (simp add: distinct_map)
  moreover have "(fo_id f = fo_id g) = (f = g)" if "f \<in> set fs" and "g \<in> set fs" for f g
    using key_unique [OF assms that] by auto
  ultimately show ?thesis
    by (auto simp: names_ok_def distinct_map inj_on_def)
qed

section \<open>The trash-purging port\<close>

text \<open>
  \<^verbatim>\<open>gc.TrashPurger\<close>: what the garbage collector relies on when it purges expired trash. A purge
  of a sound database succeeds, keeps it sound, keeps every live file and folder, and does not
  touch the chunk tables (chunks are the collector's own business).
\<close>

locale trash_purger =
  fixes purge :: "time \<Rightarrow> duration \<Rightarrow> purge_op"
  assumes purge_inv: "db_inv d \<Longrightarrow> db_inv (snd (purge now olderThan d))"
    and purge_succeeds: "db_inv d \<Longrightarrow> snd (fst (purge now olderThan d)) = None"
    and purge_live_files: "db_inv d \<Longrightarrow> f \<in> set (files d) \<Longrightarrow> f_deleted f = None \<Longrightarrow>
      f \<in> set (files (snd (purge now olderThan d)))"
    and purge_live_folders: "db_inv d \<Longrightarrow> g \<in> set (folders d) \<Longrightarrow> fo_deleted g = None \<Longrightarrow>
      g \<in> set (folders (snd (purge now olderThan d)))"
    and purge_chunks: "db_inv d \<Longrightarrow> chunks (snd (purge now olderThan d)) = chunks d \<and>
      chunk_locations (snd (purge now olderThan d)) = chunk_locations d"
begin

text \<open>So a live file stays readable: its latest version is still there.\<close>

lemma purge_latest_version:
  assumes "db_inv d" and "f \<in> set (files d)" and "f_deleted f = None" and "f_latest f = Some v"
  shows "\<exists>w \<in> set (file_versions (snd (purge now olderThan d))). v_id w = v \<and> v_file w = f_id f"
  using struct_invD(5) [OF db_invD(1) [OF purge_inv [OF assms(1)]]]
    purge_live_files [OF assms(1-3)] assms(4) by (auto simp: files_ok_def)

end

end
