(* ===== verification/Http.thy ===== *)
theory Http
  imports Nimbus_Prelude
begin

text \<open>
  The HTTP answers of \<^verbatim>\<open>internal/platform/httpserver/errors.go\<close>: the fixed error codes with
  their status, and a response as a value. A handler or middleware of the model returns the
  response it writes, or the value it passes on.
\<close>

datatype ErrorCode =
    http_ErrInvalid | http_ErrUnauthorized | http_ErrForbidden | http_ErrNotFound
  | http_ErrConflict | http_ErrTooLarge | http_ErrQuotaFull | http_ErrRateLimited
  | http_ErrInternal

fun statusForCode :: "ErrorCode \<Rightarrow> nat" where
  "statusForCode http_ErrInvalid = 400"
| "statusForCode http_ErrUnauthorized = 401"
| "statusForCode http_ErrForbidden = 403"
| "statusForCode http_ErrNotFound = 404"
| "statusForCode http_ErrConflict = 409"
| "statusForCode http_ErrTooLarge = 413"
| "statusForCode http_ErrQuotaFull = 507"
| "statusForCode http_ErrRateLimited = 429"
| "statusForCode http_ErrInternal = 500"

text \<open>\<^verbatim>\<open>WriteError\<close> (code and message), \<^verbatim>\<open>WriteJSON\<close> (status and body) and the bare
  \<^verbatim>\<open>WriteHeader(204)\<close> and \<^verbatim>\<open>WriteHeader(202)\<close>.\<close>

datatype 'a response = WriteError ErrorCode string | WriteJSON nat 'a | NoContent | Accepted

fun status_code :: "'a response \<Rightarrow> nat" where
  "status_code (WriteError c _) = statusForCode c"
| "status_code (WriteJSON s _) = s"
| "status_code NoContent = 204"
| "status_code Accepted = 202"

text \<open>Codes and statuses correspond one to one, so a client can tell the codes apart by status.\<close>

lemma statusForCode_inj: "statusForCode c = statusForCode c' \<longleftrightarrow> c = c'"
  by (cases c; cases c'; simp)

end
