(* ===== verification/Org.thy ===== *)
theory Org
  imports Schema Http
begin

text \<open>
  Organizations and membership, \<^verbatim>\<open>internal/org\<close>: the repository's statements on
  \<^verbatim>\<open>organizations\<close> and \<^verbatim>\<open>memberships\<close>, the service with its three-tier role rules, the
  \<^verbatim>\<open>RequireRole\<close> middleware with its short-lived membership cache, and the HTTP handlers.
  The ports \<^verbatim>\<open>UserLookup\<close>, \<^verbatim>\<open>FolderCreator\<close> and \<^verbatim>\<open>UsageSources\<close> are arguments of the
  operations that use them; \<^verbatim>\<open>MembershipChecker\<close>, the port this component provides to the
  others, is the locale \<open>membership_checker\<close>.
\<close>

section \<open>Roles and rows\<close>

definition roleRank :: "Role \<Rightarrow> int" where
  "roleRank r = (case r of RoleOwner \<Rightarrow> 3 | RoleAdmin \<Rightarrow> 2 | RoleMember \<Rightarrow> 1)"

fun Role_string :: "Role \<Rightarrow> string" where
  "Role_string RoleOwner = ''owner''"
| "Role_string RoleAdmin = ''admin''"
| "Role_string RoleMember = ''member''"

record Member =
  mb_org :: id
  mb_user :: id
  mb_email :: string
  mb_role :: Role
  mb_created :: time

section \<open>The repository\<close>

definition CreateWithOwner :: "id \<Rightarrow> time \<Rightarrow> string \<Rightarrow> id \<Rightarrow> Organization dbop" where
  "CreateWithOwner uuid now name ownerUserID = transaction (\<lambda>d.
     if \<not> has_user d ownerUserID then Inl (PgError ForeignKeyViolation)
     else if has_org d uuid then Inl (PgError UniqueViolation)
     else
       (let g = \<lparr>o_id = uuid, o_name = name, o_owner = ownerUserID, o_created = now,
                 o_usage = 0, o_quota = None\<rparr>;
            d1 = d\<lparr>organizations := organizations d @ [g]\<rparr>
        in if \<exists>m \<in> set (memberships d1). m_org m = uuid \<and> m_user m = ownerUserID
             then Inl (PgError UniqueViolation)
           else Inr (g, d1\<lparr>memberships := memberships d1 @
                  [\<lparr>m_org = uuid, m_user = ownerUserID, m_role = RoleOwner, m_created = now\<rparr>]\<rparr>)))"

definition GetOrg :: "db \<Rightarrow> id \<Rightarrow> Organization res" where
  "GetOrg d orgID =
     (case List.find (\<lambda>g. o_id g = orgID) (organizations d) of
        None \<Rightarrow> Inl ErrNoRows
      | Some g \<Rightarrow> Inr g)"

definition ListForUser :: "db \<Rightarrow> id \<Rightarrow> Organization list" where
  "ListForUser d userID = sort_key o_created
     (concat (map (\<lambda>g. map (\<lambda>_. g)
        (filter (\<lambda>m. m_org m = o_id g \<and> m_user m = userID) (memberships d))) (organizations d)))"

definition GetMembership :: "db \<Rightarrow> id \<Rightarrow> id \<Rightarrow> Member res" where
  "GetMembership d orgID userID =
     (case List.find (\<lambda>m. m_org m = orgID \<and> m_user m = userID) (memberships d) of
        None \<Rightarrow> Inl (Org ErrNotMember)
      | Some m \<Rightarrow> Inr \<lparr>mb_org = m_org m, mb_user = m_user m, mb_email = [],
                       mb_role = m_role m, mb_created = m_created m\<rparr>)"

definition ListMembers :: "db \<Rightarrow> id \<Rightarrow> Member list" where
  "ListMembers d orgID = sort_key mb_created
     (concat (map (\<lambda>m. map (\<lambda>u. \<lparr>mb_org = m_org m, mb_user = m_user m, mb_email = us_email u,
                                mb_role = m_role m, mb_created = m_created m\<rparr>)
        (filter (\<lambda>u. us_id u = m_user m) (users d)))
       (filter (\<lambda>m. m_org m = orgID) (memberships d))))"

text \<open>Of the two constraint errors only the unique violation gets a name of its own.\<close>

definition AddMember :: "time \<Rightarrow> id \<Rightarrow> id \<Rightarrow> Role \<Rightarrow> unit dbop" where
  "AddMember now orgID userID role d =
     (if \<exists>m \<in> set (memberships d). m_org m = orgID \<and> m_user m = userID
        then (Inl (Org ErrAlreadyMember), d)
      else if \<not> has_org d orgID \<or> \<not> has_user d userID
        then (Inl (PgError ForeignKeyViolation), d)
      else (Inr (), d\<lparr>memberships := memberships d @
              [\<lparr>m_org = orgID, m_user = userID, m_role = role, m_created = now\<rparr>]\<rparr>))"

definition repo_RemoveMember :: "id \<Rightarrow> id \<Rightarrow> unit dbop" where
  "repo_RemoveMember orgID userID d =
     (Inr (), d\<lparr>memberships :=
        delete_where (\<lambda>m. m_org m = orgID \<and> m_user m = userID) (memberships d)\<rparr>)"

definition QuotaOverride :: "db \<Rightarrow> id \<Rightarrow> int option res" where
  "QuotaOverride d orgID =
     (case List.find (\<lambda>g. o_id g = orgID) (organizations d) of
        None \<Rightarrow> Inl (Org org_ErrNotFound)
      | Some g \<Rightarrow> Inr (o_quota g))"

text \<open>\<^verbatim>\<open>chk_orgs_quota_override_positive\<close> is checked for every row the statement updates.\<close>

definition SetQuotaOverride :: "id \<Rightarrow> int option \<Rightarrow> unit dbop" where
  "SetQuotaOverride orgID quotaBytes d =
     (if rows_affected (\<lambda>g. o_id g = orgID) (organizations d) = 0
        then (Inl (Org org_ErrNotFound), d)
      else if (case quotaBytes of None \<Rightarrow> False | Some q \<Rightarrow> q \<le> 0)
        then (Inl (PgError CheckViolation), d)
      else (Inr (), d\<lparr>organizations := update_where (\<lambda>g. o_id g = orgID)
              (\<lambda>g. g\<lparr>o_quota := quotaBytes\<rparr>) (organizations d)\<rparr>))"

section \<open>The service\<close>

definition defaultRootFolderName :: string where
  "defaultRootFolderName = ''Home''"

text \<open>The default folder is best effort: its failure is logged and dropped.\<close>

definition org_Create ::
  "(id \<Rightarrow> string \<Rightarrow> unit dbop) \<Rightarrow> id \<Rightarrow> time \<Rightarrow> string \<Rightarrow> id \<Rightarrow> Organization dbop" where
  "org_Create CreateRoot uuid now name ownerUserID d =
     (case CreateWithOwner uuid now name ownerUserID d of
        (Inl e, d1) \<Rightarrow> (Inl e, d1)
      | (Inr g, d1) \<Rightarrow> (Inr g, snd (CreateRoot (o_id g) defaultRootFolderName d1)))"

definition CreateForOwner ::
  "(id \<Rightarrow> string \<Rightarrow> unit dbop) \<Rightarrow> id \<Rightarrow> time \<Rightarrow> string \<Rightarrow> id \<Rightarrow> unit dbop" where
  "CreateForOwner CreateRoot uuid now name ownerUserID d =
     (case org_Create CreateRoot uuid now name ownerUserID d of
        (Inl e, d1) \<Rightarrow> (Inl e, d1)
      | (Inr _, d1) \<Rightarrow> (Inr (), d1))"

definition AddMemberByEmail ::
  "(db \<Rightarrow> string \<Rightarrow> id res) \<Rightarrow> time \<Rightarrow> id \<Rightarrow> string \<Rightarrow> Role \<Rightarrow> Role \<Rightarrow> Member dbop" where
  "AddMemberByEmail GetUserByEmail now orgID email role callerRole d =
     (if callerRole \<noteq> RoleOwner \<and> role \<noteq> RoleMember
        then (Inl (Org ErrElevatedRoleNeedsOwner), d)
      else case GetUserByEmail d email of
          Inl _ \<Rightarrow> (Inl (Org ErrTargetUserNotFound), d)
        | Inr userID \<Rightarrow>
            (case AddMember now orgID userID role d of
               (Inl e, d1) \<Rightarrow> (Inl e, d1)
             | (Inr _, d1) \<Rightarrow> (Inr \<lparr>mb_org = orgID, mb_user = userID, mb_email = email,
                                 mb_role = role, mb_created = 0\<rparr>, d1)))"

definition RemoveMember :: "id \<Rightarrow> id \<Rightarrow> Role \<Rightarrow> unit dbop" where
  "RemoveMember orgID userID callerRole d =
     (case GetOrg d orgID of
        Inl e \<Rightarrow> (Inl e, d)
      | Inr g \<Rightarrow>
          if o_owner g = userID then (Inl (Org ErrCannotRemoveOwner), d)
          else if callerRole \<noteq> RoleOwner then
            (case GetMembership d orgID userID of
               Inl e \<Rightarrow> (Inl e, d)
             | Inr target \<Rightarrow>
                 if mb_role target \<noteq> RoleMember then (Inl (Org ErrAdminRemovesMembersOnly), d)
                 else repo_RemoveMember orgID userID d)
          else repo_RemoveMember orgID userID d)"

definition EffectiveQuota :: "int \<Rightarrow> db \<Rightarrow> id \<Rightarrow> int res" where
  "EffectiveQuota quotaBytes d orgID =
     (case QuotaOverride d orgID of
        Inl e \<Rightarrow> Inl e
      | Inr (Some q) \<Rightarrow> Inr q
      | Inr None \<Rightarrow> Inr quotaBytes)"

section \<open>Membership as a port\<close>

text \<open>\<^verbatim>\<open>membershipAdapter.IsMember\<close> of \<^verbatim>\<open>cmd/api/adapters.go\<close>.\<close>

definition IsMember :: "db \<Rightarrow> id \<Rightarrow> id \<Rightarrow> bool res" where
  "IsMember d orgID userID =
     (case GetMembership d orgID userID of
        Inl e \<Rightarrow> if e = Org ErrNotMember then Inr False else Inl e
      | Inr _ \<Rightarrow> Inr True)"

definition is_member :: "db \<Rightarrow> id \<Rightarrow> id \<Rightarrow> bool" where
  "is_member d orgID userID \<longleftrightarrow> (\<exists>m \<in> set (memberships d). m_org m = orgID \<and> m_user m = userID)"

text \<open>
  What folder, file, upload and sharing rely on when they gate a resource on membership: an
  answer is the truth about the \<^verbatim>\<open>memberships\<close> table. \<open>gate\<close> is the part their \<^verbatim>\<open>RequireAccess\<close>
  middlewares share: load the resource, then check its organization.
\<close>

definition gate ::
  "(db \<Rightarrow> id \<Rightarrow> id \<Rightarrow> bool res) \<Rightarrow> goerr \<Rightarrow> string \<Rightarrow> string \<Rightarrow> 'r res \<Rightarrow> ('r \<Rightarrow> id) \<Rightarrow> db \<Rightarrow> id
     \<Rightarrow> unit response + 'r" where
  "gate isMember notFound notFoundMsg loadMsg loaded org_of d userID =
     (case loaded of
        Inl e \<Rightarrow> Inl (if e = notFound then WriteError http_ErrNotFound notFoundMsg
                      else WriteError http_ErrInternal loadMsg)
      | Inr x \<Rightarrow>
          (case isMember d (org_of x) userID of
             Inl _ \<Rightarrow> Inl (WriteError http_ErrInternal ''failed to check membership'')
           | Inr ok \<Rightarrow>
               if \<not> ok then Inl (WriteError http_ErrForbidden ''not a member of this organization'')
               else Inr x))"

locale membership_checker =
  fixes isMember :: "db \<Rightarrow> id \<Rightarrow> id \<Rightarrow> bool res"
  assumes truthful: "isMember d oid uid = Inr b \<Longrightarrow> b = is_member d oid uid"
begin

lemma gate_granted:
  assumes "gate isMember nf m1 m2 loaded org_of d uid = Inr x"
  shows "loaded = Inr x \<and> is_member d (org_of x) uid"
  using assms truthful by (auto simp: gate_def split: sum.splits if_splits)

lemma gate_outsider:
  assumes "loaded = Inr x" and "\<not> is_member d (org_of x) uid"
    and "isMember d (org_of x) uid = Inr b"
  shows "gate isMember nf m1 m2 loaded org_of d uid =
    Inl (WriteError http_ErrForbidden ''not a member of this organization'')"
  using assms truthful by (auto simp: gate_def)

end

lemma GetMembership_iff:
  "(\<exists>m. GetMembership d oid uid = Inr m) \<longleftrightarrow> is_member d oid uid"
  by (auto simp: GetMembership_def is_member_def find_None_iff split: option.splits
      dest: find_SomeD)

lemma GetMembership_error: "GetMembership d oid uid = Inl e \<Longrightarrow> e = Org ErrNotMember"
  by (auto simp: GetMembership_def split: option.splits)

lemma IsMember_eq: "IsMember d oid uid = Inr (is_member d oid uid)"
  using GetMembership_iff [of d oid uid] GetMembership_error [of d oid uid]
  by (auto simp: IsMember_def split: sum.splits)

interpretation org_members: membership_checker IsMember
  by unfold_locales (simp add: IsMember_eq)

section \<open>The membership cache and RequireRole\<close>

definition membershipCacheTTL :: duration where
  "membershipCacheTTL = 5 * 1000000000"

record membershipCacheEntry =
  ce_member :: Member
  ce_expiresAt :: time

text \<open>\<^verbatim>\<open>map[string]membershipCacheEntry\<close>, as an association list without duplicate keys.\<close>

type_synonym membershipCache = "(string \<times> membershipCacheEntry) list"

definition newMembershipCache :: membershipCache where
  "newMembershipCache = []"

definition cache_key :: "id \<Rightarrow> id \<Rightarrow> string" where
  "cache_key orgID userID = orgID @ '':'' @ userID"

definition cache_get :: "time \<Rightarrow> id \<Rightarrow> id \<Rightarrow> membershipCache \<Rightarrow> Member option" where
  "cache_get now orgID userID c =
     (case map_of c (cache_key orgID userID) of
        None \<Rightarrow> None
      | Some e \<Rightarrow> if now > ce_expiresAt e then None else Some (ce_member e))"

definition cache_set :: "time \<Rightarrow> id \<Rightarrow> id \<Rightarrow> Member \<Rightarrow> membershipCache \<Rightarrow> membershipCache" where
  "cache_set now orgID userID m c =
     (cache_key orgID userID, \<lparr>ce_member = m, ce_expiresAt = now + membershipCacheTTL\<rparr>) #
       delete_where (\<lambda>(k, _). k = cache_key orgID userID)
         (delete_where (\<lambda>(_, e). now > ce_expiresAt e) c)"

text \<open>One middleware instance: what it answers (a response, or the membership it puts in the
  context) and its cache afterwards.\<close>

definition RequireRole ::
  "Role \<Rightarrow> time \<Rightarrow> db \<Rightarrow> id \<Rightarrow> id \<Rightarrow> membershipCache \<Rightarrow> (unit response + Member) \<times> membershipCache" where
  "RequireRole minRole now d orgID userID c =
     (let check = (\<lambda>m. if roleRank (mb_role m) < roleRank minRole
                        then Inl (WriteError http_ErrForbidden (Role_string minRole @ '' role required''))
                        else Inr m)
      in case cache_get now orgID userID c of
           Some m \<Rightarrow> (check m, c)
         | None \<Rightarrow>
             (case GetMembership d orgID userID of
                Inl _ \<Rightarrow> (Inl (WriteError http_ErrForbidden ''not a member of this organization''), c)
              | Inr m \<Rightarrow> (check m, cache_set now orgID userID m c)))"

text \<open>A run of the instance over requests, each with the time and the database at which it is
  served.\<close>

fun RequireRole_run ::
  "Role \<Rightarrow> (time \<times> db \<times> id \<times> id) list \<Rightarrow> membershipCache \<Rightarrow> membershipCache" where
  "RequireRole_run minRole [] c = c"
| "RequireRole_run minRole ((now, d, orgID, userID) # rs) c =
     RequireRole_run minRole rs (snd (RequireRole minRole now d orgID userID c))"

section \<open>Handlers\<close>

text \<open>A request body is \<open>None\<close> when it does not decode.\<close>

definition handler_Create ::
  "(id \<Rightarrow> string \<Rightarrow> unit dbop) \<Rightarrow> id \<Rightarrow> time \<Rightarrow> string option \<Rightarrow> id \<Rightarrow> db
     \<Rightarrow> (id \<times> string \<times> id) response \<times> db" where
  "handler_Create CreateRoot uuid now req userID d =
     (case req of
        None \<Rightarrow> (WriteError http_ErrInvalid ''name is required'', d)
      | Some name \<Rightarrow>
          if name = '''' then (WriteError http_ErrInvalid ''name is required'', d)
          else case org_Create CreateRoot uuid now name userID d of
              (Inl _, d1) \<Rightarrow> (WriteError http_ErrInternal ''failed to create organization'', d1)
            | (Inr g, d1) \<Rightarrow> (WriteJSON 201 (o_id g, o_name g, o_owner g), d1))"

definition role_of_request :: "string \<Rightarrow> Role" where
  "role_of_request s =
     (if s = ''owner'' then RoleOwner else if s = ''admin'' then RoleAdmin else RoleMember)"

definition handler_AddMember ::
  "(db \<Rightarrow> string \<Rightarrow> id res) \<Rightarrow> time \<Rightarrow> id \<Rightarrow> (string \<times> string) option \<Rightarrow> Role \<Rightarrow> db
     \<Rightarrow> (id \<times> id \<times> string) response \<times> db" where
  "handler_AddMember GetUserByEmail now orgID req callerRole d =
     (case req of
        None \<Rightarrow> (WriteError http_ErrInvalid ''email is required'', d)
      | Some (email, role) \<Rightarrow>
          if email = '''' then (WriteError http_ErrInvalid ''email is required'', d)
          else case AddMemberByEmail GetUserByEmail now orgID email (role_of_request role) callerRole d of
              (Inl e, d1) \<Rightarrow>
                (if e = Org ErrTargetUserNotFound then WriteError http_ErrNotFound ''user not found''
                 else if e = Org ErrAlreadyMember then WriteError http_ErrConflict ''user is already a member''
                 else if e = Org ErrElevatedRoleNeedsOwner
                   then WriteError http_ErrForbidden ''only owners can grant elevated roles''
                 else WriteError http_ErrInternal ''failed to add member'', d1)
            | (Inr m, d1) \<Rightarrow> (WriteJSON 201 (orgID, mb_user m, Role_string (mb_role m)), d1))"

definition handler_RemoveMember :: "id \<Rightarrow> id \<Rightarrow> Role \<Rightarrow> db \<Rightarrow> unit response \<times> db" where
  "handler_RemoveMember orgID userID callerRole d =
     (case RemoveMember orgID userID callerRole d of
        (Inl e, d1) \<Rightarrow>
          (if e = Org ErrCannotRemoveOwner
             then WriteError http_ErrConflict ''cannot remove the organization owner''
           else if e = Org ErrAdminRemovesMembersOnly
             then WriteError http_ErrForbidden ''admins can only remove plain members''
           else WriteError http_ErrInternal ''failed to remove member'', d1)
      | (Inr _, d1) \<Rightarrow> (NoContent, d1))"

text \<open>\<^verbatim>\<open>SetQuota\<close>: an absent body clears the override, like an explicit null.\<close>

datatype quota_body = quota_absent | quota_malformed | quota_given "int option"

definition handler_SetQuota :: "id \<Rightarrow> quota_body \<Rightarrow> db \<Rightarrow> unit response \<times> db" where
  "handler_SetQuota orgID body d =
     (case (case body of quota_absent \<Rightarrow> Some None | quota_malformed \<Rightarrow> None | quota_given q \<Rightarrow> Some q) of
        None \<Rightarrow> (WriteError http_ErrInvalid ''malformed JSON body'', d)
      | Some q \<Rightarrow>
          if (case q of None \<Rightarrow> False | Some n \<Rightarrow> n \<le> 0)
            then (WriteError http_ErrInvalid
                    ''quota_bytes must be positive, or omitted/null to clear the override'', d)
          else case SetQuotaOverride orgID q d of
              (Inl e, d1) \<Rightarrow>
                (if e = Org org_ErrNotFound then WriteError http_ErrNotFound ''organization not found''
                 else WriteError http_ErrInternal ''failed to set organization quota'', d1)
            | (Inr _, d1) \<Rightarrow> (NoContent, d1))"

section \<open>The invariant\<close>

lemma org_bytes_unknown:
  assumes "struct_inv d" and "\<not> has_org d oid"
  shows "org_bytes (files d) (file_versions d) oid = 0"
proof -
  note inv = struct_invD [OF assms(1)]
  have "f_org f \<noteq> oid" if f: "f \<in> set (files d)" for f
  proof -
    obtain h where "h \<in> set (folders d)" and "fo_org h = f_org f"
      using inv(5) f by (auto simp: files_ok_def folder_in_org_def)
    then have "f_org f \<in> o_id ` set (organizations d)"
      using inv(2) unfolding folders_ok_def by metis
    then show ?thesis using assms(2) by (auto simp: has_org_def)
  qed
  then show ?thesis by (simp add: org_bytes_def file_in_org_def)
qed

lemma CreateWithOwner_inv [inv_intros]: "preserves db_inv (CreateWithOwner uuid now name owner)"
  unfolding CreateWithOwner_def
proof (rule preserves_transaction)
  fix d g d'
  assume inv: "db_inv d"
    and "(if \<not> has_user d owner then Inl (PgError ForeignKeyViolation)
     else if has_org d uuid then Inl (PgError UniqueViolation)
     else
       (let g = \<lparr>o_id = uuid, o_name = name, o_owner = owner, o_created = now,
                 o_usage = 0, o_quota = None\<rparr>;
            d1 = d\<lparr>organizations := organizations d @ [g]\<rparr>
        in if \<exists>m \<in> set (memberships d1). m_org m = uuid \<and> m_user m = owner
             then Inl (PgError UniqueViolation)
           else Inr (g, d1\<lparr>memberships := memberships d1 @
                  [\<lparr>m_org = uuid, m_user = owner, m_role = RoleOwner, m_created = now\<rparr>]\<rparr>))) = Inr (g, d')"
  then have new: "\<not> has_org d uuid" "\<not> (\<exists>m \<in> set (memberships d). m_org m = uuid \<and> m_user m = owner)"
    and d': "d' = d\<lparr>organizations := organizations d @ [g],
        memberships := memberships d @ [\<lparr>m_org = uuid, m_user = owner, m_role = RoleOwner, m_created = now\<rparr>]\<rparr>"
    and g: "g = \<lparr>o_id = uuid, o_name = name, o_owner = owner, o_created = now, o_usage = 0, o_quota = None\<rparr>"
    by (auto simp: Let_def split: if_splits)
  note s = db_invD(1) [OF inv]
  note i = struct_invD [OF s]
  have "keys_ok d'" using i(1) new by (auto simp: keys_ok_def d' g has_org_def)
  moreover have "folders_ok (o_id ` set (organizations d')) (folders d')"
    using i(2) by (auto simp: folders_ok_def d')
  moreover have "owners_ok (organizations d') (memberships d')"
    using i(9) by (auto simp: owners_ok_def d' g)
  ultimately have "struct_inv d'" using i by (simp add: struct_inv_def d')
  moreover have "usage_ok (organizations d') (files d') (file_versions d')"
    using db_invD(2) [OF inv] org_bytes_unknown [OF s new(1)]
    by (auto simp: usage_ok_def d' g in_int64_def)
  ultimately show "db_inv d'" by (simp add: db_inv_def)
qed

lemma db_inv_memberships:
  assumes "db_inv d" and "distinct (map (\<lambda>m. (m_org m, m_user m)) ms)"
    and "owners_ok (organizations d) ms"
  shows "db_inv (d\<lparr>memberships := ms\<rparr>)"
  using assms by (simp add: db_inv_def struct_inv_def keys_ok_def)

lemma AddMember_inv [inv_intros]: "preserves db_inv (AddMember now oid uid role)"
proof (rule preservesI)
  fix d assume inv: "db_inv d"
  note i = struct_invD [OF db_invD(1) [OF inv]]
  show "db_inv (snd (AddMember now oid uid role d))"
  proof (cases "\<exists>m \<in> set (memberships d). m_org m = oid \<and> m_user m = uid")
    case False
    then have "db_inv (d\<lparr>memberships := memberships d @
        [\<lparr>m_org = oid, m_user = uid, m_role = role, m_created = now\<rparr>]\<rparr>)"
      using keys_okD(7) [OF i(1)] i(9)
      by (intro db_inv_memberships [OF inv]) (auto simp: owners_ok_def)
    then show ?thesis using inv by (simp add: AddMember_def)
  qed (use inv in \<open>simp add: AddMember_def\<close>)
qed

lemma AddMemberByEmail_snd:
  "snd (AddMemberByEmail lookup now oid email role caller d) =
     (if caller \<noteq> RoleOwner \<and> role \<noteq> RoleMember then d
      else case lookup d email of Inl _ \<Rightarrow> d | Inr uid \<Rightarrow> snd (AddMember now oid uid role d))"
  by (simp add: AddMemberByEmail_def split: sum.splits prod.splits)

lemma AddMemberByEmail_inv [inv_intros]:
  "preserves db_inv (AddMemberByEmail lookup now oid email role caller)"
  by (rule preservesI) (simp add: AddMemberByEmail_snd preservesD [OF AddMember_inv] split: sum.split)

text \<open>The owner's own row is the one \<^verbatim>\<open>RemoveMember\<close> never deletes.\<close>

lemma RemoveMember_effect:
  "RemoveMember oid uid caller d = (Inl e, d') \<Longrightarrow> d' = d"
  "RemoveMember oid uid caller d = (Inr (), d') \<Longrightarrow>
     (\<exists>g. GetOrg d oid = Inr g \<and> o_owner g \<noteq> uid) \<and>
     d' = d\<lparr>memberships := delete_where (\<lambda>m. m_org m = oid \<and> m_user m = uid) (memberships d)\<rparr>"
  by (auto simp: RemoveMember_def repo_RemoveMember_def split: sum.splits if_splits)

lemma GetOrg_SomeD: "GetOrg d oid = Inr g \<Longrightarrow> g \<in> set (organizations d) \<and> o_id g = oid"
  by (auto simp: GetOrg_def split: option.splits dest: find_SomeD)

lemma RemoveMember_inv [inv_intros]: "preserves db_inv (RemoveMember oid uid caller)"
proof (rule preservesI)
  fix d assume inv: "db_inv d"
  note i = struct_invD [OF db_invD(1) [OF inv]]
  show "db_inv (snd (RemoveMember oid uid caller d))"
  proof (cases "RemoveMember oid uid caller d")
    case (Pair r d')
    show ?thesis
    proof (cases r)
      case (Inl e) then show ?thesis using RemoveMember_effect(1) [of oid uid caller d e d'] Pair inv by simp
    next
      case (Inr u)
      then obtain g where g: "GetOrg d oid = Inr g" "o_owner g \<noteq> uid"
        and d': "d' = d\<lparr>memberships := delete_where (\<lambda>m. m_org m = oid \<and> m_user m = uid) (memberships d)\<rparr>"
        using RemoveMember_effect(2) [of oid uid caller d d'] Pair by auto
      have "o_owner g' \<noteq> uid" if "g' \<in> set (organizations d)" "o_id g' = oid" for g'
        using key_unique [OF keys_okD(1) [OF i(1)] that(1)] GetOrg_SomeD [OF g(1)] that g(2) by metis
      then have "owners_ok (organizations d) (delete_where (\<lambda>m. m_org m = oid \<and> m_user m = uid) (memberships d))"
        using i(9) unfolding owners_ok_def by fastforce
      then have "db_inv d'"
        unfolding d' by (intro db_inv_memberships [OF inv] distinct_delete_where keys_okD(7) [OF i(1)])
      then show ?thesis using Pair by simp
    qed
  qed
qed

lemma SetQuotaOverride_inv [inv_intros]: "preserves db_inv (SetQuotaOverride oid q)"
proof (rule preservesI)
  fix d assume inv: "db_inv d"
  have "struct_inv (d\<lparr>organizations := update_where (\<lambda>g. o_id g = oid) (\<lambda>g. g\<lparr>o_quota := q\<rparr>) (organizations d)\<rparr>)"
    by (rule struct_inv_orgs [OF db_invD(1) [OF inv]]) (auto intro: map_update_where)
  then have "db_inv (d\<lparr>organizations := update_where (\<lambda>g. o_id g = oid) (\<lambda>g. g\<lparr>o_quota := q\<rparr>) (organizations d)\<rparr>)"
    using db_invD(2) [OF inv] by (auto simp: db_inv_def usage_ok_def)
  then show "db_inv (snd (SetQuotaOverride oid q d))"
    using inv by (simp add: SetQuotaOverride_def)
qed

section \<open>Delegated administration\<close>

definition elevated :: "db \<Rightarrow> Membership list" where
  "elevated d = filter (\<lambda>m. m_role m \<noteq> RoleMember) (memberships d)"

lemma elevated_delete:
  assumes "\<forall>m \<in> set (memberships d). P m \<longrightarrow> m_role m = RoleMember"
  shows "filter (\<lambda>m. m_role m \<noteq> RoleMember) (delete_where P (memberships d)) = elevated d"
  unfolding elevated_def delete_where_def filter_filter
  by (rule filter_cong) (use assms in auto)

lemma GetMembership_role:
  assumes "keys_ok d" and "GetMembership d oid uid = Inr t"
    and "m \<in> set (memberships d)" and "m_org m = oid" and "m_user m = uid"
  shows "m_role m = mb_role t"
proof -
  obtain m' where m': "m' \<in> set (memberships d)" "m_org m' = oid" "m_user m' = uid" "m_role m' = mb_role t"
    using assms(2) by (auto simp: GetMembership_def split: option.splits dest: find_SomeD)
  have "m = m'" by (rule key_unique [OF keys_okD(7) [OF assms(1)]]) (use assms m' in simp_all)
  then show ?thesis using m' by simp
qed

text \<open>C8: delegated administration cannot consolidate control. Whatever email, role, target
  and user directory are supplied, an admin or member acting through
  \<^verbatim>\<open>AddMemberByEmail\<close> or \<^verbatim>\<open>RemoveMember\<close> leaves the rows of all owners and admins, of every
  organization, exactly as they were: no elevated role is granted, none is taken away.\<close>

theorem admin_keeps_elevated:
  assumes "keys_ok d" and "caller \<noteq> RoleOwner"
  shows "elevated (snd (AddMemberByEmail lookup now oid email role caller d)) = elevated d \<and>
    elevated (snd (RemoveMember oid uid caller d)) = elevated d"
proof
  show "elevated (snd (AddMemberByEmail lookup now oid email role caller d)) = elevated d"
    using assms(2)
    by (simp add: AddMemberByEmail_snd AddMember_def elevated_def split: sum.split)
next
  have "elevated (snd (repo_RemoveMember oid uid d)) = elevated d"
    if "GetMembership d oid uid = Inr t" and "mb_role t = RoleMember" for t
    using GetMembership_role [OF assms(1) that(1)] that(2) elevated_delete
    by (simp add: repo_RemoveMember_def elevated_def [of "memberships_update _ _"])
  then show "elevated (snd (RemoveMember oid uid caller d)) = elevated d"
    using assms(2) by (simp add: RemoveMember_def split: sum.split)
qed

definition sample_org_db :: db where
  "sample_org_db = empty_db\<lparr>
     users := [\<lparr>us_id = ''u1'', us_email = ''a@x'', us_hash = [], us_admin = False, us_created = 0\<rparr>,
               \<lparr>us_id = ''u2'', us_email = ''b@x'', us_hash = [], us_admin = False, us_created = 0\<rparr>],
     organizations := [\<lparr>o_id = ''o1'', o_name = ''Acme'', o_owner = ''u1'', o_created = 0,
                        o_usage = 0, o_quota = None\<rparr>],
     memberships := [\<lparr>m_org = ''o1'', m_user = ''u1'', m_role = RoleOwner, m_created = 0\<rparr>,
                     \<lparr>m_org = ''o1'', m_user = ''u2'', m_role = RoleMember, m_created = 1\<rparr>]\<rparr>"

theorem admin_keeps_elevated_witness:
  "elevated (snd (RemoveMember ''o1'' ''u2'' RoleAdmin sample_org_db)) = elevated sample_org_db \<and>
   memberships (snd (RemoveMember ''o1'' ''u2'' RoleAdmin sample_org_db)) \<noteq> memberships sample_org_db"
proof
  show "elevated (snd (RemoveMember ''o1'' ''u2'' RoleAdmin sample_org_db)) = elevated sample_org_db"
    by (rule admin_keeps_elevated [THEN conjunct2]) (simp_all add: keys_ok_def sample_org_db_def empty_db_def)
  show "memberships (snd (RemoveMember ''o1'' ''u2'' RoleAdmin sample_org_db)) \<noteq> memberships sample_org_db"
    by (simp add: RemoveMember_def GetOrg_def GetMembership_def repo_RemoveMember_def sample_org_db_def
        empty_db_def)
qed

section \<open>Staleness of the membership cache\<close>

text \<open>Where a cache entry comes from: an earlier request of the run that read the table.\<close>

definition from_request ::
  "(time \<times> db \<times> id \<times> id) list \<Rightarrow> string \<Rightarrow> membershipCacheEntry \<Rightarrow> bool" where
  "from_request rs k e \<longleftrightarrow>
     (\<exists>(t, d, oid, uid) \<in> set rs. k = cache_key oid uid \<and> GetMembership d oid uid = Inr (ce_member e) \<and>
        ce_expiresAt e = t + membershipCacheTTL)"

lemma RequireRole_cache:
  assumes "(k, e) \<in> set (snd (RequireRole r t d oid uid c))"
  shows "(k, e) \<in> set c \<or> from_request [(t, d, oid, uid)] k e"
  using assms
  by (auto simp: RequireRole_def Let_def cache_set_def from_request_def split: option.splits sum.splits)

lemma RequireRole_run_cache:
  assumes "(k, e) \<in> set (RequireRole_run r rs c)"
  shows "(k, e) \<in> set c \<or> from_request rs k e"
  using assms
proof (induction rs arbitrary: c)
  case (Cons x rs)
  obtain t d oid uid where x: "x = (t, d, oid, uid)" by (cases x)
  then have "(k, e) \<in> set (snd (RequireRole r t d oid uid c)) \<or> from_request rs k e"
    using Cons by simp
  then show ?case
    using RequireRole_cache [of k e r t d oid uid c] by (auto simp: x from_request_def)
qed simp

lemma cache_key_inj:
  assumes "cache_key o1 u1 = cache_key o2 u2" and "CHR '':'' \<notin> set u1" and "CHR '':'' \<notin> set u2"
  shows "o1 = o2 \<and> u1 = u2"
proof -
  have tail: "takeWhile (\<lambda>c. c \<noteq> CHR '':'') (rev (cache_key x u)) = rev u"
    if "CHR '':'' \<notin> set u" for x u
  proof -
    have "takeWhile (\<lambda>c. c \<noteq> CHR '':'') (rev u @ CHR '':'' # rev x) = rev u"
      by (subst takeWhile_append2) (use that in auto)
    then show ?thesis by (simp add: cache_key_def)
  qed
  have "rev u1 = rev u2" using tail [OF assms(2), of o1] tail [OF assms(3), of o2] assms(1) by simp
  then show ?thesis using assms(1) by (simp add: cache_key_def)
qed

text \<open>A membership decision is at most \<^verbatim>\<open>membershipCacheTTL\<close> old. In any run of one
  \<^verbatim>\<open>RequireRole\<close> instance, over requests whose databases change arbitrarily between them, a
  request let through at time \<open>now\<close> with membership \<open>m\<close> is backed by a row that this request or
  an earlier one for the same organization and user read at most five seconds before, and the
  role of that row reaches the required one. So a removed member is shut out five seconds
  after the removal at the latest. User ids carry no colon, as UUIDs do not.\<close>

theorem RequireRole_staleness:
  assumes "\<forall>(t, d, oid, uid) \<in> set rs. CHR '':'' \<notin> set uid"
    and "CHR '':'' \<notin> set userID"
    and "fst (RequireRole minRole now d0 orgID userID (RequireRole_run minRole rs newMembershipCache)) = Inr m"
  shows "roleRank minRole \<le> roleRank (mb_role m) \<and>
    (\<exists>t d. (t, d, orgID, userID) \<in> set (rs @ [(now, d0, orgID, userID)]) \<and>
       GetMembership d orgID userID = Inr m \<and> now \<le> t + membershipCacheTTL)"
proof -
  let ?c = "RequireRole_run minRole rs newMembershipCache"
  have rank: "roleRank minRole \<le> roleRank (mb_role m)"
    using assms(3) by (auto simp: RequireRole_def Let_def split: option.splits sum.splits if_splits)
  show ?thesis
  proof (cases "cache_get now orgID userID ?c")
    case None
    then have "GetMembership d0 orgID userID = Inr m"
      using assms(3) by (auto simp: RequireRole_def Let_def split: sum.splits if_splits)
    moreover have "now \<le> now + membershipCacheTTL" by (simp add: membershipCacheTTL_def)
    ultimately show ?thesis using rank by fastforce
  next
    case (Some m')
    then have "m' = m" using assms(3) by (auto simp: RequireRole_def Let_def split: if_splits)
    with Some obtain e where e: "map_of ?c (cache_key orgID userID) = Some e" "ce_member e = m"
      "now \<le> ce_expiresAt e"
      by (auto simp: cache_get_def split: option.splits if_splits)
    then have "from_request rs (cache_key orgID userID) e"
      using RequireRole_run_cache [OF map_of_SomeD [OF e(1)]] by (simp add: newMembershipCache_def)
    then obtain t d oid uid where r: "(t, d, oid, uid) \<in> set rs" "cache_key orgID userID = cache_key oid uid"
      "GetMembership d oid uid = Inr m" "ce_expiresAt e = t + membershipCacheTTL"
      using e(2) by (auto simp: from_request_def)
    have "oid = orgID \<and> uid = userID"
      using cache_key_inj [OF r(2) assms(2)] assms(1) r(1) by blast
    then show ?thesis using r e(3) rank by auto
  qed
qed

theorem RequireRole_staleness_witness:
  "fst (RequireRole RoleMember 4000000000 empty_db ''o1'' ''u2''
     (RequireRole_run RoleMember [(0, sample_org_db, ''o1'', ''u2'')] newMembershipCache)) =
       Inr \<lparr>mb_org = ''o1'', mb_user = ''u2'', mb_email = [], mb_role = RoleMember, mb_created = 1\<rparr> \<and>
   (\<exists>t d. (t, d, ''o1'', ''u2'') \<in> set ([(0, sample_org_db, ''o1'', ''u2'')] @ [(4000000000, empty_db, ''o1'', ''u2'')]) \<and>
     4000000000 \<le> t + membershipCacheTTL)"
proof -
  have *: "fst (RequireRole RoleMember 4000000000 empty_db ''o1'' ''u2''
     (RequireRole_run RoleMember [(0, sample_org_db, ''o1'', ''u2'')] newMembershipCache)) =
       Inr \<lparr>mb_org = ''o1'', mb_user = ''u2'', mb_email = [], mb_role = RoleMember, mb_created = 1\<rparr>"
    by (simp add: RequireRole_def Let_def newMembershipCache_def cache_get_def cache_set_def cache_key_def
        GetMembership_def sample_org_db_def empty_db_def membershipCacheTTL_def roleRank_def)
  show ?thesis
    using * RequireRole_staleness [OF _ _ *] by auto
qed

end
