(* ===== verification/Folder_Tree.thy ===== *)
theory Folder_Tree
  imports Org
begin

text \<open>
  The folder tree, \<^verbatim>\<open>internal/folder\<close>: repository statements, service, middleware and
  handlers. The recursive queries (\<^verbatim>\<open>subtreeCTE\<close>, \<^verbatim>\<open>Ancestors\<close>) run level by level with
  a bound on the number of levels, one more than there are folders; a query that is not done
  by then is the result \<open>None\<close>, the error \<open>Diverges\<close> of the operation, and the lemmas show that on
  an acyclic table it never happens.
\<close>

section \<open>Recursive queries\<close>

text \<open>\<^verbatim>\<open>WITH RECURSIVE t AS (w UNION ALL step t)\<close>: every round keeps the working table and
  computes the next one from it, until it is empty.\<close>

fun cte :: "('a list \<Rightarrow> 'a list) \<Rightarrow> nat \<Rightarrow> 'a list \<Rightarrow> 'a list option" where
  "cte step 0 w = (if w = [] then Some [] else None)"
| "cte step (Suc n) w = (if w = [] then Some [] else map_option ((@) w) (cte step n (step w)))"

definition child_step :: "Folder list \<Rightarrow> id list \<Rightarrow> id list" where
  "child_step fs w = concat (map (\<lambda>s. map fo_id (filter (\<lambda>f. fo_parent f = Some s) fs)) w)"

definition subtreeCTE :: "Folder list \<Rightarrow> id \<Rightarrow> id list option" where
  "subtreeCTE fs fid =
     cte (child_step fs) (Suc (length fs)) (map fo_id (filter (\<lambda>f. fo_id f = fid) fs))"

definition parent_step :: "Folder list \<Rightarrow> Folder list \<Rightarrow> Folder list" where
  "parent_step fs w = concat (map (\<lambda>c. filter (\<lambda>f. fo_parent c = Some (fo_id f)) fs) w)"

section \<open>The repository\<close>

definition asConflictOrParentErr :: "goerr \<Rightarrow> goerr" where
  "asConflictOrParentErr e =
     (if e = PgError UniqueViolation then Folder ErrNameConflict
      else if e = PgError ForeignKeyViolation then Folder ErrInvalidParent
      else e)"

text \<open>The constraints of a written row: \<^verbatim>\<open>uq_folders_sibling_name\<close> against the other rows, then
  the foreign keys.\<close>

definition folder_row_check :: "db \<Rightarrow> Folder list \<Rightarrow> Folder \<Rightarrow> goerr option" where
  "folder_row_check d others f =
     (if fo_deleted f = None \<and> (\<exists>g \<in> set others. fo_deleted g = None \<and> sibling_key g = sibling_key f)
        then Some (PgError UniqueViolation)
      else if \<not> has_org d (fo_org f) \<or>
              (case fo_parent f of None \<Rightarrow> False | Some p \<Rightarrow> \<not> has_folder d p)
        then Some (PgError ForeignKeyViolation)
      else None)"

definition folder_repo_Create ::
  "id \<Rightarrow> time \<Rightarrow> id \<Rightarrow> id option \<Rightarrow> string \<Rightarrow> Folder dbop" where
  "folder_repo_Create uuid now orgID parentID name d =
     (let f = \<lparr>fo_id = uuid, fo_org = orgID, fo_parent = parentID, fo_name = name,
               fo_created = now, fo_updated = now, fo_deleted = None\<rparr>
      in if has_folder d uuid then (Inl (asConflictOrParentErr (PgError UniqueViolation)), d)
         else case folder_row_check d (folders d) f of
             Some e \<Rightarrow> (Inl (asConflictOrParentErr e), d)
           | None \<Rightarrow> (Inr f, d\<lparr>folders := folders d @ [f]\<rparr>))"

definition CreateRoot :: "id \<Rightarrow> time \<Rightarrow> id \<Rightarrow> string \<Rightarrow> unit dbop" where
  "CreateRoot uuid now orgID name d =
     (case folder_repo_Create uuid now orgID None name d of
        (Inl e, d1) \<Rightarrow> (Inl e, d1)
      | (Inr _, d1) \<Rightarrow> (Inr (), d1))"

definition scanFolder :: "Folder option \<Rightarrow> Folder res" where
  "scanFolder row = (case row of None \<Rightarrow> Inl (Folder folder_ErrNotFound) | Some f \<Rightarrow> Inr f)"

definition folder_Get :: "db \<Rightarrow> id \<Rightarrow> Folder res" where
  "folder_Get d fid = scanFolder (List.find (\<lambda>f. fo_id f = fid \<and> fo_deleted f = None) (folders d))"

definition folder_GetAny :: "db \<Rightarrow> id \<Rightarrow> Folder res" where
  "folder_GetAny d fid = scanFolder (List.find (\<lambda>f. fo_id f = fid) (folders d))"

text \<open>\<^verbatim>\<open>ORDER BY name\<close> orders by the database's collation, the sort key \<open>collate\<close>.\<close>

definition ListChildren :: "(string \<Rightarrow> 'k :: linorder) \<Rightarrow> db \<Rightarrow> id \<Rightarrow> id option \<Rightarrow> Folder list" where
  "ListChildren collate d orgID parentID = sort_key (\<lambda>f. collate (fo_name f))
     (filter (\<lambda>f. fo_org f = orgID \<and> fo_parent f = parentID \<and> fo_deleted f = None) (folders d))"

definition folder_ListTrashed :: "db \<Rightarrow> id \<Rightarrow> Folder list" where
  "folder_ListTrashed d orgID = sort_key (\<lambda>f. - fo_updated f)
     (filter (\<lambda>f. fo_org f = orgID \<and> fo_deleted f \<noteq> None) (folders d))"

text \<open>\<open>None\<close> for the name or the parent leaves it unchanged; \<open>Some None\<close> moves to the root.\<close>

definition updated_folder :: "time \<Rightarrow> string option \<Rightarrow> id option option \<Rightarrow> Folder \<Rightarrow> Folder" where
  "updated_folder now name parentID f =
     f\<lparr>fo_name := (case name of None \<Rightarrow> fo_name f | Some n \<Rightarrow> n),
       fo_parent := (case parentID of None \<Rightarrow> fo_parent f | Some p \<Rightarrow> p),
       fo_updated := now\<rparr>"

definition folder_repo_Update ::
  "time \<Rightarrow> id \<Rightarrow> string option \<Rightarrow> id option option \<Rightarrow> Folder dbop" where
  "folder_repo_Update now fid name parentID d =
     (if name = None \<and> parentID = None then (folder_Get d fid, d)
      else case List.find (\<lambda>f. fo_id f = fid \<and> fo_deleted f = None) (folders d) of
          None \<Rightarrow> (Inl (asConflictOrParentErr (Folder folder_ErrNotFound)), d)
        | Some f \<Rightarrow>
            (let f' = updated_folder now name parentID f
             in case folder_row_check d (filter (\<lambda>g. fo_id g \<noteq> fid) (folders d)) f' of
                  Some e \<Rightarrow> (Inl (asConflictOrParentErr e), d)
                | None \<Rightarrow> (Inr f', d\<lparr>folders := update_where (\<lambda>g. fo_id g = fid \<and> fo_deleted g = None)
                             (updated_folder now name parentID) (folders d)\<rparr>)))"

record PathEntry =
  pe_id :: id
  pe_name :: string

text \<open>The chain by depth, deepest ancestor (the root) first.\<close>

definition Ancestors :: "db \<Rightarrow> id \<Rightarrow> PathEntry list res" where
  "Ancestors d fid =
     (case cte (parent_step (folders d)) (Suc (length (folders d)))
             (filter (\<lambda>f. fo_id f = fid) (folders d)) of
        None \<Rightarrow> Inl Diverges
      | Some chain \<Rightarrow> Inr (map (\<lambda>f. \<lparr>pe_id = fo_id f, pe_name = fo_name f\<rparr>) (rev chain)))"

definition IsSelfOrDescendant :: "db \<Rightarrow> id \<Rightarrow> id \<Rightarrow> bool res" where
  "IsSelfOrDescendant d folderID candidateID =
     (case subtreeCTE (folders d) folderID of
        None \<Rightarrow> Inl Diverges
      | Some S \<Rightarrow> Inr (candidateID \<in> set S))"

text \<open>Trashing and restoring a subtree. The restored rows re-enter the sibling-name index, which
  can refuse them; the error is the driver's own.\<close>

definition trash_folder :: "time \<Rightarrow> Folder \<Rightarrow> Folder" where
  "trash_folder now f = f\<lparr>fo_deleted := Some now, fo_updated := now\<rparr>"

definition trash_file :: "time \<Rightarrow> File \<Rightarrow> File" where
  "trash_file now f = f\<lparr>f_deleted := Some now, f_updated := now\<rparr>"

definition restore_folder :: "time \<Rightarrow> Folder \<Rightarrow> Folder" where
  "restore_folder now f = f\<lparr>fo_deleted := None, fo_updated := now\<rparr>"

definition restore_file :: "time \<Rightarrow> File \<Rightarrow> File" where
  "restore_file now f = f\<lparr>f_deleted := None, f_updated := now\<rparr>"

definition SoftDeleteCascade :: "time \<Rightarrow> id \<Rightarrow> unit dbop" where
  "SoftDeleteCascade now folderID = transaction (\<lambda>d.
     case subtreeCTE (folders d) folderID of
       None \<Rightarrow> Inl Diverges
     | Some S \<Rightarrow>
         (let d1 = d\<lparr>folders := update_where (\<lambda>f. fo_id f \<in> set S \<and> fo_deleted f = None)
                       (trash_folder now) (folders d)\<rparr>
          in case subtreeCTE (folders d1) folderID of
               None \<Rightarrow> Inl Diverges
             | Some S1 \<Rightarrow> Inr ((), d1\<lparr>files := update_where (\<lambda>f. f_folder f \<in> set S1 \<and> f_deleted f = None)
                            (trash_file now) (files d1)\<rparr>)))"

definition RestoreCascade :: "time \<Rightarrow> id \<Rightarrow> unit dbop" where
  "RestoreCascade now folderID = transaction (\<lambda>d.
     case subtreeCTE (folders d) folderID of
       None \<Rightarrow> Inl Diverges
     | Some S \<Rightarrow>
         (let d1 = d\<lparr>folders := update_where (\<lambda>f. fo_id f \<in> set S \<and> fo_deleted f \<noteq> None)
                       (restore_folder now) (folders d)\<rparr>
          in if \<not> names_ok (folders d1) then Inl (PgError UniqueViolation)
             else case subtreeCTE (folders d1) folderID of
               None \<Rightarrow> Inl Diverges
             | Some S1 \<Rightarrow> Inr ((), d1\<lparr>files := update_where (\<lambda>f. f_folder f \<in> set S1 \<and> f_deleted f \<noteq> None)
                            (restore_file now) (files d1)\<rparr>)))"

text \<open>Purging: the guard, the bytes the subtree holds (a \<^verbatim>\<open>numeric\<close> sum that must fit the
  \<^verbatim>\<open>int64\<close> it is scanned into), the cascading delete and the counter.\<close>

definition purge_guard :: "db \<Rightarrow> id list \<Rightarrow> bool" where
  "purge_guard d S \<longleftrightarrow>
     \<not> (\<exists>f \<in> set (folders d). fo_id f \<in> set S \<and> fo_deleted f = None) \<and>
     \<not> (\<exists>f \<in> set (files d). f_folder f \<in> set S \<and> f_deleted f = None)"

definition subtree_bytes :: "db \<Rightarrow> id list \<Rightarrow> int" where
  "subtree_bytes d S = sum_list (map (\<lambda>f. file_bytes (file_versions d) (f_id f))
     (filter (\<lambda>f. f_folder f \<in> set S) (files d)))"

definition purgeOneFolderCascade :: "id \<Rightarrow> int dbop" where
  "purgeOneFolderCascade fid = transaction (\<lambda>d.
     case subtreeCTE (folders d) fid of
       None \<Rightarrow> Inl Diverges
     | Some S \<Rightarrow>
         (case List.find (\<lambda>f. fo_id f = fid \<and> purge_guard d S) (folders d) of
            None \<Rightarrow> Inr (0, d)
          | Some fo \<Rightarrow>
              (let freedBytes = subtree_bytes d S
               in if \<not> in_int64 freedBytes then Inl IOError
                  else case delete_folders S d of
                      Inl e \<Rightarrow> Inl e
                    | Inr d1 \<Rightarrow>
                        (let n = int (rows_affected (\<lambda>f. fo_id f = fid \<and> purge_guard d S) (folders d))
                         in if n > 0 \<and> freedBytes > 0
                              then (case add_usage (- freedBytes) (fo_org fo) d1 of
                                      Inl e \<Rightarrow> Inl e
                                    | Inr d2 \<Rightarrow> Inr (n, d2))
                            else Inr (n, d1)))))"


fun purge_folders_loop :: "id list \<Rightarrow> int \<Rightarrow> purge_op" where
  "purge_folders_loop [] purged d = ((purged, None), d)"
| "purge_folders_loop (fid # fids) purged d =
     (case purgeOneFolderCascade fid d of
        (Inl e, d1) \<Rightarrow> ((purged, Some e), d1)
      | (Inr n, d1) \<Rightarrow> purge_folders_loop fids (purged + n) d1)"

definition folder_PurgeExpiredTrash :: "time \<Rightarrow> duration \<Rightarrow> purge_op" where
  "folder_PurgeExpiredTrash now olderThan d =
     purge_folders_loop
       (map fo_id (filter (\<lambda>f. case fo_deleted f of None \<Rightarrow> False | Some t \<Rightarrow> t < now - olderThan)
          (folders d))) 0 d"

section \<open>The service\<close>

definition folder_Create :: "id \<Rightarrow> time \<Rightarrow> id \<Rightarrow> id option \<Rightarrow> string \<Rightarrow> Folder dbop" where
  "folder_Create uuid now orgID parentID name d =
     (case parentID of
        None \<Rightarrow> folder_repo_Create uuid now orgID parentID name d
      | Some p \<Rightarrow>
          (case folder_Get d p of
             Inl _ \<Rightarrow> (Inl (Folder ErrInvalidParent), d)
           | Inr parent \<Rightarrow>
               if fo_org parent \<noteq> orgID then (Inl (Folder ErrInvalidParent), d)
               else folder_repo_Create uuid now orgID parentID name d))"

text \<open>The checks of \<^verbatim>\<open>Update\<close>, apart from the write they precede.\<close>

definition move_check :: "db \<Rightarrow> Folder \<Rightarrow> id option option \<Rightarrow> goerr option" where
  "move_check d current newParentID =
     (case newParentID of
        Some (Some target) \<Rightarrow>
          if target = fo_id current then Some (Folder ErrCyclicMove)
          else (case folder_Get d target of
                  Inl _ \<Rightarrow> Some (Folder ErrInvalidParent)
                | Inr parent \<Rightarrow>
                    if fo_org parent \<noteq> fo_org current then Some (Folder ErrInvalidParent)
                    else (case IsSelfOrDescendant d (fo_id current) target of
                            Inl e \<Rightarrow> Some e
                          | Inr isDescendant \<Rightarrow>
                              if isDescendant then Some (Folder ErrCyclicMove) else None))
      | _ \<Rightarrow> None)"

definition folder_Update ::
  "time \<Rightarrow> Folder \<Rightarrow> string option \<Rightarrow> id option option \<Rightarrow> Folder dbop" where
  "folder_Update now current name newParentID d =
     (case move_check d current newParentID of
        Some e \<Rightarrow> (Inl e, d)
      | None \<Rightarrow> folder_repo_Update now (fo_id current) name newParentID d)"

section \<open>Middleware, adapters and handlers\<close>

definition folder_RequireAccess ::
  "(db \<Rightarrow> id \<Rightarrow> id \<Rightarrow> bool res) \<Rightarrow> db \<Rightarrow> id \<Rightarrow> id \<Rightarrow> unit response + Folder" where
  "folder_RequireAccess isMember d folderID userID =
     gate isMember (Folder folder_ErrNotFound) ''folder not found'' ''failed to load folder''
       (folder_Get d folderID) fo_org d userID"

text \<open>\<^verbatim>\<open>folderOrgLookupAdapter.OrgIDOf\<close> of \<^verbatim>\<open>cmd/api/adapters.go\<close>.\<close>

definition OrgIDOf :: "db \<Rightarrow> id \<Rightarrow> id res" where
  "OrgIDOf d folderID = (case folder_Get d folderID of Inl e \<Rightarrow> Inl e | Inr f \<Rightarrow> Inr (fo_org f))"

definition writeFolderError :: "goerr \<Rightarrow> 'a response" where
  "writeFolderError e =
     (if e = Folder folder_ErrNotFound then WriteError http_ErrNotFound ''folder not found''
      else if e = Folder ErrNameConflict
        then WriteError http_ErrConflict ''a folder with this name already exists here''
      else if e = Folder ErrInvalidParent then WriteError http_ErrInvalid ''invalid parent folder''
      else if e = Folder ErrCyclicMove
        then WriteError http_ErrInvalid ''cannot move a folder into itself or a descendant''
      else WriteError http_ErrInternal ''folder operation failed'')"

text \<open>A member of a raw JSON object: absent, present with a value that does not decode, or
  decoded.\<close>

datatype 'a json_field = field_absent | field_bad | field_value 'a

definition folder_handler_Update ::
  "time \<Rightarrow> Folder \<Rightarrow> (string json_field \<times> id option json_field) option \<Rightarrow> db
     \<Rightarrow> Folder response \<times> db" where
  "folder_handler_Update now f raw d =
     (case raw of
        None \<Rightarrow> (WriteError http_ErrInvalid ''malformed JSON body'', d)
      | Some (nameField, parentField) \<Rightarrow>
          (case nameField of
             field_bad \<Rightarrow> (WriteError http_ErrInvalid ''name must be a non-empty string'', d)
           | _ \<Rightarrow>
             (let namePtr = (case nameField of field_value n \<Rightarrow> Some n | _ \<Rightarrow> None)
              in if namePtr = Some '''' then (WriteError http_ErrInvalid ''name must be a non-empty string'', d)
                 else case parentField of
                     field_bad \<Rightarrow> (WriteError http_ErrInvalid ''parent_id must be a string or null'', d)
                   | _ \<Rightarrow>
                     (case folder_Update now f namePtr
                             (case parentField of field_value p \<Rightarrow> Some p | _ \<Rightarrow> None) d of
                        (Inl e, d1) \<Rightarrow> (writeFolderError e, d1)
                      | (Inr f', d1) \<Rightarrow> (WriteJSON 200 f', d1)))))"

definition folder_handler_Create ::
  "id \<Rightarrow> time \<Rightarrow> id \<Rightarrow> (id option \<times> string) option \<Rightarrow> db \<Rightarrow> Folder response \<times> db" where
  "folder_handler_Create uuid now orgID req d =
     (case req of
        None \<Rightarrow> (WriteError http_ErrInvalid ''name is required'', d)
      | Some (parentID, name) \<Rightarrow>
          if name = '''' then (WriteError http_ErrInvalid ''name is required'', d)
          else case folder_Create uuid now orgID parentID name d of
              (Inl e, d1) \<Rightarrow> (writeFolderError e, d1)
            | (Inr f, d1) \<Rightarrow> (WriteJSON 201 f, d1))"

definition folder_handler_Delete :: "time \<Rightarrow> Folder \<Rightarrow> db \<Rightarrow> Folder response \<times> db" where
  "folder_handler_Delete now f d =
     (case SoftDeleteCascade now (fo_id f) d of
        (Inl _, d1) \<Rightarrow> (WriteError http_ErrInternal ''failed to trash folder'', d1)
      | (Inr _, d1) \<Rightarrow> (NoContent, d1))"

definition folder_handler_Restore ::
  "(db \<Rightarrow> id \<Rightarrow> id \<Rightarrow> bool res) \<Rightarrow> time \<Rightarrow> id \<Rightarrow> id \<Rightarrow> db \<Rightarrow> Folder response \<times> db" where
  "folder_handler_Restore isMember now folderID userID d =
     (case folder_GetAny d folderID of
        Inl _ \<Rightarrow> (WriteError http_ErrNotFound ''folder not found'', d)
      | Inr f \<Rightarrow>
          (case isMember d (fo_org f) userID of
             Inl _ \<Rightarrow> (WriteError http_ErrInternal ''failed to check membership'', d)
           | Inr ok \<Rightarrow>
               if \<not> ok then (WriteError http_ErrForbidden ''not a member of this organization'', d)
               else case RestoreCascade now (fo_id f) d of
                   (Inl _, d1) \<Rightarrow> (WriteError http_ErrInternal ''failed to restore folder'', d1)
                 | (Inr _, d1) \<Rightarrow>
                     (case folder_GetAny d1 folderID of
                        Inl _ \<Rightarrow> (WriteError http_ErrInternal ''restored but failed to reload'', d1)
                      | Inr restored \<Rightarrow> (WriteJSON 200 restored, d1))))"

section \<open>Recursive queries compute the tree relation\<close>

lemma UN_split_nat: "(\<Union>k. A k) = A 0 \<union> (\<Union>k. A (Suc k))"
proof -
  have "x \<in> A 0 \<union> (\<Union>k. A (Suc k))" if "x \<in> A k" for x k using that by (cases k) auto
  then show ?thesis by blast
qed

lemma cte_Some:
  assumes "cte step n w = Some xs" and "step [] = []"
  shows "set xs = (\<Union>k. set ((step ^^ k) w))"
  using assms(1)
proof (induction n arbitrary: w xs)
  case 0
  then have "w = []" and "xs = []" by (auto split: if_splits)
  moreover have "(step ^^ k) [] = []" for k by (induction k) (simp_all add: assms(2))
  ultimately show ?case by simp
next
  case (Suc n)
  show ?case
  proof (cases "w = []")
    case True
    moreover have "(step ^^ k) [] = []" for k by (induction k) (simp_all add: assms(2))
    ultimately show ?thesis using Suc.prems by simp
  next
    case False
    then obtain ys where ys: "cte step n (step w) = Some ys" "xs = w @ ys" using Suc.prems by auto
    have "(\<Union>k. set ((step ^^ k) w)) = set ((step ^^ 0) w) \<union> (\<Union>k. set ((step ^^ Suc k) w))"
      using UN_split_nat [of "\<lambda>k. set ((step ^^ k) w)"] by (rule trans) simp
    then show ?thesis using Suc.IH [OF ys(1)] ys(2) by (simp add: funpow_swap1)
  qed
qed

lemma cte_total:
  assumes "(step ^^ k) w = []" and "k \<le> n"
  shows "\<exists>xs. cte step n w = Some xs"
  using assms
proof (induction n arbitrary: w k)
  case (Suc n)
  show ?case
  proof (cases k)
    case (Suc j)
    then have "\<exists>xs. cte step n (step w) = Some xs"
      using Suc.prems Suc.IH [of j "step w"] by (simp add: funpow_swap1)
    then show ?thesis by auto
  qed (use Suc.prems in simp)
qed simp

lemma set_child_step: "set (child_step fs w) = {x. \<exists>y \<in> set w. (x, y) \<in> parent_rel fs}"
  by (auto simp: child_step_def parent_rel_def)

lemma set_child_levels:
  "set ((child_step fs ^^ k) w) = {x. \<exists>y \<in> set w. (x, y) \<in> parent_rel fs ^^ k}"
proof (induction k)
  case (Suc k)
  have "set ((child_step fs ^^ Suc k) w) = {x. \<exists>z \<in> set ((child_step fs ^^ k) w). (x, z) \<in> parent_rel fs}"
    by (simp add: set_child_step)
  also have "\<dots> = {x. \<exists>y \<in> set w. (x, y) \<in> parent_rel fs O parent_rel fs ^^ k}"
    unfolding Suc by blast
  finally show ?case by (simp add: relpow_commute)
qed auto

lemma acyclic_relpow_bound:
  assumes "acyclic R" and "finite A" and "\<And>x y. (x, y) \<in> R \<Longrightarrow> x \<in> A" and "card A \<le> n"
  shows "R ^^ Suc n = {}"
proof (rule ccontr)
  assume "R ^^ Suc n \<noteq> {}"
  then obtain x y where "(x, y) \<in> R ^^ Suc n" by auto
  then obtain f where f: "\<forall>i < Suc n. (f i, f (Suc i)) \<in> R"
    unfolding relpow_fun_conv by blast
  have "f ` {..n} \<subseteq> A" using f assms(3) by (auto simp: less_Suc_eq_le)
  then have "card (f ` {..n}) \<le> n" using card_mono [OF assms(2)] assms(4) by (blast intro: le_trans)
  then have "\<not> inj_on f {..n}" using card_image [of f "{..n}"] by auto
  then obtain i j where ij: "i < j" "j \<le> n" "f i = f j"
    unfolding inj_on_def by (metis atMost_iff linorder_neqE_nat)
  have step: "(f i, f (i + Suc k)) \<in> R\<^sup>+" if "i + k \<le> n" for k
    using that
  proof (induction k)
    case 0
    then have "(f i, f (Suc i)) \<in> R" using f by simp
    then show ?case by simp
  next
    case (Suc k)
    then have "(f i, f (i + Suc k)) \<in> R\<^sup>+" and "(f (i + Suc k), f (i + Suc (Suc k))) \<in> R"
      using f by simp_all
    then show ?case by (rule trancl_into_trancl)
  qed
  obtain k where "j = i + Suc k" using ij(1) less_imp_Suc_add by (metis add_Suc_right)
  then have "(f i, f i) \<in> R\<^sup>+" using step [of k] ij by simp
  then show False using assms(1) by (simp add: acyclic_def)
qed

definition descendants :: "Folder list \<Rightarrow> id \<Rightarrow> id set" where
  "descendants fs fid = {x. fid \<in> fo_id ` set fs \<and> (x, fid) \<in> (parent_rel fs)\<^sup>*}"

lemma subtreeCTE_set:
  assumes "subtreeCTE fs fid = Some S"
  shows "set S = descendants fs fid"
proof -
  have "set S = (\<Union>k. set ((child_step fs ^^ k) (map fo_id (filter (\<lambda>f. fo_id f = fid) fs))))"
    using assms unfolding subtreeCTE_def by (rule cte_Some) (simp add: child_step_def)
  then show ?thesis
    unfolding set_child_levels descendants_def rtrancl_power by auto
qed

lemma card_ids: "card (fo_id ` set fs) \<le> length fs"
  by (meson card_image_le card_length finite_set le_trans)

lemma subtreeCTE_total:
  assumes "tree_ok fs"
  shows "\<exists>S. subtreeCTE fs fid = Some S"
proof -
  have "parent_rel fs ^^ Suc (length fs) = {}"
    using assms unfolding tree_ok_def
    by (rule acyclic_relpow_bound [where A = "fo_id ` set fs"]) (auto simp: parent_rel_def card_ids)
  then have "set ((child_step fs ^^ Suc (length fs)) (map fo_id (filter (\<lambda>f. fo_id f = fid) fs))) = {}"
    unfolding set_child_levels by blast
  then show ?thesis unfolding subtreeCTE_def set_empty by (rule cte_total) simp
qed

section \<open>Descendants\<close>

lemma descendants_closed: "child_closed fs (descendants fs fid)"
proof -
  have "(fo_id f, p) \<in> parent_rel fs" if "f \<in> set fs" and "fo_parent f = Some p" for f p
    using that by (auto simp: parent_rel_def)
  then show ?thesis
    by (auto simp: child_closed_def descendants_def intro: converse_rtrancl_into_rtrancl)
qed

lemma descendants_self: "fid \<in> fo_id ` set fs \<Longrightarrow> fid \<in> descendants fs fid"
  by (simp add: descendants_def)

lemma descendants_org:
  assumes "distinct (map fo_id fs)" and "folders_ok orgs fs"
    and "h \<in> set fs" and "g \<in> set fs" and "fo_id g \<in> descendants fs (fo_id h)"
  shows "fo_org g = fo_org h"
proof -
  have "(fo_id g, fo_id h) \<in> (parent_rel fs)\<^sup>*" using assms(5) by (simp add: descendants_def)
  then have "\<forall>g \<in> set fs. fo_id g = x \<longrightarrow> fo_org g = fo_org h" if "x = fo_id g" for x
    unfolding that
  proof (induction rule: converse_rtrancl_induct)
    case base
    then show ?case using key_unique [OF assms(1) _ assms(3)] by metis
  next
    case (step y z)
    obtain f where f: "f \<in> set fs" "fo_id f = y" "fo_parent f = Some z"
      using step.hyps(1) by (auto simp: parent_rel_def)
    obtain g' where g': "g' \<in> set fs" "fo_id g' = z" "fo_org g' = fo_org f"
      using f assms(2) unfolding folders_ok_def by metis
    then have "fo_org f = fo_org h" using step.IH by metis
    then show ?case using key_unique [OF assms(1) _ f(1)] f(2) by metis
  qed
  then show ?thesis using assms(4) by blast
qed

lemma subtree_file_org:
  assumes "struct_inv d" and "h \<in> set (folders d)" and "subtreeCTE (folders d) (fo_id h) = Some S"
    and "f \<in> set (files d)" and "f_folder f \<in> set S"
  shows "f_org f = fo_org h"
proof -
  note inv = struct_invD [OF assms(1)]
  obtain g where "g \<in> set (folders d)" "fo_id g = f_folder f" "fo_org g = f_org f"
    using inv(5) assms(4) by (auto simp: files_ok_def folder_in_org_def)
  then show ?thesis
    using descendants_org [OF keys_okD(2) [OF inv(1)] inv(2) assms(2)] subtreeCTE_set [OF assms(3)]
      assms(5) by metis
qed

lemma subtree_bytes_lost:
  assumes "struct_inv d" and "h \<in> set (folders d)" and "subtreeCTE (folders d) (fo_id h) = Some S"
  shows "lost_bytes (\<lambda>f. f_folder f \<in> set S) d oid = (if oid = fo_org h then subtree_bytes d S else 0)"
proof -
  have "filter (\<lambda>f. f_folder f \<in> set S \<and> f_org f = oid) (files d) =
      (if oid = fo_org h then filter (\<lambda>f. f_folder f \<in> set S) (files d) else [])"
    using subtree_file_org [OF assms] by (auto simp: filter_empty_conv intro: filter_cong)
  then show ?thesis unfolding lost_bytes_def subtree_bytes_def by simp
qed

section \<open>The invariant\<close>

lemma folder_row_check_None:
  assumes "folder_row_check d others f = None"
  shows "\<And>g. g \<in> set others \<Longrightarrow> fo_deleted f = None \<Longrightarrow> fo_deleted g = None \<Longrightarrow> sibling_key g \<noteq> sibling_key f"
    and "has_org d (fo_org f)" and "\<And>p. fo_parent f = Some p \<Longrightarrow> has_folder d p"
  using assms by (auto simp: folder_row_check_def split: if_splits option.splits)

lemma folder_repo_Create_inv:
  assumes inv: "db_inv d"
    and parent: "\<And>p. parentID = Some p \<Longrightarrow> folder_in_org (folders d) orgID p"
  shows "db_inv (snd (folder_repo_Create uuid now orgID parentID name d))"
proof -
  define f where "f = \<lparr>fo_id = uuid, fo_org = orgID, fo_parent = parentID, fo_name = name,
    fo_created = now, fo_updated = now, fo_deleted = None\<rparr>"
  note i = struct_invD [OF db_invD(1) [OF inv]]
  have ok: "db_inv (d\<lparr>folders := folders d @ [f]\<rparr>)"
    if new: "\<not> has_folder d uuid" and chk: "folder_row_check d (folders d) f = None"
  proof -
    note c = folder_row_check_None [OF chk]
    have ids: "distinct (map fo_id (folders d @ [f]))"
      using keys_okD(2) [OF i(1)] new by (auto simp: f_def has_folder_def)
    have orgs: "folders_ok (o_id ` set (organizations d)) (folders d @ [f])"
      using i(2) c(2) parent by (fastforce simp: folders_ok_def folder_in_org_def has_org_def f_def)
    have noparent: "(x, uuid) \<notin> parent_rel (folders d)" for x
      using i(2) new unfolding parent_rel_def folders_ok_def has_folder_def by fastforce
    have "parent_rel (folders d @ [f]) \<subseteq> parent_rel (folders d) \<union> {(uuid, p) | p. parentID = Some p}"
      by (auto simp: parent_rel_def f_def)
    moreover have "acyclic (parent_rel (folders d) \<union> {(uuid, p) | p. parentID = Some p})"
    proof (cases parentID)
      case (Some p)
      have "(p, uuid) \<notin> (parent_rel (folders d))\<^sup>*"
        using noparent c(3) [of p] new Some by (auto simp: f_def elim: rtranclE)
      then show ?thesis using i(3) Some by (simp add: tree_ok_def)
    qed (use i(3) in \<open>simp add: tree_ok_def\<close>)
    ultimately have tree: "tree_ok (folders d @ [f])"
      unfolding tree_ok_def using acyclic_subset by blast
    have names: "names_ok (folders d @ [f])"
    proof -
      have live: "fo_deleted f = None" by (simp add: f_def)
      have "sibling_key f \<notin> sibling_key ` {x \<in> set (folders d). fo_deleted x = None}"
        using c(1) [OF _ live] by force
      then show ?thesis using i(4) live by (simp add: names_ok_def)
    qed
    show ?thesis
      using inv orgs tree names ids
      by (auto simp: db_inv_def struct_inv_def keys_ok_def files_ok_def uploads_ok_def folder_in_org_def)
  qed
  show ?thesis
    using inv ok unfolding folder_repo_Create_def f_def by (auto simp: Let_def split: option.split)
qed

lemma CreateRoot_inv [inv_intros]: "preserves db_inv (CreateRoot uuid now oid name)"
proof (rule preservesI)
  fix d assume "db_inv d"
  then have "db_inv (snd (folder_repo_Create uuid now oid None name d))"
    by (rule folder_repo_Create_inv) simp
  then show "db_inv (snd (CreateRoot uuid now oid name d))"
    by (auto simp: CreateRoot_def split: prod.splits sum.splits)
qed

lemma folder_Get_SomeD:
  "folder_Get d fid = Inr f \<Longrightarrow> f \<in> set (folders d) \<and> fo_id f = fid \<and> fo_deleted f = None"
  by (auto simp: folder_Get_def scanFolder_def split: option.splits dest: find_SomeD)

lemma folder_GetAny_SomeD: "folder_GetAny d fid = Inr f \<Longrightarrow> f \<in> set (folders d) \<and> fo_id f = fid"
  by (auto simp: folder_GetAny_def scanFolder_def split: option.splits dest: find_SomeD)

lemma folder_Create_inv [inv_intros]: "preserves db_inv (folder_Create uuid now oid parentID name)"
proof (rule preservesI)
  fix d assume inv: "db_inv d"
  show "db_inv (snd (folder_Create uuid now oid parentID name d))"
  proof (cases parentID)
    case None
    then show ?thesis using folder_repo_Create_inv [OF inv, of None] by (simp add: folder_Create_def)
  next
    case (Some p)
    have "db_inv (snd (folder_repo_Create uuid now oid parentID name d))"
      if "folder_Get d p = Inr g" and "fo_org g = oid" for g
      using folder_Get_SomeD [OF that(1)] that(2) Some
      by (intro folder_repo_Create_inv [OF inv]) (auto simp: folder_in_org_def)
    then show ?thesis using Some inv by (auto simp: folder_Create_def split: sum.split)
  qed
qed

lemma updated_folder_simps [simp]:
  "fo_id (updated_folder now name par f) = fo_id f" "fo_org (updated_folder now name par f) = fo_org f"
  "fo_deleted (updated_folder now name par f) = fo_deleted f"
  "fo_parent (updated_folder now name par f) = (case par of None \<Rightarrow> fo_parent f | Some p \<Rightarrow> p)"
  by (simp_all add: updated_folder_def)

text \<open>A move that passes the checks keeps the tree a tree.\<close>

lemma move_check_None:
  assumes "move_check d cur par = None" and "par = Some (Some t)"
  shows "folder_in_org (folders d) (fo_org cur) t"
    and "fo_id cur \<in> fo_id ` set (folders d) \<Longrightarrow> (t, fo_id cur) \<notin> (parent_rel (folders d))\<^sup>*"
proof -
  obtain p S where p: "folder_Get d t = Inr p" "fo_org p = fo_org cur"
    and S: "subtreeCTE (folders d) (fo_id cur) = Some S" "t \<notin> set S"
    using assms by (auto simp: move_check_def IsSelfOrDescendant_def split: if_splits sum.splits option.splits)
  show "folder_in_org (folders d) (fo_org cur) t"
    using folder_Get_SomeD [OF p(1)] p(2) by (auto simp: folder_in_org_def)
  show "(t, fo_id cur) \<notin> (parent_rel (folders d))\<^sup>*" if "fo_id cur \<in> fo_id ` set (folders d)"
    using subtreeCTE_set [OF S(1)] S(2) that by (auto simp: descendants_def)
qed

lemma tree_ok_move:
  assumes "tree_ok fs"
    and "\<And>t. par = Some (Some t) \<Longrightarrow> (t, fid) \<notin> (parent_rel fs)\<^sup>*"
  shows "tree_ok (update_where (\<lambda>g. fo_id g = fid \<and> fo_deleted g = None) (updated_folder now name par) fs)"
proof (cases "\<exists>t. par = Some (Some t)")
  case True
  then obtain t where t: "par = Some (Some t)" by blast
  have "parent_rel (update_where (\<lambda>g. fo_id g = fid \<and> fo_deleted g = None) (updated_folder now name par) fs)
      \<subseteq> insert (fid, t) (parent_rel fs)"
    by (auto simp: parent_rel_def in_update_where t split: if_splits)
  moreover have "acyclic (insert (fid, t) (parent_rel fs))"
    using assms t by (simp add: tree_ok_def)
  ultimately show ?thesis unfolding tree_ok_def by (metis acyclic_subset)
next
  case False
  have "parent_rel (update_where (\<lambda>g. fo_id g = fid \<and> fo_deleted g = None) (updated_folder now name par) fs)
      \<subseteq> parent_rel fs"
    using False by (auto simp: parent_rel_def in_update_where split: if_splits option.splits)
  then show ?thesis using assms(1) unfolding tree_ok_def by (metis acyclic_subset)
qed

lemma folder_write_inv:
  assumes inv: "db_inv d" and f: "f \<in> set (folders d)" "fo_id f = fid" "fo_deleted f = None"
    and chk: "folder_row_check d (filter (\<lambda>g. fo_id g \<noteq> fid) (folders d)) (updated_folder now name par f) = None"
    and par: "\<And>t. par = Some (Some t) \<Longrightarrow> folder_in_org (folders d) (fo_org f) t \<and>
      (t, fid) \<notin> (parent_rel (folders d))\<^sup>*"
  shows "db_inv (d\<lparr>folders := update_where (\<lambda>g. fo_id g = fid \<and> fo_deleted g = None)
    (updated_folder now name par) (folders d)\<rparr>)" (is "db_inv (d\<lparr>folders := ?fs\<rparr>)")
proof -
  note i = struct_invD [OF db_invD(1) [OF inv]] and c = folder_row_check_None [OF chk]
  note uniq = key_unique [OF keys_okD(2) [OF i(1)] _ f(1)]
  have same: "map (\<lambda>f. (fo_id f, fo_org f)) ?fs = map (\<lambda>f. (fo_id f, fo_org f)) (folders d)" by simp
  have "folders_ok (o_id ` set (organizations d)) ?fs"
  proof -
    let ?ok = "\<lambda>g. fo_org g \<in> o_id ` set (organizations d) \<and>
        (\<forall>p. fo_parent g = Some p \<longrightarrow> folder_in_org (folders d) (fo_org g) p)"
    have old: "?ok g" if "g \<in> set (folders d)" for g
      using i(2) that unfolding folders_ok_def folder_in_org_def by blast
    have "?ok (updated_folder now name par f)"
      using old [OF f(1)] par by (simp split: option.split)
    moreover have "g = f" if "g \<in> set (folders d)" "fo_id g = fid" for g using uniq that f(2) by simp
    ultimately have "\<forall>g \<in> set ?fs. ?ok g"
      unfolding ball_update_where using old by metis
    then have "\<forall>g \<in> set ?fs. fo_org g \<in> o_id ` set (organizations d) \<and>
        (\<forall>p. fo_parent g = Some p \<longrightarrow> folder_in_org ?fs (fo_org g) p)"
      by (simp only: folder_in_org_map [OF same])
    then show ?thesis unfolding folders_ok_def folder_in_org_def by blast
  qed
  moreover have "tree_ok ?fs" by (rule tree_ok_move [OF i(3)]) (use par in blast)
  moreover have "names_ok ?fs"
  proof -
    have old: "\<forall>a \<in> set (folders d). \<forall>b \<in> set (folders d). fo_deleted a = None \<longrightarrow> fo_deleted b = None \<longrightarrow>
        sibling_key a = sibling_key b \<longrightarrow> fo_id a = fo_id b"
      using i(4) names_ok_iff [OF keys_okD(2) [OF i(1)]] by blast
    have new: "sibling_key b \<noteq> sibling_key (updated_folder now name par a)"
      if "a \<in> set (folders d)" "fo_id a = fid" "b \<in> set (folders d)" "fo_id b \<noteq> fid" "fo_deleted b = None" for a b
      using c(1) [of b] that uniq [OF that(1)] f by auto
    let ?u = "\<lambda>a. if fo_id a = fid \<and> fo_deleted a = None then updated_folder now name par a else a"
    have ids: "distinct (map fo_id ?fs)" using keys_okD(2) [OF i(1)] by simp
    have "fo_id (?u a) = fo_id (?u b)"
      if "a \<in> set (folders d)" "b \<in> set (folders d)" "fo_deleted (?u a) = None" "fo_deleted (?u b) = None"
        "sibling_key (?u a) = sibling_key (?u b)" for a b
    proof (cases "fo_id a = fid"; cases "fo_id b = fid")
      assume "fo_id a = fid" "fo_id b \<noteq> fid"
      then show ?thesis using new [of a b] that by (simp split: if_splits)
    next
      assume "fo_id a \<noteq> fid" "fo_id b = fid"
      then show ?thesis using new [of b a] that by (simp split: if_splits)
    next
      assume "fo_id a = fid" "fo_id b = fid"
      then show ?thesis by simp
    next
      assume "fo_id a \<noteq> fid" "fo_id b \<noteq> fid"
      then have "?u a = a" and "?u b = b" by simp_all
      then show ?thesis using old that by metis
    qed
    then show ?thesis
      unfolding names_ok_iff [OF ids] unfolding update_where_def set_map by blast
  qed
  ultimately show ?thesis by (rule db_inv_folders [OF inv same])
qed

text \<open>\<open>current\<close> is a row of the table, as the middleware loads it.\<close>

lemma folder_Update_inv:
  assumes inv: "db_inv d" and cur: "current \<in> set (folders d)"
  shows "db_inv (snd (folder_Update now current name par d))"
proof -
  note i = struct_invD [OF db_invD(1) [OF inv]]
  have "db_inv (snd (folder_repo_Update now (fo_id current) name par d))" if chk: "move_check d current par = None"
  proof -
    have "db_inv (d\<lparr>folders := update_where (\<lambda>g. fo_id g = fo_id current \<and> fo_deleted g = None)
        (updated_folder now name par) (folders d)\<rparr>)"
      if f: "List.find (\<lambda>f. fo_id f = fo_id current \<and> fo_deleted f = None) (folders d) = Some f"
        and row: "folder_row_check d (filter (\<lambda>g. fo_id g \<noteq> fo_id current) (folders d)) (updated_folder now name par f) = None"
      for f
    proof -
      have f': "f \<in> set (folders d)" "fo_id f = fo_id current" "fo_deleted f = None"
        using find_SomeD [OF f] by simp_all
      have "f = current" by (rule key_unique [OF keys_okD(2) [OF i(1)] f'(1) cur f'(2)])
      then show ?thesis
        using move_check_None [OF chk] cur by (intro folder_write_inv [OF inv f' row]) auto
    qed
    then show ?thesis using inv by (auto simp: folder_repo_Update_def Let_def split: option.split)
  qed
  then show ?thesis using inv by (auto simp: folder_Update_def split: option.split)
qed

section \<open>The folder lookup port\<close>

text \<open>\<^verbatim>\<open>FolderOrgLookup\<close>, as file and upload see it: an organization is only ever reported for a
  live folder, and it is that folder's.\<close>

locale folder_org_lookup =
  fixes orgIDOf :: "db \<Rightarrow> id \<Rightarrow> id res"
  assumes orgIDOf_live: "orgIDOf d fid = Inr oid \<Longrightarrow>
    \<exists>g \<in> set (folders d). fo_id g = fid \<and> fo_org g = oid \<and> fo_deleted g = None"

interpretation folder_orgs: folder_org_lookup OrgIDOf
  by unfold_locales (auto simp: OrgIDOf_def split: sum.splits dest: folder_Get_SomeD)

end
