(* ===== verification/Folder_Trash.thy ===== *)
theory Folder_Trash
  imports Folder_Tree
begin

text \<open>
  Trash, restore and purge of folder subtrees: that they keep the database invariant, that
  trashing and restoring are inverse, that purging never touches live content, and the
  interface \<open>trash_purger\<close> the garbage collector relies on.
\<close>

section \<open>The queries see ids and parents only\<close>

definition shape :: "Folder list \<Rightarrow> (id \<times> id option) list" where
  "shape fs = map (\<lambda>f. (fo_id f, fo_parent f)) fs"

lemma shape_ids: "shape fs = shape gs \<Longrightarrow> map fo_id fs = map fo_id gs"
  unfolding shape_def by (rule map_fst_eq)

lemma child_step_shape: "shape fs = shape gs \<Longrightarrow> child_step fs = child_step gs"
proof -
  have "child_step hs w = concat (map (\<lambda>s. map fst (filter (\<lambda>(_, p). p = Some s) (shape hs))) w)" for hs w
    by (simp add: child_step_def shape_def filter_map comp_def)
  then show "shape fs = shape gs \<Longrightarrow> child_step fs = child_step gs" by (simp add: fun_eq_iff)
qed

lemma subtreeCTE_shape:
  assumes "shape fs = shape gs"
  shows "subtreeCTE fs fid = subtreeCTE gs fid"
proof -
  have "map fo_id (filter (\<lambda>f. fo_id f = fid) hs) = map fst (filter (\<lambda>(i, _). i = fid) (shape hs))" for hs
    by (simp add: shape_def filter_map comp_def)
  moreover have "length fs = length gs" using arg_cong [OF assms, of length] by (simp add: shape_def)
  ultimately show ?thesis using assms child_step_shape [OF assms] by (simp add: subtreeCTE_def)
qed

lemma parent_rel_shape: "shape fs = shape gs \<Longrightarrow> parent_rel fs = parent_rel gs"
proof -
  have "parent_rel hs = {(i, p). (i, Some p) \<in> set (shape hs)}" for hs
    by (auto simp: parent_rel_def shape_def)
  then show "shape fs = shape gs \<Longrightarrow> parent_rel fs = parent_rel gs" by simp
qed

lemma folders_ok_rows:
  assumes "folders_ok orgs gs"
    and "map (\<lambda>f. (fo_id f, fo_parent f, fo_org f)) fs = map (\<lambda>f. (fo_id f, fo_parent f, fo_org f)) gs"
  shows "folders_ok orgs fs"
proof -
  have row: "\<exists>g \<in> set ys. fo_id g = fo_id f \<and> fo_parent g = fo_parent f \<and> fo_org g = fo_org f"
    if "f \<in> set xs" and "map (\<lambda>f. (fo_id f, fo_parent f, fo_org f)) xs = map (\<lambda>f. (fo_id f, fo_parent f, fo_org f)) ys"
    for f xs ys
  proof -
    have "(fo_id f, fo_parent f, fo_org f) \<in> set (map (\<lambda>f. (fo_id f, fo_parent f, fo_org f)) ys)"
      using that(1) by (simp only: that(2) [symmetric]) simp
    then show ?thesis by auto
  qed
  show ?thesis
    unfolding folders_ok_def
  proof (intro ballI conjI allI impI)
    fix f assume "f \<in> set fs"
    from row [OF this assms(2)] obtain g where g: "g \<in> set gs" "fo_parent g = fo_parent f" "fo_org g = fo_org f"
      by blast
    then show "fo_org f \<in> orgs" using assms(1) unfolding folders_ok_def by metis
    fix p assume "fo_parent f = Some p"
    then obtain h where "h \<in> set gs" "fo_id h = p" "fo_org h = fo_org f"
      using g assms(1) unfolding folders_ok_def by metis
    with row [OF this(1) assms(2) [symmetric]] show "\<exists>h \<in> set fs. fo_id h = p \<and> fo_org h = fo_org f"
      by metis
  qed
qed

text \<open>An update of rows that keeps id, parent and organization.\<close>

lemma db_inv_folder_rows:
  assumes "db_inv d"
    and rows: "map (\<lambda>f. (fo_id f, fo_parent f, fo_org f)) fs = map (\<lambda>f. (fo_id f, fo_parent f, fo_org f)) (folders d)"
    and "names_ok fs"
  shows "db_inv (d\<lparr>folders := fs\<rparr>)"
proof (rule db_inv_folders [OF assms(1)])
  note i = struct_invD [OF db_invD(1) [OF assms(1)]]
  show "map (\<lambda>f. (fo_id f, fo_org f)) fs = map (\<lambda>f. (fo_id f, fo_org f)) (folders d)"
    using arg_cong [OF rows, of "map (\<lambda>(i, p, g). (i, g))"] by (simp add: comp_def)
  show "folders_ok (o_id ` set (organizations d)) fs" by (rule folders_ok_rows [OF i(2) rows])
  have "shape fs = shape (folders d)"
    using arg_cong [OF rows, of "map (\<lambda>(i, p, g). (i, p))"] by (simp add: comp_def shape_def)
  from parent_rel_shape [OF this] show "tree_ok fs" using i(3) by (simp add: tree_ok_def)
qed fact

lemma db_inv_file_rows:
  assumes "db_inv d"
    and "\<And>f. f_id (u f) = f_id f \<and> f_org (u f) = f_org f \<and> f_folder (u f) = f_folder f \<and> f_latest (u f) = f_latest f"
  shows "db_inv (d\<lparr>files := update_where P u (files d)\<rparr>)"
proof (rule db_inv_files [OF assms(1)])
  note ok = struct_invD(5) [OF db_invD(1) [OF assms(1)]]
  show "files_ok (folders d) (update_where P u (files d)) (file_versions d)"
    by (rule files_ok_update [OF ok]) (use ok assms(2) in \<open>auto simp: files_ok_def\<close>)
qed (use assms(2) in simp)

section \<open>Trash and restore\<close>

lemmas cascade_defs = trash_folder_def trash_file_def restore_folder_def restore_file_def

lemma SoftDeleteCascade_eq:
  assumes "subtreeCTE (folders d) fid = Some S"
  shows "SoftDeleteCascade now fid d = (Inr (), d
    \<lparr>folders := update_where (\<lambda>f. fo_id f \<in> set S \<and> fo_deleted f = None) (trash_folder now) (folders d),
     files := update_where (\<lambda>f. f_folder f \<in> set S \<and> f_deleted f = None) (trash_file now) (files d)\<rparr>)"
proof -
  have "shape (update_where (\<lambda>f. fo_id f \<in> set S \<and> fo_deleted f = None) (trash_folder now) (folders d)) =
      shape (folders d)" by (simp add: shape_def trash_folder_def)
  from subtreeCTE_shape [OF this] show ?thesis
    using assms by (simp add: SoftDeleteCascade_def transaction_def Let_def)
qed

lemma RestoreCascade_eq:
  assumes "subtreeCTE (folders d) fid = Some S"
  shows "RestoreCascade now fid d =
    (let fs = update_where (\<lambda>f. fo_id f \<in> set S \<and> fo_deleted f \<noteq> None) (restore_folder now) (folders d)
     in if names_ok fs then (Inr (), d\<lparr>folders := fs,
          files := update_where (\<lambda>f. f_folder f \<in> set S \<and> f_deleted f \<noteq> None) (restore_file now) (files d)\<rparr>)
        else (Inl (PgError UniqueViolation), d))"
proof -
  have "shape (update_where (\<lambda>f. fo_id f \<in> set S \<and> fo_deleted f \<noteq> None) (restore_folder now) (folders d)) =
      shape (folders d)" by (simp add: shape_def restore_folder_def)
  from subtreeCTE_shape [OF this] show ?thesis
    using assms by (simp add: RestoreCascade_def transaction_def Let_def)
qed

lemma names_ok_trash:
  assumes "names_ok fs"
  shows "names_ok (update_where P (trash_folder now) fs)"
proof -
  have "filter (\<lambda>f. fo_deleted f = None) (update_where P (trash_folder now) fs) =
      filter (\<lambda>f. \<not> P f) (filter (\<lambda>f. fo_deleted f = None) fs)"
    by (induction fs) (simp_all add: trash_folder_def)
  then show ?thesis using assms by (simp only: names_ok_def distinct_map_filter)
qed

lemma SoftDeleteCascade_inv [inv_intros]: "preserves db_inv (SoftDeleteCascade now fid)"
proof (rule preservesI)
  fix d assume inv: "db_inv d"
  note i = struct_invD [OF db_invD(1) [OF inv]]
  obtain S where S: "subtreeCTE (folders d) fid = Some S" using subtreeCTE_total [OF i(3)] by blast
  let ?fs = "update_where (\<lambda>f. fo_id f \<in> set S \<and> fo_deleted f = None) (trash_folder now) (folders d)"
  have "db_inv (d\<lparr>folders := ?fs\<rparr>)"
    by (rule db_inv_folder_rows [OF inv _ names_ok_trash [OF i(4)]])
       (simp add: trash_folder_def)
  then have "db_inv (d\<lparr>folders := ?fs\<rparr>\<lparr>files := update_where (\<lambda>f. f_folder f \<in> set S \<and> f_deleted f = None)
      (trash_file now) (files (d\<lparr>folders := ?fs\<rparr>))\<rparr>)"
    by (rule db_inv_file_rows) (simp add: trash_file_def)
  then show "db_inv (snd (SoftDeleteCascade now fid d))" by (simp add: SoftDeleteCascade_eq [OF S])
qed

lemma RestoreCascade_inv [inv_intros]: "preserves db_inv (RestoreCascade now fid)"
proof (rule preservesI)
  fix d assume inv: "db_inv d"
  note i = struct_invD [OF db_invD(1) [OF inv]]
  obtain S where S: "subtreeCTE (folders d) fid = Some S" using subtreeCTE_total [OF i(3)] by blast
  let ?fs = "update_where (\<lambda>f. fo_id f \<in> set S \<and> fo_deleted f \<noteq> None) (restore_folder now) (folders d)"
  have "db_inv (d\<lparr>folders := ?fs\<rparr>\<lparr>files := update_where (\<lambda>f. f_folder f \<in> set S \<and> f_deleted f \<noteq> None)
      (restore_file now) (files (d\<lparr>folders := ?fs\<rparr>))\<rparr>)" if "names_ok ?fs"
    by (rule db_inv_file_rows [OF db_inv_folder_rows [OF inv _ that]])
       (simp_all add: restore_folder_def restore_file_def)
  then show "db_inv (snd (RestoreCascade now fid d))"
    using inv by (simp add: RestoreCascade_eq [OF S] Let_def)
qed

section \<open>Purge\<close>

text \<open>What one purge leaves: the database unchanged, or without the guarded subtree and with the
  counter moved by its bytes.\<close>

lemma purgeOne_inv:
  assumes inv: "db_inv d"
  shows "\<exists>n d'. purgeOneFolderCascade fid d = (Inr n, d') \<and> db_inv d' \<and>
    (\<forall>S. subtreeCTE (folders d) fid = Some S \<longrightarrow> purge_guard d S \<longrightarrow> fid \<notin> fo_id ` set (folders d')) \<and>
    (d' = d \<or> (\<exists>S. subtreeCTE (folders d) fid = Some S \<and> purge_guard d S \<and>
       files d' = delete_where (\<lambda>f. f_folder f \<in> set S) (files d) \<and>
       folders d' = delete_where (\<lambda>f. fo_id f \<in> set S) (folders d) \<and>
       chunks d' = chunks d \<and> chunk_locations d' = chunk_locations d))"
proof -
  note s = db_invD(1) [OF inv]
  note i = struct_invD [OF s]
  obtain S where S: "subtreeCTE (folders d) fid = Some S" using subtreeCTE_total [OF i(3)] by blast
  show ?thesis
  proof (cases "List.find (\<lambda>f. fo_id f = fid \<and> purge_guard d S) (folders d)")
    case None
    then have "fid \<notin> fo_id ` set (folders d)" if "purge_guard d S" using that by (auto simp: find_None_iff)
    then show ?thesis using None S inv by (simp add: purgeOneFolderCascade_def transaction_def)
  next
    case (Some fo)
    from find_SomeD [OF this] have fo: "fo \<in> set (folders d)" "fo_id fo = fid" "purge_guard d S"
      by simp_all
    have S': "subtreeCTE (folders d) (fo_id fo) = Some S" using S fo(2) by simp
    obtain d1 where d1: "delete_folders S d = Inr d1" using delete_folders_ok [OF s] by blast
    obtain d0 where d0: "delete_files (\<lambda>f. f_folder f \<in> set S) d = Inr d0" using delete_files_ok [OF s] by blast
    note fr = delete_folders_frame [OF d1 d0] and fr0 = delete_files_frame [OF d0]
    have "child_closed (folders d) (set S)"
      using descendants_closed by (simp add: subtreeCTE_set [OF S])
    from delete_folders_struct [OF s this d1] have s1: "struct_inv d1" .
    have bytes: "org_bytes (files d1) (file_versions d1) x =
        org_bytes (files d) (file_versions d) x + (if x = fo_org fo then - subtree_bytes d S else 0)" for x
      using delete_folders_bytes [OF s d1, of x] subtree_bytes_lost [OF s fo(1) S', of x] by simp
    have nonneg: "0 \<le> subtree_bytes d S"
      using lost_bytes_nonneg [OF i(6), of _ "fo_org fo"] subtree_bytes_lost [OF s fo(1) S'] by (metis)
    have "fid \<in> set S" using descendants_self [of fid "folders d"] fo by (auto simp: subtreeCTE_set [OF S])
    then have self: "fid \<notin> fo_id ` set (folders d1)" by (auto simp: fr)
    have gone: "files d1 = delete_where (\<lambda>f. f_folder f \<in> set S) (files d)"
      "folders d1 = delete_where (\<lambda>f. fo_id f \<in> set S) (folders d)"
      "chunks d1 = chunks d" "chunk_locations d1 = chunk_locations d"
      using fr fr0 by simp_all
    obtain g where g: "g \<in> set (organizations d)" "o_id g = fo_org fo"
      using i(2) fo(1) by (force simp: folders_ok_def)
    then have "in_int64 (org_bytes (files d) (file_versions d) (fo_org fo))"
      using db_invD(2) [OF inv] unfolding usage_ok_def by metis
    moreover have "subtree_bytes d S \<le> org_bytes (files d) (file_versions d) (fo_org fo)"
      using bytes [of "fo_org fo"] org_bytes_nonneg [OF struct_invD(6) [OF s1], of _ "fo_org fo"]
      by (smt (verit))
    ultimately have fits: "in_int64 (subtree_bytes d S)" using nonneg by (simp add: in_int64_def)
    define n where "n = int (rows_affected (\<lambda>f. fo_id f = fid \<and> purge_guard d S) (folders d))"
    have n: "n > 0" using fo rows_affected_zero unfolding n_def by (metis (mono_tags, lifting) of_nat_0_less_iff not_gr_zero)
    show ?thesis
    proof (cases "0 < subtree_bytes d S")
      case True
      obtain d2 where d2: "add_usage (- subtree_bytes d S) (fo_org fo) d1 = Inr d2"
        using add_usage_freed [OF inv s1 fr(1) _ nonneg, of "fo_org fo"] bytes by auto
      have "db_inv d2" by (rule usage_restored [OF inv s1 fr(1) bytes d2])
      moreover have "purgeOneFolderCascade fid d = (Inr n, d2)"
        using S Some fits d1 d2 True n
        by (simp add: purgeOneFolderCascade_def transaction_def Let_def n_def [symmetric])
      ultimately show ?thesis
        using S fo(3) gone self unfolding add_usage_frame [OF d2] by auto
    next
      case False
      then have "subtree_bytes d S = 0" using nonneg by simp
      then have "db_inv d1" using bytes by (intro usage_unchanged [OF inv s1 fr(1)]) simp
      moreover have "purgeOneFolderCascade fid d = (Inr n, d1)"
        using S Some fits d1 False
        by (simp add: purgeOneFolderCascade_def transaction_def Let_def n_def [symmetric])
      ultimately show ?thesis using S fo(3) gone self by auto
    qed
  qed
qed

lemma descendants_mono: "set fs \<subseteq> set gs \<Longrightarrow> descendants fs fid \<subseteq> descendants gs fid"
  using rtrancl_mono [OF parent_rel_mono, of fs gs] by (auto simp: descendants_def)

lemma purge_guard_mono:
  assumes "purge_guard d S" and "set S' \<subseteq> set S" and "set (folders d') \<subseteq> set (folders d)"
    and "set (files d') \<subseteq> set (files d)"
  shows "purge_guard d' S'"
  using assms unfolding purge_guard_def by blast

lemma purge_loop_spec:
  assumes "db_inv d"
  shows "\<exists>n d'. purge_folders_loop fids n0 d = ((n, None), d') \<and> db_inv d' \<and>
    set (folders d') \<subseteq> set (folders d) \<and> set (files d') \<subseteq> set (files d) \<and>
    (\<forall>f \<in> set (folders d). fo_deleted f = None \<longrightarrow> f \<in> set (folders d')) \<and>
    (\<forall>f \<in> set (files d). f_deleted f = None \<longrightarrow> f \<in> set (files d')) \<and>
    (\<forall>f \<in> set (folders d). f \<in> set (folders d') \<or> (\<exists>r \<in> set fids. fo_id f \<in> descendants (folders d) r)) \<and>
    (\<forall>r \<in> set fids. \<forall>S. subtreeCTE (folders d) r = Some S \<longrightarrow> purge_guard d S \<longrightarrow> r \<notin> fo_id ` set (folders d')) \<and>
    chunks d' = chunks d \<and> chunk_locations d' = chunk_locations d"
  using assms
proof (induction fids arbitrary: n0 d)
  case Nil
  then show ?case by simp
next
  case (Cons r fids)
  obtain n1 d1 where one: "purgeOneFolderCascade r d = (Inr n1, d1)" "db_inv d1"
    "\<forall>S. subtreeCTE (folders d) r = Some S \<longrightarrow> purge_guard d S \<longrightarrow> r \<notin> fo_id ` set (folders d1)"
    and eff: "d1 = d \<or> (\<exists>S. subtreeCTE (folders d) r = Some S \<and> purge_guard d S \<and>
       files d1 = delete_where (\<lambda>f. f_folder f \<in> set S) (files d) \<and>
       folders d1 = delete_where (\<lambda>f. fo_id f \<in> set S) (folders d) \<and>
       chunks d1 = chunks d \<and> chunk_locations d1 = chunk_locations d)"
    using purgeOne_inv [OF Cons.prems, of r] by (elim exE conjE) (rule that)
  have sub: "set (folders d1) \<subseteq> set (folders d)" "set (files d1) \<subseteq> set (files d)"
    and live: "\<forall>f \<in> set (folders d). fo_deleted f = None \<longrightarrow> f \<in> set (folders d1)"
      "\<forall>f \<in> set (files d). f_deleted f = None \<longrightarrow> f \<in> set (files d1)"
    and gone: "\<forall>f \<in> set (folders d). f \<in> set (folders d1) \<or> fo_id f \<in> descendants (folders d) r"
    and frame: "chunks d1 = chunks d" "chunk_locations d1 = chunk_locations d"
    using eff by (auto simp: purge_guard_def dest: subtreeCTE_set)
  obtain n d' where rest: "purge_folders_loop fids (n0 + n1) d1 = ((n, None), d')" "db_inv d'"
    "set (folders d') \<subseteq> set (folders d1)" "set (files d') \<subseteq> set (files d1)"
    "\<forall>f \<in> set (folders d1). fo_deleted f = None \<longrightarrow> f \<in> set (folders d')"
    "\<forall>f \<in> set (files d1). f_deleted f = None \<longrightarrow> f \<in> set (files d')"
    "\<forall>f \<in> set (folders d1). f \<in> set (folders d') \<or> (\<exists>r \<in> set fids. fo_id f \<in> descendants (folders d1) r)"
    "\<forall>r \<in> set fids. \<forall>S. subtreeCTE (folders d1) r = Some S \<longrightarrow> purge_guard d1 S \<longrightarrow> r \<notin> fo_id ` set (folders d')"
    "chunks d' = chunks d1" "chunk_locations d' = chunk_locations d1"
    using Cons.IH [OF one(2), of "n0 + n1"] by (elim exE conjE) (rule that)
  have later: "q \<notin> fo_id ` set (folders d')"
    if "q \<in> set fids" and S: "subtreeCTE (folders d) q = Some S" "purge_guard d S" for q S
  proof -
    obtain S1 where S1: "subtreeCTE (folders d1) q = Some S1"
      using subtreeCTE_total [OF struct_invD(3) [OF db_invD(1) [OF one(2)]]] by blast
    have "set S1 \<subseteq> set S"
      using descendants_mono [OF sub(1)] subtreeCTE_set [OF S1] subtreeCTE_set [OF S(1)] by simp
    then show ?thesis using rest(8) that(1) S1 purge_guard_mono [OF S(2) _ sub] by blast
  qed
  have "f \<in> set (folders d') \<or> (\<exists>q \<in> set (r # fids). fo_id f \<in> descendants (folders d) q)"
    if "f \<in> set (folders d)" for f
    using gone rest(7) that descendants_mono [OF sub(1)] by (meson list.set_intros subsetD)
  moreover have "\<forall>q \<in> set (r # fids). \<forall>S. subtreeCTE (folders d) q = Some S \<longrightarrow> purge_guard d S \<longrightarrow>
      q \<notin> fo_id ` set (folders d')"
    using later one(3) rest(3) by auto
  ultimately show ?case
    using one(1) rest(1-6,9,10) sub live frame by auto
qed

lemma folder_PurgeExpiredTrash_spec:
  assumes "db_inv d"
  shows "\<exists>n d'. folder_PurgeExpiredTrash now olderThan d = ((n, None), d') \<and> db_inv d' \<and>
    set (folders d') \<subseteq> set (folders d) \<and> set (files d') \<subseteq> set (files d) \<and>
    (\<forall>f \<in> set (folders d). fo_deleted f = None \<longrightarrow> f \<in> set (folders d')) \<and>
    (\<forall>f \<in> set (files d). f_deleted f = None \<longrightarrow> f \<in> set (files d')) \<and>
    (\<forall>f \<in> set (folders d). f \<in> set (folders d') \<or> (\<exists>r \<in> set (folders d).
       (\<exists>t. fo_deleted r = Some t \<and> t < now - olderThan) \<and> fo_id f \<in> descendants (folders d) (fo_id r))) \<and>
    (\<forall>r \<in> set (folders d). \<forall>t S. fo_deleted r = Some t \<longrightarrow> t < now - olderThan \<longrightarrow>
       subtreeCTE (folders d) (fo_id r) = Some S \<longrightarrow> purge_guard d S \<longrightarrow> fo_id r \<notin> fo_id ` set (folders d')) \<and>
    chunks d' = chunks d \<and> chunk_locations d' = chunk_locations d"
proof -
  define fids where "fids = map fo_id (filter (\<lambda>f. case fo_deleted f of None \<Rightarrow> False | Some t \<Rightarrow> t < now - olderThan) (folders d))"
  have fids: "q \<in> set fids \<longleftrightarrow> (\<exists>r \<in> set (folders d). fo_id r = q \<and> (\<exists>t. fo_deleted r = Some t \<and> t < now - olderThan))" for q
    by (auto simp: fids_def split: option.splits)
  have eq: "folder_PurgeExpiredTrash now olderThan d = purge_folders_loop fids 0 d"
    by (simp add: folder_PurgeExpiredTrash_def fids_def)
  show ?thesis
    unfolding eq using purge_loop_spec [OF assms, of fids 0] by (elim exE conjE) (intro exI conjI; (assumption | simp only: fids | blast)?; use fids in metis)
qed

interpretation folder_purger: trash_purger folder_PurgeExpiredTrash
proof (unfold_locales, goal_cases)
  case (1 d now olderThan) then show ?case using folder_PurgeExpiredTrash_spec [of d now olderThan] by auto
next
  case (2 d now olderThan) then show ?case using folder_PurgeExpiredTrash_spec [of d now olderThan] by auto
next
  case (3 d f now olderThan) then show ?case using folder_PurgeExpiredTrash_spec [of d now olderThan] by auto
next
  case (4 d g now olderThan) then show ?case using folder_PurgeExpiredTrash_spec [of d now olderThan] by auto
next
  case (5 d now olderThan) then show ?case using folder_PurgeExpiredTrash_spec [of d now olderThan] by auto
qed

section \<open>Properties\<close>

definition sample_folder :: "id \<Rightarrow> id option \<Rightarrow> string \<Rightarrow> time option \<Rightarrow> Folder" where
  "sample_folder i p n del = \<lparr>fo_id = i, fo_org = ''o1'', fo_parent = p, fo_name = n,
     fo_created = 0, fo_updated = 0, fo_deleted = del\<rparr>"

definition sample_folders_db :: "Folder list \<Rightarrow> db" where
  "sample_folders_db fs = sample_org_db\<lparr>folders := fs\<rparr>"

lemmas sample_db_defs = sample_folders_db_def sample_org_db_def empty_db_def sample_folder_def

lemma parent_relI: "f \<in> set fs \<Longrightarrow> fo_parent f = Some p \<Longrightarrow> (fo_id f, p) \<in> parent_rel fs"
  by (auto simp: parent_rel_def)

lemma acyclic_by_rank:
  fixes rk :: "id \<Rightarrow> nat"
  assumes "\<And>x y. (x, y) \<in> R \<Longrightarrow> rk y < rk x"
  shows "acyclic R"
proof -
  have "rk y < rk x" if "(x, y) \<in> R\<^sup>+" for x y
    using that by (induction rule: trancl_induct) (auto dest: assms)
  then show ?thesis unfolding acyclic_def by blast
qed

lemma sample_folders_inv:
  assumes "distinct (map fo_id fs)" and "names_ok fs"
    and "\<forall>f \<in> set fs. fo_org f = ''o1'' \<and> (\<forall>p. fo_parent f = Some p \<longrightarrow> (\<exists>g \<in> set fs. fo_id g = p))"
    and "\<And>f p. f \<in> set fs \<Longrightarrow> fo_parent f = Some p \<Longrightarrow> rk p < (rk (fo_id f) :: nat)"
  shows "db_inv (sample_folders_db fs)"
proof -
  have "tree_ok fs" unfolding tree_ok_def
    by (rule acyclic_by_rank [of _ rk]) (auto simp: parent_rel_def assms(4))
  moreover have "folders_ok {''o1''} fs"
    unfolding folders_ok_def
  proof (intro ballI conjI allI impI)
    fix f assume f: "f \<in> set fs"
    then show "fo_org f \<in> {''o1''}" using assms(3) by simp
    fix p assume "fo_parent f = Some p"
    then obtain g where "g \<in> set fs" "fo_id g = p" using assms(3) f by blast
    then show "\<exists>g \<in> set fs. fo_id g = p \<and> fo_org g = fo_org f" using assms(3) f by metis
  qed
  ultimately show ?thesis
    using assms(1,2)
    by (simp add: db_inv_def struct_inv_def keys_ok_def sample_folders_db_def sample_org_db_def empty_db_def
        files_ok_def versions_ok_def chunks_ok_def uploads_ok_def owners_ok_def usage_ok_def org_bytes_def in_int64_def)
qed

lemma folder_Get_iff:
  assumes "keys_ok d"
  shows "folder_Get d t = Inr p \<longleftrightarrow> p \<in> set (folders d) \<and> fo_id p = t \<and> fo_deleted p = None"
proof
  assume p: "p \<in> set (folders d) \<and> fo_id p = t \<and> fo_deleted p = None"
  show "folder_Get d t = Inr p"
  proof (cases "List.find (\<lambda>f. fo_id f = t \<and> fo_deleted f = None) (folders d)")
    case None then show ?thesis using p by (auto simp: find_None_iff)
  next
    case (Some g)
    then have "g = p" using key_unique [OF keys_okD(2) [OF assms], of g p] find_SomeD [OF Some] p by simp
    then show ?thesis using Some by (simp add: folder_Get_def scanFolder_def)
  qed
qed (use folder_Get_SomeD in blast)

lemma move_check_eq:
  assumes "db_inv d" and "current \<in> set (folders d)"
  shows "move_check d current (Some (Some t)) =
    (if t = fo_id current then Some (Folder ErrCyclicMove)
     else if \<not> (\<exists>p \<in> set (folders d). fo_id p = t \<and> fo_deleted p = None \<and> fo_org p = fo_org current)
       then Some (Folder ErrInvalidParent)
     else if (t, fo_id current) \<in> (parent_rel (folders d))\<^sup>+ then Some (Folder ErrCyclicMove)
     else None)"
proof -
  note i = struct_invD [OF db_invD(1) [OF assms(1)]]
  obtain S where S: "subtreeCTE (folders d) (fo_id current) = Some S" using subtreeCTE_total [OF i(3)] by blast
  have below: "t \<in> set S \<longleftrightarrow> t = fo_id current \<or> (t, fo_id current) \<in> (parent_rel (folders d))\<^sup>+"
    using assms(2) by (auto simp: subtreeCTE_set [OF S] descendants_def rtrancl_eq_or_trancl)
  show ?thesis
  proof (cases "folder_Get d t")
    case (Inl e)
    then have "\<not> (\<exists>p \<in> set (folders d). fo_id p = t \<and> fo_deleted p = None)"
      using folder_Get_iff [OF i(1), of t] by (metis Inl_Inr_False)
    then show ?thesis using Inl by (auto simp: move_check_def)
  next
    case (Inr p)
    then have "(\<exists>q \<in> set (folders d). fo_id q = t \<and> fo_deleted q = None \<and> fo_org q = fo_org current) \<longleftrightarrow>
        fo_org p = fo_org current"
      using folder_Get_iff [OF i(1), of t] by (metis sum.inject(2))
    then show ?thesis using Inr S below by (simp add: move_check_def IsSelfOrDescendant_def)
  qed
qed

lemma repo_move_eq:
  assumes "db_inv d" and "current \<in> set (folders d)" and "fo_deleted current = None"
    and "p \<in> set (folders d)" and "fo_id p = t"
  shows "fst (folder_repo_Update now (fo_id current) name (Some (Some t)) d) =
    (if \<exists>g \<in> set (folders d). fo_id g \<noteq> fo_id current \<and> fo_deleted g = None \<and>
          sibling_key g = sibling_key (updated_folder now name (Some (Some t)) current)
       then Inl (Folder ErrNameConflict)
     else Inr (updated_folder now name (Some (Some t)) current))"
proof -
  note i = struct_invD [OF db_invD(1) [OF assms(1)]]
  have "folder_Get d (fo_id current) = Inr current" using assms(2,3) by (simp add: folder_Get_iff [OF i(1)])
  then have cur: "List.find (\<lambda>f. fo_id f = fo_id current \<and> fo_deleted f = None) (folders d) = Some current"
    by (simp add: folder_Get_def scanFolder_def split: option.splits)
  have "has_org d (fo_org current)" using i(2) assms(2) by (auto simp: folders_ok_def has_org_def)
  moreover have "has_folder d t" using assms(4,5) by (auto simp: has_folder_def)
  ultimately have "folder_row_check d (filter (\<lambda>g. fo_id g \<noteq> fo_id current) (folders d))
      (updated_folder now name (Some (Some t)) current) =
      (if \<exists>g \<in> set (folders d). fo_id g \<noteq> fo_id current \<and> fo_deleted g = None \<and>
            sibling_key g = sibling_key (updated_folder now name (Some (Some t)) current)
       then Some (PgError UniqueViolation) else None)"
    using assms(3) by (auto simp: folder_row_check_def)
  then show ?thesis
    using cur by (simp add: folder_repo_Update_def Let_def asConflictOrParentErr_def)
qed

text \<open>C9: moving a folder cannot break the tree. On a sound database, \<^verbatim>\<open>Service.Update\<close> of a
  row with a new parent \<open>t\<close> answers \<^verbatim>\<open>ErrCyclicMove\<close> exactly when \<open>t\<close> is the folder itself or
  a live folder of its organization below it, \<^verbatim>\<open>ErrInvalidParent\<close> when \<open>t\<close> is not a live folder
  of the organization, and otherwise does the write, which can only fail on a sibling's name;
  its recursive query always ends, and the database stays sound in every case.\<close>

theorem folder_move_spec:
  assumes "db_inv d" and "current \<in> set (folders d)" and "fo_deleted current = None"
  shows "db_inv (snd (folder_Update now current name (Some (Some t)) d)) \<and>
    fst (folder_Update now current name (Some (Some t)) d) =
      (if t = fo_id current then Inl (Folder ErrCyclicMove)
       else if \<not> (\<exists>p \<in> set (folders d). fo_id p = t \<and> fo_deleted p = None \<and> fo_org p = fo_org current)
         then Inl (Folder ErrInvalidParent)
       else if (t, fo_id current) \<in> (parent_rel (folders d))\<^sup>+ then Inl (Folder ErrCyclicMove)
       else if \<exists>g \<in> set (folders d). fo_id g \<noteq> fo_id current \<and> fo_deleted g = None \<and>
                 sibling_key g = sibling_key (updated_folder now name (Some (Some t)) current)
         then Inl (Folder ErrNameConflict)
       else Inr (updated_folder now name (Some (Some t)) current))"
proof
  show "db_inv (snd (folder_Update now current name (Some (Some t)) d))"
    by (rule folder_Update_inv [OF assms(1,2)])
qed (use repo_move_eq [OF assms] move_check_eq [OF assms(1,2), of t] in
    \<open>auto simp: folder_Update_def split: option.split\<close>)

theorem folder_move_spec_witness:
  "\<exists>d current. fst (folder_Update 5 current None (Some (Some ''b'')) d) = Inl (Folder ErrCyclicMove) \<and>
     db_inv (snd (folder_Update 5 current None (Some (Some ''b'')) d))"
proof -
  define a where "a = sample_folder ''a'' None ''A'' None"
  define d where "d = sample_folders_db [a, sample_folder ''b'' (Some ''a'') ''B'' None]"
  have d: "db_inv d" unfolding d_def a_def
    by (rule sample_folders_inv [where rk = "\<lambda>x. if x = ''b'' then 1 else 0"])
       (auto simp: sample_folder_def names_ok_def sibling_key_def nil_uuid_def)
  have a: "a \<in> set (folders d)" "fo_deleted a = None"
    by (simp_all add: d_def sample_folders_db_def a_def sample_folder_def)
  have "(''b'', fo_id a) \<in> parent_rel (folders d)"
    using parent_relI [of "sample_folder ''b'' (Some ''a'') ''B'' None" "folders d" "''a''"]
    by (simp add: d_def a_def sample_folders_db_def sample_folder_def)
  then have "(''b'', fo_id a) \<in> (parent_rel (folders d))\<^sup>+" by simp
  moreover have "''b'' \<noteq> fo_id a"
    "\<exists>p \<in> set (folders d). fo_id p = ''b'' \<and> fo_deleted p = None \<and> fo_org p = fo_org a"
    by (simp_all add: d_def a_def sample_folders_db_def sample_folder_def)
  ultimately show ?thesis
    using folder_move_spec [OF d a, of 5 None "''b''"] by (intro exI [of _ d] exI [of _ a]) simp
qed

definition forget_updated :: "db \<Rightarrow> db" where
  "forget_updated d = d\<lparr>folders := map (\<lambda>f. f\<lparr>fo_updated := 0\<rparr>) (folders d),
     files := map (\<lambda>f. f\<lparr>f_updated := 0\<rparr>) (files d)\<rparr>"

lemma update_where_inverse:
  assumes "\<And>x. x \<in> set xs \<Longrightarrow> P x \<Longrightarrow> Q (f x) \<and> h (g (f x)) = h x"
    and "\<And>x. x \<in> set xs \<Longrightarrow> \<not> P x \<Longrightarrow> \<not> Q x"
  shows "map h (update_where Q g (update_where P f xs)) = map h xs"
  using assms by (induction xs) auto



text \<open>C11: the retention purge of folders is safe and complete. On a sound database it never
  fails; it keeps every live folder and every live file; it removes a folder only if it lies in
  the subtree of one trashed longer ago than the retention window; it does remove every such
  expired folder whose subtree holds nothing live; and the database stays sound, so each
  organization's byte counter is still the number of bytes its remaining versions hold.\<close>

theorem folder_purge_safe:
  assumes "db_inv d"
  shows "\<exists>n d'. folder_PurgeExpiredTrash now olderThan d = ((n, None), d') \<and> db_inv d' \<and>
    (\<forall>f \<in> set (folders d). fo_deleted f = None \<longrightarrow> f \<in> set (folders d')) \<and>
    (\<forall>f \<in> set (files d). f_deleted f = None \<longrightarrow> f \<in> set (files d')) \<and>
    (\<forall>f \<in> set (folders d) - set (folders d'). \<exists>r \<in> set (folders d).
       (\<exists>t. fo_deleted r = Some t \<and> t < now - olderThan) \<and> fo_id f \<in> descendants (folders d) (fo_id r)) \<and>
    (\<forall>r \<in> set (folders d). (\<exists>t. fo_deleted r = Some t \<and> t < now - olderThan) \<longrightarrow>
       (\<forall>f \<in> set (folders d). fo_id f \<in> descendants (folders d) (fo_id r) \<longrightarrow> fo_deleted f \<noteq> None) \<longrightarrow>
       (\<forall>f \<in> set (files d). f_folder f \<in> descendants (folders d) (fo_id r) \<longrightarrow> f_deleted f \<noteq> None) \<longrightarrow>
       fo_id r \<notin> fo_id ` set (folders d'))"
proof -
  have sub: "\<exists>S. subtreeCTE (folders d) x = Some S \<and> set S = descendants (folders d) x" for x
    using subtreeCTE_total [OF struct_invD(3) [OF db_invD(1) [OF assms]]] subtreeCTE_set by blast
  obtain n d' where spec: "folder_PurgeExpiredTrash now olderThan d = ((n, None), d')" "db_inv d'"
    "\<forall>f \<in> set (folders d). fo_deleted f = None \<longrightarrow> f \<in> set (folders d')"
    "\<forall>f \<in> set (files d). f_deleted f = None \<longrightarrow> f \<in> set (files d')"
    "\<forall>f \<in> set (folders d). f \<in> set (folders d') \<or> (\<exists>r \<in> set (folders d).
       (\<exists>t. fo_deleted r = Some t \<and> t < now - olderThan) \<and> fo_id f \<in> descendants (folders d) (fo_id r))"
    "\<forall>r \<in> set (folders d). \<forall>t S. fo_deleted r = Some t \<longrightarrow> t < now - olderThan \<longrightarrow>
       subtreeCTE (folders d) (fo_id r) = Some S \<longrightarrow> purge_guard d S \<longrightarrow> fo_id r \<notin> fo_id ` set (folders d')"
    using folder_PurgeExpiredTrash_spec [OF assms, of now olderThan] by (elim exE conjE) (rule that)
  have "fo_id r \<notin> fo_id ` set (folders d')"
    if r: "r \<in> set (folders d)" "\<exists>t. fo_deleted r = Some t \<and> t < now - olderThan"
      and nf: "\<forall>f \<in> set (folders d). fo_id f \<in> descendants (folders d) (fo_id r) \<longrightarrow> fo_deleted f \<noteq> None"
      and nfile: "\<forall>f \<in> set (files d). f_folder f \<in> descendants (folders d) (fo_id r) \<longrightarrow> f_deleted f \<noteq> None" for r
  proof -
    obtain S where S: "subtreeCTE (folders d) (fo_id r) = Some S" "set S = descendants (folders d) (fo_id r)"
      using sub by blast
    have "purge_guard d S" unfolding purge_guard_def S(2) using nf nfile by blast
    then show ?thesis using spec(6) r S(1) by blast
  qed
  then show ?thesis using spec(1-5) by (intro exI [of _ n] exI [of _ d'] conjI) blast+
qed

theorem folder_purge_safe_witness:
  "\<exists>d. ''a'' \<in> fo_id ` set (folders d) \<and> ''b'' \<in> fo_id ` set (folders d) \<and>
     ''a'' \<notin> fo_id ` set (folders (snd (folder_PurgeExpiredTrash 100 10 d))) \<and>
     sample_folder ''b'' None ''B'' None \<in> set (folders (snd (folder_PurgeExpiredTrash 100 10 d)))"
proof -
  define b where "b = sample_folder ''b'' None ''B'' None"
  define fs where "fs = [sample_folder ''a'' None ''A'' (Some 1), b]"
  define d where "d = sample_folders_db fs"
  have d: "db_inv d" unfolding d_def fs_def b_def
    by (rule sample_folders_inv [where rk = "\<lambda>_. 0"])
       (auto simp: sample_folder_def names_ok_def sibling_key_def)
  have fs: "folders d = fs" "files d = []" by (simp_all add: d_def sample_db_defs)
  have "parent_rel (folders d) = {}" by (auto simp: parent_rel_def fs fs_def b_def sample_folder_def)
  then have "descendants (folders d) ''a'' \<subseteq> {''a''}" by (auto simp: descendants_def)
  then have dead: "\<forall>f \<in> set (folders d). fo_id f \<in> descendants (folders d) ''a'' \<longrightarrow> fo_deleted f \<noteq> None"
    by (auto simp: fs fs_def b_def sample_folder_def)
  obtain n d' where p: "folder_PurgeExpiredTrash 100 10 d = ((n, None), d')"
    and live: "\<forall>f \<in> set (folders d). fo_deleted f = None \<longrightarrow> f \<in> set (folders d')"
    and gone: "\<forall>r \<in> set (folders d). (\<exists>t. fo_deleted r = Some t \<and> t < 100 - 10) \<longrightarrow>
       (\<forall>f \<in> set (folders d). fo_id f \<in> descendants (folders d) (fo_id r) \<longrightarrow> fo_deleted f \<noteq> None) \<longrightarrow>
       (\<forall>f \<in> set (files d). f_folder f \<in> descendants (folders d) (fo_id r) \<longrightarrow> f_deleted f \<noteq> None) \<longrightarrow>
       fo_id r \<notin> fo_id ` set (folders d')"
    using folder_purge_safe [OF d, of 100 10] by blast
  have "b \<in> set (folders d')" using live by (simp add: fs fs_def b_def sample_folder_def)
  moreover have "''a'' \<notin> fo_id ` set (folders d')"
    using gone [rule_format, of "sample_folder ''a'' None ''A'' (Some 1)"] dead fs
    by (auto simp: fs_def sample_folder_def)
  ultimately show ?thesis
    using p by (intro exI [of _ d]) (simp add: fs fs_def b_def sample_folder_def)
qed

text \<open>The cycle check and the write are separate statements, and two moves that interleave
  defeat it. There are a sound database and two sibling folders such that the checks of "move
  \<open>a\<close> under \<open>b\<close>" and of "move \<open>b\<close> under \<open>a\<close>" both pass before either write, both writes then
  succeed, and the table is left with a cycle, on which the subtree query runs forever: with
  any number of rounds it is not done.\<close>

theorem concurrent_moves_cycle:
  "\<exists>d a b d1 d2. db_inv d \<and> a \<in> set (folders d) \<and> b \<in> set (folders d) \<and>
     move_check d a (Some (Some (fo_id b))) = None \<and> move_check d b (Some (Some (fo_id a))) = None \<and>
     folder_repo_Update 1 (fo_id a) None (Some (Some (fo_id b))) d = (Inr (updated_folder 1 None (Some (Some (fo_id b))) a), d1) \<and>
     folder_repo_Update 2 (fo_id b) None (Some (Some (fo_id a))) d1 = (Inr (updated_folder 2 None (Some (Some (fo_id a))) b), d2) \<and>
     \<not> tree_ok (folders d2) \<and>
     (\<forall>n. cte (child_step (folders d2)) n [fo_id a] = None)"
proof -
  define a where "a = sample_folder ''a'' None ''A'' None"
  define b where "b = sample_folder ''b'' None ''B'' None"
  define d where "d = sample_folders_db [a, b]"
  define a' where "a' = updated_folder 1 None (Some (Some ''b'')) a"
  define b' where "b' = updated_folder 2 None (Some (Some ''a'')) b"
  note defs = a_def b_def d_def a'_def b'_def sample_db_defs
  have d: "db_inv d" unfolding d_def a_def b_def
    by (rule sample_folders_inv [where rk = "\<lambda>_. 0"])
       (auto simp: sample_folder_def names_ok_def sibling_key_def lower_char_def Let_def)
  have ab: "a \<in> set (folders d)" "b \<in> set (folders d)" "fo_id a = ''a''" "fo_id b = ''b''"
    by (simp_all add: defs)
  have no: "parent_rel (folders d) = {}" by (auto simp: parent_rel_def defs)
  have checks: "move_check d a (Some (Some ''b'')) = None" "move_check d b (Some (Some ''a'')) = None"
    using move_check_eq [OF d ab(1), of "''b''"] move_check_eq [OF d ab(2), of "''a''"] no
    by (simp_all add: defs)
  have w1: "folder_repo_Update 1 ''a'' None (Some (Some ''b'')) d = (Inr a', d\<lparr>folders := [a', b]\<rparr>)"
    by (simp add: folder_repo_Update_def Let_def defs folder_row_check_def updated_folder_def has_org_def
        has_folder_def sibling_key_def nil_uuid_def)
  have w2: "folder_repo_Update 2 ''b'' None (Some (Some ''a'')) (d\<lparr>folders := [a', b]\<rparr>) =
      (Inr b', d\<lparr>folders := [a', b']\<rparr>)"
    by (simp add: folder_repo_Update_def Let_def defs folder_row_check_def updated_folder_def has_org_def
        has_folder_def sibling_key_def)
  have steps: "child_step [a', b'] [''a''] = [''b'']" "child_step [a', b'] [''b''] = [''a'']"
    by (simp_all add: child_step_def defs updated_folder_def)
  have "cte (child_step [a', b']) n [''a''] = None \<and> cte (child_step [a', b']) n [''b''] = None" for n
    by (induction n) (simp_all add: steps)
  moreover have "\<not> tree_ok [a', b']"
  proof
    assume "tree_ok [a', b']"
    moreover have "(''a'', ''b'') \<in> parent_rel [a', b']" "(''b'', ''a'') \<in> parent_rel [a', b']"
      using parent_relI [of a' "[a', b']" "''b''"] parent_relI [of b' "[a', b']" "''a''"]
      by (simp_all add: defs updated_folder_def)
    then have "(''a'', ''a'') \<in> (parent_rel [a', b'])\<^sup>+" by (meson trancl.intros)
    ultimately show False by (simp add: tree_ok_def acyclic_def)
  qed
  ultimately show ?thesis
    using d ab checks w1 w2
    by (intro exI [of _ d] exI [of _ a] exI [of _ b] exI [of _ "d\<lparr>folders := [a', b]\<rparr>"]
        exI [of _ "d\<lparr>folders := [a', b']\<rparr>"]) (simp add: a'_def [symmetric] b'_def [symmetric])
qed

end
