(* ===== verification/Sha1.thy ===== *)
theory Sha1
  imports Nimbus_Prelude
begin

unbundle bit_operations_syntax

text \<open>
  SHA-1 (\<^verbatim>\<open>crypto/sha1\<close> of the Go standard library), which places keys on the hash ring
  and underlies the HMAC of the one-time passwords: padding to 512-bit blocks, the
  80-word message schedule, the compression rounds and the big-endian digest.
\<close>

type_synonym byte = "8 word"

definition bytes_of_string :: "string \<Rightarrow> byte list" where
  "bytes_of_string s = map (\<lambda>c. of_char c) s"

definition be32 :: "byte list \<Rightarrow> 32 word" where
  "be32 bs = foldl (\<lambda>w b. push_bit 8 w OR ucast b) 0 bs"

definition bytes32 :: "32 word \<Rightarrow> byte list" where
  "bytes32 w = [ucast (drop_bit 24 w), ucast (drop_bit 16 w), ucast (drop_bit 8 w), ucast w]"

definition bytes64 :: "64 word \<Rightarrow> byte list" where
  "bytes64 w = map (\<lambda>k. ucast (drop_bit (8 * k) w)) [7, 6, 5, 4, 3, 2, 1, 0]"

text \<open>A one bit, zeros up to 56 bytes modulo 64, and the bit length in eight bytes.\<close>

definition sha1_pad :: "byte list \<Rightarrow> byte list" where
  "sha1_pad m = m @ [0x80] @ replicate ((119 - length m mod 64) mod 64) 0 @ bytes64 (of_nat (8 * length m))"

definition rotl :: "nat \<Rightarrow> 32 word \<Rightarrow> 32 word" where
  "rotl n w = push_bit n w OR drop_bit (32 - n) w"

text \<open>The schedule is kept newest first: word \<open>t\<close> is computed from words
  \<open>t-3\<close>, \<open>t-8\<close>, \<open>t-14\<close> and \<open>t-16\<close>.\<close>

fun sha1_extend :: "nat \<Rightarrow> 32 word list \<Rightarrow> 32 word list" where
  "sha1_extend 0 ws = ws"
| "sha1_extend (Suc n) ws =
     sha1_extend n (rotl 1 (ws ! 2 XOR ws ! 7 XOR ws ! 13 XOR ws ! 15) # ws)"

fun words32 :: "byte list \<Rightarrow> 32 word list" where
  "words32 (a # b # c # d # bs) = be32 [a, b, c, d] # words32 bs"
| "words32 _ = []"

definition sha1_schedule :: "byte list \<Rightarrow> 32 word list" where
  "sha1_schedule block = rev (sha1_extend 64 (rev (words32 block)))"

type_synonym sha1_state = "32 word \<times> 32 word \<times> 32 word \<times> 32 word \<times> 32 word"

definition sha1_f :: "nat \<Rightarrow> 32 word \<Rightarrow> 32 word \<Rightarrow> 32 word \<Rightarrow> 32 word" where
  "sha1_f t b c d =
     (if t < 20 then (b AND c) OR (NOT b AND d)
      else if t < 40 then b XOR c XOR d
      else if t < 60 then (b AND c) OR (b AND d) OR (c AND d)
      else b XOR c XOR d)"

definition sha1_k :: "nat \<Rightarrow> 32 word" where
  "sha1_k t = (if t < 20 then 0x5A827999 else if t < 40 then 0x6ED9EBA1
               else if t < 60 then 0x8F1BBCDC else 0xCA62C1D6)"

fun sha1_rounds :: "nat \<Rightarrow> 32 word list \<Rightarrow> sha1_state \<Rightarrow> sha1_state" where
  "sha1_rounds t [] s = s"
| "sha1_rounds t (w # ws) (a, b, c, d, e) =
     sha1_rounds (Suc t) ws (rotl 5 a + sha1_f t b c d + e + sha1_k t + w, a, rotl 30 b, c, d)"

fun sha1_block :: "sha1_state \<Rightarrow> byte list \<Rightarrow> sha1_state" where
  "sha1_block (a, b, c, d, e) block =
     (case sha1_rounds 0 (sha1_schedule block) (a, b, c, d, e) of
        (a', b', c', d', e') \<Rightarrow> (a + a', b + b', c + c', d + d', e + e'))"

fun blocks64 :: "nat \<Rightarrow> byte list \<Rightarrow> byte list list" where
  "blocks64 0 bs = []"
| "blocks64 (Suc n) bs = take 64 bs # blocks64 n (drop 64 bs)"

definition sha1_Sum :: "byte list \<Rightarrow> byte list" where
  "sha1_Sum m =
     (let p = sha1_pad m in
      case foldl sha1_block (0x67452301, 0xEFCDAB89, 0x98BADCFE, 0x10325476, 0xC3D2E1F0)
             (blocks64 (length p div 64) p) of
        (a, b, c, d, e) \<Rightarrow> bytes32 a @ bytes32 b @ bytes32 c @ bytes32 d @ bytes32 e)"

lemma length_bytes32: "length (bytes32 w) = 4"
  by (simp add: bytes32_def)

lemma length_sha1_Sum: "length (sha1_Sum m) = 20"
  unfolding sha1_Sum_def Let_def by (simp only: length_append length_bytes32 split: prod.split) simp

end
