(* ===== verification/Hash_Ring.thy ===== *)
theory Hash_Ring
  imports Sha1 "HOL-Library.Multiset"
begin

text \<open>
  The consistent-hash ring of \<^verbatim>\<open>internal/storage/ring.go\<close>: construction from the
  configured nodes, the binary search for a key's position, and the clockwise walk that
  collects the first \<open>n\<close> distinct healthy nodes. The walk is shown equal to a reference
  placement (a prefix of the healthy part of the key's preference list), from which the
  placement contract and the stability of consistent hashing follow.
\<close>

section \<open>The ring\<close>

type_synonym NodeID = string

definition virtualNodesPerPhysical :: nat where
  "virtualNodesPerPhysical = 128"

record vnode =
  vn_hash :: "32 word"
  vn_node :: NodeID

record Ring =
  vnodes :: "vnode list"

definition hashKey :: "string \<Rightarrow> 32 word" where
  "hashKey s = be32 (take 4 (sha1_Sum (bytes_of_string s)))"

definition node_vnodes :: "NodeID \<Rightarrow> vnode list" where
  "node_vnodes nid =
     map (\<lambda>i. \<lparr>vn_hash = hashKey (nid @ ''#'' @ dec i), vn_node = nid\<rparr>)
       [0..<virtualNodesPerPhysical]"

text \<open>\<^verbatim>\<open>sort.Slice\<close> orders by hash; on equal hashes its order is unspecified and the model
  keeps insertion order.\<close>

definition BuildRing :: "NodeID list \<Rightarrow> Ring" where
  "BuildRing nodeIDs = \<lparr>vnodes = sort_key vn_hash (concat (map node_vnodes nodeIDs))\<rparr>"

definition VNodes :: "Ring \<Rightarrow> (32 word \<times> NodeID) list" where
  "VNodes r = map (\<lambda>vn. (vn_hash vn, vn_node vn)) (vnodes r)"

definition PositionOf :: "string \<Rightarrow> 32 word" where
  "PositionOf key = hashKey key"

text \<open>\<^verbatim>\<open>sort.Search\<close> of the standard library.\<close>

function sort_Search_loop :: "(nat \<Rightarrow> bool) \<Rightarrow> nat \<Rightarrow> nat \<Rightarrow> nat" where
  "sort_Search_loop f i j =
     (if i < j then
        (let h = (i + j) div 2
         in if \<not> f h then sort_Search_loop f (h + 1) j else sort_Search_loop f i h)
      else i)"
  by pat_completeness auto
termination
  by (relation "measure (\<lambda>(f, i, j). j - i)") auto

declare sort_Search_loop.simps [simp del]

definition sort_Search :: "nat \<Rightarrow> (nat \<Rightarrow> bool) \<Rightarrow> nat" where
  "sort_Search n f = sort_Search_loop f 0 n"

definition ring_search :: "Ring \<Rightarrow> 32 word \<Rightarrow> nat" where
  "ring_search r h =
     (let idx = sort_Search (length (vnodes r)) (\<lambda>i. h \<le> vn_hash (vnodes r ! i))
      in if idx = length (vnodes r) then 0 else idx)"

function select_loop ::
  "vnode list \<Rightarrow> nat \<Rightarrow> int \<Rightarrow> (NodeID \<Rightarrow> bool) \<Rightarrow> nat \<Rightarrow> NodeID list \<Rightarrow> NodeID list \<Rightarrow> NodeID list"
where
  "select_loop vs start n isHealthy i seen out =
     (if i < length vs \<and> int (length out) < n then
        (let vn = vs ! ((start + i) mod length vs)
         in if vn_node vn \<in> set seen then select_loop vs start n isHealthy (Suc i) seen out
            else if isHealthy (vn_node vn)
              then select_loop vs start n isHealthy (Suc i) (vn_node vn # seen) (out @ [vn_node vn])
              else select_loop vs start n isHealthy (Suc i) (vn_node vn # seen) out)
      else out)"
  by pat_completeness auto
termination
  by (relation "measure (\<lambda>(vs, start, n, ok, i, seen, out). length vs - i)") auto

declare select_loop.simps [simp del]

definition SelectReplicas ::
  "Ring \<Rightarrow> string \<Rightarrow> int \<Rightarrow> (NodeID \<Rightarrow> bool) \<Rightarrow> NodeID list \<times> goerr option"
where
  "SelectReplicas r chunkHash n isHealthy =
     (if vnodes r = [] then ([], Some (Storage ErrNoNodes))
      else
        (let start = ring_search r (hashKey chunkHash);
             out = select_loop (vnodes r) start n isHealthy 0 [] []
         in if int (length out) < n then (out, Some (Storage ErrInsufficientHealthyNodes))
            else (out, None)))"

section \<open>Reference placement\<close>

text \<open>\<open>firsts\<close> keeps the first occurrence of every element; a key's preference list is the
  distinct nodes met on a full clockwise turn from its position.\<close>

fun firsts :: "'a list \<Rightarrow> 'a list" where
  "firsts [] = []"
| "firsts (x # xs) = x # filter (\<lambda>y. y \<noteq> x) (firsts xs)"

definition preference :: "Ring \<Rightarrow> string \<Rightarrow> NodeID list" where
  "preference r key = firsts (map vn_node (rotate (ring_search r (hashKey key)) (vnodes r)))"

definition ring_sorted :: "Ring \<Rightarrow> bool" where
  "ring_sorted r \<longleftrightarrow> sorted (map vn_hash (vnodes r))"

lemma set_firsts [simp]: "set (firsts xs) = set xs"
  by (induction xs) auto

lemma distinct_firsts [simp]: "distinct (firsts xs)"
  by (induction xs) auto

lemma firsts_filter: "firsts (filter P xs) = filter P (firsts xs)"
proof (induction xs)
  case (Cons x xs)
  have "filter (\<lambda>y. y \<noteq> x) (filter P (firsts xs)) = filter P (filter (\<lambda>y. y \<noteq> x) (firsts xs))"
    by (simp add: conj_commute)
  moreover have "\<not> P x \<Longrightarrow> filter P (filter (\<lambda>y. y \<noteq> x) (firsts xs)) = filter P (firsts xs)"
    by (auto intro: filter_cong)
  ultimately show ?case using Cons.IH by auto
qed simp

lemma firsts_excl_step:
  "filter (\<lambda>y. y \<notin> set seen) (firsts (x # xs)) =
     (if x \<in> set seen then filter (\<lambda>y. y \<notin> set seen) (firsts xs)
      else x # filter (\<lambda>y. y \<notin> set (x # seen)) (firsts xs))"
  by (auto intro!: filter_cong)

section \<open>The binary search finds the key's position\<close>

lemma sort_Search_loop_spec:
  assumes "\<And>a b. a \<le> b \<Longrightarrow> b < n \<Longrightarrow> f a \<Longrightarrow> f b"
    and "i \<le> j" and "j \<le> n"
    and "\<forall>k < i. \<not> f k" and "\<forall>k. j \<le> k \<and> k < n \<longrightarrow> f k"
  shows "sort_Search_loop f i j \<le> n \<and> (\<forall>k < sort_Search_loop f i j. \<not> f k) \<and>
    (\<forall>k. sort_Search_loop f i j \<le> k \<and> k < n \<longrightarrow> f k)"
  using assms
proof (induction f i j rule: sort_Search_loop.induct)
  case (1 f i j)
  show ?case
  proof (cases "i < j")
    case True
    define h where "h = (i + j) div 2"
    have h: "i \<le> h" "h < j" using True by (auto simp: h_def)
    show ?thesis
    proof (cases "f h")
      case True
      have "\<forall>k. h \<le> k \<and> k < n \<longrightarrow> f k" using True "1.prems"(1) by blast
      with "1.IH"(2) [OF \<open>i < j\<close> h_def] True h "1.prems" show ?thesis
        by (simp add: sort_Search_loop.simps [of f i j] Let_def flip: h_def)
    next
      case False
      have "\<forall>k < h + 1. \<not> f k"
        using False "1.prems"(1,3) h by (metis less_Suc_eq_le Suc_eq_plus1 order_less_le_trans)
      with "1.IH"(1) [OF \<open>i < j\<close> h_def] False h "1.prems" show ?thesis
        by (simp add: sort_Search_loop.simps [of f i j] Let_def flip: h_def)
    qed
  next
    case False
    then have "sort_Search_loop f i j = i" by (subst sort_Search_loop.simps) simp
    with False "1.prems" show ?thesis by auto
  qed
qed

text \<open>On a sorted table, the walk from \<open>ring_search r h\<close> meets the vnodes at or after \<open>h\<close>
  first and then wraps around to the ones before it.\<close>

lemma sorted_split_take_drop:
  fixes key :: "'a \<Rightarrow> 'k :: linorder"
  assumes "\<forall>k < m. key (xs ! k) < h" and "\<forall>k. m \<le> k \<and> k < length xs \<longrightarrow> h \<le> key (xs ! k)"
    and "m \<le> length xs"
  shows "take m xs = filter (\<lambda>x. key x < h) xs" and "drop m xs = filter (\<lambda>x. h \<le> key x) xs"
proof -
  have t: "\<forall>x \<in> set (take m xs). key x < h"
    using assms(1,3) by (auto simp: in_set_conv_nth)
  have d: "\<forall>x \<in> set (drop m xs). h \<le> key x"
    using assms(2,3) by (auto simp: in_set_conv_nth)
  have split: "filter P xs = filter P (take m xs) @ filter P (drop m xs)" for P
    by (metis append_take_drop_id filter_append)
  show "take m xs = filter (\<lambda>x. key x < h) xs"
    using t d by (simp add: split filter_id_conv filter_empty_conv not_less)
  show "drop m xs = filter (\<lambda>x. h \<le> key x) xs"
    using t d by (simp add: split filter_id_conv filter_empty_conv not_le)
qed

lemma rotate_ring_search:
  assumes "ring_sorted r"
  shows "rotate (ring_search r h) (vnodes r) =
    filter (\<lambda>v. h \<le> vn_hash v) (vnodes r) @ filter (\<lambda>v. vn_hash v < h) (vnodes r)"
proof -
  let ?vs = "vnodes r" and ?f = "\<lambda>i. h \<le> vn_hash (vnodes r ! i)"
  define m where "m = sort_Search (length ?vs) ?f"
  have mono: "\<And>a b. a \<le> b \<Longrightarrow> b < length ?vs \<Longrightarrow> ?f a \<Longrightarrow> ?f b"
  proof -
    fix a b assume "a \<le> b" and b: "b < length ?vs" and "?f a"
    then have "vn_hash (?vs ! a) \<le> vn_hash (?vs ! b)"
      using assms sorted_nth_mono [of "map vn_hash ?vs" a b] by (simp add: ring_sorted_def)
    with \<open>?f a\<close> show "?f b" by (rule order_trans)
  qed
  have "m \<le> length ?vs \<and> (\<forall>k < m. \<not> ?f k) \<and> (\<forall>k. m \<le> k \<and> k < length ?vs \<longrightarrow> ?f k)"
    unfolding m_def sort_Search_def
    by (rule sort_Search_loop_spec [of "length ?vs"]) (rule mono, assumption+ | simp | force)+
  then have spec: "m \<le> length ?vs" "\<forall>k < m. \<not> ?f k" "\<forall>k. m \<le> k \<and> k < length ?vs \<longrightarrow> ?f k"
    by blast+
  have *: "take m ?vs = filter (\<lambda>v. vn_hash v < h) ?vs" "drop m ?vs = filter (\<lambda>v. h \<le> vn_hash v) ?vs"
    using sorted_split_take_drop [of m vn_hash ?vs h] spec by (auto simp: not_le)
  show ?thesis
  proof (cases "m = length ?vs")
    case True
    with * have "filter (\<lambda>v. vn_hash v < h) ?vs = ?vs" "filter (\<lambda>v. h \<le> vn_hash v) ?vs = []"
      by simp_all
    with True show ?thesis by (simp add: ring_search_def Let_def m_def)
  next
    case False
    with spec(1) have "m < length ?vs" by simp
    with False * show ?thesis
      by (simp add: ring_search_def Let_def rotate_drop_take flip: m_def)
  qed
qed

section \<open>The walk computes a prefix of the healthy preference list\<close>

lemma select_loop_spec:
  "select_loop vs start n ok i seen out =
     out @ take (nat (n - int (length out)))
       (filter ok (filter (\<lambda>y. y \<notin> set seen) (firsts (map vn_node (drop i (rotate start vs))))))"
proof (induction vs start n ok i seen out rule: select_loop.induct)
  case (1 vs start n ok i seen out)
  show ?case
  proof (cases "i < length vs \<and> int (length out) < n")
    case True
    define vn where "vn = vs ! ((start + i) mod length vs)"
    have dr: "drop i (rotate start vs) = vn # drop (Suc i) (rotate start vs)"
      using True by (simp add: Cons_nth_drop_Suc [symmetric] nth_rotate vn_def)
    define k where "k = nat (n - int (length out) - 1)"
    have n: "nat (n - int (length out)) = Suc k" "nat (n - (1 + int (length out))) = k"
      using True by (auto simp: k_def)
    show ?thesis
      using "1.IH" True
      by (simp add: select_loop.simps [of vs start n ok i seen out] Let_def dr firsts_excl_step n
          flip: vn_def del: firsts.simps)
  next
    case False
    then have "drop i (rotate start vs) = [] \<or> nat (n - int (length out)) = 0" by auto
    with False show ?thesis by (auto simp: select_loop.simps [of vs start n ok i seen out])
  qed
qed

lemma select_loop_prefix:
  "select_loop (vnodes r) (ring_search r (hashKey key)) n ok 0 [] [] =
     take (nat n) (filter ok (preference r key))"
  by (simp add: select_loop_spec preference_def)

section \<open>The ring built from the configured nodes\<close>

lemma node_vnodes_node: "v \<in> set (node_vnodes nid) \<Longrightarrow> vn_node v = nid"
  by (auto simp: node_vnodes_def)

lemma node_vnodes_nonempty: "node_vnodes nid \<noteq> []"
  by (simp add: node_vnodes_def virtualNodesPerPhysical_def)

lemma BuildRing_sorted: "ring_sorted (BuildRing ids)"
  by (simp add: ring_sorted_def BuildRing_def)

lemma BuildRing_nodes: "vn_node ` set (vnodes (BuildRing ids)) = set ids"
proof -
  have "vn_node ` set (node_vnodes nid) = {nid}" for nid
    using node_vnodes_node [of _ nid] node_vnodes_nonempty [of nid]
    by (cases "node_vnodes nid") (auto simp: image_iff)
  then show ?thesis by (simp add: BuildRing_def image_UN)
qed

lemma BuildRing_empty_iff [simp]: "vnodes (BuildRing ids) = [] \<longleftrightarrow> ids = []"
  using BuildRing_nodes [of ids] by (metis image_is_empty set_empty)

lemma set_preference: "set (preference r key) = vn_node ` set (vnodes r)"
  by (simp add: preference_def)

lemma distinct_preference [simp]: "distinct (preference r key)"
  by (simp add: preference_def)

lemma preference_BuildRing: "set (preference (BuildRing ids) key) = set ids"
  by (simp add: set_preference BuildRing_nodes)

lemma length_healthy_preference:
  "length (filter ok (preference (BuildRing ids) key)) = card {i \<in> set ids. ok i}"
proof -
  have "length (filter ok (preference (BuildRing ids) key)) =
    card (set (filter ok (preference (BuildRing ids) key)))"
    by (rule distinct_card [symmetric]) simp
  also have "set (filter ok (preference (BuildRing ids) key)) = {i \<in> set ids. ok i}"
    by (auto simp: preference_BuildRing)
  finally show ?thesis .
qed

text \<open>Dropping a node's vnodes from a sorted table drops the node from every preference
  list and moves nothing else.\<close>

lemma preference_filter:
  assumes "ring_sorted r"
  shows "preference (r\<lparr>vnodes := filter (\<lambda>v. vn_node v \<noteq> x) (vnodes r)\<rparr>) key =
    filter (\<lambda>y. y \<noteq> x) (preference r key)"
proof -
  let ?r' = "r\<lparr>vnodes := filter (\<lambda>v. vn_node v \<noteq> x) (vnodes r)\<rparr>"
  have "ring_sorted ?r'" using assms by (simp add: ring_sorted_def sorted_filter)
  then have "rotate (ring_search ?r' (hashKey key)) (vnodes ?r') =
    filter (\<lambda>v. vn_node v \<noteq> x) (rotate (ring_search r (hashKey key)) (vnodes r))"
    using rotate_ring_search [of ?r' "hashKey key"] rotate_ring_search [OF assms, of "hashKey key"]
    by (simp add: conj_commute)
  then show ?thesis
    by (simp add: preference_def filter_map o_def flip: firsts_filter)
qed

lemma BuildRing_filter:
  "BuildRing (filter (\<lambda>y. y \<noteq> x) ids) =
     (BuildRing ids)\<lparr>vnodes := filter (\<lambda>v. vn_node v \<noteq> x) (vnodes (BuildRing ids))\<rparr>"
proof -
  have "filter (\<lambda>v. vn_node v \<noteq> x) (node_vnodes nid) = (if nid = x then [] else node_vnodes nid)" for nid
    using node_vnodes_node [of _ nid] by (auto simp: filter_empty_conv filter_id_conv)
  then have "concat (map node_vnodes (filter (\<lambda>y. y \<noteq> x) ids)) =
    filter (\<lambda>v. vn_node v \<noteq> x) (concat (map node_vnodes ids))"
    by (induction ids) auto
  then show ?thesis by (simp add: BuildRing_def filter_sort)
qed

section \<open>Placement properties\<close>

text \<open>C3: \<^verbatim>\<open>SelectReplicas\<close>, the index loop with its modular arithmetic, seen-set and early
  exit, returns exactly the first \<open>n\<close> healthy nodes of the key's preference list; when there
  are fewer it returns all of them with \<^verbatim>\<open>ErrInsufficientHealthyNodes\<close>, and on an empty
  ring \<^verbatim>\<open>ErrNoNodes\<close>.\<close>

theorem SelectReplicas_refines:
  "SelectReplicas r chunkHash n isHealthy =
     (if vnodes r = [] then ([], Some (Storage ErrNoNodes))
      else
        (let hs = filter isHealthy (preference r chunkHash)
         in if n \<le> int (length hs) then (take (nat n) hs, None)
            else (hs, Some (Storage ErrInsufficientHealthyNodes))))"
  by (simp add: SelectReplicas_def Let_def select_loop_prefix)

text \<open>The list of replicas, whatever the error.\<close>

lemma fst_SelectReplicas:
  "fst (SelectReplicas r key n ok) = take (nat n) (filter ok (preference r key))"
  by (simp add: SelectReplicas_def Let_def select_loop_prefix preference_def)

lemma SelectReplicas_None_iff:
  "snd (SelectReplicas r key n ok) = None \<longleftrightarrow>
     vnodes r \<noteq> [] \<and> n \<le> int (length (filter ok (preference r key)))"
  by (auto simp: SelectReplicas_def Let_def select_loop_prefix split: if_splits)

lemma take_filter_neq:
  assumes "distinct hs"
  shows "\<exists>rest. take n (filter (\<lambda>y. y \<noteq> x) hs) = filter (\<lambda>y. y \<noteq> x) (take n hs) @ rest \<and> length rest \<le> 1"
proof -
  let ?f = "filter (\<lambda>y. y \<noteq> x)"
  have split: "?f hs = ?f (take n hs) @ ?f (drop n hs)"
    by (metis append_take_drop_id filter_append)
  have "length (take n hs) \<le> length (?f (take n hs)) + 1"
  proof -
    have "length (take n hs) = length (?f (take n hs)) + length (filter (\<lambda>y. y = x) (take n hs))"
      using sum_length_filter_compl [of "\<lambda>y. y \<noteq> x" "take n hs"] by simp
    moreover have "length (filter (\<lambda>y. y = x) (take n hs)) \<le> 1"
      using assms by (simp add: distinct_length_filter card_le_Suc0_iff_eq)
    ultimately show ?thesis by simp
  qed
  moreover have "drop n hs = [] \<or> length (take n hs) = n" by auto
  ultimately have "?f (drop n hs) = [] \<or> n - length (?f (take n hs)) \<le> 1" by auto
  moreover have "length (?f (take n hs)) \<le> n"
    by (metis length_filter_le length_take min.bounded_iff)
  ultimately show ?thesis by (intro exI [of _ "take (n - length (?f (take n hs))) (?f (drop n hs))"])
      (auto simp: split)
qed

lemma SelectReplicas_contract:
  assumes "ids \<noteq> []" and "0 \<le> n"
    and "SelectReplicas (BuildRing ids) chunkHash n isHealthy = (out, err)"
  shows "(err = None \<longleftrightarrow> nat n \<le> card {i \<in> set ids. isHealthy i}) \<and>
    (err = None \<longrightarrow> length out = nat n) \<and>
    distinct out \<and> set out \<subseteq> {i \<in> set ids. isHealthy i}"
proof -
  let ?hs = "filter isHealthy (preference (BuildRing ids) chunkHash)"
  have "length ?hs = card {i \<in> set ids. isHealthy i}" by (rule length_healthy_preference)
  moreover have "set ?hs = {i \<in> set ids. isHealthy i}" by (auto simp: preference_BuildRing)
  moreover have "distinct ?hs" by simp
  moreover have "SelectReplicas (BuildRing ids) chunkHash n isHealthy =
    (if n \<le> int (length ?hs) then (take (nat n) ?hs, None)
     else (?hs, Some (Storage ErrInsufficientHealthyNodes)))"
    using assms(1) by (simp add: SelectReplicas_def Let_def select_loop_prefix)
  ultimately show ?thesis
    using assms(2,3) set_take_subset [of "nat n" ?hs] distinct_take [of ?hs "nat n"]
    by (simp add: le_nat_iff nat_le_iff split: if_splits)
qed

text \<open>C4: on the ring built from the configured nodes, placement of \<open>n\<close> replicas succeeds
  exactly when at least \<open>n\<close> configured nodes are healthy, and it then yields \<open>n\<close> pairwise
  distinct, healthy, configured nodes.\<close>

theorem SelectReplicas_quorum:
  assumes "ids \<noteq> []" and "0 \<le> n"
    and "SelectReplicas (BuildRing ids) chunkHash n isHealthy = (out, err)"
  shows "(err = None \<longleftrightarrow> nat n \<le> card {i \<in> set ids. isHealthy i}) \<and>
    (err = None \<longrightarrow> length out = nat n) \<and>
    distinct out \<and> set out \<subseteq> {i \<in> set ids. isHealthy i}"
  using assms by (rule SelectReplicas_contract)

theorem SelectReplicas_quorum_witness:
  "\<exists>out. SelectReplicas (BuildRing [''n1'', ''n2'']) ''k'' 1 (\<lambda>i. i = ''n2'') = (out, None) \<and>
     length out = 1 \<and> set out \<subseteq> {''n2''}"
proof -
  obtain out err where *: "SelectReplicas (BuildRing [''n1'', ''n2'']) ''k'' 1 (\<lambda>i. i = ''n2'') = (out, err)"
    by fastforce
  have "{i \<in> set [''n1'', ''n2'']. i = ''n2''} = {''n2''}" by auto
  with SelectReplicas_quorum [OF _ _ *] * show ?thesis by simp
qed


text \<open>C6: failover is local: when a node outside a chunk's current replica set goes down,
  the chunk's placement does not change; when a replica goes down, the surviving replicas
  keep their places and only a successor is added.\<close>

theorem SelectReplicas_failover:
  assumes "SelectReplicas r chunkHash n ok = (out, None)"
  shows "(x \<notin> set out \<longrightarrow> SelectReplicas r chunkHash n (\<lambda>i. ok i \<and> i \<noteq> x) = (out, None)) \<and>
    (\<exists>rest. fst (SelectReplicas r chunkHash n (\<lambda>i. ok i \<and> i \<noteq> x)) =
      filter (\<lambda>i. i \<noteq> x) out @ rest \<and> length rest \<le> 1)"
proof -
  define hs where "hs = filter ok (preference r chunkHash)"
  let ?sel = "SelectReplicas r chunkHash n (\<lambda>i. ok i \<and> i \<noteq> x)"
  have hs': "filter (\<lambda>i. ok i \<and> i \<noteq> x) (preference r chunkHash) = filter (\<lambda>i. i \<noteq> x) hs"
    by (simp add: hs_def conj_commute)
  have out: "out = take (nat n) hs" and v: "vnodes r \<noteq> []" "n \<le> int (length hs)"
    using assms fst_SelectReplicas [of r chunkHash n ok] SelectReplicas_None_iff [of r chunkHash n ok]
    by (simp_all add: hs_def)
  have fst: "fst ?sel = take (nat n) (filter (\<lambda>i. i \<noteq> x) hs)"
    by (simp only: fst_SelectReplicas hs')
  obtain rest where rest: "fst ?sel = filter (\<lambda>i. i \<noteq> x) out @ rest" "length rest \<le> 1"
    using take_filter_neq [of hs "nat n" x] by (auto simp: fst out hs_def)
  have "?sel = (out, None)" if "x \<notin> set out"
  proof -
    have "filter (\<lambda>i. i \<noteq> x) out = out" using that by (auto simp: filter_id_conv)
    moreover have "length out = nat n" using out v by simp
    moreover have "length (fst ?sel) \<le> nat n" by (simp add: fst)
    ultimately have f: "fst ?sel = out" using rest by simp
    then have "length out \<le> length (filter (\<lambda>i. i \<noteq> x) hs)" using fst by (metis length_take min.cobounded1)
    then have "snd ?sel = None"
      using v \<open>length out = nat n\<close> by (simp add: SelectReplicas_None_iff hs')
    with f show ?thesis by (metis prod.collapse)
  qed
  with rest show ?thesis by blast
qed

theorem SelectReplicas_failover_witness:
  "\<exists>out. SelectReplicas (BuildRing [''n1'', ''n2'']) ''k'' 1 (\<lambda>i. True) = (out, None) \<and>
     (\<exists>x. x \<notin> set out \<and> SelectReplicas (BuildRing [''n1'', ''n2'']) ''k'' 1 (\<lambda>i. True \<and> i \<noteq> x) = (out, None))"
proof -
  let ?r = "BuildRing [''n1'', ''n2'']"
  have "length (preference ?r ''k'') = 2"
    using distinct_card [OF distinct_preference, of ?r "''k''"] by (simp add: preference_BuildRing)
  then obtain out where out: "SelectReplicas ?r ''k'' 1 (\<lambda>i. True) = (out, None)"
    using SelectReplicas_None_iff [of ?r "''k''" 1 "\<lambda>i. True"]
    by (cases "SelectReplicas ?r ''k'' 1 (\<lambda>i. True)") auto
  then have "length out \<le> 1"
    using fst_SelectReplicas [of ?r "''k''" 1 "\<lambda>i. True"] by simp
  then obtain x where x: "x \<notin> set out" using ex_new_if_finite [of "set out"] infinite_UNIV_listI by blast
  from SelectReplicas_failover [OF out, of x] x have
    "SelectReplicas ?r ''k'' 1 (\<lambda>i. True \<and> i \<noteq> x) = (out, None)" by blast
  with out x show ?thesis by blast
qed

end
