(* ===== verification/Router.thy ===== *)
theory Router
  imports Complex_Main Hash_Ring "HOL-Library.AList"
begin

text \<open>
  Node health and placement (\<^verbatim>\<open>internal/storage/breaker.go\<close> and
  \<^verbatim>\<open>internal/storage/router.go\<close>): the two-state circuit breaker, the in-memory health and
  latency view, one health probe with its persistent and published side effects, and the
  latency-tiered \<^verbatim>\<open>Resolve\<close>. The network is an argument: a probe's outcome and round-trip
  time, and the construction of a MinIO client from an endpoint.
\<close>

section \<open>Circuit breaker\<close>

definition failureThreshold :: int where
  "failureThreshold = 3"

datatype breakerState = bClosed | bOpen

record breaker =
  b_state :: breakerState
  b_failures :: int

definition newBreaker :: breaker where
  "newBreaker = \<lparr>b_state = bClosed, b_failures = 0\<rparr>"

definition recordSuccess :: "breaker \<Rightarrow> breaker \<times> bool" where
  "recordSuccess b = (b\<lparr>b_failures := 0, b_state := bClosed\<rparr>, b_state b \<noteq> bClosed)"

definition recordFailure :: "breaker \<Rightarrow> breaker \<times> bool" where
  "recordFailure b =
     (let n = b_failures b + 1;
          st = (if failureThreshold \<le> n then bOpen else b_state b)
      in (b\<lparr>b_failures := n, b_state := st\<rparr>, b_state b \<noteq> st))"

definition isOpen :: "breaker \<Rightarrow> bool" where
  "isOpen b \<longleftrightarrow> b_state b = bOpen"

section \<open>Router state\<close>

datatype NodeStatus = StatusHealthy | StatusDown

definition NodeStatus_String :: "NodeStatus \<Rightarrow> string" where
  "NodeStatus_String s = (if s = StatusHealthy then ''healthy'' else ''down'')"

record StorageNode =
  sn_id :: NodeID
  sn_endpoint :: string
  sn_public :: string

text \<open>Go maps are association lists with distinct keys; \<open>rt_internal\<close> and \<open>rt_public\<close> give
  the endpoint a node's MinIO clients dial. Reading a missing key yields the zero value:
  \<open>StatusHealthy\<close> for a status, 0 for a latency.\<close>

record Router =
  rt_ring :: Ring
  rt_nodes :: "(NodeID \<times> StorageNode) list"
  rt_breakers :: "(NodeID \<times> breaker) list"
  rt_health :: "(NodeID \<times> NodeStatus) list"
  rt_latency :: "(NodeID \<times> duration) list"
  rt_slow :: duration
  rt_internal :: "(NodeID \<times> string) list"
  rt_public :: "(NodeID \<times> string) list"

definition health_of :: "Router \<Rightarrow> NodeID \<Rightarrow> NodeStatus" where
  "health_of rt nid = (case map_of (rt_health rt) nid of None \<Rightarrow> StatusHealthy | Some s \<Rightarrow> s)"

definition latency_of :: "Router \<Rightarrow> NodeID \<Rightarrow> duration" where
  "latency_of rt nid = (case map_of (rt_latency rt) nid of None \<Rightarrow> 0 | Some d \<Rightarrow> d)"

text \<open>\<^verbatim>\<open>NewRouter\<close>: \<open>mkClient\<close> is \<^verbatim>\<open>buildMinIOClient\<close>, which fails on an endpoint it cannot
  parse. The loop registers a node before it builds the node's clients and stops at the
  first failure.\<close>

definition empty_router :: "duration \<Rightarrow> Router" where
  "empty_router slow =
     \<lparr>rt_ring = \<lparr>vnodes = []\<rparr>, rt_nodes = [], rt_breakers = [], rt_health = [], rt_latency = [],
      rt_slow = slow, rt_internal = [], rt_public = []\<rparr>"

definition add_node :: "(string \<Rightarrow> bool) \<Rightarrow> StorageNode \<Rightarrow> Router \<Rightarrow> Router res" where
  "add_node mkClient n rt =
     (let rt1 = rt\<lparr>rt_nodes := AList.update (sn_id n) n (rt_nodes rt),
                   rt_breakers := AList.update (sn_id n) newBreaker (rt_breakers rt),
                   rt_health := AList.update (sn_id n) StatusHealthy (rt_health rt)\<rparr>
      in if \<not> mkClient (sn_endpoint n) then Inl IOError
         else if \<not> mkClient (sn_public n) then Inl IOError
         else Inr (rt1\<lparr>rt_internal := AList.update (sn_id n) (sn_endpoint n) (rt_internal rt1),
                       rt_public := AList.update (sn_id n) (sn_public n) (rt_public rt1)\<rparr>))"

fun add_nodes :: "(string \<Rightarrow> bool) \<Rightarrow> StorageNode list \<Rightarrow> Router \<Rightarrow> Router res" where
  "add_nodes mkClient [] rt = Inr rt"
| "add_nodes mkClient (n # ns) rt =
     (case add_node mkClient n rt of Inl e \<Rightarrow> Inl e | Inr rt' \<Rightarrow> add_nodes mkClient ns rt')"

definition NewRouter :: "(string \<Rightarrow> bool) \<Rightarrow> StorageNode list \<Rightarrow> duration \<Rightarrow> Router res" where
  "NewRouter mkClient nodes slowThreshold =
     (case add_nodes mkClient nodes (empty_router slowThreshold) of
        Inl e \<Rightarrow> Inl e
      | Inr rt \<Rightarrow> Inr (rt\<lparr>rt_ring := BuildRing (map sn_id nodes)\<rparr>))"

section \<open>Placement\<close>

definition isFast :: "Router \<Rightarrow> NodeID \<Rightarrow> bool" where
  "isFast rt nid \<longleftrightarrow> health_of rt nid = StatusHealthy \<and> latency_of rt nid < rt_slow rt"

definition Resolve :: "Router \<Rightarrow> string \<Rightarrow> int \<Rightarrow> NodeID list \<times> goerr option" where
  "Resolve rt chunkHash n =
     (let slowPass = SelectReplicas (rt_ring rt) chunkHash n (\<lambda>i. health_of rt i = StatusHealthy)
      in if 0 < rt_slow rt then
           (case SelectReplicas (rt_ring rt) chunkHash n (isFast rt) of
              (fast, None) \<Rightarrow> (fast, None)
            | (_, Some _) \<Rightarrow> slowPass)
         else slowPass)"

definition Candidates :: "Router \<Rightarrow> string \<Rightarrow> NodeID list \<times> goerr option" where
  "Candidates rt key = SelectReplicas (rt_ring rt) key (int (length (rt_nodes rt))) (\<lambda>_. True)"

definition RingSnapshot :: "Router \<Rightarrow> (32 word \<times> NodeID) list" where
  "RingSnapshot rt = VNodes (rt_ring rt)"

definition IsHealthy :: "Router \<Rightarrow> NodeID \<Rightarrow> bool" where
  "IsHealthy rt nid \<longleftrightarrow> health_of rt nid = StatusHealthy"

section \<open>Health probes\<close>

text \<open>The rolling average is float64 arithmetic: \<open>fl\<close> is its rounding, applied after every
  conversion and operation; the conversion back to an integer duration truncates.\<close>

definition trunc :: "rat \<Rightarrow> int" where
  "trunc x = (if x < 0 then - \<lfloor>- x\<rfloor> else \<lfloor>x\<rfloor>)"

definition ewma :: "(rat \<Rightarrow> rat) \<Rightarrow> duration \<Rightarrow> duration \<Rightarrow> duration" where
  "ewma fl rtt prev =
     trunc (fl (fl (fl (3 / 10) * fl (of_int rtt)) + fl (fl (7 / 10) * fl (of_int prev))))"

definition recordLatency :: "(rat \<Rightarrow> rat) \<Rightarrow> NodeID \<Rightarrow> duration \<Rightarrow> Router \<Rightarrow> Router" where
  "recordLatency fl nid rtt rt =
     (case map_of (rt_latency rt) nid of
        None \<Rightarrow> rt\<lparr>rt_latency := AList.update nid rtt (rt_latency rt)\<rparr>
      | Some prev \<Rightarrow> rt\<lparr>rt_latency := AList.update nid (ewma fl rtt prev) (rt_latency rt)\<rparr>)"

text \<open>What a probe writes outside the process, in order: the Redis status and heartbeat keys,
  the \<^verbatim>\<open>storage_nodes\<close> row, and the published transition.\<close>

datatype probe_effect =
    RedisSetStatus NodeID
  | RedisSetHeartbeat NodeID time
  | RepoSetHealthy NodeID time
  | RepoSetDown NodeID
  | PublishHealthChange NodeID NodeStatus

text \<open>One probe; \<open>None\<close> is the nil-pointer panic on a node without a breaker.\<close>

definition probeOne ::
  "(rat \<Rightarrow> rat) \<Rightarrow> time \<Rightarrow> NodeID \<Rightarrow> bool \<Rightarrow> duration \<Rightarrow> Router \<Rightarrow> (Router \<times> probe_effect list) option"
where
  "probeOne fl now nid ok rtt rt =
     (let rt1 = (if ok then recordLatency fl nid rtt rt else rt)
      in case map_of (rt_breakers rt1) nid of
           None \<Rightarrow> None
         | Some b \<Rightarrow>
             (let (b', changed) = (if ok then recordSuccess b else recordFailure b);
                  newStatus = (if isOpen b' then StatusDown else StatusHealthy);
                  rt2 = rt1\<lparr>rt_breakers := AList.update nid b' (rt_breakers rt1),
                            rt_health := AList.update nid newStatus (rt_health rt1)\<rparr>;
                  persist = (if ok then [RedisSetStatus nid, RedisSetHeartbeat nid now, RepoSetHealthy nid now]
                             else if changed then [RepoSetDown nid] else []);
                  publish = (if changed then [PublishHealthChange nid newStatus] else [])
              in Some (rt2, persist @ publish)))"

text \<open>\<^verbatim>\<open>probeAll\<close> probes every configured node concurrently; the outcomes are consumed in some
  order, and \<open>probe_run\<close> consumes any sequence of outcomes.\<close>

fun probe_run ::
  "(rat \<Rightarrow> rat) \<Rightarrow> (time \<times> NodeID \<times> bool \<times> duration) list \<Rightarrow> Router \<Rightarrow> (Router \<times> probe_effect list) option"
where
  "probe_run fl [] rt = Some (rt, [])"
| "probe_run fl ((now, nid, ok, rtt) # ps) rt =
     (case probeOne fl now nid ok rtt rt of
        None \<Rightarrow> None
      | Some (rt', es) \<Rightarrow>
          (case probe_run fl ps rt' of None \<Rightarrow> None | Some (rt'', es') \<Rightarrow> Some (rt'', es @ es')))"

section \<open>The breaker counts trailing failures\<close>

definition breaker_step :: "bool \<Rightarrow> breaker \<Rightarrow> breaker" where
  "breaker_step ok b = fst (if ok then recordSuccess b else recordFailure b)"

fun trailing_failures :: "bool list \<Rightarrow> nat" where
  "trailing_failures rs = length (takeWhile Not (rev rs))"

lemma trailing_failures_snoc:
  "trailing_failures (rs @ [ok]) = (if ok then 0 else Suc (trailing_failures rs))"
  by simp

declare trailing_failures.simps [simp del]

lemma breaker_run:
  "fold breaker_step rs newBreaker =
     \<lparr>b_state = (if failureThreshold \<le> int (trailing_failures rs) then bOpen else bClosed),
      b_failures = int (trailing_failures rs)\<rparr>"
proof (induction rs rule: rev_induct)
  case Nil
  show ?case by (simp add: newBreaker_def trailing_failures.simps failureThreshold_def)
next
  case (snoc ok rs)
  then show ?case
    by (auto simp: breaker_step_def recordSuccess_def recordFailure_def trailing_failures_snoc
        failureThreshold_def Let_def)
qed

section \<open>One probe, field by field\<close>

definition status_of :: "breaker \<Rightarrow> NodeStatus" where
  "status_of b = (if isOpen b then StatusDown else StatusHealthy)"

lemma recordLatency_frame [simp]:
  "rt_breakers (recordLatency fl nid rtt rt) = rt_breakers rt"
  "rt_health (recordLatency fl nid rtt rt) = rt_health rt"
  "rt_nodes (recordLatency fl nid rtt rt) = rt_nodes rt"
  "rt_ring (recordLatency fl nid rtt rt) = rt_ring rt"
  by (simp_all add: recordLatency_def split: option.split)

lemma probe_changed_iff:
  "snd (if ok then recordSuccess b else recordFailure b) \<longleftrightarrow>
     status_of (breaker_step ok b) \<noteq> status_of b"
  by (cases "b_state b")
    (auto simp: recordSuccess_def recordFailure_def breaker_step_def status_of_def isOpen_def Let_def)

lemma probeOne_eq:
  assumes "map_of (rt_breakers rt) nid = Some b"
  shows "probeOne fl now nid ok rtt rt =
    Some ((if ok then recordLatency fl nid rtt rt else rt)
            \<lparr>rt_breakers := AList.update nid (breaker_step ok b) (rt_breakers rt),
             rt_health := AList.update nid (status_of (breaker_step ok b)) (rt_health rt)\<rparr>,
          (if ok then [RedisSetStatus nid, RedisSetHeartbeat nid now, RepoSetHealthy nid now]
           else if status_of (breaker_step ok b) \<noteq> status_of b then [RepoSetDown nid] else []) @
          (if status_of (breaker_step ok b) \<noteq> status_of b
           then [PublishHealthChange nid (status_of (breaker_step ok b))] else []))"
  using assms probe_changed_iff [of ok b]
  by (cases ok) (simp_all add: probeOne_def Let_def split_def breaker_step_def status_of_def)

definition router_ok :: "Router \<Rightarrow> bool" where
  "router_ok rt \<longleftrightarrow>
     (\<forall>nid b. map_of (rt_breakers rt) nid = Some b \<longrightarrow> map_of (rt_health rt) nid = Some (status_of b))"

definition results_of :: "NodeID \<Rightarrow> (time \<times> NodeID \<times> bool \<times> duration) list \<Rightarrow> bool list" where
  "results_of nid ps = [ok. (_, i, ok, _) \<leftarrow> ps, i = nid]"

definition published :: "NodeID \<Rightarrow> probe_effect list \<Rightarrow> NodeStatus list" where
  "published nid es = [s. PublishHealthChange i s \<leftarrow> es, i = nid]"

lemma published_append [simp]: "published nid (xs @ ys) = published nid xs @ published nid ys"
  by (simp add: published_def)

lemma results_of_cons:
  "results_of nid ((t, i, ok, d) # ps) = (if i = nid then ok # results_of nid ps else results_of nid ps)"
  by (simp add: results_of_def)

fun alternating :: "NodeStatus \<Rightarrow> NodeStatus list \<Rightarrow> bool" where
  "alternating s [] = True"
| "alternating s (t # ts) = (t \<noteq> s \<and> alternating t ts)"

lemma probe_run_spec:
  assumes "router_ok rt" and "\<forall>(_, i, _, _) \<in> set ps. map_of (rt_breakers rt) i \<noteq> None"
  shows "\<exists>rt' es. probe_run fl ps rt = Some (rt', es) \<and> router_ok rt' \<and> rt_ring rt' = rt_ring rt \<and>
    (\<forall>nid b. map_of (rt_breakers rt) nid = Some b \<longrightarrow>
       map_of (rt_breakers rt') nid = Some (fold breaker_step (results_of nid ps) b) \<and>
       alternating (status_of b) (published nid es) \<and>
       last (status_of b # published nid es) = status_of (fold breaker_step (results_of nid ps) b))"
  using assms
proof (induction ps arbitrary: rt)
  case Nil
  then show ?case by (simp add: results_of_def published_def)
next
  case (Cons p ps)
  obtain t i ok d where p: "p = (t, i, ok, d)" by (cases p)
  from Cons.prems p obtain b0 where b0: "map_of (rt_breakers rt) i = Some b0" by auto
  obtain rt1 es1 where one: "probeOne fl t i ok d rt = Some (rt1, es1)"
    and br: "map_of (rt_breakers rt1) = (map_of (rt_breakers rt))(i \<mapsto> breaker_step ok b0)"
    and he: "map_of (rt_health rt1) = (map_of (rt_health rt))(i \<mapsto> status_of (breaker_step ok b0))"
    and ring: "rt_ring rt1 = rt_ring rt"
    and pub: "\<And>nid. published nid es1 = (if nid = i \<and> status_of (breaker_step ok b0) \<noteq> status_of b0
      then [status_of (breaker_step ok b0)] else [])"
    by (simp add: probeOne_eq [OF b0] update_conv' published_def)
  have "router_ok rt1" using Cons.prems(1) by (auto simp: router_ok_def br he)
  moreover have "\<forall>(_, j, _, _) \<in> set ps. map_of (rt_breakers rt1) j \<noteq> None"
    using Cons.prems(2) by (auto simp: br)
  ultimately obtain rt' es where IH: "probe_run fl ps rt1 = Some (rt', es)" "router_ok rt'"
    "rt_ring rt' = rt_ring rt1"
    "\<And>nid b. map_of (rt_breakers rt1) nid = Some b \<Longrightarrow>
       map_of (rt_breakers rt') nid = Some (fold breaker_step (results_of nid ps) b) \<and>
       alternating (status_of b) (published nid es) \<and>
       last (status_of b # published nid es) = status_of (fold breaker_step (results_of nid ps) b)"
    using Cons.IH by metis
  show ?case
  proof (intro exI conjI allI impI)
    show "probe_run fl (p # ps) rt = Some (rt', es1 @ es)" by (simp add: p one IH(1))
    show "router_ok rt'" and "rt_ring rt' = rt_ring rt" by (simp_all add: IH ring)
    fix nid b assume b: "map_of (rt_breakers rt) nid = Some b"
    let ?b1 = "if nid = i then breaker_step ok b else b"
    have "map_of (rt_breakers rt1) nid = Some ?b1" using b b0 by (auto simp: br)
    note ih = IH(4) [OF this]
    have res: "fold breaker_step (results_of nid (p # ps)) b = fold breaker_step (results_of nid ps) ?b1"
      by (simp add: p results_of_cons)
    show "map_of (rt_breakers rt') nid = Some (fold breaker_step (results_of nid (p # ps)) b)"
      using ih res by simp
    show "alternating (status_of b) (published nid (es1 @ es))"
      using ih b b0 by (cases "nid = i") (auto simp: pub)
    show "last (status_of b # published nid (es1 @ es)) =
        status_of (fold breaker_step (results_of nid (p # ps)) b)"
      using ih b b0 unfolding res by (cases "nid = i") (auto simp: pub)
  qed
qed

section \<open>A freshly built router\<close>

lemma add_nodes_spec:
  assumes "add_nodes mkClient ns rt = Inr rt'"
  shows "rt_ring rt' = rt_ring rt \<and> rt_slow rt' = rt_slow rt \<and>
    map_of (rt_breakers rt') = (\<lambda>i. if i \<in> sn_id ` set ns then Some newBreaker else map_of (rt_breakers rt) i) \<and>
    map_of (rt_health rt') = (\<lambda>i. if i \<in> sn_id ` set ns then Some StatusHealthy else map_of (rt_health rt) i)"
  using assms
proof (induction ns arbitrary: rt)
  case (Cons n ns)
  then show ?case
    by (auto simp: add_node_def Let_def update_conv' fun_eq_iff split: sum.splits if_splits)
qed simp

lemma NewRouter_spec:
  assumes "NewRouter mkClient nodes slow = Inr rt"
  shows "rt_ring rt = BuildRing (map sn_id nodes)" and "router_ok rt" and "rt_slow rt = slow"
    and "map_of (rt_breakers rt) = (\<lambda>i. if i \<in> sn_id ` set nodes then Some newBreaker else None)"
proof -
  obtain rt0 where rt0: "add_nodes mkClient nodes (empty_router slow) = Inr rt0"
    and rt: "rt = rt0\<lparr>rt_ring := BuildRing (map sn_id nodes)\<rparr>"
    using assms by (auto simp: NewRouter_def split: sum.splits)
  note spec = add_nodes_spec [OF rt0]
  have "status_of newBreaker = StatusHealthy" by (simp add: status_of_def newBreaker_def isOpen_def)
  with spec show "router_ok rt" by (auto simp: rt router_ok_def empty_router_def split: if_splits)
  from spec show "rt_ring rt = BuildRing (map sn_id nodes)" "rt_slow rt = slow"
    "map_of (rt_breakers rt) = (\<lambda>i. if i \<in> sn_id ` set nodes then Some newBreaker else None)"
    by (auto simp: rt empty_router_def fun_eq_iff)
qed

lemma router_health:
  assumes "router_ok rt" and "map_of (rt_breakers rt) nid = Some b"
  shows "health_of rt nid = status_of b"
  using assms by (simp add: router_ok_def health_of_def)

section \<open>Properties\<close>

text \<open>C7: a router built for the configured nodes and fed any interleaving of probe outcomes
  never panics, and it regards a node as down exactly when the node's last
  \<^verbatim>\<open>failureThreshold\<close> probes have all failed: one success recovers it at once, and other
  nodes' probes never matter.\<close>

theorem health_tracks_probes:
  assumes "NewRouter mkClient nodes slow = Inr rt0"
    and "\<forall>(_, i, _, _) \<in> set ps. i \<in> sn_id ` set nodes"
  shows "\<exists>rt es. probe_run fl ps rt0 = Some (rt, es) \<and>
    (\<forall>nid \<in> sn_id ` set nodes. IsHealthy rt nid \<longleftrightarrow>
       int (trailing_failures (results_of nid ps)) < failureThreshold)"
proof -
  note new = NewRouter_spec [OF assms(1)]
  have "\<forall>(_, i, _, _) \<in> set ps. map_of (rt_breakers rt0) i \<noteq> None"
    using assms(2) by (auto simp: new(4))
  from probe_run_spec [OF new(2) this, of fl] obtain rt es where
    run: "probe_run fl ps rt0 = Some (rt, es)" "router_ok rt"
    "\<And>nid b. map_of (rt_breakers rt0) nid = Some b \<Longrightarrow>
       map_of (rt_breakers rt) nid = Some (fold breaker_step (results_of nid ps) b)"
    by blast
  have "IsHealthy rt nid \<longleftrightarrow> int (trailing_failures (results_of nid ps)) < failureThreshold"
    if "nid \<in> sn_id ` set nodes" for nid
    using router_health [OF run(2) run(3) [of nid newBreaker]] that
    by (auto simp: new(4) IsHealthy_def status_of_def isOpen_def breaker_run)
  with run(1) show ?thesis by blast
qed

text \<open>Three failed probes of one node of two take it down; the other stays healthy.\<close>

theorem health_tracks_probes_witness:
  "\<exists>rt0 rt es. NewRouter (\<lambda>_. True) [\<lparr>sn_id = ''a'', sn_endpoint = ''ea'', sn_public = ''pa''\<rparr>,
      \<lparr>sn_id = ''b'', sn_endpoint = ''eb'', sn_public = ''pb''\<rparr>] 200 = Inr rt0 \<and>
    probe_run id [(0, ''a'', False, 0), (0, ''b'', True, 7), (2, ''a'', False, 0), (4, ''a'', False, 0)] rt0
      = Some (rt, es) \<and> \<not> IsHealthy rt ''a'' \<and> IsHealthy rt ''b''"
proof -
  let ?ns = "[\<lparr>sn_id = ''a'', sn_endpoint = ''ea'', sn_public = ''pa''\<rparr>,
      \<lparr>sn_id = ''b'', sn_endpoint = ''eb'', sn_public = ''pb''\<rparr>]"
  let ?ps = "[(0, ''a'', False, 0), (0, ''b'', True, 7), (2, ''a'', False, 0), (4, ''a'', False, 0)]"
  obtain rt0 where rt0: "NewRouter (\<lambda>_. True) ?ns 200 = Inr rt0"
    by (simp add: NewRouter_def add_node_def Let_def)
  from health_tracks_probes [OF rt0, of ?ps id] obtain rt es where
    "probe_run id ?ps rt0 = Some (rt, es)"
    "\<forall>nid \<in> {''a'', ''b''}. IsHealthy rt nid \<longleftrightarrow> int (trailing_failures (results_of nid ?ps)) < failureThreshold"
    by auto
  moreover have "trailing_failures (results_of ''a'' ?ps) = 3" "trailing_failures (results_of ''b'' ?ps) = 0"
    by (simp_all add: results_of_def trailing_failures.simps)
  ultimately show ?thesis using rt0 by (auto simp: failureThreshold_def)
qed

text \<open>What the router publishes on the health channel suffices to follow it: for every
  configured node the published transitions alternate, starting with a failure, and the last
  one is the router's current view of the node.\<close>

theorem published_transitions:
  assumes "NewRouter mkClient nodes slow = Inr rt0"
    and "\<forall>(_, i, _, _) \<in> set ps. i \<in> sn_id ` set nodes"
    and "probe_run fl ps rt0 = Some (rt, es)" and "nid \<in> sn_id ` set nodes"
  shows "alternating StatusHealthy (published nid es) \<and>
    health_of rt nid = last (StatusHealthy # published nid es)"
proof -
  note new = NewRouter_spec [OF assms(1)]
  have b: "map_of (rt_breakers rt0) nid = Some newBreaker" using assms(4) by (simp add: new(4))
  have "\<forall>(_, i, _, _) \<in> set ps. map_of (rt_breakers rt0) i \<noteq> None"
    using assms(2) by (auto simp: new(4))
  from probe_run_spec [OF new(2) this, of fl] assms(3) b have
    run: "router_ok rt" "map_of (rt_breakers rt) nid = Some (fold breaker_step (results_of nid ps) newBreaker)"
    "alternating (status_of newBreaker) (published nid es)"
    "last (status_of newBreaker # published nid es) = status_of (fold breaker_step (results_of nid ps) newBreaker)"
    by auto
  moreover have "status_of newBreaker = StatusHealthy" by (simp add: status_of_def newBreaker_def isOpen_def)
  ultimately show ?thesis using router_health [OF run(1,2)] by simp
qed

theorem published_transitions_witness:
  "\<exists>rt0 rt es. NewRouter (\<lambda>_. True) [\<lparr>sn_id = ''a'', sn_endpoint = ''ea'', sn_public = ''pa''\<rparr>] 200 = Inr rt0 \<and>
    probe_run id [(0, ''a'', False, 0), (2, ''a'', False, 0), (4, ''a'', False, 0), (6, ''a'', True, 9)] rt0
      = Some (rt, es) \<and> alternating StatusHealthy (published ''a'' es) \<and>
    health_of rt ''a'' = last (StatusHealthy # published ''a'' es)"
proof -
  let ?ns = "[\<lparr>sn_id = ''a'', sn_endpoint = ''ea'', sn_public = ''pa''\<rparr>]"
  let ?ps = "[(0, ''a'', False, 0), (2, ''a'', False, 0), (4, ''a'', False, 0), (6, ''a'', True, 9)]"
  obtain rt0 where rt0: "NewRouter (\<lambda>_. True) ?ns 200 = Inr rt0"
    by (simp add: NewRouter_def add_node_def Let_def)
  have c: "\<forall>(_, i, _, _) \<in> set ?ps. map_of (rt_breakers rt0) i \<noteq> None"
    by (simp add: NewRouter_spec(4) [OF rt0])
  obtain rt es where run: "probe_run id ?ps rt0 = Some (rt, es)"
    using probe_run_spec [OF NewRouter_spec(2) [OF rt0] c, of id] by blast
  from published_transitions [OF rt0 _ run, of "''a''"] rt0 run show ?thesis by auto
qed

text \<open>\<^verbatim>\<open>Resolve\<close> places \<open>n\<close> replicas exactly when at least \<open>n\<close> configured nodes are
  healthy; the replicas are then \<open>n\<close> distinct healthy nodes, and a node over the latency
  threshold is used only when the fast healthy nodes are fewer than \<open>n\<close>.\<close>

theorem Resolve_tiers:
  assumes "rt_ring rt = BuildRing ids" and "ids \<noteq> []" and "0 \<le> n"
    and "Resolve rt chunkHash n = (out, err)"
  shows "(err = None \<longleftrightarrow> nat n \<le> card {i \<in> set ids. IsHealthy rt i}) \<and>
    (err = None \<longrightarrow> length out = nat n) \<and> distinct out \<and>
    set out \<subseteq> {i \<in> set ids. IsHealthy rt i} \<and>
    (0 < rt_slow rt \<and> nat n \<le> card {i \<in> set ids. isFast rt i} \<longrightarrow> (\<forall>i \<in> set out. isFast rt i))"
proof -
  have fast: "{i \<in> set ids. isFast rt i} \<subseteq> {i \<in> set ids. IsHealthy rt i}"
    by (auto simp: isFast_def IsHealthy_def)
  then have card: "card {i \<in> set ids. isFast rt i} \<le> card {i \<in> set ids. IsHealthy rt i}"
    by (simp add: card_mono)
  obtain f fe where F: "SelectReplicas (BuildRing ids) chunkHash n (isFast rt) = (f, fe)" by fastforce
  obtain s se where S: "SelectReplicas (BuildRing ids) chunkHash n (IsHealthy rt) = (s, se)" by fastforce
  have R: "Resolve rt chunkHash n = (if 0 < rt_slow rt \<and> fe = None then (f, None) else (s, se))"
    using F S by (auto simp: Resolve_def assms(1) Let_def IsHealthy_def [abs_def] split: option.split)
  note qf = SelectReplicas_contract [OF assms(2,3) F] and qs = SelectReplicas_contract [OF assms(2,3) S]
  show ?thesis
  proof (cases "0 < rt_slow rt \<and> fe = None")
    case True
    with R assms(4) have "out = f" "err = None" by auto
    with True qf fast card show ?thesis by auto
  next
    case False
    with R assms(4) have "out = s" "err = se" by auto
    with False qf qs show ?thesis by auto
  qed
qed

text \<open>With two healthy nodes of which one is slow, two replicas use both.\<close>

theorem Resolve_tiers_witness:
  "\<exists>out. Resolve ((empty_router 200)\<lparr>rt_ring := BuildRing [''a'', ''b''], rt_latency := [(''b'', 900)]\<rparr>)
      ''key'' 2 = (out, None) \<and> distinct out \<and> length out = 2 \<and> set out \<subseteq> {''a'', ''b''}"
proof -
  let ?rt = "(empty_router 200)\<lparr>rt_ring := BuildRing [''a'', ''b''], rt_latency := [(''b'', 900)]\<rparr>"
  obtain out err where r: "Resolve ?rt ''key'' 2 = (out, err)" by fastforce
  have h: "{i \<in> set [''a'', ''b'']. IsHealthy ?rt i} = {''a'', ''b''}"
    by (auto simp: IsHealthy_def health_of_def empty_router_def)
  from Resolve_tiers [OF _ _ _ r, of "[''a'', ''b'']"] h r show ?thesis by auto
qed

end
