(* ===== verification/File_Store.thy ===== *)
theory File_Store
  imports Folder_Trash Router
begin

text \<open>
  Files and versions, \<^verbatim>\<open>internal/file\<close>: the repository's statements and transactions on
  \<^verbatim>\<open>files\<close>, \<^verbatim>\<open>file_versions\<close> and \<^verbatim>\<open>file_version_chunks\<close>, the service with its download
  plans, the middleware and the handlers; and \<^verbatim>\<open>LocationsForChunk\<close> of the storage
  repository, which the plans read.
\<close>

section \<open>The repository\<close>

definition scanFile :: "File option \<Rightarrow> File res" where
  "scanFile row = (case row of None \<Rightarrow> Inl (File file_ErrNotFound) | Some f \<Rightarrow> Inr f)"

definition file_Get :: "db \<Rightarrow> id \<Rightarrow> File res" where
  "file_Get d fid = scanFile (List.find (\<lambda>f. f_id f = fid \<and> f_deleted f = None) (files d))"

definition file_GetAny :: "db \<Rightarrow> id \<Rightarrow> File res" where
  "file_GetAny d fid = scanFile (List.find (\<lambda>f. f_id f = fid) (files d))"

record ListEntry =
  le_file :: File
  le_size :: "int option"
  le_mime :: "string option"
  le_thumb :: bool

text \<open>The \<^verbatim>\<open>LEFT JOIN\<close> with the latest version; without one the metadata columns are NULL.\<close>

definition latest_version :: "db \<Rightarrow> File \<Rightarrow> Version option" where
  "latest_version d f =
     (case f_latest f of None \<Rightarrow> None | Some v \<Rightarrow> List.find (\<lambda>w. v_id w = v) (file_versions d))"

definition list_entry :: "db \<Rightarrow> File \<Rightarrow> ListEntry" where
  "list_entry d f =
     (case latest_version d f of
        None \<Rightarrow> \<lparr>le_file = f, le_size = None, le_mime = None, le_thumb = False\<rparr>
      | Some w \<Rightarrow> \<lparr>le_file = f, le_size = Some (v_size w), le_mime = Some (v_mime w),
                   le_thumb = (v_thumb w \<noteq> None)\<rparr>)"

definition ListInFolder :: "(string \<Rightarrow> 'k :: linorder) \<Rightarrow> db \<Rightarrow> id \<Rightarrow> ListEntry list" where
  "ListInFolder collate d folderID = map (list_entry d) (sort_key (\<lambda>f. collate (f_name f))
     (filter (\<lambda>f. f_folder f = folderID \<and> f_deleted f = None) (files d)))"

definition file_ListTrashed :: "db \<Rightarrow> id \<Rightarrow> File list" where
  "file_ListTrashed d orgID = sort_key (\<lambda>f. - (case f_deleted f of None \<Rightarrow> 0 | Some t \<Rightarrow> t))
     (filter (\<lambda>f. f_org f = orgID \<and> f_deleted f \<noteq> None) (files d))"

definition updated_file :: "time \<Rightarrow> string option \<Rightarrow> id option \<Rightarrow> File \<Rightarrow> File" where
  "updated_file now name folderID f =
     f\<lparr>f_name := (case name of None \<Rightarrow> f_name f | Some n \<Rightarrow> n),
       f_folder := (case folderID of None \<Rightarrow> f_folder f | Some g \<Rightarrow> g),
       f_updated := now\<rparr>"

definition file_repo_Update :: "time \<Rightarrow> id \<Rightarrow> string option \<Rightarrow> id option \<Rightarrow> File dbop" where
  "file_repo_Update now fid name folderID d =
     (if name = None \<and> folderID = None then (file_Get d fid, d)
      else case List.find (\<lambda>f. f_id f = fid \<and> f_deleted f = None) (files d) of
          None \<Rightarrow> (Inl (File file_ErrNotFound), d)
        | Some f \<Rightarrow>
            if (case folderID of None \<Rightarrow> False | Some g \<Rightarrow> \<not> has_folder d g)
              then (Inl (File file_ErrInvalidFolder), d)
            else (Inr (updated_file now name folderID f),
                  d\<lparr>files := update_where (\<lambda>f. f_id f = fid \<and> f_deleted f = None)
                       (updated_file now name folderID) (files d)\<rparr>))"

definition SoftDelete :: "time \<Rightarrow> id \<Rightarrow> unit dbop" where
  "SoftDelete now fid d =
     (Inr (), d\<lparr>files := update_where (\<lambda>f. f_id f = fid \<and> f_deleted f = None) (trash_file now) (files d)\<rparr>)"

definition file_Restore :: "time \<Rightarrow> id \<Rightarrow> unit dbop" where
  "file_Restore now fid d =
     (Inr (), d\<lparr>files := update_where (\<lambda>f. f_id f = fid \<and> f_deleted f \<noteq> None) (restore_file now) (files d)\<rparr>)"

text \<open>\<^verbatim>\<open>Purge\<close>: sum the versions' bytes, delete the row, give the bytes back.\<close>

definition repo_Purge :: "id \<Rightarrow> unit dbop" where
  "repo_Purge fid = transaction (\<lambda>d.
     case List.find (\<lambda>f. f_id f = fid \<and> f_deleted f \<noteq> None) (files d) of
       None \<Rightarrow> Inr ((), d)
     | Some f \<Rightarrow>
         (let freedBytes = file_bytes (file_versions d) (f_id f)
          in if \<not> in_int64 freedBytes then Inl IOError
             else case delete_files (\<lambda>f. f_id f = fid \<and> f_deleted f \<noteq> None) d of
                 Inl e \<Rightarrow> Inl e
               | Inr d1 \<Rightarrow>
                   (case add_usage (- freedBytes) (f_org f) d1 of
                      Inl e \<Rightarrow> Inl e
                    | Inr d2 \<Rightarrow> Inr ((), d2))))"

definition expired_file :: "time \<Rightarrow> duration \<Rightarrow> File \<Rightarrow> bool" where
  "expired_file now olderThan f \<longleftrightarrow>
     (case f_deleted f of None \<Rightarrow> False | Some t \<Rightarrow> t < now - olderThan)"

text \<open>The freed bytes, one row per organization (\<^verbatim>\<open>GROUP BY f.org_id\<close>).\<close>

definition orgs_freed :: "time \<Rightarrow> duration \<Rightarrow> db \<Rightarrow> (id \<times> int) list" where
  "orgs_freed now olderThan d =
     map (\<lambda>oid. (oid, lost_bytes (expired_file now olderThan) d oid))
       (remdups (map f_org (filter (expired_file now olderThan) (files d))))"

fun credit_orgs :: "(id \<times> int) list \<Rightarrow> db \<Rightarrow> db res" where
  "credit_orgs [] d = Inr d"
| "credit_orgs ((oid, bytes) # freed) d =
     (case add_usage (- bytes) oid d of Inl e \<Rightarrow> Inl e | Inr d1 \<Rightarrow> credit_orgs freed d1)"

definition file_PurgeExpiredTrash :: "time \<Rightarrow> duration \<Rightarrow> purge_op" where
  "file_PurgeExpiredTrash now olderThan d =
     (case transaction (\<lambda>d.
             let freed = orgs_freed now olderThan d
             in if \<exists>(_, bytes) \<in> set freed. \<not> in_int64 bytes then Inl IOError
                else case delete_files (expired_file now olderThan) d of
                    Inl e \<Rightarrow> Inl e
                  | Inr d1 \<Rightarrow>
                      (case credit_orgs freed d1 of
                         Inl e \<Rightarrow> Inl e
                       | Inr d2 \<Rightarrow> Inr (int (rows_affected (expired_file now olderThan) (files d)), d2))) d of
        (Inl e, d1) \<Rightarrow> ((0, Some e), d1)
      | (Inr n, d1) \<Rightarrow> ((n, None), d1))"

text \<open>The inserts shared by \<^verbatim>\<open>CreateWithVersion\<close> and \<^verbatim>\<open>AddVersion\<close>: the version row, then its
  chunk list in order, each row with its foreign keys.\<close>

definition insert_version :: "Version \<Rightarrow> db \<Rightarrow> db res" where
  "insert_version v d =
     (if has_version d (v_id v) then Inl (PgError UniqueViolation)
      else if \<not> has_file d (v_file v) \<or> \<not> has_user d (v_created_by v) then Inl (PgError ForeignKeyViolation)
      else Inr (d\<lparr>file_versions := file_versions d @ [v]\<rparr>))"

fun insert_chunks :: "id \<Rightarrow> nat \<Rightarrow> string list \<Rightarrow> db \<Rightarrow> db res" where
  "insert_chunks vid i [] d = Inr d"
| "insert_chunks vid i (h # hs) d =
     (if \<exists>c \<in> set (file_version_chunks d). vc_version c = vid \<and> vc_seq c = i
        then Inl (PgError UniqueViolation)
      else if \<not> has_version d vid \<or> \<not> has_chunk d h then Inl (PgError ForeignKeyViolation)
      else insert_chunks vid (Suc i) hs (d\<lparr>file_version_chunks := file_version_chunks d @
             [\<lparr>vc_version = vid, vc_seq = i, vc_hash = h\<rparr>]\<rparr>))"

definition set_latest :: "(File \<Rightarrow> File) \<Rightarrow> id \<Rightarrow> id \<Rightarrow> db \<Rightarrow> db" where
  "set_latest touch vid fid d = d\<lparr>files := update_where (\<lambda>f. f_id f = fid)
     (\<lambda>f. touch (f\<lparr>f_latest := Some vid\<rparr>)) (files d)\<rparr>"

definition CreateWithVersion ::
  "id \<Rightarrow> id \<Rightarrow> time \<Rightarrow> id \<Rightarrow> id \<Rightarrow> string \<Rightarrow> id \<Rightarrow> int \<Rightarrow> string \<Rightarrow> string \<Rightarrow> string list
     \<Rightarrow> (id \<times> id) dbop" where
  "CreateWithVersion fileID versionID now orgID folderID name createdBy sizeBytes checksum mime hashes =
     transaction (\<lambda>d.
       let f = \<lparr>f_id = fileID, f_org = orgID, f_folder = folderID, f_name = name, f_latest = None,
                f_created_by = createdBy, f_created = now, f_updated = now, f_deleted = None\<rparr>;
           v = \<lparr>v_id = versionID, v_file = fileID, v_size = sizeBytes, v_checksum = checksum,
                v_mime = mime, v_thumb = None, v_created_by = createdBy, v_created = now\<rparr>
       in if has_file d fileID then Inl (PgError UniqueViolation)
          else if \<not> has_org d orgID \<or> \<not> has_folder d folderID \<or> \<not> has_user d createdBy
            then Inl (PgError ForeignKeyViolation)
          else case insert_version v (d\<lparr>files := files d @ [f]\<rparr>) of
              Inl e \<Rightarrow> Inl e
            | Inr d1 \<Rightarrow>
                (case insert_chunks versionID 0 hashes d1 of
                   Inl e \<Rightarrow> Inl e
                 | Inr d2 \<Rightarrow>
                     (case add_usage sizeBytes orgID (set_latest (\<lambda>f. f) versionID fileID d2) of
                        Inl e \<Rightarrow> Inl e
                      | Inr d3 \<Rightarrow> Inr ((fileID, versionID), d3))))"

definition GetForUpload :: "db \<Rightarrow> id \<Rightarrow> (id \<times> id \<times> string) res" where
  "GetForUpload d fileID =
     (case file_Get d fileID of
        Inl e \<Rightarrow> Inl e
      | Inr f \<Rightarrow> Inr (f_org f, f_folder f, f_name f))"

definition AddVersion ::
  "id \<Rightarrow> time \<Rightarrow> id \<Rightarrow> id \<Rightarrow> id \<Rightarrow> int \<Rightarrow> string \<Rightarrow> string \<Rightarrow> string list \<Rightarrow> id dbop" where
  "AddVersion versionID now orgID fileID createdBy sizeBytes checksum mime hashes =
     transaction (\<lambda>d.
       let v = \<lparr>v_id = versionID, v_file = fileID, v_size = sizeBytes, v_checksum = checksum,
                v_mime = mime, v_thumb = None, v_created_by = createdBy, v_created = now\<rparr>
       in case insert_version v d of
            Inl e \<Rightarrow> Inl e
          | Inr d1 \<Rightarrow>
              (case insert_chunks versionID 0 hashes d1 of
                 Inl e \<Rightarrow> Inl e
               | Inr d2 \<Rightarrow>
                   (case add_usage sizeBytes orgID
                           (set_latest (\<lambda>f. f\<lparr>f_updated := now\<rparr>) versionID fileID d2) of
                      Inl e \<Rightarrow> Inl e
                    | Inr d3 \<Rightarrow> Inr (versionID, d3))))"

definition scanVersion :: "Version option \<Rightarrow> Version res" where
  "scanVersion row = (case row of None \<Rightarrow> Inl (File ErrVersionNotFound) | Some v \<Rightarrow> Inr v)"

definition ListVersions :: "db \<Rightarrow> id \<Rightarrow> Version list" where
  "ListVersions d fileID = sort_key (\<lambda>v. - v_created v) (filter (\<lambda>v. v_file v = fileID) (file_versions d))"

definition GetVersion :: "db \<Rightarrow> id \<Rightarrow> id \<Rightarrow> Version res" where
  "GetVersion d fileID versionID =
     scanVersion (List.find (\<lambda>v. v_id v = versionID \<and> v_file v = fileID) (file_versions d))"

definition GetVersionChunks :: "db \<Rightarrow> id \<Rightarrow> (nat \<times> string) list" where
  "GetVersionChunks d versionID = map (\<lambda>c. (vc_seq c, vc_hash c))
     (sort_key vc_seq (filter (\<lambda>c. vc_version c = versionID) (file_version_chunks d)))"

definition repo_RestoreVersion :: "time \<Rightarrow> id \<Rightarrow> id \<Rightarrow> File dbop" where
  "repo_RestoreVersion now fileID versionID d =
     (let point = (\<lambda>f. f\<lparr>f_latest := Some versionID, f_updated := now\<rparr>)
      in case List.find (\<lambda>f. f_id f = fileID \<and> f_deleted f = None) (files d) of
           None \<Rightarrow> (scanFile None, d)
         | Some f \<Rightarrow>
             if \<not> has_version d versionID then (Inl (PgError ForeignKeyViolation), d)
             else (Inr (point f), d\<lparr>files := update_where (\<lambda>f. f_id f = fileID \<and> f_deleted f = None)
                     point (files d)\<rparr>))"

definition OrgUsageBytes :: "db \<Rightarrow> id \<Rightarrow> int res" where
  "OrgUsageBytes d orgID =
     (case List.find (\<lambda>g. o_id g = orgID) (organizations d) of
        None \<Rightarrow> Inl ErrNoRows
      | Some g \<Rightarrow> Inr (o_usage g))"

definition OrgFileCounts :: "db \<Rightarrow> id \<Rightarrow> nat \<times> nat" where
  "OrgFileCounts d orgID =
     (rows_affected (\<lambda>f. f_org f = orgID \<and> f_deleted f = None) (files d),
      rows_affected (\<lambda>f. f_org f = orgID \<and> f_deleted f \<noteq> None) (files d))"

definition SetThumbnailKey :: "id \<Rightarrow> string \<Rightarrow> unit dbop" where
  "SetThumbnailKey versionID key d =
     (Inr (), d\<lparr>file_versions := update_where (\<lambda>v. v_id v = versionID)
        (\<lambda>v. v\<lparr>v_thumb := Some key\<rparr>) (file_versions d)\<rparr>)"

section \<open>The service\<close>

definition presignExpiry :: duration where
  "presignExpiry = 15 * 60 * 1000000000"

definition file_Update ::
  "(db \<Rightarrow> id \<Rightarrow> id res) \<Rightarrow> time \<Rightarrow> File \<Rightarrow> string option \<Rightarrow> id option \<Rightarrow> File dbop" where
  "file_Update orgIDOf now current name folderID d =
     (if (case folderID of
            None \<Rightarrow> False
          | Some g \<Rightarrow> (case orgIDOf d g of Inl _ \<Rightarrow> True | Inr oid \<Rightarrow> oid \<noteq> f_org current))
        then (Inl (File file_ErrInvalidFolder), d)
      else file_repo_Update now (f_id current) name folderID d)"

definition file_Purge :: "File \<Rightarrow> unit dbop" where
  "file_Purge current d =
     (if f_deleted current = None then (Inl (File ErrNotTrashed), d) else repo_Purge (f_id current) d)"

definition RestoreVersion :: "time \<Rightarrow> File \<Rightarrow> id \<Rightarrow> File dbop" where
  "RestoreVersion now current versionID d =
     (case GetVersion d (f_id current) versionID of
        Inl e \<Rightarrow> (Inl e, d)
      | Inr _ \<Rightarrow> repo_RestoreVersion now (f_id current) versionID d)"

text \<open>\<^verbatim>\<open>storage.Repository.LocationsForChunk\<close>: replicas recorded as committed.\<close>

definition LocationsForChunk :: "db \<Rightarrow> string \<Rightarrow> NodeID list" where
  "LocationsForChunk d hash =
     map cl_node (filter (\<lambda>l. cl_hash l = hash \<and> cl_status l = Committed) (chunk_locations d))"

text \<open>\<^verbatim>\<open>orderHealthyFirst\<close>: the loop over the indices, swapping in place.\<close>

definition swap :: "nat \<Rightarrow> nat \<Rightarrow> 'a list \<Rightarrow> 'a list" where
  "swap i j xs = xs[i := xs ! j, j := xs ! i]"

fun order_loop :: "('a \<Rightarrow> bool) \<Rightarrow> nat \<Rightarrow> nat \<Rightarrow> nat \<Rightarrow> 'a list \<Rightarrow> 'a list" where
  "order_loop healthy 0 i k xs = xs"
| "order_loop healthy (Suc n) i k xs =
     (if healthy (xs ! i) then order_loop healthy n (Suc i) (Suc k) (swap k i xs)
      else order_loop healthy n (Suc i) k xs)"

definition orderHealthyFirst :: "NodeID list \<Rightarrow> Router \<Rightarrow> NodeID list" where
  "orderHealthyFirst nodeIDs rt = order_loop (IsHealthy rt) (length nodeIDs) 0 0 nodeIDs"

text \<open>\<^verbatim>\<open>Router.PresignGet\<close>, with the signing of the node's public MinIO client (the library's
  \<^verbatim>\<open>PresignedGetObject\<close>, by the client's endpoint) as the argument \<open>sign\<close>.\<close>

definition PresignGet ::
  "(string \<Rightarrow> string \<Rightarrow> string res) \<Rightarrow> time \<Rightarrow> Router \<Rightarrow> NodeID \<Rightarrow> string \<Rightarrow> (string \<times> time) res" where
  "PresignGet sign now rt node key =
     (case map_of (rt_public rt) node of
        None \<Rightarrow> Inl (Storage ErrNoMinioClient)
      | Some endpoint \<Rightarrow>
          (case sign endpoint key of Inl e \<Rightarrow> Inl e | Inr url \<Rightarrow> Inr (url, now + presignExpiry)))"

fun presign_all :: "(NodeID \<Rightarrow> (string \<times> time) res) \<Rightarrow> NodeID list \<Rightarrow> string list" where
  "presign_all presign [] = []"
| "presign_all presign (n # ns) =
     (case presign n of Inl _ \<Rightarrow> presign_all presign ns | Inr (url, _) \<Rightarrow> url # presign_all presign ns)"

record DownloadPlanChunk =
  dp_seq :: nat
  dp_hash :: string
  dp_targets :: "string list"

definition DownloadPlan ::
  "(string \<Rightarrow> string \<Rightarrow> string res) \<Rightarrow> time \<Rightarrow> Router \<Rightarrow> db \<Rightarrow> id \<Rightarrow> id \<Rightarrow> DownloadPlanChunk list res" where
  "DownloadPlan sign now rt d fileID versionID =
     (case GetVersion d fileID versionID of
        Inl e \<Rightarrow> Inl e
      | Inr _ \<Rightarrow> Inr (map (\<lambda>(seq, hash).
            \<lparr>dp_seq = seq, dp_hash = hash,
             dp_targets = presign_all (\<lambda>n. PresignGet sign now rt n hash)
               (orderHealthyFirst (LocationsForChunk d hash) rt)\<rparr>) (GetVersionChunks d versionID)))"

definition ThumbnailTargets ::
  "(string \<Rightarrow> string \<Rightarrow> string res) \<Rightarrow> time \<Rightarrow> Router \<Rightarrow> db \<Rightarrow> File \<Rightarrow> string list res" where
  "ThumbnailTargets sign now rt d f =
     (case f_latest f of
        None \<Rightarrow> Inl (File ErrNoThumbnail)
      | Some vid \<Rightarrow>
          (case GetVersion d (f_id f) vid of
             Inl e \<Rightarrow> Inl e
           | Inr v \<Rightarrow>
               (case v_thumb v of
                  None \<Rightarrow> Inl (File ErrNoThumbnail)
                | Some key \<Rightarrow>
                    (case Candidates rt key of
                       (_, Some e) \<Rightarrow> Inl e
                     | (nodeIDs, None) \<Rightarrow>
                         Inr (presign_all (\<lambda>n. PresignGet sign now rt n key) (orderHealthyFirst nodeIDs rt))))))"

section \<open>Middleware and handlers\<close>

definition file_RequireAccess ::
  "(db \<Rightarrow> id \<Rightarrow> id \<Rightarrow> bool res) \<Rightarrow> db \<Rightarrow> id \<Rightarrow> id \<Rightarrow> unit response + File" where
  "file_RequireAccess isMember d fileID userID =
     gate isMember (File file_ErrNotFound) ''file not found'' ''failed to load file''
       (file_Get d fileID) f_org d userID"

definition loadAndAuthorize ::
  "(db \<Rightarrow> id \<Rightarrow> id \<Rightarrow> bool res) \<Rightarrow> db \<Rightarrow> id \<Rightarrow> id \<Rightarrow> 'a response + File" where
  "loadAndAuthorize isMember d fileID userID =
     (case file_GetAny d fileID of
        Inl _ \<Rightarrow> Inl (WriteError http_ErrNotFound ''file not found'')
      | Inr f \<Rightarrow>
          (case isMember d (f_org f) userID of
             Inl _ \<Rightarrow> Inl (WriteError http_ErrInternal ''failed to check membership'')
           | Inr ok \<Rightarrow>
               if \<not> ok then Inl (WriteError http_ErrForbidden ''not a member of this organization'')
               else Inr f))"

definition writeFileError :: "goerr \<Rightarrow> 'a response" where
  "writeFileError e =
     (if e = File file_ErrNotFound then WriteError http_ErrNotFound ''file not found''
      else if e = File file_ErrInvalidFolder then WriteError http_ErrInvalid ''invalid target folder''
      else if e = File ErrNotTrashed
        then WriteError http_ErrInvalid ''file must be trashed before it can be purged''
      else if e = File ErrVersionNotFound
        then WriteError http_ErrNotFound ''version not found for this file''
      else if e = File ErrNoThumbnail
        then WriteError http_ErrNotFound ''no thumbnail exists for this file''
      else WriteError http_ErrInternal ''file operation failed'')"

definition file_handler_Update ::
  "(db \<Rightarrow> id \<Rightarrow> id res) \<Rightarrow> time \<Rightarrow> File \<Rightarrow> (string json_field \<times> id json_field) option \<Rightarrow> db
     \<Rightarrow> File response \<times> db" where
  "file_handler_Update orgIDOf now f raw d =
     (case raw of
        None \<Rightarrow> (WriteError http_ErrInvalid ''malformed JSON body'', d)
      | Some (nameField, folderField) \<Rightarrow>
          if nameField = field_bad \<or> nameField = field_value ''''
            then (WriteError http_ErrInvalid ''name must be a non-empty string'', d)
          else if folderField = field_bad \<or> folderField = field_value ''''
            then (WriteError http_ErrInvalid ''folder_id must be a non-empty string'', d)
          else case file_Update orgIDOf now f
                      (case nameField of field_value n \<Rightarrow> Some n | _ \<Rightarrow> None)
                      (case folderField of field_value g \<Rightarrow> Some g | _ \<Rightarrow> None) d of
              (Inl e, d1) \<Rightarrow> (writeFileError e, d1)
            | (Inr f', d1) \<Rightarrow> (WriteJSON 200 f', d1))"

definition file_handler_Restore ::
  "(db \<Rightarrow> id \<Rightarrow> id \<Rightarrow> bool res) \<Rightarrow> time \<Rightarrow> id \<Rightarrow> id \<Rightarrow> db \<Rightarrow> File response \<times> db" where
  "file_handler_Restore isMember now fileID userID d =
     (case loadAndAuthorize isMember d fileID userID of
        Inl resp \<Rightarrow> (resp, d)
      | Inr f \<Rightarrow>
          (case file_Restore now (f_id f) d of
             (Inl _, d1) \<Rightarrow> (WriteError http_ErrInternal ''failed to restore file'', d1)
           | (Inr _, d1) \<Rightarrow>
               (case file_GetAny d1 (f_id f) of
                  Inl _ \<Rightarrow> (WriteError http_ErrInternal ''restored but failed to reload'', d1)
                | Inr restored \<Rightarrow> (WriteJSON 200 restored, d1))))"

definition file_handler_Purge ::
  "(db \<Rightarrow> id \<Rightarrow> id \<Rightarrow> bool res) \<Rightarrow> id \<Rightarrow> id \<Rightarrow> db \<Rightarrow> unit response \<times> db" where
  "file_handler_Purge isMember fileID userID d =
     (case loadAndAuthorize isMember d fileID userID of
        Inl resp \<Rightarrow> (resp, d)
      | Inr f \<Rightarrow>
          (case file_Purge f d of
             (Inl e, d1) \<Rightarrow> (writeFileError e, d1)
           | (Inr _, d1) \<Rightarrow> (NoContent, d1)))"

definition file_handler_RestoreVersion :: "time \<Rightarrow> File \<Rightarrow> id \<Rightarrow> db \<Rightarrow> File response \<times> db" where
  "file_handler_RestoreVersion now f versionID d =
     (case RestoreVersion now f versionID d of
        (Inl e, d1) \<Rightarrow> (writeFileError e, d1)
      | (Inr f', d1) \<Rightarrow> (WriteJSON 200 f', d1))"

definition file_handler_DownloadPlan ::
  "(string \<Rightarrow> string \<Rightarrow> string res) \<Rightarrow> time \<Rightarrow> Router \<Rightarrow> db \<Rightarrow> File \<Rightarrow> id \<Rightarrow> DownloadPlanChunk list response" where
  "file_handler_DownloadPlan sign now rt d f versionID =
     (case DownloadPlan sign now rt d (f_id f) versionID of
        Inl e \<Rightarrow> writeFileError e
      | Inr plan \<Rightarrow> WriteJSON 200 plan)"

end
