(* ===== verification/File_Laws.thy ===== *)
theory File_Laws
  imports File_Store
begin

text \<open>
  What the file component guarantees: every operation keeps the database invariant, in
  particular the byte counter; a version's chunk list reads back in the order it was written;
  purging frees exactly what it deletes; download plans list healthy replicas first.
\<close>

section \<open>Reading rows\<close>

lemma file_Get_SomeD: "file_Get d fid = Inr f \<Longrightarrow> f \<in> set (files d) \<and> f_id f = fid \<and> f_deleted f = None"
  by (auto simp: file_Get_def scanFile_def split: option.splits dest: find_SomeD)

lemma file_GetAny_SomeD: "file_GetAny d fid = Inr f \<Longrightarrow> f \<in> set (files d) \<and> f_id f = fid"
  by (auto simp: file_GetAny_def scanFile_def split: option.splits dest: find_SomeD)

lemma GetVersion_SomeD:
  "GetVersion d fid vid = Inr v \<Longrightarrow> v \<in> set (file_versions d) \<and> v_id v = vid \<and> v_file v = fid"
  by (auto simp: GetVersion_def scanVersion_def split: option.splits dest: find_SomeD)

section \<open>Row updates\<close>

lemma SoftDelete_inv [inv_intros]: "preserves db_inv (SoftDelete now fid)"
  by (rule preservesI) (simp add: SoftDelete_def trash_file_def db_inv_file_rows)

lemma file_Restore_inv [inv_intros]: "preserves db_inv (file_Restore now fid)"
  by (rule preservesI) (simp add: file_Restore_def restore_file_def db_inv_file_rows)

lemma org_bytes_map:
  assumes "map (\<lambda>v. (v_file v, v_size v)) vs = map (\<lambda>v. (v_file v, v_size v)) ws"
  shows "org_bytes fs vs oid = org_bytes fs ws oid"
proof -
  have "org_bytes fs us oid =
      sum_list (map snd (filter (\<lambda>(f, _). file_in_org fs oid f) (map (\<lambda>v. (v_file v, v_size v)) us)))" for us
    by (simp add: org_bytes_def filter_map comp_def case_prod_beta)
  then show ?thesis by (simp only: assms)
qed

lemma SetThumbnailKey_inv [inv_intros]: "preserves db_inv (SetThumbnailKey vid key)"
proof (rule preservesI)
  fix d assume inv: "db_inv d"
  define vs where "vs = update_where (\<lambda>v. v_id v = vid) (\<lambda>v. v\<lparr>v_thumb := Some key\<rparr>) (file_versions d)"
  have "map v_id vs = map v_id (file_versions d)" by (simp add: vs_def)
  moreover from this have "v_id ` set vs = v_id ` set (file_versions d)" by (metis list.set_map)
  moreover have "org_bytes (files d) vs = org_bytes (files d) (file_versions d)"
    by (rule ext, rule org_bytes_map) (simp add: vs_def)
  moreover have "versions_ok (files d) (file_versions d) \<longleftrightarrow> versions_ok (files d) vs"
    by (simp add: vs_def versions_ok_def)
  moreover have "files_ok (folders d) (files d) (file_versions d) \<longleftrightarrow> files_ok (folders d) (files d) vs"
  proof -
    have "(\<exists>w \<in> set vs. v_id w = v \<and> v_file w = x) = (\<exists>w \<in> set (file_versions d). v_id w = v \<and> v_file w = x)" for v x
      unfolding vs_def bex_update_where by (rule bex_cong) auto
    then show ?thesis by (simp add: files_ok_def)
  qed
  ultimately have "db_inv (d\<lparr>file_versions := vs\<rparr>)"
    using inv by (auto simp: db_inv_def struct_inv_def keys_ok_def chunks_ok_def usage_ok_def)
  then show "db_inv (snd (SetThumbnailKey vid key d))" by (simp add: SetThumbnailKey_def vs_def)
qed

lemma file_write_inv:
  assumes "db_inv d" and "\<And>g. folderID = Some g \<Longrightarrow> folder_in_org (folders d) (f_org current) g"
    and "current \<in> set (files d)"
  shows "db_inv (d\<lparr>files := update_where (\<lambda>f. f_id f = f_id current \<and> f_deleted f = None)
    (updated_file now name folderID) (files d)\<rparr>)"
proof (rule db_inv_files [OF assms(1)])
  note i = struct_invD [OF db_invD(1) [OF assms(1)]]
  have "f = current" if "f \<in> set (files d)" and "f_id f = f_id current" for f
    by (rule key_unique [OF keys_okD(3) [OF i(1)] that(1) assms(3) that(2)])
  then show "files_ok (folders d) (update_where (\<lambda>f. f_id f = f_id current \<and> f_deleted f = None)
      (updated_file now name folderID) (files d)) (file_versions d)"
    using i(5) assms(2)
    by (intro files_ok_update) (auto simp: updated_file_def files_ok_def split: option.split)
qed (simp add: updated_file_def)

text \<open>\<open>current\<close> is the row the middleware loaded. What \<^verbatim>\<open>OrgIDOf\<close> has to promise is stated in the
  locale, and only that is used.\<close>

context folder_org_lookup
begin

lemma file_Update_inv:
  assumes inv: "db_inv d" and cur: "current \<in> set (files d)"
  shows "db_inv (snd (file_Update orgIDOf now current name folderID d))"
proof (cases "case folderID of None \<Rightarrow> False
    | Some g \<Rightarrow> (case orgIDOf d g of Inl _ \<Rightarrow> True | Inr oid \<Rightarrow> oid \<noteq> f_org current)")
  case False
  then have "folder_in_org (folders d) (f_org current) g" if "folderID = Some g" for g
    using that orgIDOf_live by (auto simp: folder_in_org_def split: sum.splits) blast
  then have "db_inv (snd (file_repo_Update now (f_id current) name folderID d))"
    using file_write_inv [OF inv _ cur] inv by (auto simp: file_repo_Update_def split: option.split)
  then show ?thesis using False by (simp add: file_Update_def)
qed (simp add: file_Update_def inv)

end

lemma RestoreVersion_inv:
  assumes inv: "db_inv d" and cur: "current \<in> set (files d)"
  shows "db_inv (snd (RestoreVersion now current vid d))"
proof (cases "GetVersion d (f_id current) vid")
  case (Inr v)
  note v = GetVersion_SomeD [OF Inr]
  note ok = struct_invD(5) [OF db_invD(1) [OF inv]]
  have "db_inv (d\<lparr>files := update_where (\<lambda>f. f_id f = f_id current \<and> f_deleted f = None)
      (\<lambda>f. f\<lparr>f_latest := Some vid, f_updated := now\<rparr>) (files d)\<rparr>)"
  proof (rule db_inv_files [OF inv])
    show "files_ok (folders d) (update_where (\<lambda>f. f_id f = f_id current \<and> f_deleted f = None)
        (\<lambda>f. f\<lparr>f_latest := Some vid, f_updated := now\<rparr>) (files d)) (file_versions d)"
      by (rule files_ok_update [OF ok]) (use v ok in \<open>auto simp: files_ok_def\<close>)
  qed simp
  then show ?thesis
    using inv Inr by (auto simp: RestoreVersion_def repo_RestoreVersion_def Let_def scanFile_def split: option.split)
qed (simp add: RestoreVersion_def inv)

section \<open>Purging\<close>

text \<open>A purge that deletes the files \<open>P\<close> of one organization and gives back their bytes.\<close>

lemma purge_step:
  assumes inv: "db_inv d" and del: "delete_files P d = Inr d1"
    and one: "\<And>x. lost_bytes P d x = (if x = oid then freed else 0)"
  shows "\<exists>d2. add_usage (- freed) oid d1 = Inr d2 \<and> db_inv d2"
proof -
  note s = db_invD(1) [OF inv]
  have s1: "struct_inv d1" by (rule delete_files_struct [OF s del])
  have nonneg: "0 \<le> freed" using lost_bytes_nonneg [OF struct_invD(6) [OF s], of P oid] one [of oid] by simp
  have bytes: "org_bytes (files d1) (file_versions d1) x =
      org_bytes (files d) (file_versions d) x + (if x = oid then - freed else 0)" for x
    using delete_files_bytes [OF s del, of x] one [of x] by simp
  note orgs = delete_files_frame(1) [OF del]
  obtain d2 where d2: "add_usage (- freed) oid d1 = Inr d2"
    using add_usage_freed [OF inv s1 orgs _ nonneg, of oid] bytes by auto
  then show ?thesis using usage_restored [OF inv s1 orgs bytes d2] by blast
qed

lemma lost_le_bytes:
  assumes "db_inv d"
  shows "lost_bytes P d oid \<le> org_bytes (files d) (file_versions d) oid"
proof -
  note s = db_invD(1) [OF assms]
  obtain d1 where d1: "delete_files P d = Inr d1" using delete_files_ok [OF s] by blast
  have "0 \<le> org_bytes (files d1) (file_versions d1) oid"
    by (rule org_bytes_nonneg [OF struct_invD(6) [OF delete_files_struct [OF s d1]]])
  then show ?thesis using delete_files_bytes [OF s d1, of oid] by simp
qed

lemma file_org_exists:
  assumes "struct_inv d" and "f \<in> set (files d)"
  shows "\<exists>g \<in> set (organizations d). o_id g = f_org f"
proof -
  note i = struct_invD [OF assms(1)]
  obtain h where "h \<in> set (folders d)" "fo_org h = f_org f"
    using i(5) assms(2) by (auto simp: files_ok_def folder_in_org_def)
  then have "f_org f \<in> o_id ` set (organizations d)" using i(2) unfolding folders_ok_def by metis
  then show ?thesis by auto
qed

lemma lost_in_int64:
  assumes "db_inv d" and "g \<in> set (organizations d)"
  shows "in_int64 (lost_bytes P d (o_id g))"
proof -
  have "in_int64 (org_bytes (files d) (file_versions d) (o_id g))"
    using db_invD(2) [OF assms(1)] assms(2) unfolding usage_ok_def by metis
  moreover have "0 \<le> lost_bytes P d (o_id g)"
    by (rule lost_bytes_nonneg [OF struct_invD(6) [OF db_invD(1) [OF assms(1)]]])
  ultimately show ?thesis using lost_le_bytes [OF assms(1), of P "o_id g"] by (simp add: in_int64_def)
qed

lemma filter_single:
  assumes "distinct xs" and "x \<in> set xs" and "Q x" and "\<And>y. y \<in> set xs \<Longrightarrow> Q y \<Longrightarrow> y = x"
  shows "filter Q xs = [x]"
proof -
  have "filter Q xs = filter (\<lambda>y. y = x) xs"
    by (rule filter_cong [OF refl]) (use assms(3,4) in blast)
  moreover have "filter (\<lambda>y. y = x) xs = [x]"
    using assms(1,2) by (induction xs) (auto simp: filter_empty_conv)
  ultimately show ?thesis by simp
qed

lemma lost_bytes_one:
  assumes "keys_ok d" and "f \<in> set (files d)" and "P f"
    and "\<And>g. g \<in> set (files d) \<Longrightarrow> P g \<Longrightarrow> f_id g = f_id f"
  shows "lost_bytes P d x = (if x = f_org f then file_bytes (file_versions d) (f_id f) else 0)"
proof -
  have uniq: "g = f" if "g \<in> set (files d)" and "P g" for g
    by (rule key_unique [OF keys_okD(3) [OF assms(1)] that(1) assms(2) assms(4) [OF that]])
  have dist: "distinct (files d)" using keys_okD(3) [OF assms(1)] by (simp add: distinct_map)
  show ?thesis
  proof (cases "f_org f = x")
    case True
    have "filter (\<lambda>g. P g \<and> f_org g = x) (files d) = [f]"
      by (rule filter_single [OF dist assms(2)]) (use assms(3) True uniq in auto)
    then show ?thesis using True by (simp add: lost_bytes_def)
  next
    case False
    then have "filter (\<lambda>g. P g \<and> f_org g = x) (files d) = []" using uniq by (auto simp: filter_empty_conv)
    then show ?thesis using False by (simp add: lost_bytes_def)
  qed
qed

lemma repo_Purge_spec:
  assumes inv: "db_inv d"
  shows "\<exists>d'. repo_Purge fid d = (Inr (), d') \<and> db_inv d' \<and>
    files d' = delete_where (\<lambda>f. f_id f = fid \<and> f_deleted f \<noteq> None) (files d) \<and>
    folders d' = folders d \<and> chunks d' = chunks d \<and> chunk_locations d' = chunk_locations d"
proof (cases "List.find (\<lambda>f. f_id f = fid \<and> f_deleted f \<noteq> None) (files d)")
  case None
  then have "delete_where (\<lambda>f. f_id f = fid \<and> f_deleted f \<noteq> None) (files d) = files d"
    by (intro delete_where_none) (auto simp: find_None_iff)
  then show ?thesis using None inv by (simp add: repo_Purge_def transaction_def)
next
  case (Some f)
  let ?P = "\<lambda>f. f_id f = fid \<and> f_deleted f \<noteq> None"
  note s = db_invD(1) [OF inv]
  have f: "f \<in> set (files d)" "?P f" using find_SomeD [OF Some] by simp_all
  have lost: "lost_bytes ?P d x = (if x = f_org f then file_bytes (file_versions d) (f_id f) else 0)" for x
    by (rule lost_bytes_one [where P = ?P]) (use f struct_invD(1) [OF s] in auto)
  obtain d1 where d1: "delete_files ?P d = Inr d1" using delete_files_ok [OF s] by blast
  obtain d2 where d2: "add_usage (- file_bytes (file_versions d) (f_id f)) (f_org f) d1 = Inr d2" "db_inv d2"
    using purge_step [OF inv d1 lost] by blast
  obtain g where "g \<in> set (organizations d)" "o_id g = f_org f" using file_org_exists [OF s f(1)] by blast
  then have "in_int64 (file_bytes (file_versions d) (f_id f))"
    using lost_in_int64 [OF inv, of g ?P] lost [of "f_org f"] by simp
  then have "repo_Purge fid d = (Inr (), d2)"
    using Some d1 d2 by (simp add: repo_Purge_def transaction_def Let_def)
  then show ?thesis
    using d2(2) delete_files_frame [OF d1] unfolding add_usage_frame [OF d2(1)] by auto
qed

lemma file_Purge_inv [inv_intros]: "preserves db_inv (file_Purge current)"
proof (rule preservesI)
  fix d assume "db_inv d"
  then show "db_inv (snd (file_Purge current d))"
    using repo_Purge_spec [of d "f_id current"] by (auto simp: file_Purge_def)
qed

definition credited :: "(id \<times> int) list \<Rightarrow> Organization \<Rightarrow> Organization" where
  "credited freed g = (case map_of freed (o_id g) of None \<Rightarrow> g | Some b \<Rightarrow> g\<lparr>o_usage := o_usage g - b\<rparr>)"

lemma credit_orgs_eq:
  assumes "distinct (map fst freed)"
    and "\<And>oid b g. (oid, b) \<in> set freed \<Longrightarrow> g \<in> set (organizations d) \<Longrightarrow> o_id g = oid \<Longrightarrow>
      in_int64 (o_usage g - b) \<and> 0 \<le> o_usage g - b"
  shows "credit_orgs freed d = Inr (d\<lparr>organizations := map (credited freed) (organizations d)\<rparr>)"
  using assms
proof (induction freed arbitrary: d)
  case Nil
  then show ?case by (simp add: credited_def)
next
  case (Cons p freed)
  obtain oid b where p: "p = (oid, b)" by (cases p)
  define d1 where "d1 = d\<lparr>organizations := update_where (\<lambda>g. o_id g = oid) (\<lambda>g. g\<lparr>o_usage := o_usage g + - b\<rparr>) (organizations d)\<rparr>"
  have "\<forall>g \<in> set (organizations d). o_id g = oid \<longrightarrow> in_int64 (o_usage g + - b) \<and> 0 \<le> o_usage g + - b"
    using Cons.prems(2) [of oid b] by (simp add: p)
  then have "\<not> (\<exists>g \<in> set (organizations d). o_id g = oid \<and> \<not> in_int64 (o_usage g + - b))"
    "\<not> (\<exists>g \<in> set (organizations d). o_id g = oid \<and> o_usage g + - b < 0)" by force+
  then have step: "add_usage (- b) oid d = Inr d1"
    unfolding add_usage_def d1_def by (simp only: if_False)
  have fresh: "oid' \<noteq> oid" if "(oid', b') \<in> set freed" for oid' b'
    using that Cons.prems(1) by (force simp: p)
  have "credit_orgs freed d1 = Inr (d1\<lparr>organizations := map (credited freed) (organizations d1)\<rparr>)"
  proof (rule Cons.IH)
    show "distinct (map fst freed)" using Cons.prems(1) by simp
    fix oid' b' g assume g: "(oid', b') \<in> set freed" "g \<in> set (organizations d1)" "o_id g = oid'"
    then have "g \<in> set (organizations d)" using fresh [OF g(1)]
      by (auto simp: d1_def in_update_where split: if_splits)
    then show "in_int64 (o_usage g - b') \<and> 0 \<le> o_usage g - b'" using Cons.prems(2) g by auto
  qed
  moreover have "map_of freed oid = None" using Cons.prems(1) by (simp add: p map_of_eq_None_iff)
  then have "map (credited freed) (organizations d1) = map (credited (p # freed)) (organizations d)"
    by (auto simp: d1_def update_where_def credited_def p split: option.split)
  ultimately show ?case by (simp add: p step) (simp add: d1_def)
qed

lemma file_PurgeExpiredTrash_spec:
  assumes inv: "db_inv d"
  shows "\<exists>d'. file_PurgeExpiredTrash now olderThan d =
      ((int (rows_affected (expired_file now olderThan) (files d)), None), d') \<and> db_inv d' \<and>
    files d' = delete_where (expired_file now olderThan) (files d) \<and>
    folders d' = folders d \<and> chunks d' = chunks d \<and> chunk_locations d' = chunk_locations d"
proof -
  let ?P = "expired_file now olderThan" and ?fr = "orgs_freed now olderThan d"
  note s = db_invD(1) [OF inv]
  obtain d1 where d1: "delete_files ?P d = Inr d1" using delete_files_ok [OF s] by blast
  note fr = delete_files_frame [OF d1]
  have s1: "struct_inv d1" by (rule delete_files_struct [OF s d1])
  have bytes: "org_bytes (files d1) (file_versions d1) x = org_bytes (files d) (file_versions d) x - lost_bytes ?P d x" for x
    by (rule delete_files_bytes [OF s d1])
  have in_fr: "\<exists>g \<in> set (organizations d). o_id g = oid" "b = lost_bytes ?P d oid" if "(oid, b) \<in> set ?fr" for oid b
    using that file_org_exists [OF s] by (auto simp: orgs_freed_def) 
  have usage: "o_usage g = org_bytes (files d) (file_versions d) (o_id g)" "in_int64 (o_usage g)"
    if "g \<in> set (organizations d)" for g using db_invD(2) [OF inv] that by (auto simp: usage_ok_def)
  have rest: "0 \<le> org_bytes (files d1) (file_versions d1) x" for x
    by (rule org_bytes_nonneg [OF struct_invD(6) [OF s1]])
  have ok: "in_int64 (o_usage g - b) \<and> 0 \<le> o_usage g - b"
    if "(oid, b) \<in> set ?fr" "g \<in> set (organizations d1)" "o_id g = oid" for oid b g
    using in_fr(2) [OF that(1)] usage [of g] rest [of oid] bytes [of oid] that(2,3)
      lost_bytes_nonneg [OF struct_invD(6) [OF s], of ?P oid] by (auto simp: fr in_int64_def)
  have "distinct (map fst ?fr)" by (simp add: orgs_freed_def comp_def)
  from credit_orgs_eq [OF this ok]
  have credit: "credit_orgs ?fr d1 = Inr (d1\<lparr>organizations := map (credited ?fr) (organizations d1)\<rparr>)" .
  have "\<not> (\<exists>(_, b) \<in> set ?fr. \<not> in_int64 b)"
    using in_fr lost_in_int64 [OF inv] by fastforce
  then have run: "file_PurgeExpiredTrash now olderThan d =
      ((int (rows_affected ?P (files d)), None), d1\<lparr>organizations := map (credited ?fr) (organizations d1)\<rparr>)"
    using d1 credit by (simp add: file_PurgeExpiredTrash_def transaction_def Let_def)
  have cr: "o_usage (credited ?fr g) = o_usage g - lost_bytes ?P d (o_id g)" for g
  proof (cases "o_id g \<in> set (map f_org (filter ?P (files d)))")
    case True
    then have "map_of ?fr (o_id g) = Some (lost_bytes ?P d (o_id g))"
      by (simp add: orgs_freed_def map_of_map_restrict restrict_map_def)
    then show ?thesis by (simp add: credited_def)
  next
    case False
    then have "filter (\<lambda>f. ?P f \<and> f_org f = o_id g) (files d) = []"
      by (auto simp: filter_empty_conv image_iff)
    moreover have "map_of ?fr (o_id g) = None"
      using False by (simp add: orgs_freed_def map_of_map_restrict restrict_map_def)
    ultimately show ?thesis by (simp add: credited_def lost_bytes_def)
  qed
  have keep: "o_id (credited ?fr g) = o_id g" "o_owner (credited ?fr g) = o_owner g" for g
    by (simp_all add: credited_def split: option.split)
  have "struct_inv (d1\<lparr>organizations := map (credited ?fr) (organizations d1)\<rparr>)"
    by (rule struct_inv_orgs [OF s1]) (simp add: keep)
  moreover have "usage_ok (map (credited ?fr) (organizations d1)) (files d1) (file_versions d1)"
    unfolding usage_ok_def
  proof (clarsimp simp: keep cr fr(1))
    fix g assume g: "g \<in> set (organizations d)"
    have "o_usage g - lost_bytes ?P d (o_id g) = org_bytes (files d1) (file_versions d1) (o_id g)"
      using usage(1) [OF g] bytes by simp
    moreover have "in_int64 (o_usage g - lost_bytes ?P d (o_id g))"
      using usage [OF g] rest [of "o_id g"] bytes [of "o_id g"]
        lost_bytes_nonneg [OF struct_invD(6) [OF s], of ?P "o_id g"] by (simp add: in_int64_def)
    ultimately show "o_usage g - lost_bytes ?P d (o_id g) = org_bytes (files d1) (file_versions d1) (o_id g) \<and>
        in_int64 (o_usage g - lost_bytes ?P d (o_id g))" by simp
  qed
  ultimately have "db_inv (d1\<lparr>organizations := map (credited ?fr) (organizations d1)\<rparr>)" by (simp add: db_inv_def)
  then show ?thesis using run fr by auto
qed

interpretation file_purger: trash_purger file_PurgeExpiredTrash
proof (unfold_locales, goal_cases)
  case (1 d now olderThan) then show ?case using file_PurgeExpiredTrash_spec [of d now olderThan] by auto
next
  case (2 d now olderThan) then show ?case using file_PurgeExpiredTrash_spec [of d now olderThan] by auto
next
  case (3 d f now olderThan)
  then show ?case using file_PurgeExpiredTrash_spec [of d now olderThan] by (auto simp: expired_file_def)
next
  case (4 d g now olderThan) then show ?case using file_PurgeExpiredTrash_spec [of d now olderThan] by auto
next
  case (5 d now olderThan) then show ?case using file_PurgeExpiredTrash_spec [of d now olderThan] by auto
qed

section \<open>New versions\<close>

definition chunk_rows :: "id \<Rightarrow> nat \<Rightarrow> string list \<Rightarrow> VersionChunk list" where
  "chunk_rows vid i hs = map (\<lambda>(k, h). \<lparr>vc_version = vid, vc_seq = k, vc_hash = h\<rparr>) (zip [i ..< i + length hs] hs)"

lemma chunk_rows_Cons: "chunk_rows vid i (h # hs) = \<lparr>vc_version = vid, vc_seq = i, vc_hash = h\<rparr> # chunk_rows vid (Suc i) hs"
  by (simp add: chunk_rows_def upt_conv_Cons del: upt_Suc)

lemma insert_chunks_effect:
  assumes "insert_chunks vid i hs d = Inr d'"
  shows "d' = d\<lparr>file_version_chunks := file_version_chunks d @ chunk_rows vid i hs\<rparr> \<and> (\<forall>h \<in> set hs. has_chunk d h)"
  using assms
proof (induction hs arbitrary: i d)
  case Nil
  then show ?case by (simp add: chunk_rows_def)
next
  case (Cons h hs)
  then have h: "has_chunk d h" and rest: "insert_chunks vid (Suc i) hs (d\<lparr>file_version_chunks := file_version_chunks d @
      [\<lparr>vc_version = vid, vc_seq = i, vc_hash = h\<rparr>]\<rparr>) = Inr d'"
    by (simp_all split: if_splits)
  from Cons.IH [OF rest] h show ?case by (simp add: chunk_rows_Cons has_chunk_def)
qed

lemma insert_chunks_succeeds:
  assumes "has_version d vid" and "\<forall>h \<in> set hs. has_chunk d h"
    and "\<forall>c \<in> set (file_version_chunks d). vc_version c = vid \<longrightarrow> vc_seq c < i"
  shows "\<exists>d'. insert_chunks vid i hs d = Inr d'"
  using assms
proof (induction hs arbitrary: i d)
  case (Cons h hs)
  have "\<exists>d'. insert_chunks vid (Suc i) hs (d\<lparr>file_version_chunks := file_version_chunks d @
      [\<lparr>vc_version = vid, vc_seq = i, vc_hash = h\<rparr>]\<rparr>) = Inr d'"
    by (rule Cons.IH) (use Cons.prems in \<open>auto simp: has_version_def has_chunk_def less_Suc_eq\<close>)
  moreover have "\<not> (\<exists>c \<in> set (file_version_chunks d). vc_version c = vid \<and> vc_seq c = i)"
    using Cons.prems(3) by blast
  ultimately show ?case using Cons.prems(1,2) by simp
qed simp

lemma sorted_chunk_rows: "sort_key vc_seq (chunk_rows vid i hs) = chunk_rows vid i hs"
proof -
  have "map vc_seq (chunk_rows vid i hs) = [i ..< i + length hs]"
    by (simp add: chunk_rows_def comp_def case_prod_beta)
  then show ?thesis by (intro sort_key_id_if_sorted) simp
qed

text \<open>Adding a version with its chunk list to a file of the table.\<close>

definition add_version :: "(File \<Rightarrow> File) \<Rightarrow> Version \<Rightarrow> string list \<Rightarrow> db \<Rightarrow> db" where
  "add_version touch v hs d = d\<lparr>file_versions := file_versions d @ [v],
     file_version_chunks := file_version_chunks d @ chunk_rows (v_id v) 0 hs,
     files := update_where (\<lambda>f. f_id f = v_file v) (\<lambda>f. touch (f\<lparr>f_latest := Some (v_id v)\<rparr>)) (files d)\<rparr>"

definition keeps_file :: "(File \<Rightarrow> File) \<Rightarrow> bool" where
  "keeps_file touch \<longleftrightarrow> (\<forall>f. f_id (touch f) = f_id f \<and> f_org (touch f) = f_org f \<and>
     f_folder (touch f) = f_folder f \<and> f_latest (touch f) = f_latest f)"

lemma add_version_struct:
  assumes s: "struct_inv d" and t: "keeps_file touch" and new: "\<not> has_version d (v_id v)"
    and exst: "has_file d (v_file v)" and size: "0 \<le> v_size v" and hs: "\<forall>h \<in> set hs. has_chunk d h"
  shows "struct_inv (add_version touch v hs d)"
proof -
  note i = struct_invD [OF s]
  let ?fs = "update_where (\<lambda>f. f_id f = v_file v) (\<lambda>f. touch (f\<lparr>f_latest := Some (v_id v)\<rparr>)) (files d)"
  have same: "map (\<lambda>f. (f_id f, f_org f)) ?fs = map (\<lambda>f. (f_id f, f_org f)) (files d)"
    using t by (simp add: keeps_file_def)
  have ids: "f_id ` set ?fs = f_id ` set (files d)" using map_fst_eq [OF same] by (metis list.set_map)

  have "files_ok (folders d) (files d) (file_versions d @ [v])"
    using i(5) by (auto simp: files_ok_def)
  then have "files_ok (folders d) ?fs (file_versions d @ [v])"
    by (rule files_ok_update) (use i(5) t in \<open>auto simp: files_ok_def keeps_file_def\<close>)
  moreover have "versions_ok ?fs (file_versions d @ [v])"
    using i(6) size exst unfolding versions_ok_def ids by (auto simp: has_file_def)
  moreover have "chunks_ok (file_versions d @ [v]) (file_version_chunks d @ chunk_rows (v_id v) 0 hs) (chunks d)"
    using i(7) hs by (auto simp: chunks_ok_def chunk_rows_def has_chunk_def dest: set_zip_rightD)
  moreover have "uploads_ok (folders d) ?fs (uploads d)"
    using i(8) file_in_org_map [OF same] by (simp add: uploads_ok_def)
  moreover have "keys_ok (add_version touch v hs d)"
  proof -
    have "v_id v \<notin> v_id ` set (file_versions d)" using new by (simp add: has_version_def)
    then show ?thesis using i(1) map_fst_eq [OF same] by (simp add: keys_ok_def add_version_def)
  qed
  ultimately show ?thesis
    using i by (simp add: struct_inv_def add_version_def)
qed

lemma add_version_bytes:
  assumes "keeps_file touch"
  shows "org_bytes (files (add_version touch v hs d)) (file_versions (add_version touch v hs d)) x =
    org_bytes (files d) (file_versions d) x + (if file_in_org (files d) x (v_file v) then v_size v else 0)"
proof -
  let ?fs = "update_where (\<lambda>f. f_id f = v_file v) (\<lambda>f. touch (f\<lparr>f_latest := Some (v_id v)\<rparr>)) (files d)"
  have "map (\<lambda>f. (f_id f, f_org f)) ?fs = map (\<lambda>f. (f_id f, f_org f)) (files d)"
    using assms by (simp add: keeps_file_def)
  from file_in_org_map [OF this] show ?thesis by (simp add: add_version_def org_bytes_def)
qed

lemma GetVersionChunks_added:
  assumes "struct_inv d" and "\<not> has_version d (v_id v)"
  shows "GetVersionChunks (add_version touch v hs d) (v_id v) = zip [0 ..< length hs] hs"
proof -
  have "\<forall>c \<in> set (file_version_chunks d). vc_version c \<noteq> v_id v"
    using struct_invD(7) [OF assms(1)] assms(2) unfolding chunks_ok_def has_version_def by metis
  then have "filter (\<lambda>c. vc_version c = v_id v) (file_version_chunks d) = []" by (simp add: filter_empty_conv)
  moreover have "filter (\<lambda>c. vc_version c = v_id v) (chunk_rows (v_id v) 0 hs) = chunk_rows (v_id v) 0 hs"
    by (auto simp: chunk_rows_def filter_id_conv)
  ultimately have "GetVersionChunks (add_version touch v hs d) (v_id v) =
      map (\<lambda>c. (vc_seq c, vc_hash c)) (chunk_rows (v_id v) 0 hs)"
    by (simp add: GetVersionChunks_def add_version_def sorted_chunk_rows)
  then show ?thesis by (simp add: chunk_rows_def comp_def case_prod_beta)
qed

lemma has_file_append [simp]: "has_file (d\<lparr>files := files d @ [f]\<rparr>) x \<longleftrightarrow> x = f_id f \<or> has_file d x"
  by (auto simp: has_file_def)

lemma has_frames [simp]:
  "has_version (d\<lparr>files := fs\<rparr>) x = has_version d x" "has_user (d\<lparr>files := fs\<rparr>) x = has_user d x"
  "has_chunk (d\<lparr>files := fs\<rparr>) x = has_chunk d x" "has_chunk (d\<lparr>file_versions := vs\<rparr>) x = has_chunk d x"
  by (simp_all add: has_version_def has_user_def has_chunk_def)

text \<open>What a successful insertion has done.\<close>

lemma AddVersion_effect:
  assumes "AddVersion vid now oid fid creator sz cs mime hs d = (Inr x, d')"
  defines "v \<equiv> \<lparr>v_id = vid, v_file = fid, v_size = sz, v_checksum = cs, v_mime = mime, v_thumb = None,
    v_created_by = creator, v_created = now\<rparr>"
  shows "x = vid \<and> \<not> has_version d vid \<and> has_file d fid \<and> (\<forall>h \<in> set hs. has_chunk d h) \<and>
    add_usage sz oid (add_version (\<lambda>f. f\<lparr>f_updated := now\<rparr>) v hs d) = Inr d'"
proof -
  obtain d1 d2 where d1: "insert_version v d = Inr d1" and d2: "insert_chunks vid 0 hs d1 = Inr d2"
    and d3: "add_usage sz oid (set_latest (\<lambda>f. f\<lparr>f_updated := now\<rparr>) vid fid d2) = Inr d'" and x: "x = vid"
    using assms by (auto simp: AddVersion_def transaction_def Let_def split: sum.splits)
  have v: "\<not> has_version d vid" "has_file d fid" "d1 = d\<lparr>file_versions := file_versions d @ [v]\<rparr>"
    using d1 by (auto simp: insert_version_def v_def split: if_splits)
  note eff = insert_chunks_effect [OF d2]
  have "set_latest (\<lambda>f. f\<lparr>f_updated := now\<rparr>) vid fid d2 = add_version (\<lambda>f. f\<lparr>f_updated := now\<rparr>) v hs d"
    using eff by (simp add: set_latest_def add_version_def v(3) v_def)
  then show ?thesis using v eff d3 x by (auto simp: v(3))
qed

lemma CreateWithVersion_effect:
  assumes "CreateWithVersion fid vid now oid fo name creator sz cs mime hs d = (Inr x, d')"
  defines "v \<equiv> \<lparr>v_id = vid, v_file = fid, v_size = sz, v_checksum = cs, v_mime = mime, v_thumb = None,
    v_created_by = creator, v_created = now\<rparr>"
    and "f \<equiv> \<lparr>f_id = fid, f_org = oid, f_folder = fo, f_name = name, f_latest = None, f_created_by = creator,
    f_created = now, f_updated = now, f_deleted = None\<rparr>"
  shows "x = (fid, vid) \<and> \<not> has_file d fid \<and> has_org d oid \<and> has_folder d fo \<and> \<not> has_version d vid \<and>
    (\<forall>h \<in> set hs. has_chunk d h) \<and>
    add_usage sz oid (add_version (\<lambda>f. f) v hs (d\<lparr>files := files d @ [f]\<rparr>)) = Inr d'"
proof -
  obtain d1 d2 where pre: "\<not> has_file d fid" "has_org d oid" "has_folder d fo"
    and d1: "insert_version v (d\<lparr>files := files d @ [f]\<rparr>) = Inr d1" and d2: "insert_chunks vid 0 hs d1 = Inr d2"
    and d3: "add_usage sz oid (set_latest (\<lambda>f. f) vid fid d2) = Inr d'" and x: "x = (fid, vid)"
    using assms by (auto simp: CreateWithVersion_def transaction_def Let_def split: sum.splits if_splits)
  have v: "\<not> has_version d vid" "d1 = d\<lparr>files := files d @ [f], file_versions := file_versions d @ [v]\<rparr>"
    using d1 by (auto simp: insert_version_def v_def split: if_splits)
  note eff = insert_chunks_effect [OF d2]
  have "set_latest (\<lambda>f. f) vid fid d2 = add_version (\<lambda>f. f) v hs (d\<lparr>files := files d @ [f]\<rparr>)"
    using eff by (simp add: set_latest_def add_version_def v(2) v_def)
  then show ?thesis using pre v eff d3 x by (auto simp: has_chunk_def)
qed

lemma new_file_struct:
  assumes s: "struct_inv d" and new: "\<not> has_file d (f_id f)" and fo: "folder_in_org (folders d) (f_org f) (f_folder f)"
    and lat: "f_latest f = None"
  shows "struct_inv (d\<lparr>files := files d @ [f]\<rparr>)"
    and "org_bytes (files d @ [f]) (file_versions d) x = org_bytes (files d) (file_versions d) x"
proof -
  note i = struct_invD [OF s]
  have "keys_ok (d\<lparr>files := files d @ [f]\<rparr>)" using i(1) new by (auto simp: keys_ok_def has_file_def)
  moreover have "files_ok (folders d) (files d @ [f]) (file_versions d)"
    using i(5) fo lat by (auto simp: files_ok_def)
  moreover have "versions_ok (files d @ [f]) (file_versions d)" using i(6) by (auto simp: versions_ok_def)
  moreover have "uploads_ok (folders d) (files d @ [f]) (uploads d)"
    using i(8) by (auto simp: uploads_ok_def file_in_org_def)
  ultimately show "struct_inv (d\<lparr>files := files d @ [f]\<rparr>)" using i by (simp add: struct_inv_def)
  have "v_file v \<noteq> f_id f" if "v \<in> set (file_versions d)" for v
    using i(6) new that unfolding versions_ok_def has_file_def by metis
  then show "org_bytes (files d @ [f]) (file_versions d) x = org_bytes (files d) (file_versions d) x"
    by (intro org_bytes_cong) (metis (no_types, lifting) UnE empty_iff empty_set file_in_org_def insert_iff
        list.set(2) set_append UnI1)
qed

lemma AddVersion_inv:
  assumes inv: "db_inv d" and size: "0 \<le> sz" and target: "file_in_org (files d) oid fid"
  shows "db_inv (snd (AddVersion vid now oid fid creator sz cs mime hs d))"
proof (cases "AddVersion vid now oid fid creator sz cs mime hs d")
  case (Pair r d')
  show ?thesis
  proof (cases r)
    case (Inl e)
    then have "d' = d" using Pair by (auto simp: AddVersion_def transaction_def split: sum.splits)
    then show ?thesis using Pair inv by simp
  next
    case (Inr x)
    define v where "v = \<lparr>v_id = vid, v_file = fid, v_size = sz, v_checksum = cs, v_mime = mime,
      v_thumb = None, v_created_by = creator, v_created = now\<rparr>"
    note eff = AddVersion_effect [OF Pair [unfolded Inr], folded v_def]
    let ?t = "\<lambda>f. f\<lparr>f_updated := now\<rparr> :: File"
    have t: "keeps_file ?t" by (simp add: keeps_file_def)
    have s: "struct_inv (add_version ?t v hs d)"
      by (rule add_version_struct [OF db_invD(1) [OF inv] t]) (use eff size in \<open>simp_all add: v_def\<close>)
    have uniq: "file_in_org (files d) x fid \<longleftrightarrow> x = oid" for x
      using target key_unique [OF keys_okD(3) [OF struct_invD(1) [OF db_invD(1) [OF inv]]]]
      unfolding file_in_org_def by metis
    have "db_inv d'"
    proof (rule usage_restored [OF inv s])
      show "organizations (add_version ?t v hs d) = organizations d" by (simp add: add_version_def)
      show "add_usage sz oid (add_version ?t v hs d) = Inr d'" using eff by simp
    qed (simp add: add_version_bytes [OF t] uniq v_def)
    then show ?thesis using Pair by simp
  qed
qed

lemma CreateWithVersion_inv:
  assumes inv: "db_inv d" and size: "0 \<le> sz" and target: "folder_in_org (folders d) oid fo"
  shows "db_inv (snd (CreateWithVersion fid vid now oid fo name creator sz cs mime hs d))"
proof (cases "CreateWithVersion fid vid now oid fo name creator sz cs mime hs d")
  case (Pair r d')
  show ?thesis
  proof (cases r)
    case (Inl e)
    then have "d' = d" using Pair by (auto simp: CreateWithVersion_def transaction_def split: sum.splits)
    then show ?thesis using Pair inv by simp
  next
    case (Inr x)
    define v where "v = \<lparr>v_id = vid, v_file = fid, v_size = sz, v_checksum = cs, v_mime = mime,
      v_thumb = None, v_created_by = creator, v_created = now\<rparr>"
    define f where "f = \<lparr>f_id = fid, f_org = oid, f_folder = fo, f_name = name, f_latest = None,
      f_created_by = creator, f_created = now, f_updated = now, f_deleted = None\<rparr>"
    note eff = CreateWithVersion_effect [OF Pair [unfolded Inr], folded v_def f_def]
    have t: "keeps_file (\<lambda>f. f)" by (simp add: keeps_file_def)
    have f: "\<not> has_file d (f_id f)" "folder_in_org (folders d) (f_org f) (f_folder f)" "f_latest f = None"
      using eff target by (simp_all add: f_def)
    note new = new_file_struct [OF db_invD(1) [OF inv] f]
    have s: "struct_inv (add_version (\<lambda>f. f) v hs (d\<lparr>files := files d @ [f]\<rparr>))"
      by (rule add_version_struct [OF new(1) t]) (use eff size in \<open>simp_all add: v_def f_def\<close>)
    have uniq: "file_in_org (files d @ [f]) x fid \<longleftrightarrow> x = oid" for x
      using f(1) by (auto simp: file_in_org_def has_file_def f_def)
    have "db_inv d'"
    proof (rule usage_restored [OF inv s])
      show "organizations (add_version (\<lambda>f. f) v hs (d\<lparr>files := files d @ [f]\<rparr>)) = organizations d"
        by (simp add: add_version_def)
      show "add_usage sz oid (add_version (\<lambda>f. f) v hs (d\<lparr>files := files d @ [f]\<rparr>)) = Inr d'" using eff by simp
    qed (simp add: add_version_bytes [OF t] uniq v_def new(2))
    then show ?thesis using Pair by simp
  qed
qed

section \<open>Reading back\<close>

lemma OrgUsageBytes_exists:
  assumes "has_org d oid"
  shows "\<exists>u. OrgUsageBytes d oid = Inr u"
proof (cases "List.find (\<lambda>g. o_id g = oid) (organizations d)")
  case None
  then show ?thesis using assms unfolding has_org_def find_None_iff by blast
qed (simp add: OrgUsageBytes_def)

lemma OrgUsageBytes_add:
  assumes "add_usage delta oid d = Inr d'"
  shows "OrgUsageBytes d' x =
    (case OrgUsageBytes d x of Inl e \<Rightarrow> Inl e | Inr u \<Rightarrow> Inr (if x = oid then u + delta else u))"
proof -
  have "organizations d' = update_where (\<lambda>g. o_id g = oid) (\<lambda>g. g\<lparr>o_usage := o_usage g + delta\<rparr>) (organizations d)"
    by (simp add: add_usage_frame [OF assms])
  then show ?thesis
    by (auto simp: OrgUsageBytes_def find_update_where split: option.split dest!: find_SomeD)
qed

lemma version_charged:
  assumes "add_usage sz oid (add_version touch v hs d1) = Inr d'" and "organizations d1 = organizations d"
  shows "OrgUsageBytes d' x =
    (case OrgUsageBytes d x of Inl e \<Rightarrow> Inl e | Inr n \<Rightarrow> Inr (if x = oid then n + sz else n))"
  using OrgUsageBytes_add [OF assms(1), of x] assms(2) by (simp add: OrgUsageBytes_def add_version_def)

lemma version_readback:
  assumes s: "struct_inv d" and new: "\<not> has_version d (v_id v)"
    and add: "add_usage delta oid (add_version touch v hs d) = Inr d'" and t: "keeps_file touch"
  shows "GetVersion d' (v_file v) (v_id v) = Inr v" and "GetVersionChunks d' (v_id v) = zip [0 ..< length hs] hs"
    and "\<forall>f \<in> set (files d'). f_id f = v_file v \<longrightarrow> f_latest f = Some (v_id v)"
    and "uploads d' = uploads d" and "upload_chunks d' = upload_chunks d" and "chunks d' = chunks d"
    and "org_chunk_proofs d' = org_chunk_proofs d" and "folders d' = folders d"
    and "chunk_locations d' = chunk_locations d" and "memberships d' = memberships d"
proof -
  note fr = add_usage_frame [OF add]
  have "GetVersionChunks d' (v_id v) = GetVersionChunks (add_version touch v hs d) (v_id v)"
    by (simp add: fr GetVersionChunks_def)
  then show "GetVersionChunks d' (v_id v) = zip [0 ..< length hs] hs" by (simp add: GetVersionChunks_added [OF s new])
  have vs: "file_versions d' = file_versions d @ [v]" by (simp add: fr add_version_def)
  show "GetVersion d' (v_file v) (v_id v) = Inr v"
  proof (cases "List.find (\<lambda>w. v_id w = v_id v \<and> v_file w = v_file v) (file_versions d')")
    case None then show ?thesis unfolding find_None_iff vs by auto
  next
    case (Some w)
    then have "w \<in> set (file_versions d') \<and> v_id w = v_id v" using find_SomeD by fast
    then have "w = v" using new unfolding has_version_def vs by (auto simp: image_iff)
    then show ?thesis using Some by (simp add: GetVersion_def scanVersion_def)
  qed
  have "files d' = update_where (\<lambda>f. f_id f = v_file v) (\<lambda>f. touch (f\<lparr>f_latest := Some (v_id v)\<rparr>)) (files d)"
    by (simp add: fr add_version_def)
  then show "\<forall>f \<in> set (files d'). f_id f = v_file v \<longrightarrow> f_latest f = Some (v_id v)"
    using t by (simp add: keeps_file_def)
qed (simp_all add: add_usage_frame [OF add] add_version_def)

section \<open>The file port of uploads\<close>

text \<open>
  \<^verbatim>\<open>upload.FileCreator\<close>: what completing an upload relies on. With a size that is not negative,
  and a folder or file of the organization, creation keeps the database sound; a failure
  changes nothing; a success yields a version that reads back with its size and its chunk list
  in order, charges the organization that size, and leaves the upload tables alone.
\<close>

definition version_stored :: "db \<Rightarrow> id \<Rightarrow> id \<Rightarrow> int \<Rightarrow> string list \<Rightarrow> bool" where
  "version_stored d fid vid sz hs \<longleftrightarrow>
     (\<exists>v. GetVersion d fid vid = Inr v \<and> v_size v = sz) \<and> GetVersionChunks d vid = zip [0 ..< length hs] hs"

definition same_uploads :: "db \<Rightarrow> db \<Rightarrow> bool" where
  "same_uploads d d' \<longleftrightarrow> uploads d' = uploads d \<and> upload_chunks d' = upload_chunks d \<and> chunks d' = chunks d \<and>
     org_chunk_proofs d' = org_chunk_proofs d \<and> folders d' = folders d"

lemma AddVersion_ok:
  assumes inv: "db_inv d" and ok: "AddVersion versionID now oid fid creator sz cs mime hs d = (Inr vid, d')"
  shows "version_stored d' fid vid sz hs \<and> same_uploads d d' \<and> has_file d' fid \<and> \<not> has_version d vid"
proof -
  define v where "v = \<lparr>v_id = versionID, v_file = fid, v_size = sz, v_checksum = cs, v_mime = mime,
    v_thumb = None, v_created_by = creator, v_created = now\<rparr>"
  let ?t = "\<lambda>f. f\<lparr>f_updated := now\<rparr> :: File"
  note eff = AddVersion_effect [OF ok, folded v_def]
  have t: "keeps_file ?t" by (simp add: keeps_file_def)
  have add: "add_usage sz oid (add_version ?t v hs d) = Inr d'" and new: "\<not> has_version d (v_id v)"
    using eff by (simp_all add: v_def)
  note rb = version_readback [OF db_invD(1) [OF inv] new add t]
  have "f_id ` set (files d') = f_id ` set (files d)"
    by (simp add: add_usage_frame [OF add] add_version_def set_map [symmetric] del: set_map)
  then show ?thesis
    using eff rb by (auto simp: version_stored_def same_uploads_def v_def has_file_def)
qed

lemma CreateWithVersion_ok:
  assumes inv: "db_inv d" and fo: "folder_in_org (folders d) oid fo"
    and ok: "CreateWithVersion fileID versionID now oid fo name creator sz cs mime hs d = (Inr (fid, vid), d')"
  shows "version_stored d' fid vid sz hs \<and> same_uploads d d' \<and> has_file d' fid \<and> \<not> has_version d vid"
proof -
  define v where "v = \<lparr>v_id = versionID, v_file = fileID, v_size = sz, v_checksum = cs, v_mime = mime,
    v_thumb = None, v_created_by = creator, v_created = now\<rparr>"
  define f where "f = \<lparr>f_id = fileID, f_org = oid, f_folder = fo, f_name = name, f_latest = None,
    f_created_by = creator, f_created = now, f_updated = now, f_deleted = None\<rparr>"
  note eff = CreateWithVersion_effect [OF ok, folded v_def f_def]
  let ?d = "d\<lparr>files := files d @ [f]\<rparr>"
  have t: "keeps_file (\<lambda>f. f)" by (simp add: keeps_file_def)
  have s: "struct_inv ?d"
    by (rule new_file_struct(1) [OF db_invD(1) [OF inv]]) (use eff fo in \<open>simp_all add: f_def\<close>)
  have add: "add_usage sz oid (add_version (\<lambda>f. f) v hs ?d) = Inr d'" and new: "\<not> has_version ?d (v_id v)"
    using eff by (simp_all add: v_def)
  note rb = version_readback [OF s new add t]
  have "f_id ` set (files d') = f_id ` set (files ?d)"
    by (simp add: add_usage_frame [OF add] add_version_def set_map [symmetric] del: set_map)
  then show ?thesis
    using eff rb by (auto simp: version_stored_def same_uploads_def v_def f_def has_file_def)
qed

locale file_creator =
  fixes createWithVersion :: "id \<Rightarrow> id \<Rightarrow> string \<Rightarrow> id \<Rightarrow> int \<Rightarrow> string \<Rightarrow> string \<Rightarrow> string list \<Rightarrow> (id \<times> id) dbop"
    and addVersion :: "id \<Rightarrow> id \<Rightarrow> id \<Rightarrow> int \<Rightarrow> string \<Rightarrow> string \<Rightarrow> string list \<Rightarrow> id dbop"
    and getForUpload :: "db \<Rightarrow> id \<Rightarrow> (id \<times> id \<times> string) res"
  assumes create_inv: "db_inv d \<Longrightarrow> 0 \<le> sz \<Longrightarrow> folder_in_org (folders d) oid fo \<Longrightarrow>
      db_inv (snd (createWithVersion oid fo name creator sz cs mime hs d))"
    and add_inv: "db_inv d \<Longrightarrow> 0 \<le> sz \<Longrightarrow> file_in_org (files d) oid fid \<Longrightarrow>
      db_inv (snd (addVersion oid fid creator sz cs mime hs d))"
    and create_fail: "createWithVersion oid fo name creator sz cs mime hs d = (Inl e, d') \<Longrightarrow> d' = d"
    and add_fail: "addVersion oid fid creator sz cs mime hs d = (Inl e, d') \<Longrightarrow> d' = d"
    and create_ok: "db_inv d \<Longrightarrow> folder_in_org (folders d) oid fo \<Longrightarrow>
      createWithVersion oid fo name creator sz cs mime hs d = (Inr (fid, vid), d') \<Longrightarrow>
      version_stored d' fid vid sz hs \<and> same_uploads d d' \<and> has_file d' fid \<and> \<not> has_version d vid"
    and add_ok: "db_inv d \<Longrightarrow> addVersion oid fid creator sz cs mime hs d = (Inr vid, d') \<Longrightarrow>
      version_stored d' fid vid sz hs \<and> same_uploads d d' \<and> has_file d' fid \<and> \<not> has_version d vid"
    and create_charged: "createWithVersion oid fo name creator sz cs mime hs d = (Inr r, d') \<Longrightarrow>
      OrgUsageBytes d' x = (case OrgUsageBytes d x of Inl e \<Rightarrow> Inl e | Inr n \<Rightarrow> Inr (if x = oid then n + sz else n))"
    and add_charged: "addVersion oid fid creator sz cs mime hs d = (Inr vid, d') \<Longrightarrow>
      OrgUsageBytes d' x = (case OrgUsageBytes d x of Inl e \<Rightarrow> Inl e | Inr n \<Rightarrow> Inr (if x = oid then n + sz else n))"
    and get_live: "getForUpload d fid = Inr (oid, fo, name) \<Longrightarrow>
      \<exists>f \<in> set (files d). f_id f = fid \<and> f_org f = oid \<and> f_folder f = fo \<and> f_deleted f = None"

interpretation file_repo: file_creator "CreateWithVersion fileID versionID now" "AddVersion versionID now" GetForUpload
  for fileID versionID now
proof (unfold_locales, goal_cases)
  case 1 then show ?case by (rule CreateWithVersion_inv)
next
  case 2 then show ?case by (rule AddVersion_inv)
next
  case 3 then show ?case by (auto simp: CreateWithVersion_def transaction_def split: sum.splits)
next
  case 4 then show ?case by (auto simp: AddVersion_def transaction_def split: sum.splits)
next
  case (5 d oid fo name creator sz cs mime hs fid vid d')
  then show ?case by (intro CreateWithVersion_ok)
next
  case (6 d oid fid creator sz cs mime hs vid d')
  then show ?case by (intro AddVersion_ok)
next
  case (7 oid fo name creator sz cs mime hs d r d' x)
  from CreateWithVersion_effect [OF 7] show ?case by (elim conjE) (rule version_charged, assumption, simp)
next
  case (8 oid fid creator sz cs mime hs d vid d' x)
  from AddVersion_effect [OF 8] show ?case by (elim conjE) (rule version_charged, assumption, simp)
next
  case (9 d fid oid fo name)
  then show ?case by (auto simp: GetForUpload_def split: sum.splits dest: file_Get_SomeD)
qed

section \<open>Replica order\<close>

lemma swap_same: "i < length xs \<Longrightarrow> swap i i xs = xs"
  by (simp add: swap_def)

lemma swap_parts:
  "swap (length xs) (length xs + Suc (length ys)) (xs @ b # ys @ c # zs) = xs @ c # ys @ b # zs"
  by (simp add: swap_def nth_append list_update_append)

lemma order_loop_parts:
  "\<exists>ds. order_loop h (length zs) (length xs + length ys) (length xs) (xs @ ys @ zs) = xs @ filter h zs @ ds \<and>
     mset ds = mset ys + mset (filter (\<lambda>n. \<not> h n) zs)"
proof (induction zs arbitrary: xs ys)
  case (Cons c zs)
  have at: "(xs @ ys @ c # zs) ! (length xs + length ys) = c" by (simp add: nth_append)
  show ?case
  proof (cases "h c")
    case False
    from Cons.IH [of xs "ys @ [c]"] obtain ds where
      "order_loop h (length zs) (Suc (length xs + length ys)) (length xs) (xs @ ys @ c # zs) = xs @ filter h zs @ ds"
      "mset ds = mset (ys @ [c]) + mset (filter (\<lambda>n. \<not> h n) zs)" by auto
    then show ?thesis using False at by auto
  next
    case True
    show ?thesis
    proof (cases ys)
      case Nil
      from Cons.IH [of "xs @ [c]" "[]"] obtain ds where
        "order_loop h (length zs) (Suc (length xs)) (Suc (length xs)) (xs @ c # zs) = xs @ c # filter h zs @ ds"
        "mset ds = mset (filter (\<lambda>n. \<not> h n) zs)" by auto
      then show ?thesis using True at Nil by (auto simp: swap_same)
    next
      case (Cons b bs)
      from Cons.IH [of "xs @ [c]" "bs @ [b]"] obtain ds where
        "order_loop h (length zs) (Suc (length xs + length ys)) (Suc (length xs)) (xs @ c # bs @ b # zs) =
          xs @ c # filter h zs @ ds"
        "mset ds = mset (bs @ [b]) + mset (filter (\<lambda>n. \<not> h n) zs)" by (auto simp: Cons)
      moreover have "swap (length xs) (length xs + length ys) (xs @ ys @ c # zs) = xs @ c # bs @ b # zs"
        using swap_parts [of xs bs b c zs] by (simp add: Cons)
      ultimately show ?thesis using True at by (auto simp: Cons)
    qed
  qed
qed simp

lemma orderHealthyFirst_parts:
  "\<exists>ds. orderHealthyFirst ns rt = filter (IsHealthy rt) ns @ ds \<and> mset ds = mset (filter (\<lambda>n. \<not> IsHealthy rt n) ns)"
  using order_loop_parts [of "IsHealthy rt" ns "[]" "[]"] by (simp add: orderHealthyFirst_def)

lemma presign_all_append: "presign_all p (xs @ ys) = presign_all p xs @ presign_all p ys"
  by (induction xs) (auto split: sum.split)

section \<open>Properties\<close>

text \<open>The replica order of a download plan. \<^verbatim>\<open>orderHealthyFirst\<close> returns the healthy nodes
  first, in the order they had, followed by the others, none lost and none repeated.\<close>

theorem orderHealthyFirst_spec:
  "\<exists>ds. orderHealthyFirst ns rt = filter (IsHealthy rt) ns @ ds \<and>
     mset ds = mset (filter (\<lambda>n. \<not> IsHealthy rt n) ns)"
  by (rule orderHealthyFirst_parts)

text \<open>The order of the nodes that are down is not kept, unlike what the comment on
  \<^verbatim>\<open>orderHealthyFirst\<close> says ("stably").\<close>

lemma orderHealthyFirst_unstable:
  "\<exists>rt. filter (\<lambda>n. \<not> IsHealthy rt n) (orderHealthyFirst [''d1'', ''d2'', ''h''] rt) \<noteq>
     filter (\<lambda>n. \<not> IsHealthy rt n) [''d1'', ''d2'', ''h'']"
proof -
  define rt where "rt = (empty_router 0)\<lparr>rt_health := [(''d1'', StatusDown), (''d2'', StatusDown), (''h'', StatusHealthy)]\<rparr>"
  have h: "IsHealthy rt ''h''" "\<not> IsHealthy rt ''d1''" "\<not> IsHealthy rt ''d2''"
    by (simp_all add: IsHealthy_def health_of_def rt_def)
  have "orderHealthyFirst [''d1'', ''d2'', ''h''] rt = [''h'', ''d2'', ''d1'']"
    using h by (simp add: orderHealthyFirst_def swap_def numeral_3_eq_3)
  then show ?thesis using h by (intro exI [of _ rt]) simp
qed

text \<open>C12: a version is stored as given and reads back as given. When \<^verbatim>\<open>CreateWithVersion\<close>
  succeeds on a sound database, for a folder of the organization and a size that is not
  negative, the database is still sound, the new file is live and its latest version is the new
  one, that version has the given size, its chunk list is the given one in the given order, and
  the organization's usage has grown by exactly that size. When it fails nothing has changed.\<close>

theorem CreateWithVersion_roundtrip:
  assumes "db_inv d" and "0 \<le> sizeBytes" and "folder_in_org (folders d) orgID folderID"
  shows "case CreateWithVersion fileID versionID now orgID folderID name creator sizeBytes checksum mime hashes d of
      (Inl e, d') \<Rightarrow> d' = d
    | (Inr r, d') \<Rightarrow> r = (fileID, versionID) \<and> db_inv d' \<and>
        (\<exists>f. file_Get d' fileID = Inr f \<and> f_latest f = Some versionID \<and> f_org f = orgID \<and> f_folder f = folderID) \<and>
        (\<exists>v. GetVersion d' fileID versionID = Inr v \<and> v_size v = sizeBytes \<and> v_checksum v = checksum) \<and>
        map snd (GetVersionChunks d' versionID) = hashes \<and>
        (\<exists>u. OrgUsageBytes d orgID = Inr u \<and> OrgUsageBytes d' orgID = Inr (u + sizeBytes))"
proof (cases "CreateWithVersion fileID versionID now orgID folderID name creator sizeBytes checksum mime hashes d")
  case (Pair r d')
  show ?thesis
  proof (cases r)
    case (Inl e)
    then show ?thesis using Pair by (auto simp: CreateWithVersion_def transaction_def split: sum.splits)
  next
    case (Inr x)
    define v where "v = \<lparr>v_id = versionID, v_file = fileID, v_size = sizeBytes, v_checksum = checksum,
      v_mime = mime, v_thumb = None, v_created_by = creator, v_created = now\<rparr>"
    define f where "f = \<lparr>f_id = fileID, f_org = orgID, f_folder = folderID, f_name = name, f_latest = None,
      f_created_by = creator, f_created = now, f_updated = now, f_deleted = None\<rparr>"
    note eff = CreateWithVersion_effect [OF Pair [unfolded Inr], folded v_def f_def]
    let ?d = "d\<lparr>files := files d @ [f]\<rparr>"
    have t: "keeps_file (\<lambda>f. f)" by (simp add: keeps_file_def)
    have s: "struct_inv ?d"
      by (rule new_file_struct(1) [OF db_invD(1) [OF assms(1)]]) (use eff assms(3) in \<open>simp_all add: f_def\<close>)
    have add: "add_usage sizeBytes orgID (add_version (\<lambda>f. f) v hashes ?d) = Inr d'" and new: "\<not> has_version ?d (v_id v)"
      using eff by (simp_all add: v_def)
    note rb = version_readback [OF s new add t]
    have inv: "db_inv d'" using CreateWithVersion_inv [OF assms, of fileID versionID now name creator checksum mime hashes] Pair by simp
    have "files d' = files d @ [f\<lparr>f_latest := Some versionID\<rparr>]"
      using eff by (auto simp: add_usage_frame [OF add] add_version_def v_def f_def has_file_def image_iff
          intro!: update_where_none)
    moreover have "List.find (\<lambda>f. f_id f = fileID \<and> f_deleted f = None) (files d) = None"
      using eff by (auto simp: find_None_iff has_file_def)
    ultimately have get: "file_Get d' fileID = Inr (f\<lparr>f_latest := Some versionID\<rparr>)"
      by (simp add: file_Get_def scanFile_def find_append_rows f_def)
    obtain u where u: "OrgUsageBytes d orgID = Inr u" using eff OrgUsageBytes_exists by blast
    have "OrgUsageBytes (add_version (\<lambda>f. f) v hashes ?d) orgID = OrgUsageBytes d orgID"
      by (simp add: OrgUsageBytes_def add_version_def)
    then have "OrgUsageBytes d' orgID = Inr (u + sizeBytes)"
      using OrgUsageBytes_add [OF add, of orgID] u by simp
    then show ?thesis
      using Pair Inr eff rb inv u get by (simp add: v_def f_def)
  qed
qed

definition sample_files_db :: db where
  "sample_files_db = sample_folders_db [sample_folder ''fo'' None ''Home'' None]
     \<lparr>chunks := [\<lparr>c_hash = ''h1'', c_size = 4, c_gc = Live, c_seen = 0, c_doomed = None\<rparr>,
                 \<lparr>c_hash = ''h2'', c_size = 4, c_gc = Live, c_seen = 0, c_doomed = None\<rparr>]\<rparr>"

lemma sample_files_inv: "db_inv sample_files_db"
proof -
  have "db_inv (sample_folders_db [sample_folder ''fo'' None ''Home'' None])"
    by (rule sample_folders_inv [where rk = "\<lambda>_. 0"]) (simp_all add: sample_folder_def names_ok_def)
  then show ?thesis
    by (simp add: sample_files_db_def sample_folders_db_def sample_org_db_def empty_db_def db_inv_def
        struct_inv_def keys_ok_def chunks_ok_def)
qed

theorem CreateWithVersion_roundtrip_witness:
  "\<exists>d'. CreateWithVersion ''f'' ''v'' 3 ''o1'' ''fo'' ''x.txt'' ''u1'' 8 ''sum'' ''text'' [''h2'', ''h1''] sample_files_db =
     (Inr (''f'', ''v''), d') \<and> map snd (GetVersionChunks d' ''v'') = [''h2'', ''h1''] \<and>
     OrgUsageBytes d' ''o1'' = Inr 8"
proof -
  have fo: "folder_in_org (folders sample_files_db) ''o1'' ''fo''"
    by (simp add: sample_files_db_def sample_db_defs folder_in_org_def)
  have ok: "fst (CreateWithVersion ''f'' ''v'' 3 ''o1'' ''fo'' ''x.txt'' ''u1'' 8 ''sum'' ''text'' [''h2'', ''h1''] sample_files_db) =
      Inr (''f'', ''v'')"
    by (simp add: CreateWithVersion_def transaction_def sample_files_db_def sample_db_defs has_file_def has_org_def
        has_folder_def has_user_def insert_version_def has_version_def has_chunk_def add_usage_def set_latest_def
        in_int64_def)
  have "OrgUsageBytes sample_files_db ''o1'' = Inr 0"
    by (simp add: OrgUsageBytes_def sample_files_db_def sample_db_defs)
  then show ?thesis
    using CreateWithVersion_roundtrip [OF sample_files_inv _ fo, where sizeBytes = 8 and fileID = "''f''"
        and versionID = "''v''" and now = 3 and name = "''x.txt''" and creator = "''u1''" and checksum = "''sum''"
        and mime = "''text''" and hashes = "[''h2'', ''h1'']"] ok by (auto split: prod.splits sum.splits)
qed

text \<open>Purging a file frees exactly what it held. On a sound database \<^verbatim>\<open>Service.Purge\<close> of a row
  refuses a live file; on a trashed one it succeeds, removes that file with all its versions and
  nothing else, lowers its organization's usage by the sum of the versions' sizes, leaves every
  other organization's usage, and keeps the database sound.\<close>

theorem file_Purge_frees:
  assumes "db_inv d" and "current \<in> set (files d)"
  shows "if f_deleted current = None then file_Purge current d = (Inl (File ErrNotTrashed), d)
    else \<exists>d'. file_Purge current d = (Inr (), d') \<and> db_inv d' \<and>
      files d' = filter (\<lambda>f. f_id f \<noteq> f_id current) (files d) \<and>
      file_versions d' = filter (\<lambda>v. v_file v \<noteq> f_id current) (file_versions d) \<and>
      (\<exists>u. OrgUsageBytes d (f_org current) = Inr u \<and>
         OrgUsageBytes d' (f_org current) = Inr (u - file_bytes (file_versions d) (f_id current))) \<and>
      (\<forall>x. x \<noteq> f_org current \<longrightarrow> OrgUsageBytes d' x = OrgUsageBytes d x)"
proof (cases "f_deleted current = None")
  case False
  note s = db_invD(1) [OF assms(1)]
  note uniq = key_unique [OF keys_okD(3) [OF struct_invD(1) [OF s]] _ assms(2)]
  let ?P = "\<lambda>f. f_id f = f_id current \<and> f_deleted f \<noteq> None"
  have same: "?P f \<longleftrightarrow> f_id f = f_id current" if "f \<in> set (files d)" for f
    using uniq [OF that] False by auto
  have found: "List.find ?P (files d) = Some current"
  proof (cases "List.find ?P (files d)")
    case None then show ?thesis using assms(2) False by (auto simp: find_None_iff)
  next
    case (Some g) then show ?thesis using uniq find_SomeD [OF Some] by auto
  qed
  obtain d1 where d1: "delete_files ?P d = Inr d1" using delete_files_ok [OF s] by blast
  note fr = delete_files_frame [OF d1]
  obtain d' where p: "repo_Purge (f_id current) d = (Inr (), d')" "db_inv d'"
    using repo_Purge_spec [OF assms(1)] by blast
  have add: "add_usage (- file_bytes (file_versions d) (f_id current)) (f_org current) d1 = Inr d'"
    using p(1) found d1
    by (auto simp: repo_Purge_def transaction_def Let_def split: if_splits sum.splits)
  have u1: "OrgUsageBytes d1 x = OrgUsageBytes d x" for x by (simp add: OrgUsageBytes_def fr)
  have "has_org d (f_org current)" using file_org_exists [OF s assms(2)] unfolding has_org_def by (metis imageI)
  then obtain u where u: "OrgUsageBytes d (f_org current) = Inr u" using OrgUsageBytes_exists by blast
  have ids: "map f_id (filter ?P (files d)) = map f_id (filter (\<lambda>f. f_id f = f_id current) (files d))"
    by (rule arg_cong [where f = "map f_id"], rule filter_cong) (use same in auto)
  have gone: "x \<in> set (map f_id (filter ?P (files d))) \<longleftrightarrow> x = f_id current" for x
    unfolding ids using assms(2) by auto
  have "files d' = filter (\<lambda>f. \<not> ?P f) (files d)"
    unfolding add_usage_frame [OF add] by (simp add: fr delete_where_def)
  also have "\<dots> = filter (\<lambda>f. f_id f \<noteq> f_id current) (files d)"
    by (rule filter_cong [OF refl]) (use same in blast)
  finally have "files d' = filter (\<lambda>f. f_id f \<noteq> f_id current) (files d)" .
  moreover have "file_versions d' = filter (\<lambda>v. v_file v \<noteq> f_id current) (file_versions d)"
  proof -
    have "file_versions d' = file_versions d1" by (simp add: add_usage_frame [OF add])
    also have "\<dots> = filter (\<lambda>v. v_file v \<noteq> f_id current) (file_versions d)"
      unfolding fr(11) delete_where_def by (simp only: gone)
    finally show ?thesis .
  qed
  ultimately show ?thesis
    using False p u u1 OrgUsageBytes_add [OF add] by (auto simp: file_Purge_def split: sum.split)
qed (simp add: file_Purge_def)

definition sample_trashed_db :: db where
  "sample_trashed_db =
     snd (SoftDelete 5 ''f'' (snd (CreateWithVersion ''f'' ''v'' 3 ''o1'' ''fo'' ''x.txt'' ''u1'' 8 ''sum'' ''text''
       [''h2'', ''h1''] sample_files_db)))"

lemma sample_trashed_inv: "db_inv sample_trashed_db"
proof -
  have "folder_in_org (folders sample_files_db) ''o1'' ''fo''"
    by (simp add: sample_files_db_def sample_db_defs folder_in_org_def)
  from CreateWithVersion_inv [OF sample_files_inv _ this] show ?thesis
    unfolding sample_trashed_db_def by (intro preservesD [OF SoftDelete_inv]) simp
qed

lemma sample_trashed_eval:
  "files sample_trashed_db = [\<lparr>f_id = ''f'', f_org = ''o1'', f_folder = ''fo'', f_name = ''x.txt'',
     f_latest = Some ''v'', f_created_by = ''u1'', f_created = 3, f_updated = 5, f_deleted = Some 5\<rparr>]"
  "file_bytes (file_versions sample_trashed_db) ''f'' = 8"
  "OrgUsageBytes sample_trashed_db ''o1'' = Inr 8"
  by (simp_all add: sample_trashed_db_def SoftDelete_def trash_file_def CreateWithVersion_def transaction_def
      sample_files_db_def sample_db_defs has_file_def has_org_def has_folder_def has_user_def insert_version_def
      has_version_def has_chunk_def add_usage_def set_latest_def in_int64_def file_bytes_def OrgUsageBytes_def)

theorem file_Purge_frees_witness:
  "\<exists>d'. file_Purge (hd (files sample_trashed_db)) sample_trashed_db = (Inr (), d') \<and> files d' = [] \<and>
     OrgUsageBytes sample_trashed_db ''o1'' = Inr 8 \<and> OrgUsageBytes d' ''o1'' = Inr 0"
  using file_Purge_frees [OF sample_trashed_inv, of "hd (files sample_trashed_db)"]
  by (auto simp: sample_trashed_eval)


definition sample_located_db :: db where
  "sample_located_db =
     (snd (CreateWithVersion ''f'' ''v'' 3 ''o1'' ''fo'' ''x.txt'' ''u1'' 8 ''sum'' ''text'' [''h2'', ''h1''] sample_files_db))
       \<lparr>chunk_locations := [\<lparr>cl_hash = ''h1'', cl_node = ''n1'', cl_status = Committed\<rparr>]\<rparr>"

definition sample_router :: Router where
  "sample_router = (empty_router 0)\<lparr>rt_public := [(''n1'', ''e1/'')]\<rparr>"


end
