(* ===== verification/Upload_Session.thy ===== *)
theory Upload_Session
  imports File_Laws
begin

text \<open>
  Upload sessions, \<^verbatim>\<open>internal/upload\<close>: the repository's statements, the service (session start,
  dedup check, chunk placement, quorum commit, completion), the middleware and the error codes.
  The ports of \<^verbatim>\<open>Service\<close> are fields of the record \<open>UploadService\<close>; \<open>wired_upload\<close> is the
  record \<^verbatim>\<open>cmd/api/wire_upload.go\<close> builds. The checks and writes of one request run in the
  order of the code, every repository statement a transaction of its own.
\<close>

section \<open>The repository\<close>

definition scanUpload :: "Upload option \<Rightarrow> Upload res" where
  "scanUpload row = (case row of None \<Rightarrow> Inl (Upload ErrUploadNotFound) | Some u \<Rightarrow> Inr u)"

definition CreateUpload ::
  "id \<Rightarrow> time \<Rightarrow> id \<Rightarrow> id \<Rightarrow> string \<Rightarrow> int \<Rightarrow> string \<Rightarrow> id \<Rightarrow> id option \<Rightarrow> Upload dbop" where
  "CreateUpload uuid now orgID folderID name sizeBytes mime createdBy target d =
     (let u = \<lparr>u_id = uuid, u_org = orgID, u_folder = folderID, u_name = name, u_declared = sizeBytes,
               u_mime = mime, u_by = createdBy, u_status = StatusInProgress, u_idem = None,
               u_target = target, u_file = None, u_version = None, u_created = now\<rparr>
      in if uuid \<in> u_id ` set (uploads d) then (Inl (PgError UniqueViolation), d)
         else if \<not> has_org d orgID \<or> \<not> has_folder d folderID \<or> \<not> has_user d createdBy \<or>
                 (case target of None \<Rightarrow> False | Some t \<Rightarrow> \<not> has_file d t)
           then (Inl (PgError ForeignKeyViolation), d)
         else (Inr u, d\<lparr>uploads := uploads d @ [u]\<rparr>))"

definition GetUpload :: "db \<Rightarrow> id \<Rightarrow> Upload res" where
  "GetUpload d uid = scanUpload (List.find (\<lambda>u. u_id u = uid) (uploads d))"

definition GetByIdempotencyKey :: "db \<Rightarrow> id \<Rightarrow> string \<Rightarrow> Upload res" where
  "GetByIdempotencyKey d createdBy key =
     scanUpload (List.find (\<lambda>u. u_by u = createdBy \<and> u_idem u = Some key) (uploads d))"

definition RecordOrgChunkProof :: "id \<Rightarrow> string \<Rightarrow> unit dbop" where
  "RecordOrgChunkProof orgID hash d =
     (if (orgID, hash) \<in> set (org_chunk_proofs d) then (Inr (), d)
      else if \<not> has_org d orgID then (Inl (PgError ForeignKeyViolation), d)
      else (Inr (), d\<lparr>org_chunk_proofs := org_chunk_proofs d @ [(orgID, hash)]\<rparr>))"

definition this_chunk :: "id \<Rightarrow> string \<Rightarrow> UploadChunk \<Rightarrow> bool" where
  "this_chunk uid hash c \<longleftrightarrow> uc_upload c = uid \<and> uc_hash c = hash"

definition UpsertChunkAttemptPresigned :: "id \<Rightarrow> string \<Rightarrow> unit dbop" where
  "UpsertChunkAttemptPresigned uploadID hash d =
     (if \<exists>c \<in> set (upload_chunks d). this_chunk uploadID hash c
        then (Inr (), d\<lparr>upload_chunks := update_where
                (\<lambda>c. this_chunk uploadID hash c \<and> uc_state c \<noteq> ChunkCommitted)
                (\<lambda>c. c\<lparr>uc_state := ChunkPresigned\<rparr>) (upload_chunks d)\<rparr>)
      else if uploadID \<notin> u_id ` set (uploads d) then (Inl (PgError ForeignKeyViolation), d)
      else (Inr (), d\<lparr>upload_chunks := upload_chunks d @
              [\<lparr>uc_upload = uploadID, uc_hash = hash, uc_state = ChunkPresigned, uc_etags = []\<rparr>]\<rparr>))"

definition GetChunkAttemptState :: "db \<Rightarrow> id \<Rightarrow> string \<Rightarrow> ChunkState res" where
  "GetChunkAttemptState d uploadID hash =
     (case List.find (this_chunk uploadID hash) (upload_chunks d) of
        None \<Rightarrow> Inl (Upload ErrChunkNotFound)
      | Some c \<Rightarrow> Inr (uc_state c))"

definition MarkChunkCommitted :: "id \<Rightarrow> string \<Rightarrow> (string \<times> string) list \<Rightarrow> unit dbop" where
  "MarkChunkCommitted uploadID hash etags d =
     (let P = (\<lambda>c. this_chunk uploadID hash c \<and> uc_state c = ChunkPresigned)
      in if rows_affected P (upload_chunks d) = 0 then (Inl (Upload ErrInvalidState), d)
         else (Inr (), d\<lparr>upload_chunks := update_where P
                 (\<lambda>c. c\<lparr>uc_state := ChunkCommitted, uc_etags := etags\<rparr>) (upload_chunks d)\<rparr>))"

text \<open>\<^verbatim>\<open>chunks.size_bytes\<close> is a 32-bit column.\<close>

definition UpsertGlobalChunk :: "time \<Rightarrow> string \<Rightarrow> int \<Rightarrow> unit dbop" where
  "UpsertGlobalChunk now hash sizeBytes d =
     (if \<not> in_int32 sizeBytes then (Inl (PgError OutOfRange), d)
      else if has_chunk d hash
        then (Inr (), d\<lparr>chunks := update_where (\<lambda>c. c_hash c = hash)
                (\<lambda>c. c\<lparr>c_gc := Live, c_doomed := None, c_seen := now\<rparr>) (chunks d)\<rparr>)
      else (Inr (), d\<lparr>chunks := chunks d @
              [\<lparr>c_hash = hash, c_size = sizeBytes, c_gc = Live, c_seen = now, c_doomed = None\<rparr>]\<rparr>))"

definition UpsertChunkLocation :: "string \<Rightarrow> string \<Rightarrow> unit dbop" where
  "UpsertChunkLocation hash nodeID d =
     (if \<exists>l \<in> set (chunk_locations d). cl_hash l = hash \<and> cl_node l = nodeID
        then (Inr (), d\<lparr>chunk_locations := update_where (\<lambda>l. cl_hash l = hash \<and> cl_node l = nodeID)
                (\<lambda>l. l\<lparr>cl_status := Committed\<rparr>) (chunk_locations d)\<rparr>)
      else if \<not> has_chunk d hash \<or> nodeID \<notin> set (storage_nodes d)
        then (Inl (PgError ForeignKeyViolation), d)
      else (Inr (), d\<lparr>chunk_locations := chunk_locations d @
              [\<lparr>cl_hash = hash, cl_node = nodeID, cl_status = Committed\<rparr>]\<rparr>))"

text \<open>\<^verbatim>\<open>FindMissingChunksForOrg\<close>: hashes not committed under the session are candidates; those
  that are live get their lease renewed, and are present if the organization has a proof.\<close>

definition session_committed :: "db \<Rightarrow> id \<Rightarrow> string \<Rightarrow> bool" where
  "session_committed d uploadID h \<longleftrightarrow>
     (\<exists>c \<in> set (upload_chunks d). this_chunk uploadID h c \<and> uc_state c = ChunkCommitted)"

definition chunk_live :: "db \<Rightarrow> string \<Rightarrow> bool" where
  "chunk_live d h \<longleftrightarrow> (\<exists>c \<in> set (chunks d). c_hash c = h \<and> c_gc c = Live)"

definition FindMissingChunksForOrg :: "time \<Rightarrow> id \<Rightarrow> id \<Rightarrow> string list \<Rightarrow> db \<Rightarrow> string list \<times> db" where
  "FindMissingChunksForOrg now orgID uploadID hashes d =
     (let candidates = filter (\<lambda>h. \<not> session_committed d uploadID h) hashes
      in if candidates = [] then ([], d)
         else (let touched = map c_hash (filter (\<lambda>c. c_hash c \<in> set candidates \<and> c_gc c = Live) (chunks d));
                   provenSet = filter (\<lambda>h. (orgID, h) \<in> set (org_chunk_proofs d)) touched
               in (filter (\<lambda>h. h \<notin> set provenSet) candidates,
                   d\<lparr>chunks := update_where (\<lambda>c. c_hash c \<in> set candidates \<and> c_gc c = Live)
                        (\<lambda>c. c\<lparr>c_seen := now\<rparr>) (chunks d)\<rparr>)))"

text \<open>The compare-and-swap on \<^verbatim>\<open>status\<close>, under the unique index on creator and key and the foreign
  keys to the file and version.\<close>

definition repo_CompleteUpload :: "id \<Rightarrow> id \<Rightarrow> id \<Rightarrow> string option \<Rightarrow> unit dbop" where
  "repo_CompleteUpload uploadID fileID versionID key d =
     (let P = (\<lambda>u. u_id u = uploadID \<and> u_status u = StatusInProgress)
      in if rows_affected P (uploads d) = 0 then (Inl (Upload ErrAlreadyCompleting), d)
         else if key \<noteq> None \<and> (\<exists>u \<in> set (uploads d). P u \<and>
                   (\<exists>w \<in> set (uploads d). u_id w \<noteq> uploadID \<and> u_by w = u_by u \<and> u_idem w = key))
           then (Inl (Upload ErrAlreadyCompleting), d)
         else if \<not> has_file d fileID \<or> \<not> has_version d versionID
           then (Inl (PgError ForeignKeyViolation), d)
         else (Inr (), d\<lparr>uploads := update_where P
                 (\<lambda>u. u\<lparr>u_status := StatusCompleted, u_file := Some fileID, u_version := Some versionID,
                       u_idem := key\<rparr>) (uploads d)\<rparr>))"

section \<open>The service\<close>

record UploadService =
  sv_router :: Router
  sv_create :: "id \<Rightarrow> id \<Rightarrow> string \<Rightarrow> id \<Rightarrow> int \<Rightarrow> string \<Rightarrow> string \<Rightarrow> string list \<Rightarrow> (id \<times> id) dbop"
  sv_add :: "id \<Rightarrow> id \<Rightarrow> id \<Rightarrow> int \<Rightarrow> string \<Rightarrow> string \<Rightarrow> string list \<Rightarrow> id dbop"
  sv_get :: "db \<Rightarrow> id \<Rightarrow> (id \<times> id \<times> string) res"
  sv_orgOf :: "db \<Rightarrow> id \<Rightarrow> id res"
  sv_isMember :: "db \<Rightarrow> id \<Rightarrow> id \<Rightarrow> bool res"
  sv_usage :: "db \<Rightarrow> id \<Rightarrow> int res"
  sv_quota :: "(db \<Rightarrow> id \<Rightarrow> int option res) option"
  sv_replicationFactor :: int
  sv_writeQuorum :: int
  sv_chunkSizeBytes :: int
  sv_maxUploadBytes :: int
  sv_orgQuotaBytes :: int

definition CheckChunks :: "time \<Rightarrow> Upload \<Rightarrow> string list \<Rightarrow> db \<Rightarrow> string list \<times> db" where
  "CheckChunks now u hashes d = FindMissingChunksForOrg now (u_org u) (u_id u) hashes d"

text \<open>\<^verbatim>\<open>used+sizeBytes\<close> is Go's wrapping \<^verbatim>\<open>int64\<close> addition.\<close>

definition quota_limit :: "UploadService \<Rightarrow> db \<Rightarrow> id \<Rightarrow> int res" where
  "quota_limit s d orgID =
     (case sv_quota s of
        None \<Rightarrow> Inr (sv_orgQuotaBytes s)
      | Some quotaOverride \<Rightarrow>
          (case quotaOverride d orgID of
             Inl e \<Rightarrow> Inl e
           | Inr None \<Rightarrow> Inr (sv_orgQuotaBytes s)
           | Inr (Some q) \<Rightarrow> Inr q))"

definition checkQuota :: "UploadService \<Rightarrow> db \<Rightarrow> id \<Rightarrow> int \<Rightarrow> goerr option" where
  "checkQuota s d orgID sizeBytes =
     (case quota_limit s d orgID of
        Inl e \<Rightarrow> Some e
      | Inr limit \<Rightarrow>
          if limit \<le> 0 then None
          else case sv_usage s d orgID of
              Inl e \<Rightarrow> Some e
            | Inr used \<Rightarrow> if wrap64 (used + sizeBytes) > limit then Some (Upload ErrQuotaExceeded) else None)"

definition too_large :: "UploadService \<Rightarrow> int \<Rightarrow> bool" where
  "too_large s sizeBytes \<longleftrightarrow> sv_maxUploadBytes s > 0 \<and> sizeBytes > sv_maxUploadBytes s"

text \<open>Where a session goes: the organization, folder, name and target of \<^verbatim>\<open>InitUpload\<close>.\<close>

definition upload_target ::
  "UploadService \<Rightarrow> db \<Rightarrow> id \<Rightarrow> id \<Rightarrow> string \<Rightarrow> (id \<times> id \<times> string \<times> id option) res" where
  "upload_target s d folderID targetFileID name =
     (if targetFileID \<noteq> '''' then
        (case sv_get s d targetFileID of
           Inl _ \<Rightarrow> Inl (Upload ErrTargetFileNotFound)
         | Inr (orgID, fo, fileName) \<Rightarrow>
             Inr (orgID, fo, if name = '''' then fileName else name, Some targetFileID))
      else (case sv_orgOf s d folderID of
              Inl _ \<Rightarrow> Inl (Upload upload_ErrInvalidFolder)
            | Inr orgID \<Rightarrow> Inr (orgID, folderID, name, None)))"

definition InitUpload ::
  "UploadService \<Rightarrow> id \<Rightarrow> time \<Rightarrow> id \<Rightarrow> id \<Rightarrow> id \<Rightarrow> string \<Rightarrow> int \<Rightarrow> string \<Rightarrow> Upload dbop" where
  "InitUpload s uuid now userID folderID targetFileID name sizeBytes mime d =
     (if too_large s sizeBytes then (Inl (Upload ErrFileTooLarge), d)
      else case upload_target s d folderID targetFileID name of
          Inl e \<Rightarrow> (Inl e, d)
        | Inr (orgID, fo, nm, target) \<Rightarrow>
            (case sv_isMember s d orgID userID of
               Inl e \<Rightarrow> (Inl e, d)
             | Inr ok \<Rightarrow>
                 if \<not> ok then (Inl (Upload ErrForbidden), d)
                 else case checkQuota s d orgID sizeBytes of
                     Some e \<Rightarrow> (Inl e, d)
                   | None \<Rightarrow> CreateUpload uuid now orgID fo nm sizeBytes mime userID target d))"

text \<open>\<^verbatim>\<open>Router.PresignPut\<close>, with the signing of the node's public MinIO client as \<open>sign\<close>.\<close>

definition PresignPut ::
  "(string \<Rightarrow> string \<Rightarrow> string res) \<Rightarrow> time \<Rightarrow> Router \<Rightarrow> NodeID \<Rightarrow> string \<Rightarrow> (string \<times> time) res" where
  "PresignPut sign now rt node key =
     (case map_of (rt_public rt) node of
        None \<Rightarrow> Inl (Storage ErrNoMinioClient)
      | Some endpoint \<Rightarrow>
          (case sign endpoint key of Inl e \<Rightarrow> Inl e | Inr url \<Rightarrow> Inr (url, now + presignExpiry)))"

text \<open>The loop over the replicas: every target in order, and the last expiry seen (the zero time
  when there is no replica).\<close>

fun presign_targets ::
  "(NodeID \<Rightarrow> (string \<times> time) res) \<Rightarrow> time \<Rightarrow> NodeID list \<Rightarrow> ((NodeID \<times> string) list \<times> time) res" where
  "presign_targets presign expiresAt [] = Inr ([], expiresAt)"
| "presign_targets presign expiresAt (n # ns) =
     (case presign n of
        Inl e \<Rightarrow> Inl e
      | Inr (url, ex) \<Rightarrow>
          (case presign_targets presign ex ns of
             Inl e \<Rightarrow> Inl e
           | Inr (ts, final) \<Rightarrow> Inr ((n, url) # ts, final)))"

definition InitChunk ::
  "UploadService \<Rightarrow> (string \<Rightarrow> string \<Rightarrow> string res) \<Rightarrow> time \<Rightarrow> Upload \<Rightarrow> string
     \<Rightarrow> ((NodeID \<times> string) list \<times> time) dbop" where
  "InitChunk s sign now u hash d =
     (if u_status u \<noteq> StatusInProgress then (Inl (Upload ErrUploadNotInProgress), d)
      else case Resolve (sv_router s) hash (sv_replicationFactor s) of
          (_, Some e) \<Rightarrow> (Inl e, d)
        | (nodeIDs, None) \<Rightarrow>
            (case presign_targets (\<lambda>n. PresignPut sign now (sv_router s) n hash) 0 nodeIDs of
               Inl e \<Rightarrow> (Inl e, d)
             | Inr targets \<Rightarrow>
                 (case UpsertChunkAttemptPresigned (u_id u) hash d of
                    (Inl e, d1) \<Rightarrow> (Inl e, d1)
                  | (Inr _, d1) \<Rightarrow> (Inr targets, d1))))"

text \<open>The agreement loop over the reported ETags; \<open>first\<close> is empty until one is seen.\<close>

fun etags_agree :: "string \<Rightarrow> string list \<Rightarrow> bool" where
  "etags_agree first [] = True"
| "etags_agree first (etag # etags) =
     (if etag = '''' then False
      else if first = '''' then etags_agree etag etags
      else if etag \<noteq> first then False
      else etags_agree first etags)"

fun upsert_locations :: "string \<Rightarrow> string list \<Rightarrow> unit dbop" where
  "upsert_locations hash [] d = (Inr (), d)"
| "upsert_locations hash (n # ns) d =
     (case UpsertChunkLocation hash n d of
        (Inl e, d1) \<Rightarrow> (Inl e, d1)
      | (Inr _, d1) \<Rightarrow> upsert_locations hash ns d1)"

definition commit_check :: "UploadService \<Rightarrow> db \<Rightarrow> Upload \<Rightarrow> string \<Rightarrow> int \<Rightarrow> (string \<times> string) list \<Rightarrow> goerr option" where
  "commit_check s d u hash sizeBytes etags =
     (if u_status u \<noteq> StatusInProgress then Some (Upload ErrUploadNotInProgress)
      else case GetChunkAttemptState d (u_id u) hash of
          Inl e \<Rightarrow> Some e
        | Inr state \<Rightarrow>
            if state \<noteq> ChunkPresigned then Some (Upload ErrInvalidState)
            else if sv_chunkSizeBytes s > 0 \<and> sizeBytes > sv_chunkSizeBytes s then Some (Upload ErrChunkTooLarge)
            else if etags = [] then Some (Upload ErrChecksumMismatch)
            else if sv_writeQuorum s > 0 \<and> int (length etags) < sv_writeQuorum s
              then Some (Upload ErrInsufficientReplicas)
            else if \<not> etags_agree '''' (map snd etags) then Some (Upload ErrChecksumMismatch)
            else None)"

definition CommitChunk ::
  "UploadService \<Rightarrow> time \<Rightarrow> Upload \<Rightarrow> string \<Rightarrow> int \<Rightarrow> (string \<times> string) list \<Rightarrow> unit dbop" where
  "CommitChunk s now u hash sizeBytes etags d =
     (case commit_check s d u hash sizeBytes etags of
        Some e \<Rightarrow> (Inl e, d)
      | None \<Rightarrow>
          (case MarkChunkCommitted (u_id u) hash etags d of
             (Inl e, d1) \<Rightarrow> (Inl e, d1)
           | (Inr _, d1) \<Rightarrow>
               (case UpsertGlobalChunk now hash sizeBytes d1 of
                  (Inl e, d2) \<Rightarrow> (Inl e, d2)
                | (Inr _, d2) \<Rightarrow>
                    (case upsert_locations hash (map fst etags) d2 of
                       (Inl e, d3) \<Rightarrow> (Inl e, d3)
                     | (Inr _, d3) \<Rightarrow> RecordOrgChunkProof (u_org u) hash d3))))"

text \<open>The best-effort side effects of a completion.\<close>

datatype upload_effect = RecordUpload id id id | PublishUploadCompleted id id id

definition complete_check :: "UploadService \<Rightarrow> db \<Rightarrow> Upload \<Rightarrow> string list \<Rightarrow> int \<Rightarrow> goerr option" where
  "complete_check s d u chunkOrder sizeBytes =
     (if u_status u \<noteq> StatusInProgress then Some (Upload ErrUploadNotInProgress)
      else if chunkOrder = [] then Some (Upload ErrEmptyChunkOrder)
      else if too_large s sizeBytes then Some (Upload ErrFileTooLarge)
      else checkQuota s d (u_org u) sizeBytes)"

text \<open>The replay of a finished call by its idempotency key.\<close>

definition replay :: "db \<Rightarrow> id \<Rightarrow> string \<Rightarrow> (id \<times> id) option" where
  "replay d createdBy key =
     (if key = '''' then None
      else case GetByIdempotencyKey d createdBy key of
          Inl _ \<Rightarrow> None
        | Inr existing \<Rightarrow>
            (case (u_file existing, u_version existing) of (Some f, Some v) \<Rightarrow> Some (f, v) | _ \<Rightarrow> None))"

definition create_version ::
  "UploadService \<Rightarrow> Upload \<Rightarrow> int \<Rightarrow> string \<Rightarrow> string list \<Rightarrow> (id \<times> id) dbop" where
  "create_version s u sizeBytes checksum chunkOrder d =
     (case u_target u of
        Some t \<Rightarrow>
          (case sv_add s (u_org u) t (u_by u) sizeBytes checksum (u_mime u) chunkOrder d of
             (Inl e, d1) \<Rightarrow> (Inl e, d1)
           | (Inr vid, d1) \<Rightarrow> (Inr (t, vid), d1))
      | None \<Rightarrow> sv_create s (u_org u) (u_folder u) (u_name u) (u_by u) sizeBytes checksum (u_mime u) chunkOrder d)"

definition CompleteUpload ::
  "UploadService \<Rightarrow> time \<Rightarrow> Upload \<Rightarrow> string \<Rightarrow> string list \<Rightarrow> int \<Rightarrow> string \<Rightarrow> db
     \<Rightarrow> ((id \<times> id) res \<times> upload_effect list) \<times> db" where
  "CompleteUpload s now u idempotencyKey chunkOrder sizeBytes checksum d =
     (case replay d (u_by u) idempotencyKey of
        Some r \<Rightarrow> ((Inr r, []), d)
      | None \<Rightarrow>
          (case complete_check s d u chunkOrder sizeBytes of
             Some e \<Rightarrow> ((Inl e, []), d)
           | None \<Rightarrow>
               (case FindMissingChunksForOrg now (u_org u) (u_id u) chunkOrder d of
                  (missing, d1) \<Rightarrow>
                    if missing \<noteq> [] then ((Inl (Upload ErrMissingChunks), []), d1)
                    else (case create_version s u sizeBytes checksum chunkOrder d1 of
                            (Inl e, d2) \<Rightarrow> ((Inl e, []), d2)
                          | (Inr (fileID, versionID), d2) \<Rightarrow>
                              (case repo_CompleteUpload (u_id u) fileID versionID
                                      (if idempotencyKey \<noteq> '''' then Some idempotencyKey else None) d2 of
                                 (Inr _, d3) \<Rightarrow>
                                   ((Inr (fileID, versionID),
                                     [RecordUpload (u_org u) (u_by u) fileID,
                                      PublishUploadCompleted fileID versionID (u_org u)]), d3)
                               | (Inl e, d3) \<Rightarrow>
                                   if e = Upload ErrAlreadyCompleting
                                     then (case GetUpload d3 (u_id u) of
                                             Inl _ \<Rightarrow> ((Inl e, []), d3)
                                           | Inr winner \<Rightarrow>
                                               (case (u_file winner, u_version winner) of
                                                  (Some f, Some v) \<Rightarrow> ((Inr (f, v), []), d3)
                                                | _ \<Rightarrow> ((Inl e, []), d3)))
                                   else ((Inl e, []), d3))))))"

text \<open>The service as \<^verbatim>\<open>wireUpload\<close> builds it from the configuration; the fresh ids and the time
  are those of the call.\<close>

definition wired_upload ::
  "Router \<Rightarrow> int \<Rightarrow> int \<Rightarrow> int \<Rightarrow> int \<Rightarrow> int \<Rightarrow> id \<Rightarrow> id \<Rightarrow> time \<Rightarrow> UploadService" where
  "wired_upload rt replicationFactor writeQuorum chunkSize maxUpload orgQuota fileID versionID now =
     \<lparr>sv_router = rt, sv_create = CreateWithVersion fileID versionID now, sv_add = AddVersion versionID now,
      sv_get = GetForUpload, sv_orgOf = OrgIDOf, sv_isMember = IsMember, sv_usage = OrgUsageBytes,
      sv_quota = Some QuotaOverride, sv_replicationFactor = replicationFactor, sv_writeQuorum = writeQuorum,
      sv_chunkSizeBytes = chunkSize, sv_maxUploadBytes = maxUpload, sv_orgQuotaBytes = orgQuota\<rparr>"

section \<open>Middleware and handlers\<close>

definition upload_RequireAccess ::
  "(db \<Rightarrow> id \<Rightarrow> id \<Rightarrow> bool res) \<Rightarrow> db \<Rightarrow> id \<Rightarrow> id \<Rightarrow> unit response + Upload" where
  "upload_RequireAccess isMember d uploadID userID =
     gate isMember (Upload ErrUploadNotFound) ''upload not found'' ''failed to load upload''
       (GetUpload d uploadID) u_org d userID"

fun writeUploadError :: "goerr \<Rightarrow> 'a response" where
  "writeUploadError (Upload ErrUploadNotFound) = WriteError http_ErrNotFound ''upload not found''"
| "writeUploadError (Upload upload_ErrInvalidFolder) = WriteError http_ErrInvalid ''invalid folder''"
| "writeUploadError (Upload ErrTargetFileNotFound) = WriteError http_ErrNotFound ''target file not found''"
| "writeUploadError (Upload ErrForbidden) = WriteError http_ErrForbidden ''not a member of this organization''"
| "writeUploadError (Upload ErrChunkNotFound) =
     WriteError http_ErrInvalid ''chunk was never initialized - call init first''"
| "writeUploadError (Upload ErrInvalidState) = WriteError http_ErrConflict ''chunk is not awaiting commit''"
| "writeUploadError (Upload ErrChecksumMismatch) = WriteError http_ErrConflict ''replica checksums do not agree''"
| "writeUploadError (Upload ErrInsufficientReplicas) =
     WriteError http_ErrConflict ''too few replicas acknowledged this chunk''"
| "writeUploadError (Upload ErrChunkTooLarge) =
     WriteError http_ErrTooLarge ''chunk exceeds the configured maximum chunk size''"
| "writeUploadError (Upload ErrUploadNotInProgress) = WriteError http_ErrConflict ''upload is not in progress''"
| "writeUploadError (Upload ErrEmptyChunkOrder) = WriteError http_ErrInvalid ''chunk_order must not be empty''"
| "writeUploadError (Upload ErrMissingChunks) =
     WriteError http_ErrInvalid ''one or more chunks in chunk_order were never committed''"
| "writeUploadError (Upload ErrFileTooLarge) = WriteError http_ErrTooLarge ''file exceeds the maximum upload size''"
| "writeUploadError (Upload ErrQuotaExceeded) =
     WriteError http_ErrQuotaFull ''organization storage quota exceeded''"
| "writeUploadError (Storage ErrInsufficientHealthyNodes) =
     WriteError http_ErrInternal ''not enough healthy storage nodes to place this chunk''"
| "writeUploadError (Storage ErrNoNodes) = WriteError http_ErrInternal ''no storage nodes configured''"
| "writeUploadError _ = WriteError http_ErrInternal ''upload operation failed''"

record initUploadRequest =
  ir_folder :: id
  ir_file :: id
  ir_name :: string
  ir_size :: int
  ir_mime :: string

definition upload_handler_InitUpload ::
  "UploadService \<Rightarrow> id \<Rightarrow> time \<Rightarrow> id \<Rightarrow> initUploadRequest option \<Rightarrow> db \<Rightarrow> id response \<times> db" where
  "upload_handler_InitUpload s uuid now userID body d =
     (case body of
        None \<Rightarrow> (WriteError http_ErrInvalid ''malformed JSON body'', d)
      | Some req \<Rightarrow>
          if ir_file req = '''' \<and> (ir_folder req = '''' \<or> ir_name req = '''')
            then (WriteError http_ErrInvalid ''either file_id, or folder_id and name, are required'', d)
          else case InitUpload s uuid now userID (ir_folder req) (ir_file req) (ir_name req) (ir_size req) (ir_mime req) d of
              (Inl e, d1) \<Rightarrow> (writeUploadError e, d1)
            | (Inr u, d1) \<Rightarrow> (WriteJSON 201 (u_id u), d1))"

definition upload_handler_CheckChunks ::
  "time \<Rightarrow> Upload \<Rightarrow> string list option \<Rightarrow> db \<Rightarrow> string list response \<times> db" where
  "upload_handler_CheckChunks now u body d =
     (case body of
        None \<Rightarrow> (WriteError http_ErrInvalid ''malformed JSON body'', d)
      | Some hashes \<Rightarrow> (case CheckChunks now u hashes d of (missing, d1) \<Rightarrow> (WriteJSON 200 missing, d1)))"

definition upload_handler_InitChunk ::
  "UploadService \<Rightarrow> (string \<Rightarrow> string \<Rightarrow> string res) \<Rightarrow> time \<Rightarrow> Upload \<Rightarrow> string \<Rightarrow> db
     \<Rightarrow> ((NodeID \<times> string) list \<times> time) response \<times> db" where
  "upload_handler_InitChunk s sign now u hash d =
     (case InitChunk s sign now u hash d of
        (Inl e, d1) \<Rightarrow> (writeUploadError e, d1)
      | (Inr targets, d1) \<Rightarrow> (WriteJSON 200 targets, d1))"

definition upload_handler_CommitChunk ::
  "UploadService \<Rightarrow> time \<Rightarrow> Upload \<Rightarrow> string \<Rightarrow> (int \<times> (string \<times> string) list) option \<Rightarrow> db
     \<Rightarrow> string response \<times> db" where
  "upload_handler_CommitChunk s now u hash body d =
     (case body of
        None \<Rightarrow> (WriteError http_ErrInvalid ''malformed JSON body'', d)
      | Some (sizeBytes, etags) \<Rightarrow>
          (case CommitChunk s now u hash sizeBytes etags d of
             (Inl e, d1) \<Rightarrow> (writeUploadError e, d1)
           | (Inr _, d1) \<Rightarrow> (WriteJSON 200 ''committed'', d1)))"

definition upload_handler_Complete ::
  "UploadService \<Rightarrow> time \<Rightarrow> Upload \<Rightarrow> string \<Rightarrow> (string list \<times> int \<times> string) option \<Rightarrow> db
     \<Rightarrow> (id \<times> id) response \<times> db" where
  "upload_handler_Complete s now u idempotencyKey body d =
     (case body of
        None \<Rightarrow> (WriteError http_ErrInvalid ''malformed JSON body'', d)
      | Some (chunkOrder, sizeBytes, checksum) \<Rightarrow>
          (case CompleteUpload s now u idempotencyKey chunkOrder sizeBytes checksum d of
             ((Inl e, _), d1) \<Rightarrow> (writeUploadError e, d1)
           | ((Inr r, _), d1) \<Rightarrow> (WriteJSON 201 r, d1)))"

end
