(* ===== verification/Upload_Laws.thy ===== *)
theory Upload_Laws
  imports Upload_Session
begin

text \<open>
  The laws of upload sessions: every operation of the service keeps the database sound; what a
  dedup check, a chunk commit, a session start and a completion promise; replay by idempotency
  key and the race of two completions. The service's ports enter through the locale
  \<open>upload_ports\<close>, interpreted on the record the program wires.
\<close>

section \<open>Updates the invariant does not see\<close>

lemma db_inv_frames [simp]:
  "db_inv (d\<lparr>upload_chunks := xs\<rparr>) = db_inv d" "db_inv (d\<lparr>chunk_locations := ls\<rparr>) = db_inv d"
  "db_inv (d\<lparr>org_chunk_proofs := ps\<rparr>) = db_inv d"
  by (simp_all add: db_inv_def struct_inv_def keys_ok_def)

lemma db_inv_chunks:
  assumes "db_inv d" and "distinct (map c_hash cs)" and "c_hash ` set (chunks d) \<subseteq> c_hash ` set cs"
  shows "db_inv (d\<lparr>chunks := cs\<rparr>)"
  using assms by (auto simp: db_inv_def struct_inv_def keys_ok_def chunks_ok_def)

lemma db_inv_chunks_update:
  assumes "db_inv d" and "\<And>c. c_hash (f c) = c_hash c"
  shows "db_inv (d\<lparr>chunks := update_where P f (chunks d)\<rparr>)"
proof (rule db_inv_chunks [OF assms(1)])
  have same: "map c_hash (update_where P f (chunks d)) = map c_hash (chunks d)" using assms(2) by simp
  then show "distinct (map c_hash (update_where P f (chunks d)))"
    using keys_okD(5) [OF struct_invD(1) [OF db_invD(1) [OF assms(1)]]] by simp
  show "c_hash ` set (chunks d) \<subseteq> c_hash ` set (update_where P f (chunks d))"
    using same by (metis list.set_map order_refl)
qed

lemma db_inv_uploads:
  assumes "db_inv d" and "distinct (map u_id us)" and "uploads_ok (folders d) (files d) us"
  shows "db_inv (d\<lparr>uploads := us\<rparr>)"
  using assms by (auto simp: db_inv_def struct_inv_def keys_ok_def)

section \<open>Each statement keeps the database sound\<close>

lemma FindMissingChunksForOrg_inv:
  assumes "db_inv d"
  shows "db_inv (snd (FindMissingChunksForOrg now orgID uploadID hashes d))"
  using db_inv_chunks_update [OF assms] assms by (simp add: FindMissingChunksForOrg_def Let_def)

lemma UpsertChunkAttemptPresigned_inv: "preserves db_inv (UpsertChunkAttemptPresigned uploadID hash)"
  by (rule preservesI) (simp add: UpsertChunkAttemptPresigned_def)

lemma MarkChunkCommitted_inv: "preserves db_inv (MarkChunkCommitted uploadID hash etags)"
  by (rule preservesI) (simp add: MarkChunkCommitted_def Let_def)

lemma UpsertGlobalChunk_inv: "preserves db_inv (UpsertGlobalChunk now hash sizeBytes)"
proof (rule preservesI)
  fix d
  assume inv: "db_inv d"
  let ?c = "\<lparr>c_hash = hash, c_size = sizeBytes, c_gc = Live, c_seen = now, c_doomed = None\<rparr>"
  have "db_inv (d\<lparr>chunks := chunks d @ [?c]\<rparr>)" if "\<not> has_chunk d hash"
    using that keys_okD(5) [OF struct_invD(1) [OF db_invD(1) [OF inv]]]
    by (intro db_inv_chunks [OF inv]) (auto simp: has_chunk_def)
  then show "db_inv (snd (UpsertGlobalChunk now hash sizeBytes d))"
    using inv db_inv_chunks_update [OF inv] by (simp add: UpsertGlobalChunk_def)
qed

lemma UpsertChunkLocation_inv: "preserves db_inv (UpsertChunkLocation hash nodeID)"
  by (rule preservesI) (simp add: UpsertChunkLocation_def)

lemma RecordOrgChunkProof_inv: "preserves db_inv (RecordOrgChunkProof orgID hash)"
  by (rule preservesI) (simp add: RecordOrgChunkProof_def)

lemma upsert_locations_inv: "preserves db_inv (upsert_locations hash ns)"
proof (rule preservesI)
  show "db_inv (snd (upsert_locations hash ns d))" if "db_inv d" for d
    using that
  proof (induction ns arbitrary: d)
    case (Cons n ns)
    from preservesD [OF UpsertChunkLocation_inv Cons.prems, of hash n] Cons.IH show ?case
      by (auto split: prod.splits sum.splits)
  qed simp
qed

lemma CreateUpload_inv:
  assumes "db_inv d" and "folder_in_org (folders d) orgID folderID"
    and "\<And>t. target = Some t \<Longrightarrow> file_in_org (files d) orgID t"
  shows "db_inv (snd (CreateUpload uuid now orgID folderID name sz mime creator target d))"
proof -
  let ?u = "\<lparr>u_id = uuid, u_org = orgID, u_folder = folderID, u_name = name, u_declared = sz,
    u_mime = mime, u_by = creator, u_status = StatusInProgress, u_idem = None,
    u_target = target, u_file = None, u_version = None, u_created = now\<rparr>"
  have "db_inv (d\<lparr>uploads := uploads d @ [?u]\<rparr>)" if "uuid \<notin> u_id ` set (uploads d)"
    using that assms keys_okD(6) [OF struct_invD(1) [OF db_invD(1) [OF assms(1)]]]
      struct_invD(8) [OF db_invD(1) [OF assms(1)]]
    by (intro db_inv_uploads [OF assms(1)]) (auto simp: uploads_ok_def)
  then show ?thesis using assms(1) by (simp add: CreateUpload_def Let_def)
qed

lemma repo_CompleteUpload_inv: "preserves db_inv (repo_CompleteUpload uploadID fileID versionID key)"
proof (rule preservesI)
  fix d
  assume inv: "db_inv d"
  have "db_inv (d\<lparr>uploads := update_where P (\<lambda>u. u\<lparr>u_status := StatusCompleted, u_file := Some fileID,
      u_version := Some versionID, u_idem := key\<rparr>) (uploads d)\<rparr>)" for P
    using keys_okD(6) [OF struct_invD(1) [OF db_invD(1) [OF inv]]] struct_invD(8) [OF db_invD(1) [OF inv]]
    by (intro db_inv_uploads [OF inv]) (auto simp: uploads_ok_def)
  then show "db_inv (snd (repo_CompleteUpload uploadID fileID versionID key d))"
    using inv by (cases key) (simp_all add: repo_CompleteUpload_def Let_def)
qed

lemma InitChunk_inv: "preserves db_inv (InitChunk s sign now u hash)"
proof (rule preservesI)
  show "db_inv (snd (InitChunk s sign now u hash d))" if "db_inv d" for d
    using that preservesD [OF UpsertChunkAttemptPresigned_inv that, of "u_id u" hash]
    by (auto simp: InitChunk_def split: prod.splits option.splits sum.splits)
qed

lemma CommitChunk_inv: "preserves db_inv (CommitChunk s now u hash sizeBytes etags)"
proof (rule preservesI)
  fix d
  assume inv: "db_inv d"
  show "db_inv (snd (CommitChunk s now u hash sizeBytes etags d))"
  proof (cases "MarkChunkCommitted (u_id u) hash etags d")
    case M: (Pair r1 d1)
    obtain r2 d2 where G: "UpsertGlobalChunk now hash sizeBytes d1 = (r2, d2)" by fastforce
    obtain r3 d3 where L: "upsert_locations hash (map fst etags) d2 = (r3, d3)" by fastforce
    have "db_inv d1" using preservesD [OF MarkChunkCommitted_inv inv, of "u_id u" hash etags] M by simp
    moreover from preservesD [OF UpsertGlobalChunk_inv this, of now hash sizeBytes] G have "db_inv d2" by simp
    moreover from preservesD [OF upsert_locations_inv this, of hash "map fst etags"] L have "db_inv d3" by simp
    moreover from preservesD [OF RecordOrgChunkProof_inv this, of "u_org u" hash]
    have "db_inv (snd (RecordOrgChunkProof (u_org u) hash d3))" .
    ultimately show ?thesis using inv M G L by (simp add: CommitChunk_def split: option.split sum.split)
  qed
qed

section \<open>Which chunks a session may claim\<close>

text \<open>A hash is claimable when it was committed under this session, or when the organization has
  proved possession of it before and the chunk is live.\<close>

definition claimable :: "db \<Rightarrow> id \<Rightarrow> id \<Rightarrow> string \<Rightarrow> bool" where
  "claimable d orgID uploadID h \<longleftrightarrow>
     session_committed d uploadID h \<or> (orgID, h) \<in> set (org_chunk_proofs d) \<and> chunk_live d h"

lemma FindMissing_result:
  "fst (FindMissingChunksForOrg now orgID uploadID hashes d) =
     filter (\<lambda>h. \<not> claimable d orgID uploadID h) hashes"
proof -
  let ?cand = "filter (\<lambda>h. \<not> session_committed d uploadID h) hashes"
  have "h \<in> set (filter (\<lambda>h. (orgID, h) \<in> set (org_chunk_proofs d))
      (map c_hash (filter (\<lambda>c. c_hash c \<in> set ?cand \<and> c_gc c = Live) (chunks d)))) \<longleftrightarrow>
      (orgID, h) \<in> set (org_chunk_proofs d) \<and> chunk_live d h" if "h \<in> set ?cand" for h
    using that by (auto simp: chunk_live_def image_iff)
  then have eq: "filter (\<lambda>h. h \<notin> set (filter (\<lambda>h. (orgID, h) \<in> set (org_chunk_proofs d))
      (map c_hash (filter (\<lambda>c. c_hash c \<in> set ?cand \<and> c_gc c = Live) (chunks d))))) ?cand =
      filter (\<lambda>h. \<not> ((orgID, h) \<in> set (org_chunk_proofs d) \<and> chunk_live d h)) ?cand"
    by (intro filter_cong [OF refl]) blast
  have "fst (FindMissingChunksForOrg now orgID uploadID hashes d) =
      filter (\<lambda>h. \<not> ((orgID, h) \<in> set (org_chunk_proofs d) \<and> chunk_live d h)) ?cand"
    unfolding FindMissingChunksForOrg_def Let_def eq by (simp del: filter_filter)
  then show ?thesis by (simp add: claimable_def conj_commute)
qed

lemma FindMissing_frame:
  assumes "FindMissingChunksForOrg now orgID uploadID hashes d = (missing, d')"
  shows "uploads d' = uploads d" and "upload_chunks d' = upload_chunks d"
    and "org_chunk_proofs d' = org_chunk_proofs d" and "files d' = files d"
    and "file_versions d' = file_versions d" and "folders d' = folders d"
    and "organizations d' = organizations d" and "memberships d' = memberships d"
    and "chunk_locations d' = chunk_locations d" and "users d' = users d"
    and "map (\<lambda>c. (c_hash c, c_gc c)) (chunks d') = map (\<lambda>c. (c_hash c, c_gc c)) (chunks d)"
  using assms by (auto simp: FindMissingChunksForOrg_def Let_def split: if_splits)

lemma FindMissing_lease:
  assumes "FindMissingChunksForOrg now orgID uploadID hashes d = (missing, d')"
    and "h \<in> set hashes" and "\<not> session_committed d uploadID h" and "chunk_live d h"
  shows "\<exists>c \<in> set (chunks d'). c_hash c = h \<and> c_gc c = Live \<and> c_seen c = now"
proof -
  let ?cand = "filter (\<lambda>h. \<not> session_committed d uploadID h) hashes"
  obtain c where c: "c \<in> set (chunks d)" "c_hash c = h" "c_gc c = Live"
    using assms(4) by (auto simp: chunk_live_def)
  have h: "h \<in> set ?cand" using assms(2,3) by simp
  then have "?cand \<noteq> []" by (metis empty_iff empty_set)
  then have "chunks d' = update_where (\<lambda>c. c_hash c \<in> set ?cand \<and> c_gc c = Live) (\<lambda>c. c\<lparr>c_seen := now\<rparr>) (chunks d)"
    using assms(1) by (auto simp: FindMissingChunksForOrg_def Let_def)
  then have "c\<lparr>c_seen := now\<rparr> \<in> set (chunks d')" using c h by (auto simp: in_update_where)
  then show ?thesis using c by (intro bexI [of _ "c\<lparr>c_seen := now\<rparr>"]) simp_all
qed

section \<open>What a commit has done\<close>

lemma etags_agree_iff:
  "etags_agree first es \<longleftrightarrow>
     (\<forall>e \<in> set es. e \<noteq> '''') \<and> (\<forall>e \<in> set es. e = (if first = '''' then hd es else first))"
  by (induction first es rule: etags_agree.induct) auto

lemma etags_agree_start:
  "etags_agree '''' es \<longleftrightarrow> es = [] \<or> (\<exists>tag. tag \<noteq> '''' \<and> (\<forall>e \<in> set es. e = tag))"
  by (cases es) (auto simp: etags_agree_iff)

definition located :: "db \<Rightarrow> string \<Rightarrow> string \<Rightarrow> bool" where
  "located d hash n \<longleftrightarrow>
     (\<exists>l \<in> set (chunk_locations d). cl_hash l = hash \<and> cl_node l = n \<and> cl_status l = Committed)"

lemma UpsertChunkLocation_ok:
  assumes "UpsertChunkLocation hash n d = (Inr x, d')"
  shows "located d' hash n" and "\<And>m. located d hash m \<Longrightarrow> located d' hash m"
    and "\<exists>ls. d' = d\<lparr>chunk_locations := ls\<rparr>"
proof -
  show "located d' hash n" and "\<exists>ls. d' = d\<lparr>chunk_locations := ls\<rparr>"
    using assms by (auto simp: UpsertChunkLocation_def located_def split: if_splits)
  fix m
  assume "located d hash m"
  then obtain l where l: "l \<in> set (chunk_locations d)" "cl_hash l = hash" "cl_node l = m" "cl_status l = Committed"
    by (auto simp: located_def)
  have "l \<in> set (chunk_locations d')"
    using assms l by (auto simp: UpsertChunkLocation_def in_update_where split: if_splits intro!: bexI [of _ l])
  then show "located d' hash m" using l by (auto simp: located_def)
qed

lemma upsert_locations_ok:
  assumes "upsert_locations hash ns d = (Inr x, d')"
  shows "(\<forall>n \<in> set ns. located d' hash n) \<and> (\<forall>m. located d hash m \<longrightarrow> located d' hash m) \<and>
    (\<exists>ls. d' = d\<lparr>chunk_locations := ls\<rparr>)"
  using assms
proof (induction ns arbitrary: d)
  case Nil then show ?case by (auto intro: exI [of _ "chunk_locations d"])
next
  case (Cons n ns)
  then obtain y d1 where d1: "UpsertChunkLocation hash n d = (Inr y, d1)"
    and rest: "upsert_locations hash ns d1 = (Inr x, d')" by (auto split: prod.splits sum.splits)
  from UpsertChunkLocation_ok [OF d1] Cons.IH [OF rest] show ?case by fastforce
qed

lemma upsert_locations_frame:
  assumes "upsert_locations hash ns d = (r, d')"
  shows "\<exists>ls. d' = d\<lparr>chunk_locations := ls\<rparr>"
  using assms
proof (induction ns arbitrary: d)
  case Nil then show ?case by (auto intro: exI [of _ "chunk_locations d"])
next
  case (Cons n ns)
  obtain y d1 where d1: "UpsertChunkLocation hash n d = (y, d1)" by fastforce
  then have "\<exists>ls. d1 = d\<lparr>chunk_locations := ls\<rparr>"
    by (auto simp: UpsertChunkLocation_def split: if_splits intro: exI [of _ "chunk_locations d"])
  then show ?case using Cons d1 by (cases y) fastforce+
qed

lemma CommitChunk_ok:
  assumes "CommitChunk s now u hash sizeBytes etags d = (Inr x, d')"
  shows "commit_check s d u hash sizeBytes etags = None \<and>
    (\<exists>d1 d2 d3. MarkChunkCommitted (u_id u) hash etags d = (Inr (), d1) \<and>
       UpsertGlobalChunk now hash sizeBytes d1 = (Inr (), d2) \<and>
       upsert_locations hash (map fst etags) d2 = (Inr (), d3) \<and>
       RecordOrgChunkProof (u_org u) hash d3 = (Inr (), d'))"
  using assms by (auto simp: CommitChunk_def split: option.splits prod.splits sum.splits)

lemma UpsertGlobalChunk_live:
  assumes "UpsertGlobalChunk now hash sizeBytes d = (Inr x, d')"
  shows "chunk_live d' hash" and "\<exists>cs. d' = d\<lparr>chunks := cs\<rparr>"
  using assms by (auto simp: UpsertGlobalChunk_def chunk_live_def has_chunk_def split: if_splits)

lemma commit_check_None:
  assumes "commit_check s d u hash sizeBytes etags = None"
  shows "u_status u = StatusInProgress" and "GetChunkAttemptState d (u_id u) hash = Inr ChunkPresigned"
    and "0 < sv_chunkSizeBytes s \<Longrightarrow> sizeBytes \<le> sv_chunkSizeBytes s" and "etags \<noteq> []"
    and "sv_writeQuorum s \<le> int (length etags)"
    and "\<exists>tag. tag \<noteq> '''' \<and> (\<forall>e \<in> set etags. snd e = tag)"
  using assms by (auto simp: commit_check_def etags_agree_start split: if_splits sum.splits)

section \<open>The service's ports\<close>

text \<open>
  What \<^verbatim>\<open>upload.Service\<close> relies on from the packages it is wired to: the file port, the folder
  port, the membership port, and that the usage and quota readers report the organization's row.
\<close>

locale upload_ports =
  files: file_creator "sv_create s" "sv_add s" "sv_get s" +
  folders: folder_org_lookup "sv_orgOf s" +
  members: membership_checker "sv_isMember s"
  for s :: UploadService +
  assumes usage_read: "sv_usage s d oid = Inr n \<Longrightarrow> \<exists>g \<in> set (organizations d). o_id g = oid \<and> o_usage g = n"
    and quota_read: "sv_quota s = Some q \<Longrightarrow> q d oid = Inr l \<Longrightarrow> \<exists>g \<in> set (organizations d). o_id g = oid \<and> o_quota g = l"
begin

text \<open>The destination of a session is in one organization.\<close>

lemma upload_target_ok:
  assumes inv: "db_inv d" and t: "upload_target s d folderID targetFileID name = Inr (orgID, fo, nm, target)"
  shows "folder_in_org (folders d) orgID fo" and "\<And>t. target = Some t \<Longrightarrow> file_in_org (files d) orgID t"
proof -
  note fok = struct_invD(5) [OF db_invD(1) [OF inv]]
  show "folder_in_org (folders d) orgID fo"
  proof (cases "targetFileID = ''''")
    case True
    then have "sv_orgOf s d fo = Inr orgID" using t by (auto simp: upload_target_def split: sum.splits)
    from folders.orgIDOf_live [OF this] show ?thesis by (auto simp: folder_in_org_def)
  next
    case False
    then obtain fileName where "sv_get s d targetFileID = Inr (orgID, fo, fileName)"
      using t by (auto simp: upload_target_def split: sum.splits)
    from files.get_live [OF this] fok show ?thesis by (auto simp: files_ok_def)
  qed
  fix t'
  assume "target = Some t'"
  then obtain fileName where "sv_get s d t' = Inr (orgID, fo, fileName)"
    using t by (auto simp: upload_target_def split: sum.splits if_splits)
  from files.get_live [OF this] show "file_in_org (files d) orgID t'" by (auto simp: file_in_org_def)
qed

lemma InitUpload_cases:
  assumes "InitUpload s uuid now userID folderID targetFileID name sizeBytes mime d = (r, d')"
  shows "(\<exists>e. r = Inl e) \<and> d' = d \<or>
    (\<exists>orgID fo nm target. upload_target s d folderID targetFileID name = Inr (orgID, fo, nm, target) \<and>
       is_member d orgID userID \<and> \<not> too_large s sizeBytes \<and> checkQuota s d orgID sizeBytes = None \<and>
       CreateUpload uuid now orgID fo nm sizeBytes mime userID target d = (r, d'))"
  using assms members.truthful
  by (auto simp: InitUpload_def split: if_splits sum.splits prod.splits option.splits)

lemma InitUpload_inv:
  assumes inv: "db_inv d"
  shows "db_inv (snd (InitUpload s uuid now userID folderID targetFileID name sizeBytes mime d))"
proof (cases "InitUpload s uuid now userID folderID targetFileID name sizeBytes mime d")
  case (Pair r d')
  from InitUpload_cases [OF this] show ?thesis
  proof (elim disjE exE conjE)
    fix orgID fo nm target
    assume t: "upload_target s d folderID targetFileID name = Inr (orgID, fo, nm, target)"
      and c: "CreateUpload uuid now orgID fo nm sizeBytes mime userID target d = (r, d')"
    from CreateUpload_inv [OF inv upload_target_ok [OF inv t], of target] c Pair show ?thesis by (metis snd_conv)
  qed (use inv Pair in simp)
qed

text \<open>The quota check, when the sum does not leave the 64-bit range.\<close>

lemma checkQuota_bound:
  assumes ok: "checkQuota s d orgID sizeBytes = None" and g: "g \<in> set (organizations d)" "o_id g = orgID"
    and keys: "distinct (map o_id (organizations d))" and lim: "quota_limit s d orgID = Inr limit" "0 < limit"
    and fits: "in_int64 (o_usage g + sizeBytes)"
  shows "o_usage g + sizeBytes \<le> limit"
proof -
  obtain used where used: "sv_usage s d orgID = Inr used" "wrap64 (used + sizeBytes) \<le> limit"
    using ok lim by (auto simp: checkQuota_def split: sum.splits if_splits)
  obtain g' where "g' \<in> set (organizations d)" "o_id g' = orgID" "o_usage g' = used"
    using usage_read [OF used(1)] by blast
  then have "used = o_usage g" using key_unique [OF keys g(1)] g(2) by auto
  then show ?thesis using used(2) wrap64_id [OF fits] by simp
qed

end

text \<open>The wired service.\<close>

lemma OrgUsageBytes_row:
  "OrgUsageBytes d oid = Inr n \<Longrightarrow> \<exists>g \<in> set (organizations d). o_id g = oid \<and> o_usage g = n"
  by (auto simp: OrgUsageBytes_def split: option.splits dest!: find_SomeD)

lemma QuotaOverride_row:
  "QuotaOverride d oid = Inr l \<Longrightarrow> \<exists>g \<in> set (organizations d). o_id g = oid \<and> o_quota g = l"
  by (auto simp: QuotaOverride_def split: option.splits dest!: find_SomeD)

interpretation upload_wired: upload_ports "wired_upload rt rf wq cs mx oq fileID versionID now"
  for rt rf wq cs mx oq fileID versionID now
  unfolding upload_ports_def upload_ports_axioms_def
  using file_repo.file_creator_axioms folder_orgs.folder_org_lookup_axioms
    org_members.membership_checker_axioms OrgUsageBytes_row QuotaOverride_row
  by (simp add: wired_upload_def)

section \<open>Completion\<close>

text \<open>The row of a session a request has loaded: its status and result may have moved on since.\<close>

definition session_of :: "db \<Rightarrow> Upload \<Rightarrow> bool" where
  "session_of d u \<longleftrightarrow> (\<exists>w \<in> set (uploads d). u_id w = u_id u \<and> u_org w = u_org u \<and> u_folder w = u_folder u \<and>
     u_by w = u_by u \<and> u_target w = u_target u)"

lemma session_ofD:
  assumes "db_inv d" and "session_of d u"
  shows "folder_in_org (folders d) (u_org u) (u_folder u)"
    and "\<And>t. u_target u = Some t \<Longrightarrow> file_in_org (files d) (u_org u) t"
proof -
  obtain w where w: "w \<in> set (uploads d)" "u_org w = u_org u" "u_folder w = u_folder u" "u_target w = u_target u"
    using assms(2) by (auto simp: session_of_def)
  then show "folder_in_org (folders d) (u_org u) (u_folder u)"
    and "\<And>t. u_target u = Some t \<Longrightarrow> file_in_org (files d) (u_org u) t"
    using struct_invD(8) [OF db_invD(1) [OF assms(1)]] unfolding uploads_ok_def by metis+
qed

lemma session_usage:
  assumes "db_inv d" and "session_of d u"
  shows "\<exists>n. OrgUsageBytes d (u_org u) = Inr n"
proof -
  obtain g where "g \<in> set (folders d)" "fo_org g = u_org u"
    using session_ofD(1) [OF assms] by (auto simp: folder_in_org_def)
  then have "has_org d (u_org u)"
    using struct_invD(2) [OF db_invD(1) [OF assms(1)]] unfolding folders_ok_def has_org_def by metis
  then show ?thesis by (rule OrgUsageBytes_exists)
qed

lemma repo_CompleteUpload_fail:
  "repo_CompleteUpload uploadID fileID versionID key d = (Inl e, d') \<Longrightarrow> d' = d"
  by (auto simp: repo_CompleteUpload_def Let_def split: if_splits)

lemma repo_CompleteUpload_ok:
  assumes "repo_CompleteUpload uploadID fileID versionID key d = (Inr x, d')"
  shows "d' = d\<lparr>uploads := update_where (\<lambda>u. u_id u = uploadID \<and> u_status u = StatusInProgress)
      (\<lambda>u. u\<lparr>u_status := StatusCompleted, u_file := Some fileID, u_version := Some versionID, u_idem := key\<rparr>)
      (uploads d)\<rparr>"
    and "\<exists>u \<in> set (uploads d). u_id u = uploadID \<and> u_status u = StatusInProgress \<and>
      (key \<noteq> None \<longrightarrow> (\<forall>w \<in> set (uploads d). u_by w = u_by u \<and> u_idem w = key \<longrightarrow> u_id w = uploadID))"
  using assms by (auto simp: repo_CompleteUpload_def Let_def rows_affected_zero split: if_splits)

text \<open>The runs of a completion.\<close>

lemma CompleteUpload_cases [consumes 1, case_names replayed rejected missing not_created completed lost]:
  assumes "CompleteUpload s now u key chunkOrder sizeBytes checksum d = ((r, effects), d')"
  obtains
    (replayed) x where "replay d (u_by u) key = Some x" "r = Inr x" "effects = []" "d' = d"
  | (rejected) e where "replay d (u_by u) key = None" "complete_check s d u chunkOrder sizeBytes = Some e"
      "r = Inl e" "effects = []" "d' = d"
  | (missing) m where "replay d (u_by u) key = None" "complete_check s d u chunkOrder sizeBytes = None"
      "FindMissingChunksForOrg now (u_org u) (u_id u) chunkOrder d = (m, d')" "m \<noteq> []"
      "r = Inl (Upload ErrMissingChunks)" "effects = []"
  | (not_created) d1 e where "replay d (u_by u) key = None" "complete_check s d u chunkOrder sizeBytes = None"
      "FindMissingChunksForOrg now (u_org u) (u_id u) chunkOrder d = ([], d1)"
      "create_version s u sizeBytes checksum chunkOrder d1 = (Inl e, d')" "r = Inl e" "effects = []"
  | (completed) d1 d2 f v where "replay d (u_by u) key = None" "complete_check s d u chunkOrder sizeBytes = None"
      "FindMissingChunksForOrg now (u_org u) (u_id u) chunkOrder d = ([], d1)"
      "create_version s u sizeBytes checksum chunkOrder d1 = (Inr (f, v), d2)"
      "repo_CompleteUpload (u_id u) f v (if key \<noteq> '''' then Some key else None) d2 = (Inr (), d')"
      "r = Inr (f, v)"
      "effects = [RecordUpload (u_org u) (u_by u) f, PublishUploadCompleted f v (u_org u)]"
  | (lost) d1 f v e where "replay d (u_by u) key = None" "complete_check s d u chunkOrder sizeBytes = None"
      "FindMissingChunksForOrg now (u_org u) (u_id u) chunkOrder d = ([], d1)"
      "create_version s u sizeBytes checksum chunkOrder d1 = (Inr (f, v), d')"
      "repo_CompleteUpload (u_id u) f v (if key \<noteq> '''' then Some key else None) d' = (Inl e, d')"
      "r = Inl e \<or> (\<exists>w a b. e = Upload ErrAlreadyCompleting \<and> GetUpload d' (u_id u) = Inr w \<and>
         u_file w = Some a \<and> u_version w = Some b \<and> r = Inr (a, b))" "effects = []"
proof (cases "replay d (u_by u) key")
  case (Some x)
  then have "r = Inr x" "effects = []" "d' = d" using assms by (simp_all add: CompleteUpload_def)
  with Some show ?thesis by (rule replayed)
next
  case rep: None
  show ?thesis
  proof (cases "complete_check s d u chunkOrder sizeBytes")
    case (Some e)
    then have "r = Inl e" "effects = []" "d' = d" using assms rep by (simp_all add: CompleteUpload_def)
    with rep Some show ?thesis by (rule rejected)
  next
    case chk: None
    obtain m d1 where m: "FindMissingChunksForOrg now (u_org u) (u_id u) chunkOrder d = (m, d1)" by fastforce
    obtain c d2 where c: "create_version s u sizeBytes checksum chunkOrder d1 = (c, d2)" by fastforce
    show ?thesis
    proof (cases "m = []")
      case False
      then have "d1 = d'" "r = Inl (Upload ErrMissingChunks)" "effects = []"
        using assms rep chk m by (simp_all add: CompleteUpload_def)
      then show ?thesis using rep chk m False by (intro missing) simp_all
    next
      case ok: True
      show ?thesis
      proof (cases c)
        case (Inl e)
        have "d2 = d'" "r = Inl e" "effects = []"
          using assms rep chk m ok c Inl by (simp_all add: CompleteUpload_def)
        then show ?thesis using rep chk m c ok Inl by (intro not_created) simp_all
      next
        case c': (Inr fv)
        obtain f v where fv: "fv = (f, v)" by fastforce
        let ?key = "if key \<noteq> '''' then Some key else None"
        obtain q d3 where q: "repo_CompleteUpload (u_id u) f v ?key d2 = (q, d3)" by fastforce
        show ?thesis
        proof (cases q)
          case (Inr y)
          have "d3 = d'" "r = Inr (f, v)"
            "effects = [RecordUpload (u_org u) (u_by u) f, PublishUploadCompleted f v (u_org u)]"
            using assms rep chk m ok c c' fv q Inr by (simp_all add: CompleteUpload_def)
          then show ?thesis using rep chk m ok c q Inr fv c' by (intro completed) simp_all
        next
          case (Inl e)
          then have d3: "d3 = d2" using q repo_CompleteUpload_fail by simp
          have "d3 = d' \<and> effects = [] \<and> (r = Inl e \<or> (\<exists>w a b. e = Upload ErrAlreadyCompleting \<and>
              GetUpload d' (u_id u) = Inr w \<and> u_file w = Some a \<and> u_version w = Some b \<and> r = Inr (a, b)))"
            using assms rep chk m ok c c' fv q Inl
            by (auto simp: CompleteUpload_def split: if_splits sum.splits option.splits)
          then show ?thesis using rep chk m ok c q Inl fv d3 c' by (intro lost) auto
        qed
      qed
    qed
  qed
qed

context upload_ports
begin

lemma create_version_ok:
  assumes inv: "db_inv d" and u: "session_of d u" and size: "0 \<le> sizeBytes"
    and run: "create_version s u sizeBytes checksum chunkOrder d = (r, d')"
  shows "db_inv d'" and "r = Inl e \<Longrightarrow> d' = d"
    and "r = Inr (f, v) \<Longrightarrow> version_stored d' f v sizeBytes chunkOrder \<and> same_uploads d d' \<and> has_file d' f"
    and "r = Inr (f, v) \<Longrightarrow> OrgUsageBytes d' (u_org u) =
      (case OrgUsageBytes d (u_org u) of Inl e \<Rightarrow> Inl e | Inr n \<Rightarrow> Inr (n + sizeBytes))"
proof -
  note at = session_ofD [OF inv u]
  have all: "db_inv d' \<and> (\<forall>e. r = Inl e \<longrightarrow> d' = d) \<and>
    (\<forall>f v. r = Inr (f, v) \<longrightarrow> version_stored d' f v sizeBytes chunkOrder \<and> same_uploads d d' \<and> has_file d' f \<and>
      OrgUsageBytes d' (u_org u) = (case OrgUsageBytes d (u_org u) of Inl e \<Rightarrow> Inl e | Inr n \<Rightarrow> Inr (n + sizeBytes)))"
  proof (cases "u_target u")
    case None
    then have c: "sv_create s (u_org u) (u_folder u) (u_name u) (u_by u) sizeBytes checksum (u_mime u) chunkOrder d = (r, d')"
      using run by (simp add: create_version_def)
    have "db_inv d'"
      using files.create_inv [OF inv size at(1), of "u_name u" "u_by u" checksum "u_mime u" chunkOrder] c by simp
    moreover have "d' = d" if "r = Inl e" for e using c that files.create_fail by simp
    moreover have "version_stored d' f v sizeBytes chunkOrder \<and> same_uploads d d' \<and> has_file d' f"
      and "OrgUsageBytes d' (u_org u) = (case OrgUsageBytes d (u_org u) of Inl e \<Rightarrow> Inl e | Inr n \<Rightarrow> Inr (n + sizeBytes))"
      if "r = Inr (f, v)" for f v
      using files.create_ok [OF inv at(1) c [unfolded that]] files.create_charged [OF c [unfolded that], of "u_org u"]
      by (simp_all split: sum.splits)
    ultimately show ?thesis by simp
  next
    case (Some t)
    obtain q d1 where c: "sv_add s (u_org u) t (u_by u) sizeBytes checksum (u_mime u) chunkOrder d = (q, d1)" by fastforce
    have r: "d1 = d'" "r = (case q of Inl e \<Rightarrow> Inl e | Inr vid \<Rightarrow> Inr (t, vid))"
      using run c Some by (auto simp: create_version_def split: sum.splits)
    have "db_inv d'"
      using files.add_inv [OF inv size at(2) [OF Some], of "u_by u" checksum "u_mime u" chunkOrder] c r by simp
    moreover have "d' = d" if "q = Inl e" for e using c r that files.add_fail by simp
    moreover have "version_stored d' t v sizeBytes chunkOrder \<and> same_uploads d d' \<and> has_file d' t"
      and "OrgUsageBytes d' (u_org u) = (case OrgUsageBytes d (u_org u) of Inl e \<Rightarrow> Inl e | Inr n \<Rightarrow> Inr (n + sizeBytes))"
      if "q = Inr v" for v
      using files.add_ok [OF inv c [unfolded that r]] files.add_charged [OF c [unfolded that r], of "u_org u"]
      by (simp_all split: sum.splits)
    ultimately show ?thesis using r(2) by (auto split: sum.splits)
  qed
  then show "db_inv d'" and "r = Inl e \<Longrightarrow> d' = d"
    and "r = Inr (f, v) \<Longrightarrow> version_stored d' f v sizeBytes chunkOrder \<and> same_uploads d d' \<and> has_file d' f"
    and "r = Inr (f, v) \<Longrightarrow> OrgUsageBytes d' (u_org u) =
      (case OrgUsageBytes d (u_org u) of Inl e \<Rightarrow> Inl e | Inr n \<Rightarrow> Inr (n + sizeBytes))" by auto
qed

lemma CompleteUpload_inv:
  assumes inv: "db_inv d" and u: "session_of d u" and size: "0 \<le> sizeBytes"
  shows "db_inv (snd (CompleteUpload s now u key chunkOrder sizeBytes checksum d))"
proof (cases "CompleteUpload s now u key chunkOrder sizeBytes checksum d")
  case P: (Pair x d')
  obtain r effects where x: "x = (r, effects)" by fastforce
  have step: "db_inv d1 \<and> session_of d1 u"
    if "FindMissingChunksForOrg now (u_org u) (u_id u) chunkOrder d = (m, d1)" for m d1
    using FindMissingChunksForOrg_inv [OF inv, of now "u_org u" "u_id u" chunkOrder] that u
    by (simp add: session_of_def FindMissing_frame [OF that])
  from P [unfolded x] have "db_inv d'"
  proof (cases rule: CompleteUpload_cases)
    case (missing m) then show ?thesis using step by blast
  next
    case (not_created d1 e) then show ?thesis using step create_version_ok(1) [OF _ _ size] by blast
  next
    case (completed d1 d2 f v)
    then have "db_inv d2" using step create_version_ok(1) [OF _ _ size] by blast
    from preservesD [OF repo_CompleteUpload_inv this] completed(5) show ?thesis by (metis snd_conv)
  next
    case (lost d1 f v e) then show ?thesis using step create_version_ok(1) [OF _ _ size] by blast
  qed (use inv in simp_all)
  then show ?thesis using P by simp
qed

end

section \<open>A sample session\<close>

definition sample_upload :: Upload where
  "sample_upload = \<lparr>u_id = ''up'', u_org = ''o1'', u_folder = ''fo'', u_name = ''x.txt'', u_declared = 8,
     u_mime = ''text'', u_by = ''u1'', u_status = StatusInProgress, u_idem = None, u_target = None,
     u_file = None, u_version = None, u_created = 1\<rparr>"

definition sample_upload_db :: db where
  "sample_upload_db = sample_files_db\<lparr>storage_nodes := [''n1'', ''n2''], uploads := [sample_upload],
     upload_chunks := [\<lparr>uc_upload = ''up'', uc_hash = ''h1'', uc_state = ChunkPresigned, uc_etags = []\<rparr>,
                       \<lparr>uc_upload = ''up'', uc_hash = ''h2'', uc_state = ChunkCommitted, uc_etags = []\<rparr>],
     org_chunk_proofs := [(''o1'', ''h1'')]\<rparr>"

definition sample_service :: UploadService where
  "sample_service = wired_upload (empty_router 0) 2 2 100 1000 100 ''f'' ''v'' 3"

lemmas sample_upload_defs = sample_upload_db_def sample_upload_def sample_files_db_def sample_db_defs

lemma sample_upload_inv: "db_inv sample_upload_db"
proof -
  have "db_inv (sample_files_db\<lparr>uploads := [sample_upload]\<rparr>)"
    by (rule db_inv_uploads [OF sample_files_inv])
      (simp_all add: uploads_ok_def folder_in_org_def sample_upload_def sample_files_db_def sample_db_defs)
  then show ?thesis
    by (simp add: sample_upload_db_def db_inv_def struct_inv_def keys_ok_def)
qed

section \<open>Properties\<close>

text \<open>C14: proof of possession. \<^verbatim>\<open>CheckChunks\<close> reports a hash as present exactly when it was
  committed under this very session, or the organization of the session has a recorded proof of
  possession and the chunk is live: existence in another organization is never enough. The
  missing hashes keep the order of the request, and every present hash that relies on the shared
  chunk has had its collection lease renewed to the time of the call. Nothing but leases changes.\<close>

theorem CheckChunks_possession:
  assumes "CheckChunks now u hashes d = (missing, d')"
  shows "missing = filter (\<lambda>h. \<not> claimable d (u_org u) (u_id u) h) hashes \<and>
    (\<forall>h \<in> set hashes. h \<notin> set missing \<longrightarrow> session_committed d (u_id u) h \<or>
       (\<exists>c \<in> set (chunks d'). c_hash c = h \<and> c_gc c = Live \<and> c_seen c = now)) \<and>
    (\<exists>cs. d' = d\<lparr>chunks := cs\<rparr> \<and> map (\<lambda>c. (c_hash c, c_size c, c_gc c, c_doomed c)) cs =
       map (\<lambda>c. (c_hash c, c_size c, c_gc c, c_doomed c)) (chunks d))"
proof (intro conjI ballI impI)
  note run = assms [unfolded CheckChunks_def]
  show m: "missing = filter (\<lambda>h. \<not> claimable d (u_org u) (u_id u) h) hashes"
    using FindMissing_result [of now "u_org u" "u_id u" hashes d] run by simp
  show "session_committed d (u_id u) h \<or> (\<exists>c \<in> set (chunks d'). c_hash c = h \<and> c_gc c = Live \<and> c_seen c = now)"
    if "h \<in> set hashes" and "h \<notin> set missing" for h
    using that m FindMissing_lease [OF run that(1)] by (auto simp: claimable_def)
  show "\<exists>cs. d' = d\<lparr>chunks := cs\<rparr> \<and> map (\<lambda>c. (c_hash c, c_size c, c_gc c, c_doomed c)) cs =
       map (\<lambda>c. (c_hash c, c_size c, c_gc c, c_doomed c)) (chunks d)"
    using run by (auto simp: FindMissingChunksForOrg_def Let_def split: if_splits intro: exI [of _ "chunks d"])
qed

theorem CheckChunks_possession_witness:
  "\<exists>d'. CheckChunks 7 sample_upload [''h3'', ''h2'', ''h1''] sample_upload_db = ([''h3''], d') \<and>
     (\<exists>c \<in> set (chunks d'). c_hash c = ''h1'' \<and> c_gc c = Live \<and> c_seen c = 7)"
proof -
  obtain m d' where r: "CheckChunks 7 sample_upload [''h3'', ''h2'', ''h1''] sample_upload_db = (m, d')" by fastforce
  have c: "claimable sample_upload_db ''o1'' ''up'' ''h1''" "claimable sample_upload_db ''o1'' ''up'' ''h2''"
    "\<not> claimable sample_upload_db ''o1'' ''up'' ''h3''" "\<not> session_committed sample_upload_db ''up'' ''h1''"
    by (simp_all add: claimable_def session_committed_def this_chunk_def chunk_live_def sample_upload_defs)
  have u: "u_org sample_upload = ''o1''" "u_id sample_upload = ''up''" by (simp_all add: sample_upload_def)
  from CheckChunks_possession [OF r] r c show ?thesis by (auto simp: u)
qed

text \<open>C15: the write quorum. When \<^verbatim>\<open>CommitChunk\<close> succeeds, the session was in progress and the
  chunk awaiting commit; at least \<^verbatim>\<open>writeQuorum\<close> replicas were reported, all with one and the same
  non-empty ETag, and the chunk is within the size limit; and afterwards the chunk is committed
  under the session, live, recorded as committed on every reported node, and claimable by every
  later session of the organization.\<close>

theorem CommitChunk_quorum:
  assumes "CommitChunk s now u hash sizeBytes etags d = (Inr x, d')"
  shows "u_status u = StatusInProgress \<and> GetChunkAttemptState d (u_id u) hash = Inr ChunkPresigned \<and>
    etags \<noteq> [] \<and> sv_writeQuorum s \<le> int (length etags) \<and>
    (\<exists>tag. tag \<noteq> '''' \<and> (\<forall>e \<in> set etags. snd e = tag)) \<and>
    (0 < sv_chunkSizeBytes s \<longrightarrow> sizeBytes \<le> sv_chunkSizeBytes s) \<and>
    session_committed d' (u_id u) hash \<and> (\<forall>e \<in> set etags. located d' hash (fst e)) \<and>
    (\<forall>uploadID. claimable d' (u_org u) uploadID hash)"
proof -
  note ok = CommitChunk_ok [OF assms]
  note chk = commit_check_None [OF conjunct1 [OF ok]]
  obtain d1 d2 d3 where M: "MarkChunkCommitted (u_id u) hash etags d = (Inr (), d1)"
    and G: "UpsertGlobalChunk now hash sizeBytes d1 = (Inr (), d2)"
    and L: "upsert_locations hash (map fst etags) d2 = (Inr (), d3)"
    and R: "RecordOrgChunkProof (u_org u) hash d3 = (Inr (), d')" using ok by auto
  have "session_committed d1 (u_id u) hash"
    using M by (auto simp: MarkChunkCommitted_def Let_def session_committed_def this_chunk_def rows_affected_zero
        split: if_splits)
  moreover obtain cs where d2: "d2 = d1\<lparr>chunks := cs\<rparr>" using UpsertGlobalChunk_live(2) [OF G] by blast
  moreover obtain ls where d3: "d3 = d2\<lparr>chunk_locations := ls\<rparr>" using upsert_locations_ok [OF L] by blast
  moreover have d': "\<exists>ps. d' = d3\<lparr>org_chunk_proofs := ps\<rparr>" and proof': "(u_org u, hash) \<in> set (org_chunk_proofs d')"
    using R by (auto simp: RecordOrgChunkProof_def split: if_splits intro: exI [of _ "org_chunk_proofs d3"])
  ultimately have "session_committed d' (u_id u) hash" by (auto simp: session_committed_def)
  moreover have "chunk_live d' hash"
    using UpsertGlobalChunk_live(1) [OF G] d3 d' by (auto simp: chunk_live_def)
  moreover have "\<forall>e \<in> set etags. located d' hash (fst e)"
    using conjunct1 [OF upsert_locations_ok [OF L]] d' by (elim exE) (simp add: located_def)
  ultimately show ?thesis using chk proof' by (simp add: claimable_def)
qed

theorem CommitChunk_quorum_witness:
  "\<exists>d'. CommitChunk sample_service 9 sample_upload ''h1'' 4 [(''n1'', ''e''), (''n2'', ''e'')] sample_upload_db =
     (Inr (), d') \<and> session_committed d' ''up'' ''h1'' \<and> located d' ''h1'' ''n1'' \<and> located d' ''h1'' ''n2''"
proof -
  have "fst (CommitChunk sample_service 9 sample_upload ''h1'' 4 [(''n1'', ''e''), (''n2'', ''e'')] sample_upload_db) = Inr ()"
    by (simp add: CommitChunk_def commit_check_def GetChunkAttemptState_def MarkChunkCommitted_def this_chunk_def
        rows_affected_def UpsertGlobalChunk_def in_int32_def has_chunk_def UpsertChunkLocation_def
        RecordOrgChunkProof_def sample_service_def wired_upload_def sample_upload_defs)
  then obtain d' where r: "CommitChunk sample_service 9 sample_upload ''h1'' 4 [(''n1'', ''e''), (''n2'', ''e'')]
      sample_upload_db = (Inr (), d')" by (metis prod.collapse)
  have "u_id sample_upload = ''up''" by (simp add: sample_upload_def)
  with CommitChunk_quorum [OF r] r show ?thesis by auto
qed

text \<open>C16: who may start an upload, and where. On a sound database \<^verbatim>\<open>InitUpload\<close> of the wired service
  either fails and changes nothing, or it records a session in progress for the calling user,
  who is a member of the session's organization; the folder (and the target file of a
  re-upload, a live file) belongs to that organization, the declared size is within the upload
  limit and, the sum being in the 64-bit range, within the organization's quota; the database
  stays sound.\<close>

theorem InitUpload_authorized:
  assumes "db_inv d" and "InitUpload (wired_upload rt rf wq cs mx oq fileID versionID now) uuid now userID
      folderID targetFileID name sizeBytes mime d = (r, d')"
  shows "case r of Inl e \<Rightarrow> d' = d
    | Inr u \<Rightarrow> db_inv d' \<and> uploads d' = uploads d @ [u] \<and> u_id u = uuid \<and> u_by u = userID \<and>
        u_status u = StatusInProgress \<and> is_member d (u_org u) userID \<and>
        folder_in_org (folders d) (u_org u) (u_folder u) \<and>
        (\<forall>t. u_target u = Some t \<longrightarrow> (\<exists>f \<in> set (files d). f_id f = t \<and> f_org f = u_org u \<and> f_deleted f = None)) \<and>
        (0 < mx \<longrightarrow> sizeBytes \<le> mx) \<and>
        (\<forall>g \<in> set (organizations d). o_id g = u_org u \<and> in_int64 (o_usage g + sizeBytes) \<longrightarrow>
           (case o_quota g of None \<Rightarrow> oq \<le> 0 \<or> o_usage g + sizeBytes \<le> oq
            | Some q \<Rightarrow> q \<le> 0 \<or> o_usage g + sizeBytes \<le> q))"
proof (cases r)
  case (Inl e)
  with upload_wired.InitUpload_cases [OF assms(2)] show ?thesis
    by (auto simp: CreateUpload_def Let_def split: if_splits)
next
  case (Inr u)
  let ?s = "wired_upload rt rf wq cs mx oq fileID versionID now"
  note keys = keys_okD(1) [OF struct_invD(1) [OF db_invD(1) [OF assms(1)]]]
  obtain orgID fo nm target where t: "upload_target ?s d folderID targetFileID name = Inr (orgID, fo, nm, target)"
    and m: "is_member d orgID userID" and big: "\<not> too_large ?s sizeBytes" and q: "checkQuota ?s d orgID sizeBytes = None"
    and c: "CreateUpload uuid now orgID fo nm sizeBytes mime userID target d = (Inr u, d')"
    using upload_wired.InitUpload_cases [OF assms(2)] Inr by auto
  have u: "u_id u = uuid" "u_by u = userID" "u_status u = StatusInProgress" "u_org u = orgID" "u_folder u = fo"
    "u_target u = target" "uploads d' = uploads d @ [u]"
    using c by (auto simp: CreateUpload_def Let_def split: if_splits)
  have "\<exists>f \<in> set (files d). f_id f = x \<and> f_org f = orgID \<and> f_deleted f = None" if x: "target = Some x" for x
  proof -
    obtain fileName where "sv_get ?s d x = Inr (orgID, fo, fileName)"
      using t x
      by (auto simp: upload_target_def split: sum.splits if_splits)
    from upload_wired.files.get_live [OF this] show ?thesis by blast
  qed
  moreover have "case o_quota g of None \<Rightarrow> oq \<le> 0 \<or> o_usage g + sizeBytes \<le> oq
      | Some q \<Rightarrow> q \<le> 0 \<or> o_usage g + sizeBytes \<le> q"
    if g: "g \<in> set (organizations d)" "o_id g = orgID" and fits: "in_int64 (o_usage g + sizeBytes)" for g
  proof -
    have "QuotaOverride d orgID = Inr (o_quota g)" using find_key [OF keys g(1)] g(2) by (simp add: QuotaOverride_def)
    then have "quota_limit ?s d orgID = Inr (case o_quota g of None \<Rightarrow> oq | Some q \<Rightarrow> q)"
      by (simp add: quota_limit_def wired_upload_def split: option.split)
    from upload_wired.checkQuota_bound [OF q g keys this _ fits] show ?thesis
      by (auto split: option.splits simp flip: not_less)
  qed
  moreover have "db_inv d'" using upload_wired.InitUpload_inv [OF assms(1)] assms(2) by (metis snd_conv)
  moreover have "folder_in_org (folders d) orgID fo" using upload_wired.upload_target_ok(1) [OF assms(1) t] .
  moreover have "0 < mx \<longrightarrow> sizeBytes \<le> mx" using big by (auto simp: too_large_def wired_upload_def)
  ultimately show ?thesis using Inr u m by simp
qed

theorem InitUpload_authorized_witness:
  "\<exists>u d'. InitUpload (wired_upload (empty_router 0) 2 2 100 1000 100 ''f'' ''v'' 3) ''up'' 3 ''u2'' ''fo'' '''' ''x.txt'' 8
      ''text'' sample_files_db = (Inr u, d') \<and> db_inv d' \<and> u_org u = ''o1'' \<and> is_member sample_files_db ''o1'' ''u2''"
proof -
  let ?run = "InitUpload (wired_upload (empty_router 0) 2 2 100 1000 100 ''f'' ''v'' 3) ''up'' 3 ''u2'' ''fo'' '''' ''x.txt'' 8
    ''text'' sample_files_db"
  have "\<exists>u. fst ?run = Inr u \<and> u_org u = ''o1''"
    by (simp add: InitUpload_def too_large_def upload_target_def wired_upload_def OrgIDOf_def folder_Get_def IsMember_def
        GetMembership_def checkQuota_def quota_limit_def QuotaOverride_def OrgUsageBytes_def wrap64_def CreateUpload_def
        has_org_def has_folder_def has_user_def scanFolder_def Let_def sample_files_db_def sample_db_defs)
  then obtain u d' where r: "?run = (Inr u, d')" "u_org u = ''o1''" by (metis prod.collapse)
  from InitUpload_authorized [OF sample_files_inv r(1)] r show ?thesis by auto
qed

section \<open>Completion, property by property\<close>

lemma version_stored_uploads [simp]: "version_stored (d\<lparr>uploads := us\<rparr>) f v sz hs = version_stored d f v sz hs"
  by (simp add: version_stored_def GetVersion_def GetVersionChunks_def)

lemma OrgUsageBytes_uploads [simp]: "OrgUsageBytes (d\<lparr>uploads := us\<rparr>) x = OrgUsageBytes d x"
  by (simp add: OrgUsageBytes_def)

lemma session_of_missing:
  assumes "FindMissingChunksForOrg now orgID uploadID hashes d = (m, d1)"
  shows "session_of d1 u = session_of d u" and "OrgUsageBytes d1 x = OrgUsageBytes d x"
  by (simp_all add: session_of_def OrgUsageBytes_def FindMissing_frame [OF assms])

context upload_ports
begin

text \<open>A completion that takes effect.\<close>

lemma CompleteUpload_effective:
  assumes inv: "db_inv d" and u: "session_of d u" and size: "0 \<le> sizeBytes"
    and run: "CompleteUpload s now u key chunkOrder sizeBytes checksum d = ((r, effects), d')" and eff: "effects \<noteq> []"
  obtains f v where "r = Inr (f, v)"
    and "effects = [RecordUpload (u_org u) (u_by u) f, PublishUploadCompleted f v (u_org u)]"
    and "chunkOrder \<noteq> []" and "\<forall>h \<in> set chunkOrder. claimable d (u_org u) (u_id u) h"
    and "version_stored d' f v sizeBytes chunkOrder"
    and "uploads d' = update_where (\<lambda>w. u_id w = u_id u \<and> u_status w = StatusInProgress)
      (\<lambda>w. w\<lparr>u_status := StatusCompleted, u_file := Some f, u_version := Some v,
        u_idem := (if key = '''' then None else Some key)\<rparr>) (uploads d)"
    and "\<exists>w \<in> set (uploads d). u_id w = u_id u \<and> u_status w = StatusInProgress \<and>
      (key \<noteq> '''' \<longrightarrow> (\<forall>w' \<in> set (uploads d). u_by w' = u_by w \<and> u_idem w' = Some key \<longrightarrow> u_id w' = u_id u))"
    and "OrgUsageBytes d' (u_org u) =
      (case OrgUsageBytes d (u_org u) of Inl e \<Rightarrow> Inl e | Inr n \<Rightarrow> Inr (n + sizeBytes))"
    and "complete_check s d u chunkOrder sizeBytes = None"
  using run
proof (cases rule: CompleteUpload_cases)
  case (completed d1 d2 f v)
  note fr = FindMissing_frame [OF completed(3)] session_of_missing [OF completed(3)]
  have inv1: "db_inv d1"
    using FindMissingChunksForOrg_inv [OF inv, of now "u_org u" "u_id u" chunkOrder] completed(3) by simp
  have "filter (\<lambda>h. \<not> claimable d (u_org u) (u_id u) h) chunkOrder = []"
    using FindMissing_result [of now "u_org u" "u_id u" chunkOrder d] completed(3) by simp
  then have claim: "\<forall>h \<in> set chunkOrder. claimable d (u_org u) (u_id u) h" by (simp add: filter_empty_conv)
  have order: "chunkOrder \<noteq> []" using completed(2) by (auto simp: complete_check_def split: if_splits)
  note cv = create_version_ok [OF inv1 _ size completed(4), unfolded fr, OF u]
  have same: "uploads d2 = uploads d" using cv(3) [OF refl] fr(1) by (simp add: same_uploads_def)
  note up = repo_CompleteUpload_ok [OF completed(5), unfolded same]
  show thesis
  proof (rule that [OF completed(6,7) order claim])
    show "version_stored d' f v sizeBytes chunkOrder" using cv(3) [OF refl] up(1) by simp
    show "OrgUsageBytes d' (u_org u) =
        (case OrgUsageBytes d (u_org u) of Inl e \<Rightarrow> Inl e | Inr n \<Rightarrow> Inr (n + sizeBytes))"
      using cv(4) [OF refl] up(1) by simp
    show "uploads d' = update_where (\<lambda>w. u_id w = u_id u \<and> u_status w = StatusInProgress)
      (\<lambda>w. w\<lparr>u_status := StatusCompleted, u_file := Some f, u_version := Some v,
        u_idem := (if key = '''' then None else Some key)\<rparr>) (uploads d)" using up(1) by (simp split: if_splits)
    show "\<exists>w \<in> set (uploads d). u_id w = u_id u \<and> u_status w = StatusInProgress \<and>
      (key \<noteq> '''' \<longrightarrow> (\<forall>w' \<in> set (uploads d). u_by w' = u_by w \<and> u_idem w' = Some key \<longrightarrow> u_id w' = u_id u))"
      using up(2) by auto
  qed (rule completed(2))
qed (use eff in auto)

end

text \<open>C17: what a completed upload has stored. On a sound database, for a session of it and a size
  that is not negative, every run of \<^verbatim>\<open>CompleteUpload\<close> of the wired service leaves the database
  sound. A run that records and publishes the upload (its effects) has found every chunk of the
  order claimable, has stored a version whose chunk list is that order and whose size is the
  given one, has charged the organization exactly that size, and has closed the session with
  that file and version.\<close>

theorem CompleteUpload_stores:
  assumes "db_inv d" and "session_of d u" and "0 \<le> sizeBytes"
    and "CompleteUpload (wired_upload rt rf wq cs mx oq fileID versionID now) now u key chunkOrder sizeBytes checksum d =
      ((r, effects), d')"
  shows "db_inv d' \<and> (effects \<noteq> [] \<longrightarrow>
    (\<exists>f v n. r = Inr (f, v) \<and> effects = [RecordUpload (u_org u) (u_by u) f, PublishUploadCompleted f v (u_org u)] \<and>
       chunkOrder \<noteq> [] \<and> (\<forall>h \<in> set chunkOrder. claimable d (u_org u) (u_id u) h) \<and>
       version_stored d' f v sizeBytes chunkOrder \<and>
       OrgUsageBytes d (u_org u) = Inr n \<and> OrgUsageBytes d' (u_org u) = Inr (n + sizeBytes) \<and>
       (\<exists>w \<in> set (uploads d'). u_id w = u_id u \<and> u_status w = StatusCompleted \<and> u_file w = Some f \<and> u_version w = Some v)))"
proof (intro conjI impI)
  show "db_inv d'" using upload_wired.CompleteUpload_inv [OF assms(1-3)] assms(4) by (metis snd_conv)
  assume "effects \<noteq> []"
  with assms obtain f v where r: "r = Inr (f, v)"
    "effects = [RecordUpload (u_org u) (u_by u) f, PublishUploadCompleted f v (u_org u)]" "chunkOrder \<noteq> []"
    "\<forall>h \<in> set chunkOrder. claimable d (u_org u) (u_id u) h" "version_stored d' f v sizeBytes chunkOrder"
    and up: "uploads d' = update_where (\<lambda>w. u_id w = u_id u \<and> u_status w = StatusInProgress)
      (\<lambda>w. w\<lparr>u_status := StatusCompleted, u_file := Some f, u_version := Some v,
        u_idem := (if key = '''' then None else Some key)\<rparr>) (uploads d)"
    and w: "\<exists>w \<in> set (uploads d). u_id w = u_id u \<and> u_status w = StatusInProgress"
    and n: "OrgUsageBytes d' (u_org u) =
      (case OrgUsageBytes d (u_org u) of Inl e \<Rightarrow> Inl e | Inr n \<Rightarrow> Inr (n + sizeBytes))"
    by (elim upload_wired.CompleteUpload_effective) blast+
  obtain m where m: "OrgUsageBytes d (u_org u) = Inr m" using session_usage [OF assms(1,2)] by blast
  have "\<exists>w \<in> set (uploads d'). u_id w = u_id u \<and> u_status w = StatusCompleted \<and> u_file w = Some f \<and> u_version w = Some v"
    unfolding up bex_update_where using w by fastforce
  with r n m show "\<exists>f v n. r = Inr (f, v) \<and>
       effects = [RecordUpload (u_org u) (u_by u) f, PublishUploadCompleted f v (u_org u)] \<and>
       chunkOrder \<noteq> [] \<and> (\<forall>h \<in> set chunkOrder. claimable d (u_org u) (u_id u) h) \<and>
       version_stored d' f v sizeBytes chunkOrder \<and>
       OrgUsageBytes d (u_org u) = Inr n \<and> OrgUsageBytes d' (u_org u) = Inr (n + sizeBytes) \<and>
       (\<exists>w \<in> set (uploads d'). u_id w = u_id u \<and> u_status w = StatusCompleted \<and> u_file w = Some f \<and> u_version w = Some v)"
    by (intro exI [of _ f] exI [of _ v] exI [of _ m]) simp
qed

text \<open>The definitions a concrete completion unfolds.\<close>

lemmas complete_eval = CompleteUpload_def replay_def GetByIdempotencyKey_def GetUpload_def scanUpload_def complete_check_def
  too_large_def checkQuota_def quota_limit_def QuotaOverride_def OrgUsageBytes_def wrap64_def FindMissingChunksForOrg_def
  session_committed_def this_chunk_def create_version_def CreateWithVersion_def transaction_def has_file_def
  has_org_def has_folder_def has_user_def insert_version_def has_version_def has_chunk_def add_usage_def
  set_latest_def in_int64_def repo_CompleteUpload_def rows_affected_def Let_def sample_service_def wired_upload_def
  sample_upload_defs

lemma sample_session: "session_of sample_upload_db sample_upload"
  by (simp add: session_of_def sample_upload_db_def)

lemma sample_complete_run:
  "\<exists>d'. CompleteUpload sample_service 3 sample_upload ''k'' [''h2'', ''h1''] 8 ''sum'' sample_upload_db =
     ((Inr (''f'', ''v''), [RecordUpload ''o1'' ''u1'' ''f'', PublishUploadCompleted ''f'' ''v'' ''o1'']), d')"
  by (simp add: complete_eval)

theorem CompleteUpload_stores_witness:
  "\<exists>d'. CompleteUpload sample_service 3 sample_upload ''k'' [''h2'', ''h1''] 8 ''sum'' sample_upload_db =
     ((Inr (''f'', ''v''), [RecordUpload ''o1'' ''u1'' ''f'', PublishUploadCompleted ''f'' ''v'' ''o1'']), d') \<and>
     db_inv d' \<and> version_stored d' ''f'' ''v'' 8 [''h2'', ''h1'']"
proof -
  obtain d' where r: "CompleteUpload sample_service 3 sample_upload ''k'' [''h2'', ''h1''] 8 ''sum'' sample_upload_db =
     ((Inr (''f'', ''v''), [RecordUpload ''o1'' ''u1'' ''f'', PublishUploadCompleted ''f'' ''v'' ''o1'']), d')"
    using sample_complete_run by blast
  from CompleteUpload_stores [OF sample_upload_inv sample_session _ r [unfolded sample_service_def]] r show ?thesis
    by auto
qed



text \<open>C19: replay. Once a completion with an idempotency key has taken effect, every later call by
  the same user with that key (any session row, chunk order, size or checksum) returns the same
  file and version, with no effect and no change.\<close>

theorem CompleteUpload_idempotent:
  assumes inv: "db_inv d" and u: "session_of d u" and size: "0 \<le> sizeBytes" and key: "key \<noteq> ''''"
    and run: "CompleteUpload (wired_upload rt rf wq cs mx oq fileID versionID now) now u key chunkOrder sizeBytes checksum d =
      ((r, effects), d')" and eff: "effects \<noteq> []" and same: "u_by u' = u_by u"
  shows "CompleteUpload s now' u' key chunkOrder' sizeBytes' checksum' d' = ((r, []), d')"
proof -
  note keys = keys_okD(6) [OF struct_invD(1) [OF db_invD(1) [OF inv]]]
  obtain f v where r: "r = Inr (f, v)"
    and up: "uploads d' = update_where (\<lambda>w. u_id w = u_id u \<and> u_status w = StatusInProgress)
      (\<lambda>w. w\<lparr>u_status := StatusCompleted, u_file := Some f, u_version := Some v,
        u_idem := (if key = '''' then None else Some key)\<rparr>) (uploads d)"
    and w: "\<exists>w \<in> set (uploads d). u_id w = u_id u \<and> u_status w = StatusInProgress \<and>
      (key \<noteq> '''' \<longrightarrow> (\<forall>w' \<in> set (uploads d). u_by w' = u_by w \<and> u_idem w' = Some key \<longrightarrow> u_id w' = u_id u))"
    by (rule upload_wired.CompleteUpload_effective [OF inv u size run eff])
  obtain w where w: "w \<in> set (uploads d)" "u_id w = u_id u" "u_status w = StatusInProgress"
    "\<And>w'. w' \<in> set (uploads d) \<Longrightarrow> u_by w' = u_by w \<Longrightarrow> u_idem w' = Some key \<Longrightarrow> u_id w' = u_id u" using w key by blast
  have by_w: "u_by w = u_by u" using u key_unique [OF keys w(1)] w(2) unfolding session_of_def by metis
  let ?w = "w\<lparr>u_status := StatusCompleted, u_file := Some f, u_version := Some v, u_idem := Some key\<rparr>"
  have mem: "?w \<in> set (uploads d')" unfolding up in_update_where using w key by (intro bexI [of _ w]) simp_all
  have only: "x = ?w" if x: "x \<in> set (uploads d')" "u_by x = u_by u" "u_idem x = Some key" for x
  proof -
    obtain q where q: "q \<in> set (uploads d)" "if u_id q = u_id u \<and> u_status q = StatusInProgress
        then x = q\<lparr>u_status := StatusCompleted, u_file := Some f, u_version := Some v, u_idem := Some key\<rparr> else x = q"
      using x(1) key unfolding up in_update_where by auto
    have "u_id q = u_id u"
    proof (cases "u_id q = u_id u \<and> u_status q = StatusInProgress")
      case False
      then show ?thesis using w(4) [OF q(1)] q(2) x by_w by auto
    qed simp
    then have "q = w" using key_unique [OF keys q(1) w(1)] w(2) by simp
    then show ?thesis using q(2) w by simp
  qed
  have "GetByIdempotencyKey d' (u_by u) key = Inr ?w"
  proof (cases "List.find (\<lambda>u'. u_by u' = u_by u \<and> u_idem u' = Some key) (uploads d')")
    case None then show ?thesis using mem by_w unfolding find_None_iff by fastforce
  next
    case (Some x)
    then have "x = ?w" using only find_SomeD [OF Some] by blast
    then show ?thesis using Some by (simp add: GetByIdempotencyKey_def scanUpload_def)
  qed
  then have "replay d' (u_by u') key = Some (f, v)" using key same by (simp add: replay_def)
  then show ?thesis using r by (simp add: CompleteUpload_def)
qed

theorem CompleteUpload_idempotent_witness:
  "\<exists>d'. snd (CompleteUpload sample_service 3 sample_upload ''k'' [''h2'', ''h1''] 8 ''sum'' sample_upload_db) = d' \<and>
     CompleteUpload sample_service 4 (sample_upload\<lparr>u_status := StatusCompleted\<rparr>) ''k'' [] 0 ''other'' d' =
       ((Inr (''f'', ''v''), []), d')"
proof -
  obtain d' where r: "CompleteUpload sample_service 3 sample_upload ''k'' [''h2'', ''h1''] 8 ''sum'' sample_upload_db =
     ((Inr (''f'', ''v''), [RecordUpload ''o1'' ''u1'' ''f'', PublishUploadCompleted ''f'' ''v'' ''o1'']), d')"
    using sample_complete_run by blast
  from CompleteUpload_idempotent [OF sample_upload_inv sample_session _ _ r [unfolded sample_service_def]] r
  show ?thesis by simp
qed

text \<open>Two completions of one session. A request that loaded the session while it was in
  progress, and reaches the database after another request has completed it with a file and a
  version, has no effect on the session: the row is left as the winner wrote it, nothing is
  recorded or published, and the answer is either an error or exactly the winner's file and
  version.\<close>

theorem CompleteUpload_race:
  assumes inv: "db_inv d" and u: "session_of d u" and size: "0 \<le> sizeBytes"
    and w: "w \<in> set (uploads d)" "u_id w = u_id u" "u_status w = StatusCompleted" "u_file w = Some f" "u_version w = Some v"
    and fresh: "replay d (u_by u) key = None"
    and run: "CompleteUpload (wired_upload rt rf wq cs mx oq fileID versionID now) now u key chunkOrder sizeBytes checksum d =
      ((r, effects), d')"
  shows "uploads d' = uploads d \<and> effects = [] \<and> ((\<exists>e. r = Inl e) \<or> r = Inr (f, v))"
  using run
proof (cases rule: CompleteUpload_cases)
  case (missing m) then show ?thesis using FindMissing_frame(1) by blast
next
  case (not_created d1 e)
  have "db_inv d1" using FindMissingChunksForOrg_inv [OF inv, of now "u_org u" "u_id u" chunkOrder] not_created(3) by simp
  moreover have "session_of d1 u" using u session_of_missing [OF not_created(3)] by simp
  ultimately have "d' = d1" using upload_wired.create_version_ok(2) [OF _ _ size not_created(4)] by blast
  then show ?thesis using not_created FindMissing_frame(1) by blast
next
  case (completed d1 d2 f' v')
  have "db_inv d1" using FindMissingChunksForOrg_inv [OF inv, of now "u_org u" "u_id u" chunkOrder] completed(3) by simp
  moreover have "session_of d1 u" using u session_of_missing [OF completed(3)] by simp
  ultimately have "uploads d2 = uploads d"
    using upload_wired.create_version_ok(3) [OF _ _ size completed(4)] FindMissing_frame(1) [OF completed(3)]
    by (simp add: same_uploads_def)
  with repo_CompleteUpload_ok(2) [OF completed(5)] obtain x where "x \<in> set (uploads d)" "u_id x = u_id u"
    "u_status x = StatusInProgress" by auto
  then have False
    using key_unique [OF keys_okD(6) [OF struct_invD(1) [OF db_invD(1) [OF inv]]] w(1)] w by auto
  then show ?thesis ..
next
  case (lost d1 f' v' e)
  have "db_inv d1" using FindMissingChunksForOrg_inv [OF inv, of now "u_org u" "u_id u" chunkOrder] lost(3) by simp
  moreover have "session_of d1 u" using u session_of_missing [OF lost(3)] by simp
  ultimately have same: "uploads d' = uploads d"
    using upload_wired.create_version_ok(3) [OF _ _ size lost(4)] FindMissing_frame(1) [OF lost(3)]
    by (simp add: same_uploads_def)
  have "GetUpload d' (u_id u) = Inr w"
    using find_key [OF keys_okD(6) [OF struct_invD(1) [OF db_invD(1) [OF inv]]] w(1)] w(2)
    by (simp add: GetUpload_def same scanUpload_def)
  then show ?thesis using lost(6,7) w same by auto
qed (use fresh in simp_all)

theorem CompleteUpload_race_witness:
  "\<exists>d1 d2. snd (CompleteUpload sample_service 3 sample_upload '''' [''h2'', ''h1''] 8 ''sum'' sample_upload_db) = d1 \<and>
     CompleteUpload (wired_upload (empty_router 0) 2 2 100 1000 100 ''f2'' ''v2'' 4) 4 sample_upload '''' [''h2'', ''h1''] 8 ''sum'' d1 =
       ((Inr (''f'', ''v''), []), d2) \<and> uploads d2 = uploads d1"
proof -
  define run1 where "run1 = CompleteUpload sample_service 3 sample_upload '''' [''h2'', ''h1''] 8 ''sum'' sample_upload_db"
  define run2 where "run2 = CompleteUpload (wired_upload (empty_router 0) 2 2 100 1000 100 ''f2'' ''v2'' 4) 4 sample_upload ''''
    [''h2'', ''h1''] 8 ''sum'' (snd run1)"
  let ?w = "sample_upload\<lparr>u_status := StatusCompleted, u_file := Some ''f'', u_version := Some ''v''\<rparr>"
  have ups: "uploads (snd run1) = [?w]" by (simp add: run1_def complete_eval)
  have ok: "fst run2 = (Inr (''f'', ''v''), [])" by (simp add: run1_def run2_def complete_eval)
  have inv: "db_inv (snd run1)"
    using upload_wired.CompleteUpload_inv [OF sample_upload_inv sample_session] unfolding run1_def sample_service_def by simp
  obtain d2 where r2: "run2 = ((Inr (''f'', ''v''), []), d2)" using ok by (metis prod.collapse)
  have "session_of (snd run1) sample_upload" by (simp add: session_of_def ups sample_upload_def)
  from CompleteUpload_race [OF inv this _ _ _ _ _ _ _ r2 [unfolded run2_def], of ?w "''f''" "''v''"]
  have "uploads d2 = uploads (snd run1)" by (simp add: ups sample_upload_def replay_def)
  then show ?thesis using r2 unfolding run2_def run1_def by blast
qed

text \<open>A failed commit is final. \<^verbatim>\<open>CommitChunk\<close> is not one transaction: when it passes its
  checks and then fails (an unknown node id, a size outside the column's range), the chunk is
  already committed under the session. Every retry of the commit is then refused with
  \<^verbatim>\<open>ErrInvalidState\<close>, yet the chunk counts as present for the session.\<close>

theorem CommitChunk_failure_final:
  assumes chk: "commit_check s d u hash sizeBytes etags = None"
    and run: "CommitChunk s now u hash sizeBytes etags d = (Inl e, d')"
  shows "claimable d' (u_org u) (u_id u) hash \<and>
    CommitChunk s' now' u hash sizeBytes' etags' d' = (Inl (Upload ErrInvalidState), d')"
proof -
  let ?P = "\<lambda>c. this_chunk (u_id u) hash c \<and> uc_state c = ChunkPresigned"
  obtain c where c: "List.find (this_chunk (u_id u) hash) (upload_chunks d) = Some c" "uc_state c = ChunkPresigned"
    using commit_check_None(2) [OF chk] by (auto simp: GetChunkAttemptState_def split: option.splits)
  then have cin: "c \<in> set (upload_chunks d)" "this_chunk (u_id u) hash c" using find_SomeD by fast+
  define d1 where "d1 = d\<lparr>upload_chunks := update_where ?P (\<lambda>c. c\<lparr>uc_state := ChunkCommitted, uc_etags := etags\<rparr>) (upload_chunks d)\<rparr>"
  have M: "MarkChunkCommitted (u_id u) hash etags d = (Inr (), d1)"
    using c cin by (auto simp: MarkChunkCommitted_def Let_def rows_affected_zero d1_def)
  have "upload_chunks d' = upload_chunks d1"
  proof -
    obtain r2 d2 where G: "UpsertGlobalChunk now hash sizeBytes d1 = (r2, d2)" by fastforce
    obtain r3 d3 where L: "upsert_locations hash (map fst etags) d2 = (r3, d3)" by fastforce
    have "upload_chunks d2 = upload_chunks d1" using G by (auto simp: UpsertGlobalChunk_def split: if_splits)
    moreover have "upload_chunks d3 = upload_chunks d2" using upsert_locations_frame [OF L] by auto
    moreover have "upload_chunks (snd (RecordOrgChunkProof (u_org u) hash d3)) = upload_chunks d3"
      by (simp add: RecordOrgChunkProof_def)
    ultimately show ?thesis using run chk M G L by (auto simp: CommitChunk_def split: sum.splits)
  qed
  then have up: "upload_chunks d' = update_where ?P (\<lambda>c. c\<lparr>uc_state := ChunkCommitted, uc_etags := etags\<rparr>) (upload_chunks d)"
    by (simp add: d1_def)
  have "List.find (this_chunk (u_id u) hash) (upload_chunks d') = Some (c\<lparr>uc_state := ChunkCommitted, uc_etags := etags\<rparr>)"
    unfolding up by (subst find_update_where) (use c cin in \<open>simp_all add: this_chunk_def\<close>)
  moreover from find_SomeD [OF this] have "session_committed d' (u_id u) hash"
    by (auto simp: session_committed_def)
  ultimately show ?thesis
    using commit_check_None(1) [OF chk]
    by (simp add: claimable_def CommitChunk_def commit_check_def GetChunkAttemptState_def)
qed

text \<open>Here the first node is unknown: the chunk is stored nowhere, the retry with good nodes is
  refused, and the completion accepts it.\<close>

theorem CommitChunk_failure_final_witness:
  "\<exists>d1. CommitChunk sample_service 9 sample_upload ''h1'' 4 [(''ghost'', ''e''), (''n1'', ''e'')] sample_upload_db =
       (Inl (PgError ForeignKeyViolation), d1) \<and> LocationsForChunk d1 ''h1'' = [] \<and>
     CommitChunk sample_service 10 sample_upload ''h1'' 4 [(''n1'', ''e''), (''n2'', ''e'')] d1 =
       (Inl (Upload ErrInvalidState), d1) \<and> claimable d1 ''o1'' ''up'' ''h1''"
proof -
  let ?run = "CommitChunk sample_service 9 sample_upload ''h1'' 4 [(''ghost'', ''e''), (''n1'', ''e'')] sample_upload_db"
  note eval = CommitChunk_def commit_check_def GetChunkAttemptState_def MarkChunkCommitted_def this_chunk_def
        rows_affected_def UpsertGlobalChunk_def in_int32_def has_chunk_def UpsertChunkLocation_def LocationsForChunk_def
        RecordOrgChunkProof_def sample_service_def wired_upload_def sample_upload_defs
  have r: "fst ?run = Inl (PgError ForeignKeyViolation)" and l: "LocationsForChunk (snd ?run) ''h1'' = []"
    by (simp_all add: eval)
  obtain d1 where d1: "?run = (Inl (PgError ForeignKeyViolation), d1)" using r by (metis prod.collapse)
  have "commit_check sample_service sample_upload_db sample_upload ''h1'' 4 [(''ghost'', ''e''), (''n1'', ''e'')] = None"
    by (simp add: eval)
  from CommitChunk_failure_final [OF this d1, of sample_service 10 4 "[(''n1'', ''e''), (''n2'', ''e'')]"] d1 l show ?thesis
    by (auto simp: sample_upload_def)
qed

section \<open>Two completions that go wrong\<close>

text \<open>A key that belongs to an earlier upload whose file has been purged (so its row names no file)
  is not replayed; the completion then creates a file, fails on the unique key, and reports an
  error for a file that exists.\<close>

lemma CompleteUpload_key_orphan:
  defines "old \<equiv> sample_upload\<lparr>u_id := ''old'', u_status := StatusCompleted, u_idem := Some ''k''\<rparr>"
  defines "d \<equiv> sample_upload_db\<lparr>uploads := [old, sample_upload]\<rparr>"
  shows "\<exists>d'. CompleteUpload sample_service 3 sample_upload ''k'' [''h2'', ''h1''] 8 ''sum'' d =
    ((Inl (Upload ErrAlreadyCompleting), []), d') \<and> files d = [] \<and> map f_id (files d') = [''f''] \<and>
    OrgUsageBytes d' ''o1'' = Inr 8"
  by (simp add: d_def old_def complete_eval)

text \<open>A negative size is not refused: it passes the limits and lowers the organization's usage.\<close>

lemma CompleteUpload_negative_size:
  defines "d \<equiv> snd (CompleteUpload sample_service 3 sample_upload '''' [''h2'', ''h1''] 8 ''sum'' sample_upload_db)"
  defines "d1 \<equiv> d\<lparr>uploads := uploads d @ [sample_upload\<lparr>u_id := ''up2''\<rparr>], upload_chunks := upload_chunks d @
    [\<lparr>uc_upload = ''up2'', uc_hash = ''h2'', uc_state = ChunkCommitted, uc_etags = []\<rparr>]\<rparr>"
  shows "OrgUsageBytes d1 ''o1'' = Inr 8" and "\<exists>d'. CompleteUpload (wired_upload (empty_router 0) 2 2 100 1000 100 ''f2'' ''v2'' 4)
    4 (sample_upload\<lparr>u_id := ''up2''\<rparr>) '''' [''h2''] (- 8) ''sum'' d1 =
      ((Inr (''f2'', ''v2''), [RecordUpload ''o1'' ''u1'' ''f2'', PublishUploadCompleted ''f2'' ''v2'' ''o1'']), d') \<and>
      OrgUsageBytes d' ''o1'' = Inr 0"
  by (simp_all add: d_def d1_def complete_eval)

end
