(* ===== verification/Storage_Repair.thy ===== *)
theory Storage_Repair
  imports Upload_Laws
begin

text \<open>
  Objects on the storage nodes: \<^verbatim>\<open>internal/storage/fetch.go\<close> (reading, writing and removing an
  object through a node's internal MinIO client), \<^verbatim>\<open>internal/storage/repair.go\<close> and the
  repository statements they use. The MinIO server is not part of the repository: its state has
  a type of its own, and the client calls on it are the functions of the record \<open>minio\<close>, an
  argument of every definition that uses them.
\<close>

section \<open>The MinIO client\<close>

text \<open>The calls of the client library, by endpoint and object key. \<^verbatim>\<open>GetObject\<close> is taken with the
  \<^verbatim>\<open>io.ReadAll\<close> that follows it: the bytes, or an error.\<close>

record 'st minio =
  m_stat :: "string \<Rightarrow> string \<Rightarrow> 'st \<Rightarrow> bool"
  m_get :: "string \<Rightarrow> string \<Rightarrow> 'st \<Rightarrow> string res"
  m_put :: "string \<Rightarrow> string \<Rightarrow> string \<Rightarrow> 'st \<Rightarrow> goerr option \<times> 'st"
  m_remove :: "string \<Rightarrow> string \<Rightarrow> 'st \<Rightarrow> goerr option \<times> 'st"

definition GetObject :: "'st minio \<Rightarrow> Router \<Rightarrow> NodeID \<Rightarrow> string \<Rightarrow> 'st \<Rightarrow> string res" where
  "GetObject mn rt node key st =
     (case map_of (rt_internal rt) node of
        None \<Rightarrow> Inl (Storage ErrNoMinioClient)
      | Some cli \<Rightarrow> m_get mn cli key st)"

definition PutObject :: "'st minio \<Rightarrow> Router \<Rightarrow> NodeID \<Rightarrow> string \<Rightarrow> string \<Rightarrow> 'st \<Rightarrow> goerr option \<times> 'st" where
  "PutObject mn rt node key data st =
     (case map_of (rt_internal rt) node of
        None \<Rightarrow> (Some (Storage ErrNoMinioClient), st)
      | Some cli \<Rightarrow> m_put mn cli key data st)"

definition RemoveObject :: "'st minio \<Rightarrow> Router \<Rightarrow> NodeID \<Rightarrow> string \<Rightarrow> 'st \<Rightarrow> goerr option \<times> 'st" where
  "RemoveObject mn rt node key st =
     (case map_of (rt_internal rt) node of
        None \<Rightarrow> (Some (Storage ErrNoMinioClient), st)
      | Some cli \<Rightarrow> m_remove mn cli key st)"

section \<open>Repository\<close>

definition CommittedChunksForNode :: "db \<Rightarrow> NodeID \<Rightarrow> string list" where
  "CommittedChunksForNode d node =
     map cl_hash (filter (\<lambda>l. cl_node l = node \<and> cl_status l = Committed) (chunk_locations d))"

definition MarkChunkLocationDegraded :: "string \<Rightarrow> NodeID \<Rightarrow> db \<Rightarrow> db" where
  "MarkChunkLocationDegraded chunkHash node d =
     d\<lparr>chunk_locations := update_where (\<lambda>l. cl_hash l = chunkHash \<and> cl_node l = node)
         (\<lambda>l. l\<lparr>cl_status := Degraded\<rparr>) (chunk_locations d)\<rparr>"

definition MarkChunkLocationRepaired :: "string \<Rightarrow> NodeID \<Rightarrow> db \<Rightarrow> db" where
  "MarkChunkLocationRepaired chunkHash node d =
     d\<lparr>chunk_locations := update_where (\<lambda>l. cl_hash l = chunkHash \<and> cl_node l = node)
         (\<lambda>l. l\<lparr>cl_status := Committed\<rparr>) (chunk_locations d)\<rparr>"

section \<open>Repair\<close>

record RepairResult =
  rr_checked :: nat
  rr_restored :: nat
  rr_unrepairable :: nat

text \<open>\<^verbatim>\<open>restoreChunk\<close>: whether the replica was restored. The first committed location on another node
  is the source.\<close>

definition restoreChunk ::
  "'st minio \<Rightarrow> Router \<Rightarrow> string \<Rightarrow> NodeID \<Rightarrow> db \<times> 'st \<Rightarrow> bool \<times> db \<times> 'st" where
  "restoreChunk mn rt hash node w =
     (case w of (d, st) \<Rightarrow>
        (let d1 = MarkChunkLocationDegraded hash node d
         in case List.find (\<lambda>loc. loc \<noteq> node) (LocationsForChunk d1 hash) of
              None \<Rightarrow> (False, d1, st)
            | Some source \<Rightarrow>
                if source = '''' then (False, d1, st)
                else (case GetObject mn rt source hash st of
                   Inl _ \<Rightarrow> (False, d1, st)
                 | Inr data \<Rightarrow>
                     (case PutObject mn rt node hash data st of
                        (Some _, st1) \<Rightarrow> (False, d1, st1)
                      | (None, st1) \<Rightarrow> (True, MarkChunkLocationRepaired hash node d1, st1)))))"

fun repair_loop ::
  "'st minio \<Rightarrow> Router \<Rightarrow> string \<Rightarrow> NodeID \<Rightarrow> string list \<Rightarrow> RepairResult \<Rightarrow> db \<times> 'st \<Rightarrow> RepairResult \<times> db \<times> 'st" where
  "repair_loop mn rt cli node [] res w = (res, w)"
| "repair_loop mn rt cli node (hash # hashes) res w =
     (let res1 = res\<lparr>rr_checked := rr_checked res + 1\<rparr>
      in if m_stat mn cli hash (snd w) then repair_loop mn rt cli node hashes res1 w
         else (case restoreChunk mn rt hash node w of
                 (False, w1) \<Rightarrow> repair_loop mn rt cli node hashes (res1\<lparr>rr_unrepairable := rr_unrepairable res1 + 1\<rparr>) w1
               | (True, w1) \<Rightarrow> repair_loop mn rt cli node hashes (res1\<lparr>rr_restored := rr_restored res1 + 1\<rparr>) w1))"

definition RepairNode ::
  "'st minio \<Rightarrow> Router \<Rightarrow> NodeID \<Rightarrow> db \<times> 'st \<Rightarrow> RepairResult res \<times> db \<times> 'st" where
  "RepairNode mn rt node w =
     (case map_of (rt_internal rt) node of
        None \<Rightarrow> (Inl (Storage ErrUnknownNode), w)
      | Some cli \<Rightarrow>
          (case repair_loop mn rt cli node (CommittedChunksForNode (fst w) node)
                  \<lparr>rr_checked = 0, rr_restored = 0, rr_unrepairable = 0\<rparr> w of
             (res, w1) \<Rightarrow> (Inr res, w1)))"

section \<open>Admin handlers\<close>

text \<open>\<^verbatim>\<open>Repair\<close> answers every error of \<^verbatim>\<open>RepairNode\<close> with "not found" and its text.\<close>

definition storage_handler_Repair ::
  "'st minio \<Rightarrow> Router \<Rightarrow> (goerr \<Rightarrow> string) \<Rightarrow> NodeID \<Rightarrow> db \<times> 'st \<Rightarrow> RepairResult response \<times> db \<times> 'st" where
  "storage_handler_Repair mn rt err_text nodeID w =
     (case RepairNode mn rt nodeID w of
        (Inl e, w1) \<Rightarrow> (WriteError http_ErrNotFound (err_text e), w1)
      | (Inr result, w1) \<Rightarrow> (WriteJSON 200 result, w1))"

text \<open>\<^verbatim>\<open>LatestVersionChunks\<close> of the adapter over the file repository, and the ring view: the table
  of virtual nodes and, for a file, its chunks with their place, preference and recorded
  locations.\<close>

record ring_chunk =
  rc_seq :: nat
  rc_hash :: string
  rc_position :: "32 word"
  rc_preference :: "NodeID list"
  rc_locations :: "NodeID list"

definition LatestVersionChunks :: "db \<Rightarrow> id \<Rightarrow> (nat \<times> string) list res" where
  "LatestVersionChunks d fileID =
     (case file_GetAny d fileID of
        Inl e \<Rightarrow> Inl e
      | Inr f \<Rightarrow> (case f_latest f of None \<Rightarrow> Inr [] | Some v \<Rightarrow> Inr (GetVersionChunks d v)))"

definition storage_handler_Ring ::
  "Router \<Rightarrow> int \<Rightarrow> string \<Rightarrow> db \<Rightarrow> ((32 word \<times> NodeID) list \<times> int \<times> ring_chunk list option) response" where
  "storage_handler_Ring rt replicationFactor fileID d =
     (if fileID = '''' then WriteJSON 200 (RingSnapshot rt, replicationFactor, None)
      else case LatestVersionChunks d fileID of
          Inl _ \<Rightarrow> WriteError http_ErrNotFound ''file not found''
        | Inr cs \<Rightarrow> WriteJSON 200 (RingSnapshot rt, replicationFactor, Some (map (\<lambda>(seq, hash).
            \<lparr>rc_seq = seq, rc_hash = hash, rc_position = PositionOf hash,
             rc_preference = fst (Candidates rt hash), rc_locations = LocationsForChunk d hash\<rparr>) cs)))"

section \<open>What MinIO promises\<close>

text \<open>
  \<open>holds st e k\<close> is the content of object \<open>k\<close> behind endpoint \<open>e\<close>. A successful stat, read,
  write or removal tells the truth about its object, and no call touches another object; a call
  that fails may have had any effect on its own.
\<close>

definition minio_laws :: "'st minio \<Rightarrow> ('st \<Rightarrow> string \<Rightarrow> string \<Rightarrow> string option) \<Rightarrow> bool" where
  "minio_laws mn holds \<longleftrightarrow>
     (\<forall>e k st. m_stat mn e k st \<longrightarrow> holds st e k \<noteq> None) \<and>
     (\<forall>e k st data. m_get mn e k st = Inr data \<longrightarrow> holds st e k = Some data) \<and>
     (\<forall>e k data st. fst (m_put mn e k data st) = None \<longrightarrow> holds (snd (m_put mn e k data st)) e k = Some data) \<and>
     (\<forall>e k st. fst (m_remove mn e k st) = None \<longrightarrow> holds (snd (m_remove mn e k st)) e k = None) \<and>
     (\<forall>e k data st e' k'. (e', k') \<noteq> (e, k) \<longrightarrow> holds (snd (m_put mn e k data st)) e' k' = holds st e' k') \<and>
     (\<forall>e k st e' k'. (e', k') \<noteq> (e, k) \<longrightarrow> holds (snd (m_remove mn e k st)) e' k' = holds st e' k')"

lemma minio_lawsD:
  assumes "minio_laws mn holds"
  shows "m_stat mn e k st \<Longrightarrow> holds st e k \<noteq> None" and "m_get mn e k st = Inr data \<Longrightarrow> holds st e k = Some data"
    and "m_put mn e k data st = (None, st') \<Longrightarrow> holds st' e k = Some data"
    and "m_remove mn e k st = (None, st') \<Longrightarrow> holds st' e k = None"
    and "m_put mn e k data st = (err, st') \<Longrightarrow> (e', k') \<noteq> (e, k) \<Longrightarrow> holds st' e' k' = holds st e' k'"
    and "m_remove mn e k st = (err, st') \<Longrightarrow> (e', k') \<noteq> (e, k) \<Longrightarrow> holds st' e' k' = holds st e' k'"
  using assms unfolding minio_laws_def by (metis fst_conv snd_conv)+

text \<open>A store that fulfils the laws.\<close>

definition sample_minio :: "(string \<Rightarrow> string \<Rightarrow> string option) minio" where
  "sample_minio =
     \<lparr>m_stat = \<lambda>e k st. st e k \<noteq> None,
      m_get = \<lambda>e k st. (case st e k of None \<Rightarrow> Inl IOError | Some b \<Rightarrow> Inr b),
      m_put = \<lambda>e k b st. (None, st(e := (st e)(k := Some b))),
      m_remove = \<lambda>e k st. (None, st(e := (st e)(k := None)))\<rparr>"

lemma sample_minio_laws: "minio_laws sample_minio (\<lambda>st. st)"
  by (auto simp: minio_laws_def sample_minio_def split: option.splits)

section \<open>Repair tells the truth\<close>

abbreviation committed_on :: "NodeID \<Rightarrow> db \<Rightarrow> string set" where
  "committed_on node d \<equiv> set (CommittedChunksForNode d node)"

lemma committed_on_iff:
  "h \<in> committed_on node d \<longleftrightarrow> (\<exists>l \<in> set (chunk_locations d). cl_hash l = h \<and> cl_node l = node \<and> cl_status l = Committed)"
  by (auto simp: CommittedChunksForNode_def)

definition set_status :: "string \<Rightarrow> NodeID \<Rightarrow> location_status \<Rightarrow> db \<Rightarrow> db" where
  "set_status h node s d = d\<lparr>chunk_locations := update_where (\<lambda>l. cl_hash l = h \<and> cl_node l = node)
     (\<lambda>l. l\<lparr>cl_status := s\<rparr>) (chunk_locations d)\<rparr>"

lemma update_where_twice:
  assumes "\<And>r. P r \<Longrightarrow> P (f r)" and "\<And>r. P r \<Longrightarrow> g (f r) = h r"
  shows "update_where P g (update_where P f rows) = update_where P h rows"
  using assms by (simp add: update_where_def)

lemma restoreChunk_cases:
  assumes run: "restoreChunk mn rt hash node (d, st) = (b, d1, st1)"
  shows "\<not> b \<and> d1 = MarkChunkLocationDegraded hash node d \<and> st1 = st \<or>
    (\<exists>data err. PutObject mn rt node hash data st = (err, st1) \<and> b = (err = None) \<and>
       d1 = (if b then MarkChunkLocationRepaired hash node (MarkChunkLocationDegraded hash node d)
             else MarkChunkLocationDegraded hash node d))"
proof (cases "List.find (\<lambda>loc. loc \<noteq> node) (LocationsForChunk (MarkChunkLocationDegraded hash node d) hash)")
  case None
  then show ?thesis using run by (simp add: restoreChunk_def Let_def)
next
  case (Some source)
  show ?thesis
  proof (cases "GetObject mn rt source hash st")
    case (Inl e)
    then show ?thesis using run Some by (simp add: restoreChunk_def Let_def split: if_splits)
  next
    case (Inr data)
    obtain err st2 where p: "PutObject mn rt node hash data st = (err, st2)" by fastforce
    show ?thesis
    proof (cases "source = ''''")
      case True then show ?thesis using run Some by (simp add: restoreChunk_def Let_def)
    next
      case False
      then show ?thesis using run Some Inr p
        by (cases err) (auto simp: restoreChunk_def Let_def intro: exI [of _ data])
    qed
  qed
qed

lemma restoreChunk_effect:
  assumes laws: "minio_laws mn holds" and cli: "map_of (rt_internal rt) node = Some cli"
    and run: "restoreChunk mn rt hash node (d, st) = (b, d1, st1)"
  shows "d1 = set_status hash node (if b then Committed else Degraded) d"
    and "b \<Longrightarrow> holds st1 cli hash \<noteq> None" and "h \<noteq> hash \<Longrightarrow> holds st1 cli h = holds st cli h"
proof -
  let ?d0 = "MarkChunkLocationDegraded hash node d"
  have d0: "?d0 = set_status hash node Degraded d" by (simp add: MarkChunkLocationDegraded_def set_status_def)
  have d2: "MarkChunkLocationRepaired hash node ?d0 = set_status hash node Committed d"
    by (simp add: MarkChunkLocationRepaired_def MarkChunkLocationDegraded_def set_status_def update_where_twice)
  have "d1 = set_status hash node (if b then Committed else Degraded) d \<and> (b \<longrightarrow> holds st1 cli hash \<noteq> None) \<and>
    (h \<noteq> hash \<longrightarrow> holds st1 cli h = holds st cli h)"
    using restoreChunk_cases [OF run]
  proof (elim disjE exE conjE)
    fix data err
    assume p: "PutObject mn rt node hash data st = (err, st1)" and b: "b = (err = None)"
      and r: "d1 = (if b then MarkChunkLocationRepaired hash node ?d0 else ?d0)"
    have p': "m_put mn cli hash data st = (err, st1)" using p cli by (simp add: PutObject_def)
    have "holds st1 cli hash \<noteq> None" if b using minio_lawsD(3) [OF laws, of cli hash data st st1] p' that b by simp
    moreover have "holds st1 cli h = holds st cli h" if "h \<noteq> hash" using minio_lawsD(5) [OF laws p'] that by simp
    ultimately show ?thesis using r d2 d0 by simp
  qed (simp add: d0)
  then show "d1 = set_status hash node (if b then Committed else Degraded) d"
    and "b \<Longrightarrow> holds st1 cli hash \<noteq> None" and "h \<noteq> hash \<Longrightarrow> holds st1 cli h = holds st cli h" by auto
qed

lemma committed_on_set_status:
  "committed_on node (set_status h node s d) =
     (if s = Committed then committed_on node d \<union> {x. x = h \<and> (\<exists>l \<in> set (chunk_locations d). cl_hash l = h \<and> cl_node l = node)}
      else committed_on node d - {h})"
  by (rule set_eqI) (auto simp: committed_on_iff set_status_def)

lemma set_status_others:
  "filter (\<lambda>l. cl_node l \<noteq> node) (chunk_locations (set_status h node s d)) =
     filter (\<lambda>l. cl_node l \<noteq> node) (chunk_locations d)"
proof -
  have "filter (\<lambda>l. cl_node l \<noteq> node) (update_where (\<lambda>l. cl_hash l = h \<and> cl_node l = node) (\<lambda>l. l\<lparr>cl_status := s\<rparr>) ls) =
      filter (\<lambda>l. cl_node l \<noteq> node) ls" for ls by (induction ls) auto
  then show ?thesis by (simp add: set_status_def)
qed

text \<open>The invariant of the loop: what is recorded as committed and no longer to be checked is held.\<close>

lemma repair_loop_spec:
  assumes laws: "minio_laws mn holds" and cli: "map_of (rt_internal rt) node = Some cli"
    and run: "repair_loop mn rt cli node hs res (d, st) = (res', d', st')"
    and dn: "\<forall>h \<in> committed_on node d - set hs. holds st cli h \<noteq> None" and todo: "set hs \<subseteq> C" "committed_on node d \<subseteq> C"
  shows "(\<forall>h \<in> committed_on node d'. holds st' cli h \<noteq> None) \<and> committed_on node d' \<subseteq> C \<and>
    filter (\<lambda>l. cl_node l \<noteq> node) (chunk_locations d') = filter (\<lambda>l. cl_node l \<noteq> node) (chunk_locations d) \<and>
    rr_checked res' = rr_checked res + length hs \<and> rr_unrepairable res \<le> rr_unrepairable res' \<and>
    rr_restored res' + rr_unrepairable res' \<le> rr_restored res + rr_unrepairable res + length hs \<and>
    (rr_unrepairable res' = rr_unrepairable res \<longrightarrow> committed_on node d \<subseteq> committed_on node d') \<and>
    (\<exists>ls. d' = d\<lparr>chunk_locations := ls\<rparr>)"
  using run dn todo(2) todo(1)
proof (induction hs arbitrary: res d st)
  case Nil
  then show ?case by (auto intro: exI [of _ "chunk_locations d"])
next
  case (Cons h hs)
  show ?case
  proof (cases "m_stat mn cli h st")
    case True
    then have "repair_loop mn rt cli node hs (res\<lparr>rr_checked := rr_checked res + 1\<rparr>) (d, st) = (res', d', st')"
      using Cons.prems(1) by (simp add: Let_def)
    moreover have "\<forall>x \<in> committed_on node d - set hs. holds st cli x \<noteq> None"
      using Cons.prems(2) minio_lawsD(1) [OF laws True] by auto
    ultimately show ?thesis using Cons.IH [of "res\<lparr>rr_checked := rr_checked res + 1\<rparr>" d st] Cons.prems(3,4) by auto
  next
    case False
    obtain b d1 st1 where r: "restoreChunk mn rt h node (d, st) = (b, d1, st1)" by (metis prod_cases3)
    note eff = restoreChunk_effect [OF laws cli r]
    define res1 where "res1 = (if b then res\<lparr>rr_checked := rr_checked res + 1, rr_restored := rr_restored res + 1\<rparr>
      else res\<lparr>rr_checked := rr_checked res + 1, rr_unrepairable := rr_unrepairable res + 1\<rparr>)"
    have loop: "repair_loop mn rt cli node hs res1 (d1, st1) = (res', d', st')"
      using Cons.prems(1) False r by (cases b) (simp_all add: Let_def res1_def)
    have C1: "committed_on node d1 \<subseteq> insert h (committed_on node d)" "b \<Longrightarrow> committed_on node d \<subseteq> committed_on node d1"
      "\<not> b \<Longrightarrow> h \<notin> committed_on node d1" unfolding eff(1) committed_on_set_status by auto
    have "\<forall>x \<in> committed_on node d1 - set hs. holds st1 cli x \<noteq> None"
    proof
      fix x
      assume x: "x \<in> committed_on node d1 - set hs"
      show "holds st1 cli x \<noteq> None"
      proof (cases "x = h")
        case True
        then show ?thesis using x C1(3) eff(2) by blast
      next
        case False
        then have "x \<in> committed_on node d - set (h # hs)" using x C1(1) by auto
        then have "holds st cli x \<noteq> None" using Cons.prems(2) by blast
        then show ?thesis using eff(3) [OF False] by argo
      qed
    qed
    moreover have "committed_on node d1 \<subseteq> C" using C1(1) Cons.prems(3,4) by auto
    ultimately have IH: "(\<forall>h \<in> committed_on node d'. holds st' cli h \<noteq> None) \<and> committed_on node d' \<subseteq> C \<and>
      filter (\<lambda>l. cl_node l \<noteq> node) (chunk_locations d') = filter (\<lambda>l. cl_node l \<noteq> node) (chunk_locations d1) \<and>
      rr_checked res' = rr_checked res1 + length hs \<and> rr_unrepairable res1 \<le> rr_unrepairable res' \<and>
      rr_restored res' + rr_unrepairable res' \<le> rr_restored res1 + rr_unrepairable res1 + length hs \<and>
      (rr_unrepairable res' = rr_unrepairable res1 \<longrightarrow> committed_on node d1 \<subseteq> committed_on node d') \<and>
      (\<exists>ls. d' = d1\<lparr>chunk_locations := ls\<rparr>)"
      using Cons.IH [OF loop] Cons.prems(4) by auto
    have "filter (\<lambda>l. cl_node l \<noteq> node) (chunk_locations d1) = filter (\<lambda>l. cl_node l \<noteq> node) (chunk_locations d)"
      unfolding eff(1) by (rule set_status_others)
    moreover have "\<exists>ls. d1 = d\<lparr>chunk_locations := ls\<rparr>" unfolding eff(1) set_status_def by blast
    ultimately show ?thesis using IH C1(2) by (cases b) (auto simp: res1_def)
  qed
qed

section \<open>Properties\<close>

text \<open>C20: a repair pass leaves a truthful record. After \<^verbatim>\<open>RepairNode\<close> of a known node, every chunk
  still recorded as committed on the node is held by it, whatever the stats, reads and writes of
  the pass returned; the records of other nodes and all other tables are as they were, no new
  chunk is attributed to the node, every chunk recorded before has been checked, and when none
  was unrepairable the node is recorded as holding all that it was recorded as holding before.\<close>

theorem RepairNode_truthful:
  assumes laws: "minio_laws mn holds" and cli: "map_of (rt_internal rt) node = Some cli"
    and run: "RepairNode mn rt node (d, st) = (r, d', st')"
  shows "\<exists>res. r = Inr res \<and> (\<forall>h \<in> set (CommittedChunksForNode d' node). holds st' cli h \<noteq> None) \<and>
    set (CommittedChunksForNode d' node) \<subseteq> set (CommittedChunksForNode d node) \<and>
    (rr_unrepairable res = 0 \<longrightarrow> set (CommittedChunksForNode d' node) = set (CommittedChunksForNode d node)) \<and>
    filter (\<lambda>l. cl_node l \<noteq> node) (chunk_locations d') = filter (\<lambda>l. cl_node l \<noteq> node) (chunk_locations d) \<and>
    rr_checked res = length (CommittedChunksForNode d node) \<and> rr_restored res + rr_unrepairable res \<le> rr_checked res \<and>
    (\<exists>ls. d' = d\<lparr>chunk_locations := ls\<rparr>)"
proof -
  let ?hs = "CommittedChunksForNode d node" and ?z = "\<lparr>rr_checked = 0, rr_restored = 0, rr_unrepairable = 0\<rparr>"
  obtain res where loop: "repair_loop mn rt cli node ?hs ?z (d, st) = (res, d', st')" and r: "r = Inr res"
    using run cli by (auto simp: RepairNode_def split: prod.splits)
  have "\<forall>h \<in> committed_on node d - set ?hs. holds st cli h \<noteq> None" by simp
  note spec = repair_loop_spec [OF laws cli loop this order_refl order_refl]
  show ?thesis
  proof (intro exI [of _ res] conjI r)
    show "rr_unrepairable res = 0 \<longrightarrow> set (CommittedChunksForNode d' node) = set ?hs" using spec by auto
    show "rr_restored res + rr_unrepairable res \<le> rr_checked res" using spec by simp
    show "rr_checked res = length ?hs" using spec by simp
  qed (use spec in blast)+
qed

text \<open>A node that lost its one object gets it back from the other replica.\<close>

definition sample_repair_db :: db where
  "sample_repair_db = empty_db\<lparr>chunk_locations := [\<lparr>cl_hash = ''h'', cl_node = ''n1'', cl_status = Committed\<rparr>,
     \<lparr>cl_hash = ''h'', cl_node = ''n2'', cl_status = Committed\<rparr>]\<rparr>"

theorem RepairNode_truthful_witness:
  "\<exists>res st'. RepairNode sample_minio ((empty_router 0)\<lparr>rt_internal := [(''n1'', ''e1''), (''n2'', ''e2'')]\<rparr>) ''n1''
       (sample_repair_db, (\<lambda>_ _. None)(''e2'' := [''h'' \<mapsto> ''bytes''])) = (Inr res, sample_repair_db, st') \<and>
     st' ''e1'' ''h'' = Some ''bytes'' \<and> rr_restored res = 1 \<and> rr_checked res = 1"
proof -
  define rt where "rt = (empty_router 0)\<lparr>rt_internal := [(''n1'', ''e1''), (''n2'', ''e2'')]\<rparr>"
  define st where "st = (\<lambda>_ _. None)(''e2'' := [''h'' \<mapsto> ''bytes''])"
  obtain r d' st' where run: "RepairNode sample_minio rt ''n1'' (sample_repair_db, st) = (r, d', st')" by (metis prod_cases3)
  have cli: "map_of (rt_internal rt) ''n1'' = Some ''e1''" by (simp add: rt_def)
  have eval: "RepairNode sample_minio rt ''n1'' (sample_repair_db, st) =
      (Inr \<lparr>rr_checked = 1, rr_restored = 1, rr_unrepairable = 0\<rparr>, sample_repair_db,
       st(''e1'' := (st ''e1'')(''h'' := Some ''bytes'')))"
    by (simp add: RepairNode_def CommittedChunksForNode_def Let_def restoreChunk_def GetObject_def PutObject_def
        MarkChunkLocationDegraded_def MarkChunkLocationRepaired_def LocationsForChunk_def sample_minio_def
        sample_repair_db_def rt_def st_def empty_router_def empty_db_def)
  have "st' ''e1'' ''h'' \<noteq> None"
    using RepairNode_truthful [OF sample_minio_laws cli run] run eval
    by (auto simp: CommittedChunksForNode_def sample_repair_db_def)
  then have "RepairNode sample_minio rt ''n1'' (sample_repair_db, st) =
      (Inr \<lparr>rr_checked = 1, rr_restored = 1, rr_unrepairable = 0\<rparr>, sample_repair_db, st') \<and> st' ''e1'' ''h'' = Some ''bytes''"
    using run eval by auto
  then show ?thesis unfolding rt_def st_def by auto
qed

text \<open>A replica once marked degraded is not looked at again: a pass over a node with only degraded
  records checks nothing and changes nothing.\<close>

lemma degraded_not_rechecked:
  assumes "map_of (rt_internal rt) node = Some cli"
    and "\<forall>l \<in> set (chunk_locations d). cl_node l = node \<longrightarrow> cl_status l = Degraded"
  shows "RepairNode mn rt node (d, st) = (Inr \<lparr>rr_checked = 0, rr_restored = 0, rr_unrepairable = 0\<rparr>, d, st)"
proof -
  have "CommittedChunksForNode d node = []" using assms(2) by (auto simp: CommittedChunksForNode_def filter_empty_conv)
  then show ?thesis using assms(1) by (simp add: RepairNode_def)
qed

end
