(* ===== verification/Gc.thy ===== *)
theory Gc
  imports Storage_Repair
begin

text \<open>
  The chunk garbage collector, \<^verbatim>\<open>internal/gc/sweeper.go\<close>: the retention purge of trash, the mark
  phase that dooms chunks nobody references, and the sweep phase that deletes doomed chunks with
  their objects. A tick runs over the database and the MinIO store; the trash purgers are fields
  of the sweeper, as in the code, and the properties rely on them through the locale \<open>gc_ports\<close>.
\<close>

section \<open>The sweeper\<close>

definition uploadPinTTL :: duration where
  "uploadPinTTL = 24 * 3600 * 1000000000"

record Sweeper =
  sw_router :: Router
  sw_grace :: duration
  sw_trashRetention :: duration
  sw_files :: "time \<Rightarrow> duration \<Rightarrow> purge_op"
  sw_folders :: "time \<Rightarrow> duration \<Rightarrow> purge_op"

definition purgeTrash :: "Sweeper \<Rightarrow> time \<Rightarrow> db \<Rightarrow> db" where
  "purgeTrash s now d =
     (let d1 = snd (sw_files s now (sw_trashRetention s) d)
      in snd (sw_folders s now (sw_trashRetention s) d1))"

text \<open>The join of \<^verbatim>\<open>upload_chunks\<close> and \<^verbatim>\<open>uploads\<close> in the two queries: a session in progress,
  satisfying \<open>P\<close>, has an attempt for the chunk.\<close>

definition pinned_by :: "(Upload \<Rightarrow> bool) \<Rightarrow> db \<Rightarrow> string \<Rightarrow> bool" where
  "pinned_by P d h \<longleftrightarrow>
     (\<exists>uc \<in> set (upload_chunks d). \<exists>u \<in> set (uploads d).
        u_id u = uc_upload uc \<and> uc_hash uc = h \<and> u_status u = StatusInProgress \<and> P u)"

definition doomable :: "time \<Rightarrow> duration \<Rightarrow> db \<Rightarrow> Chunk \<Rightarrow> bool" where
  "doomable now grace d c \<longleftrightarrow>
     c_gc c = Live \<and> c_seen c < now - grace \<and> \<not> referenced d (c_hash c) \<and>
     \<not> pinned_by (\<lambda>u. u_created u > now - uploadPinTTL) d (c_hash c)"

definition mark :: "Sweeper \<Rightarrow> time \<Rightarrow> db \<Rightarrow> nat \<times> db" where
  "mark s now d =
     (rows_affected (doomable now (sw_grace s) d) (chunks d),
      d\<lparr>chunks := update_where (doomable now (sw_grace s) d)
          (\<lambda>c. c\<lparr>c_gc := Doomed, c_doomed := Some now\<rparr>) (chunks d)\<rparr>)"

text \<open>The deletion of a chunk's objects, stopping at the first error.\<close>

fun remove_objects :: "'st minio \<Rightarrow> Router \<Rightarrow> string \<Rightarrow> NodeID list \<Rightarrow> 'st \<Rightarrow> goerr option \<times> 'st" where
  "remove_objects mn rt hash [] st = (None, st)"
| "remove_objects mn rt hash (n # ns) st =
     (case RemoveObject mn rt n hash st of
        (Some e, st1) \<Rightarrow> (Some e, st1)
      | (None, st1) \<Rightarrow> remove_objects mn rt hash ns st1)"

text \<open>The final \<^verbatim>\<open>DELETE\<close>: restricted by \<^verbatim>\<open>file_version_chunks\<close>, cascading to the locations.\<close>

definition delete_chunk :: "string \<Rightarrow> db \<Rightarrow> db res" where
  "delete_chunk hash d =
     (if referenced d hash \<and> has_chunk d hash then Inl (PgError ForeignKeyViolation)
      else Inr (d\<lparr>chunks := delete_where (\<lambda>c. c_hash c = hash) (chunks d),
                  chunk_locations := (if has_chunk d hash then delete_where (\<lambda>l. cl_hash l = hash) (chunk_locations d)
                                      else chunk_locations d)\<rparr>))"

definition reapChunk :: "'st minio \<Rightarrow> Sweeper \<Rightarrow> string \<Rightarrow> db \<times> 'st \<Rightarrow> goerr option \<times> db \<times> 'st" where
  "reapChunk mn s hash w =
     (case w of (d, st) \<Rightarrow>
        (case List.find (\<lambda>c. c_hash c = hash \<and> c_gc c = Doomed \<and> \<not> referenced d (c_hash c) \<and>
                             \<not> pinned_by (\<lambda>_. True) d (c_hash c)) (chunks d) of
           None \<Rightarrow> (None, d, st)
         | Some _ \<Rightarrow>
             (case remove_objects mn (sw_router s) hash
                     (map cl_node (filter (\<lambda>l. cl_hash l = hash) (chunk_locations d))) st of
                (Some e, st1) \<Rightarrow> (Some e, d, st1)
              | (None, st1) \<Rightarrow>
                  (case delete_chunk hash d of
                     Inl e \<Rightarrow> (Some e, d, st1)
                   | Inr d1 \<Rightarrow> (None, d1, st1)))))"

fun reap_all :: "'st minio \<Rightarrow> Sweeper \<Rightarrow> string list \<Rightarrow> db \<times> 'st \<Rightarrow> db \<times> 'st" where
  "reap_all mn s [] w = w"
| "reap_all mn s (h # hs) w = reap_all mn s hs (snd (reapChunk mn s h w))"

definition sweep :: "'st minio \<Rightarrow> Sweeper \<Rightarrow> time \<Rightarrow> db \<times> 'st \<Rightarrow> db \<times> 'st" where
  "sweep mn s now w =
     reap_all mn s (map c_hash (filter (\<lambda>c. c_gc c = Doomed \<and>
        (case c_doomed c of None \<Rightarrow> False | Some t \<Rightarrow> t < now - sw_grace s)) (chunks (fst w)))) w"

definition tick :: "'st minio \<Rightarrow> Sweeper \<Rightarrow> time \<Rightarrow> db \<times> 'st \<Rightarrow> db \<times> 'st" where
  "tick mn s now w =
     (case w of (d, st) \<Rightarrow>
        (let d1 = (if sw_trashRetention s > 0 then purgeTrash s now d else d)
         in sweep mn s now (snd (mark s now d1), st)))"

section \<open>One chunk\<close>

lemma remove_objects_effect:
  assumes laws: "minio_laws mn holds" and run: "remove_objects mn rt hash ns st = (err, st')"
  shows "k \<noteq> hash \<Longrightarrow> holds st' e k = holds st e k"
    and "holds st' e hash = None \<or> holds st' e hash = holds st e hash \<or> err \<noteq> None"
    and "err = None \<Longrightarrow> n \<in> set ns \<Longrightarrow> \<exists>cli. map_of (rt_internal rt) n = Some cli \<and> holds st' cli hash = None"
proof -
  have "(k \<noteq> hash \<longrightarrow> holds st' e k = holds st e k) \<and>
    (holds st' e hash = None \<or> holds st' e hash = holds st e hash \<or> err \<noteq> None) \<and>
    (err = None \<longrightarrow> n \<in> set ns \<longrightarrow> (\<exists>cli. map_of (rt_internal rt) n = Some cli \<and> holds st' cli hash = None))" for e
    using run
  proof (induction ns arbitrary: st e)
    case (Cons m ns)
    obtain e1 st1 where r: "RemoveObject mn rt m hash st = (e1, st1)" by fastforce
    show ?case
    proof (cases "map_of (rt_internal rt) m")
      case None
      then have "err \<noteq> None \<and> st' = st" using r Cons.prems by (auto simp: RemoveObject_def)
      then show ?thesis by auto
    next
      case (Some cli)
      then have r': "m_remove mn cli hash st = (e1, st1)" using r by (simp add: RemoveObject_def)
      note rm = minio_lawsD(4,6) [OF laws]
      have other: "holds st1 e' k' = holds st e' k'" if "(e', k') \<noteq> (cli, hash)" for e' k' using rm(2) [OF r' that] .
      show ?thesis
      proof (cases e1)
        case (Some x)
        then have "err = Some x" "st' = st1" using r Cons.prems by auto
        then show ?thesis using other by auto
      next
        case None
        then have rest: "remove_objects mn rt hash ns st1 = (err, st')" using r Cons.prems by simp
        have gone: "holds st1 cli hash = None" using rm(1) r' None by blast
        have IH: "(k \<noteq> hash \<longrightarrow> holds st' e' k = holds st1 e' k) \<and>
          (holds st' e' hash = None \<or> holds st' e' hash = holds st1 e' hash \<or> err \<noteq> None) \<and>
          (err = None \<longrightarrow> n \<in> set ns \<longrightarrow> (\<exists>cli. map_of (rt_internal rt) n = Some cli \<and> holds st' cli hash = None))" for e'
          by (rule Cons.IH [OF rest])
        have "holds st' cli hash = None" if "err = None" using IH [of cli] gone that by auto
        moreover have "holds st' e hash = None \<or> holds st' e hash = holds st e hash \<or> err \<noteq> None"
          using IH [of e] other [of e hash] gone by (cases "e = cli") auto
        ultimately show ?thesis using IH [of e] other [of e k] Some by auto
      qed
    qed
  qed simp
  then show "k \<noteq> hash \<Longrightarrow> holds st' e k = holds st e k"
    and "holds st' e hash = None \<or> holds st' e hash = holds st e hash \<or> err \<noteq> None"
    and "err = None \<Longrightarrow> n \<in> set ns \<Longrightarrow> \<exists>cli. map_of (rt_internal rt) n = Some cli \<and> holds st' cli hash = None" by blast+
qed

text \<open>What a chunk must be for the sweep to delete it, and the deletion of a set of chunks.\<close>

definition reapable :: "db \<Rightarrow> string \<Rightarrow> bool" where
  "reapable d h \<longleftrightarrow> (\<exists>c \<in> set (chunks d). c_hash c = h \<and> c_gc c = Doomed) \<and> \<not> referenced d h \<and> \<not> pinned_by (\<lambda>_. True) d h"

definition drop_chunks :: "string set \<Rightarrow> db \<Rightarrow> db" where
  "drop_chunks D d = d\<lparr>chunks := delete_where (\<lambda>c. c_hash c \<in> D) (chunks d),
     chunk_locations := delete_where (\<lambda>l. cl_hash l \<in> D) (chunk_locations d)\<rparr>"

lemma drop_chunks_empty [simp]: "drop_chunks {} d = d"
  by (simp add: drop_chunks_def delete_where_def)

lemma drop_chunks_drop [simp]: "drop_chunks D' (drop_chunks D d) = drop_chunks (D \<union> D') d"
  by (simp add: drop_chunks_def delete_where_def conj_commute)

lemma drop_chunks_tables [simp]:
  "referenced (drop_chunks D d) h = referenced d h" "pinned_by P (drop_chunks D d) h = pinned_by P d h"
  "files (drop_chunks D d) = files d" "folders (drop_chunks D d) = folders d"
  "file_versions (drop_chunks D d) = file_versions d" "file_version_chunks (drop_chunks D d) = file_version_chunks d"
  by (simp_all add: drop_chunks_def referenced_def pinned_by_def)

lemma reapable_drop [simp]: "reapable (drop_chunks D d) h \<longleftrightarrow> reapable d h \<and> h \<notin> D"
  by (auto simp: reapable_def) (auto simp: drop_chunks_def)

lemma drop_chunks_inv:
  assumes inv: "db_inv d" and D: "\<And>h. h \<in> D \<Longrightarrow> \<not> referenced d h"
  shows "db_inv (drop_chunks D d)"
proof -
  have "chunks_ok (file_versions d) (file_version_chunks d) (delete_where (\<lambda>c. c_hash c \<in> D) (chunks d))"
  proof -
    have "vc_hash c \<notin> D" if "c \<in> set (file_version_chunks d)" for c
      using D [of "vc_hash c"] that by (auto simp: referenced_def)
    then show ?thesis using struct_invD(7) [OF db_invD(1) [OF inv]]
      unfolding chunks_ok_def image_iff set_delete_where by (metis (mono_tags, lifting) mem_Collect_eq)
  qed
  moreover have "distinct (map c_hash (delete_where (\<lambda>c. c_hash c \<in> D) (chunks d)))"
    using keys_okD(5) [OF struct_invD(1) [OF db_invD(1) [OF inv]]] by (rule distinct_delete_where)
  ultimately show ?thesis
    using inv by (simp add: drop_chunks_def db_inv_def struct_inv_def keys_ok_def)
qed

text \<open>The objects of a chunk are gone from every recorded location.\<close>

definition objects_gone :: "('st \<Rightarrow> string \<Rightarrow> string \<Rightarrow> string option) \<Rightarrow> Router \<Rightarrow> db \<Rightarrow> string \<Rightarrow> 'st \<Rightarrow> bool" where
  "objects_gone holds rt d h st \<longleftrightarrow> (\<forall>l \<in> set (chunk_locations d). cl_hash l = h \<longrightarrow>
     (\<exists>cli. map_of (rt_internal rt) (cl_node l) = Some cli \<and> holds st cli h = None))"

lemma reapChunk_effect:
  assumes laws: "minio_laws mn holds" and run: "reapChunk mn s h (d, st) = (err, d', st')"
  shows "\<not> reapable d h \<Longrightarrow> d' = d \<and> st' = st" and "k \<noteq> h \<Longrightarrow> holds st' e k = holds st e k"
    and "d' = d \<or> reapable d h \<and> d' = drop_chunks {h} d \<and> objects_gone holds (sw_router s) d h st'"
    and "reapable d h \<Longrightarrow> err = None \<Longrightarrow> d' = drop_chunks {h} d"
proof -
  let ?P = "\<lambda>c. c_hash c = h \<and> c_gc c = Doomed \<and> \<not> referenced d (c_hash c) \<and> \<not> pinned_by (\<lambda>_. True) d (c_hash c)"
  let ?ns = "map cl_node (filter (\<lambda>l. cl_hash l = h) (chunk_locations d))"
  have found: "List.find ?P (chunks d) = None \<longleftrightarrow> \<not> reapable d h" by (auto simp: find_None_iff reapable_def)
  have "(\<not> reapable d h \<longrightarrow> d' = d \<and> st' = st) \<and> (k \<noteq> h \<longrightarrow> holds st' e k = holds st e k) \<and>
    (d' = d \<or> reapable d h \<and> d' = drop_chunks {h} d \<and> objects_gone holds (sw_router s) d h st') \<and>
    (reapable d h \<longrightarrow> err = None \<longrightarrow> d' = drop_chunks {h} d)"
  proof (cases "reapable d h")
    case False
    then show ?thesis using run found by (simp add: reapChunk_def)
  next
    case True
    then have "List.find ?P (chunks d) \<noteq> None" using found by blast
    then obtain c where c: "List.find ?P (chunks d) = Some c" unfolding not_None_eq by blast
    obtain e1 st1 where r: "remove_objects mn (sw_router s) h ?ns st = (e1, st1)" by fastforce
    have "has_chunk d h" "\<not> referenced d h" using True unfolding reapable_def has_chunk_def by (blast, blast)
    then have del: "delete_chunk h d = Inr (drop_chunks {h} d)" by (simp add: delete_chunk_def drop_chunks_def)
    have res: "st' = st1 \<and> (err = None \<longleftrightarrow> e1 = None) \<and> d' = (if e1 = None then drop_chunks {h} d else d)"
      using run [unfolded reapChunk_def, simplified, unfolded c, simplified, unfolded r, simplified] del
      by (cases e1) auto
    moreover have "objects_gone holds (sw_router s) d h st1" if "e1 = None"
      using remove_objects_effect(3) [OF laws r that] by (simp add: objects_gone_def)
    ultimately show ?thesis using True remove_objects_effect(1) [OF laws r] by auto
  qed
  then show "\<not> reapable d h \<Longrightarrow> d' = d \<and> st' = st" and "k \<noteq> h \<Longrightarrow> holds st' e k = holds st e k"
    and "d' = d \<or> reapable d h \<and> d' = drop_chunks {h} d \<and> objects_gone holds (sw_router s) d h st'"
    and "reapable d h \<Longrightarrow> err = None \<Longrightarrow> d' = drop_chunks {h} d" by blast+
qed

lemma reap_all_effect:
  assumes laws: "minio_laws mn holds" and run: "reap_all mn s hs (d, st) = (d', st')"
  shows "\<exists>D. D \<subseteq> {h \<in> set hs. reapable d h} \<and> d' = drop_chunks D d \<and>
    (\<forall>h \<in> D. objects_gone holds (sw_router s) d h st') \<and>
    (\<forall>e k. \<not> (k \<in> set hs \<and> reapable d k) \<longrightarrow> holds st' e k = holds st e k)"
  using run
proof (induction hs arbitrary: d st)
  case (Cons h hs)
  obtain err d1 st1 where r: "reapChunk mn s h (d, st) = (err, d1, st1)" by (metis prod_cases3)
  note eff = reapChunk_effect [OF laws r]
  define D1 where "D1 = (if d1 = d then {} else {h})"
  have D1: "d1 = drop_chunks D1 d" "D1 \<subseteq> {h}" "\<And>x. x \<in> D1 \<Longrightarrow> reapable d x"
    "\<And>x. x \<in> D1 \<Longrightarrow> objects_gone holds (sw_router s) d x st1"
    using eff(3) by (auto simp: D1_def split: if_splits)
  obtain D where D: "D \<subseteq> {x \<in> set hs. reapable d1 x}" "d' = drop_chunks D d1"
    "\<forall>x \<in> D. objects_gone holds (sw_router s) d1 x st'" 
    "\<And>e k. \<not> (k \<in> set hs \<and> reapable d1 k) \<Longrightarrow> holds st' e k = holds st1 e k"
    using Cons.IH [of d1 st1] Cons.prems r by auto
  have "objects_gone holds (sw_router s) d x st'" if "x \<in> D1" for x
  proof -
    have "\<not> reapable d1 x" unfolding D1(1) using that by simp
    then show ?thesis using D1(4) [OF that] D(4) [of x] by (simp add: objects_gone_def)
  qed
  moreover have "objects_gone holds (sw_router s) d x st'" if "x \<in> D" for x
  proof -
    have "x \<notin> D1" using D(1) that unfolding D1(1) by auto
    then show ?thesis using D(3) that unfolding D1(1) by (auto simp: objects_gone_def drop_chunks_def)
  qed
  moreover have "D1 \<union> D \<subseteq> {x \<in> set (h # hs). reapable d x}" using D(1) D1 unfolding D1(1) by auto
  moreover have "d' = drop_chunks (D1 \<union> D) d" unfolding D(2) D1(1) by simp
  moreover have "holds st' e k = holds st e k" if k: "\<not> (k \<in> set (h # hs) \<and> reapable d k)" for e k
  proof -
    have "\<not> (k \<in> set hs \<and> reapable d1 k)" using k unfolding D1(1) by auto
    then have "holds st' e k = holds st1 e k" by (rule D(4))
    also have "\<dots> = holds st e k" using k eff(1,2) by (cases "k = h") auto
    finally show ?thesis .
  qed
  ultimately show ?case by (intro exI [of _ "D1 \<union> D"]) blast
qed (auto intro: exI [of _ "{}"])

section \<open>A tick\<close>

lemma mark_inv: "db_inv d \<Longrightarrow> db_inv (snd (mark s now d))"
  unfolding mark_def by (simp add: db_inv_chunks_update)

lemma mark_tables [simp]:
  "referenced (snd (mark s now d)) h = referenced d h" "pinned_by P (snd (mark s now d)) h = pinned_by P d h"
  "files (snd (mark s now d)) = files d" "folders (snd (mark s now d)) = folders d"
  "file_versions (snd (mark s now d)) = file_versions d" "file_version_chunks (snd (mark s now d)) = file_version_chunks d"
  "chunk_locations (snd (mark s now d)) = chunk_locations d" "has_chunk (snd (mark s now d)) h = has_chunk d h"
proof -
  have "map c_hash (chunks (snd (mark s now d))) = map c_hash (chunks d)" by (simp add: mark_def)
  then show "has_chunk (snd (mark s now d)) h = has_chunk d h" unfolding has_chunk_def by (metis list.set_map)
qed (simp_all add: mark_def referenced_def pinned_by_def)

definition sweep_candidate :: "duration \<Rightarrow> time \<Rightarrow> Chunk \<Rightarrow> bool" where
  "sweep_candidate grace now c \<longleftrightarrow> c_gc c = Doomed \<and> (case c_doomed c of None \<Rightarrow> False | Some t \<Rightarrow> t < now - grace)"

text \<open>A chunk the mark phase dooms in this tick is no candidate of the sweep of this tick.\<close>

lemma mark_candidates:
  assumes "0 \<le> sw_grace s"
  shows "filter (sweep_candidate (sw_grace s) now) (chunks (snd (mark s now d))) =
    filter (sweep_candidate (sw_grace s) now) (chunks d)"
proof -
  have "filter (sweep_candidate (sw_grace s) now) (update_where (doomable now (sw_grace s) d)
      (\<lambda>c. c\<lparr>c_gc := Doomed, c_doomed := Some now\<rparr>) cs) = filter (sweep_candidate (sw_grace s) now) cs" for cs
    using assms by (induction cs) (auto simp: sweep_candidate_def doomable_def)
  then show ?thesis by (simp add: mark_def)
qed

definition purged :: "Sweeper \<Rightarrow> time \<Rightarrow> db \<Rightarrow> db" where
  "purged s now d = (if sw_trashRetention s > 0 then purgeTrash s now d else d)"

text \<open>The collector relies on two trash purgers.\<close>

locale gc_ports =
  files: trash_purger "sw_files s" + folders: trash_purger "sw_folders s"
  for s :: Sweeper
begin

lemma purgeTrash_inv:
  assumes "db_inv d"
  shows "db_inv (purgeTrash s now d)"
  unfolding purgeTrash_def Let_def by (intro folders.purge_inv files.purge_inv assms)

lemma purgeTrash_keeps:
  assumes inv: "db_inv d"
  shows "f \<in> set (files d) \<Longrightarrow> f_deleted f = None \<Longrightarrow> f \<in> set (files (purgeTrash s now d))"
    and "g \<in> set (folders d) \<Longrightarrow> fo_deleted g = None \<Longrightarrow> g \<in> set (folders (purgeTrash s now d))"
    and "chunks (purgeTrash s now d) = chunks d" and "chunk_locations (purgeTrash s now d) = chunk_locations d"
  unfolding purgeTrash_def Let_def
  using files.purge_inv [OF inv] files.purge_live_files [OF inv] files.purge_live_folders [OF inv] files.purge_chunks [OF inv]
    folders.purge_live_files folders.purge_live_folders folders.purge_chunks by simp_all

lemma purged_keeps:
  assumes "db_inv d"
  shows "db_inv (purged s now d)" and "chunks (purged s now d) = chunks d" and "chunk_locations (purged s now d) = chunk_locations d"
    and "f \<in> set (files d) \<Longrightarrow> f_deleted f = None \<Longrightarrow> f \<in> set (files (purged s now d))"
    and "g \<in> set (folders d) \<Longrightarrow> fo_deleted g = None \<Longrightarrow> g \<in> set (folders (purged s now d))"
  using assms purgeTrash_inv purgeTrash_keeps by (simp_all add: purged_def)

text \<open>A tick is the purge, the marks, and the deletion of a set of candidates.\<close>

lemma tick_effect:
  assumes laws: "minio_laws mn holds" and grace: "0 \<le> sw_grace s" and inv: "db_inv d"
    and run: "tick mn s now (d, st) = (d', st')"
  obtains D where "D \<subseteq> {h. reapable (purged s now d) h}"
    and "\<And>h. h \<in> D \<Longrightarrow> \<exists>c \<in> set (chunks d). c_hash c = h \<and> sweep_candidate (sw_grace s) now c"
    and "d' = drop_chunks D (snd (mark s now (purged s now d)))"
    and "\<And>h. h \<in> D \<Longrightarrow> objects_gone holds (sw_router s) d h st'"
    and "\<And>e k. referenced (purged s now d) k \<or> pinned_by (\<lambda>_. True) (purged s now d) k \<Longrightarrow> holds st' e k = holds st e k"
    and "\<And>e c. c \<in> set (chunks d) \<Longrightarrow> \<not> sweep_candidate (sw_grace s) now c \<Longrightarrow> holds st' e (c_hash c) = holds st e (c_hash c)"
proof -
  let ?d1 = "purged s now d" and ?d2 = "snd (mark s now (purged s now d))"
  let ?hs = "map c_hash (filter (sweep_candidate (sw_grace s) now) (chunks ?d2))"
  have hs: "?hs = map c_hash (filter (sweep_candidate (sw_grace s) now) (chunks d))"
    by (simp add: mark_candidates [OF grace] purged_keeps(2) [OF inv])
  have "reap_all mn s ?hs (?d2, st) = (d', st')"
    using run by (simp add: tick_def sweep_def purged_def sweep_candidate_def [abs_def] Let_def)
  from reap_all_effect [OF laws this] obtain D where D: "D \<subseteq> {h \<in> set ?hs. reapable ?d2 h}" "d' = drop_chunks D ?d2"
    "\<forall>h \<in> D. objects_gone holds (sw_router s) ?d2 h st'"
    "\<And>e k. \<not> (k \<in> set ?hs \<and> reapable ?d2 k) \<Longrightarrow> holds st' e k = holds st e k" by blast
  have keys: "distinct (map c_hash (chunks d))" using keys_okD(5) [OF struct_invD(1) [OF db_invD(1) [OF inv]]] .
  have cand: "\<exists>c \<in> set (chunks d). c_hash c = h \<and> sweep_candidate (sw_grace s) now c" if "h \<in> set ?hs" for h
    using that unfolding hs by auto
  have reap: "reapable ?d1 h" if h: "h \<in> set ?hs" "reapable ?d2 h" for h
    using cand [OF h(1)] h(2) purged_keeps(2) [OF inv, of now] by (auto simp: reapable_def sweep_candidate_def)
  show thesis
  proof (rule that [of D])
    show "D \<subseteq> {h. reapable ?d1 h}" using D(1) reap by blast
    show "\<exists>c \<in> set (chunks d). c_hash c = h \<and> sweep_candidate (sw_grace s) now c" if "h \<in> D" for h using that D(1) cand by blast
    show "d' = drop_chunks D ?d2" by (rule D(2))
    show "objects_gone holds (sw_router s) d h st'" if "h \<in> D" for h
      using D(3) that purged_keeps(3) [OF inv] by (simp add: objects_gone_def)
    show "holds st' e k = holds st e k" if "referenced ?d1 k \<or> pinned_by (\<lambda>_. True) ?d1 k" for e k
      by (rule D(4)) (use that reap in \<open>auto simp: reapable_def\<close>)
    show "holds st' e (c_hash c) = holds st e (c_hash c)"
      if c: "c \<in> set (chunks d)" "\<not> sweep_candidate (sw_grace s) now c" for e c
    proof (rule D(4))
      have "c_hash c \<notin> set ?hs" unfolding hs using key_unique [OF keys c(1)] c(2) by auto
      then show "\<not> (c_hash c \<in> set ?hs \<and> reapable ?d2 (c_hash c))" by blast
    qed
  qed
qed

end

text \<open>The sweeper as \<^verbatim>\<open>cmd/worker\<close> wires it; the retention is computed in 64-bit nanoseconds.\<close>

definition wired_sweeper :: "Router \<Rightarrow> duration \<Rightarrow> int \<Rightarrow> Sweeper" where
  "wired_sweeper rt grace retentionDays =
     \<lparr>sw_router = rt, sw_grace = grace, sw_trashRetention = wrap64 (retentionDays * (24 * 3600 * 1000000000)),
      sw_files = file_PurgeExpiredTrash, sw_folders = folder_PurgeExpiredTrash\<rparr>"

interpretation gc_wired: gc_ports "wired_sweeper rt grace retentionDays" for rt grace retentionDays
  unfolding gc_ports_def
  using file_purger.trash_purger_axioms folder_purger.trash_purger_axioms by (simp add: wired_sweeper_def)

lemma wired_sweeper_sel [simp]:
  "sw_router (wired_sweeper rt grace retentionDays) = rt" "sw_grace (wired_sweeper rt grace retentionDays) = grace"
  by (simp_all add: wired_sweeper_def)

text \<open>With a store that never fails, nothing reapable is left.\<close>

lemma remove_objects_complete:
  assumes "\<And>e k st. fst (m_remove mn e k st) = None" and "\<forall>n \<in> set ns. map_of (rt_internal rt) n \<noteq> None"
  shows "fst (remove_objects mn rt hash ns st) = None"
  using assms(2)
proof (induction ns arbitrary: st)
  case (Cons n ns)
  then obtain cli where "map_of (rt_internal rt) n = Some cli" by auto
  moreover obtain st1 where "m_remove mn cli hash st = (None, st1)" using assms(1) by (metis prod.collapse)
  ultimately show ?case using Cons by (simp add: RemoveObject_def)
qed simp

lemma reap_all_complete:
  assumes laws: "minio_laws mn holds" and ok: "\<And>e k st. fst (m_remove mn e k st) = None"
    and known: "\<forall>l \<in> set (chunk_locations d). map_of (rt_internal (sw_router s)) (cl_node l) \<noteq> None"
    and run: "reap_all mn s hs (d, st) = (d', st')" and h: "h \<in> set hs"
  shows "\<not> reapable d' h"
  using run known h
proof (induction hs arbitrary: d st)
  case (Cons k hs)
  obtain err d1 st1 where r: "reapChunk mn s k (d, st) = (err, d1, st1)" by (metis prod_cases3)
  note eff = reapChunk_effect [OF laws r]
  have rest: "reap_all mn s hs (d1, st1) = (d', st')" using Cons.prems(1) r by simp
  have known1: "\<forall>l \<in> set (chunk_locations d1). map_of (rt_internal (sw_router s)) (cl_node l) \<noteq> None"
    using Cons.prems(2) eff(3) by (auto simp: drop_chunks_def)
  have "err = None"
  proof -
    have "fst (remove_objects mn (sw_router s) k (map cl_node (filter (\<lambda>l. cl_hash l = k) (chunk_locations d))) st) = None"
      by (rule remove_objects_complete [OF ok]) (use Cons.prems(2) in auto)
    moreover have "\<exists>d1. delete_chunk k d = Inr d1" if "\<not> referenced d k" using that by (simp add: delete_chunk_def)
    ultimately show ?thesis
      using r by (auto simp: reapChunk_def split: option.splits prod.splits sum.splits dest!: find_SomeD)
  qed
  then have "\<not> reapable d1 k" using eff(1) eff(4) by (cases "reapable d k") auto
  moreover have "\<not> reapable d' k" if "\<not> reapable d1 k"
    using reap_all_effect [OF laws rest] that by auto
  ultimately show ?case using Cons.IH [OF rest known1] Cons.prems(3) by auto
qed simp

section \<open>Properties\<close>

text \<open>C21: the collector never destroys what is in use. A tick of the wired sweeper on a sound
  database, with a store that obeys its laws, leaves a sound database with every live file and
  folder in it; every chunk that a version refers to, or that a session in progress has an attempt
  for, afterwards, keeps its row, its recorded locations and its objects on every node.\<close>

theorem gc_tick_safe:
  assumes laws: "minio_laws mn holds" and grace: "0 \<le> grace" and inv: "db_inv d"
    and run: "tick mn (wired_sweeper rt grace retentionDays) now (d, st) = (d', st')"
  shows "db_inv d' \<and> {f \<in> set (files d). f_deleted f = None} \<subseteq> set (files d') \<and>
    {g \<in> set (folders d). fo_deleted g = None} \<subseteq> set (folders d') \<and>
    (\<forall>h. referenced d' h \<or> pinned_by (\<lambda>_. True) d' h \<longrightarrow>
       has_chunk d' h = has_chunk d h \<and>
       filter (\<lambda>l. cl_hash l = h) (chunk_locations d') = filter (\<lambda>l. cl_hash l = h) (chunk_locations d) \<and>
       (\<forall>e. holds st' e h = holds st e h))"
proof -
  let ?s = "wired_sweeper rt grace retentionDays"
  let ?d1 = "purged ?s now d"
  have g: "0 \<le> sw_grace ?s" using grace by simp
  note keep = gc_wired.purged_keeps [OF inv, where rt = rt and grace = grace and retentionDays = retentionDays and now = now]
  obtain D where D: "D \<subseteq> {h. reapable ?d1 h}" "d' = drop_chunks D (snd (mark ?s now ?d1))"
    "\<And>e k. referenced ?d1 k \<or> pinned_by (\<lambda>_. True) ?d1 k \<Longrightarrow> holds st' e k = holds st e k"
    by (rule gc_wired.tick_effect [OF laws g inv run]) blast
  have in_use: "referenced d' h = referenced ?d1 h" "pinned_by P d' h = pinned_by P ?d1 h" for P h by (simp_all add: D(2))
  have "db_inv d'" unfolding D(2) by (intro drop_chunks_inv mark_inv keep(1)) (use D(1) in \<open>auto simp: reapable_def\<close>)
  moreover have "has_chunk d' h = has_chunk d h \<and>
      filter (\<lambda>l. cl_hash l = h) (chunk_locations d') = filter (\<lambda>l. cl_hash l = h) (chunk_locations d) \<and>
      (\<forall>e. holds st' e h = holds st e h)" if h: "referenced d' h \<or> pinned_by (\<lambda>_. True) d' h" for h
  proof -
    have hD: "h \<notin> D" using D(1) h unfolding in_use reapable_def by blast
    then have "has_chunk d' h = has_chunk (snd (mark ?s now ?d1)) h" by (auto simp: D(2) has_chunk_def drop_chunks_def)
    moreover have "has_chunk ?d1 h = has_chunk d h" by (simp add: has_chunk_def keep(2))
    moreover have "filter (\<lambda>l. cl_hash l = h) (delete_where (\<lambda>l. cl_hash l \<in> D) ls) = filter (\<lambda>l. cl_hash l = h) ls" for ls
      using hD by (induction ls) auto
    then have "filter (\<lambda>l. cl_hash l = h) (chunk_locations d') = filter (\<lambda>l. cl_hash l = h) (chunk_locations d)"
      by (simp add: D(2) drop_chunks_def keep(3))
    moreover have "holds st' e h = holds st e h" for e using D(3) h unfolding in_use by blast
    ultimately show ?thesis by simp
  qed
  ultimately show ?thesis using keep(4,5) by (auto simp: D(2))
qed

text \<open>Two grace periods. A chunk that is not already doomed for a grace period when a tick
  starts survives the tick with its objects; a live chunk seen within the grace period, or
  referenced, or pinned by a recent session, is not even marked. What a tick does delete had been
  doomed for a grace period, and its objects are gone from every location recorded for it.\<close>

theorem gc_two_phase:
  assumes laws: "minio_laws mn holds" and grace: "0 \<le> grace" and inv: "db_inv d"
    and run: "tick mn (wired_sweeper rt grace retentionDays) now (d, st) = (d', st')" and c: "c \<in> set (chunks d)"
  shows "(\<not> (c_gc c = Doomed \<and> (\<exists>t. c_doomed c = Some t \<and> t < now - grace)) \<longrightarrow>
       has_chunk d' (c_hash c) \<and> (\<forall>e. holds st' e (c_hash c) = holds st e (c_hash c))) \<and>
    (c_gc c = Live \<and> (now - grace \<le> c_seen c \<or> referenced d' (c_hash c) \<or>
        pinned_by (\<lambda>u. u_created u > now - uploadPinTTL) d' (c_hash c)) \<longrightarrow> c \<in> set (chunks d')) \<and>
    (\<not> has_chunk d' (c_hash c) \<longrightarrow> objects_gone holds rt d (c_hash c) st')"
proof -
  let ?s = "wired_sweeper rt grace retentionDays"
  let ?d1 = "purged ?s now d" and ?c = "c_hash c"
  have g: "0 \<le> sw_grace ?s" using grace by simp
  note keep = gc_wired.purged_keeps [OF inv, where rt = rt and grace = grace and retentionDays = retentionDays and now = now]
  have keys: "distinct (map c_hash (chunks d))" using keys_okD(5) [OF struct_invD(1) [OF db_invD(1) [OF inv]]] .
  obtain D where D: "\<And>h. h \<in> D \<Longrightarrow> \<exists>c \<in> set (chunks d). c_hash c = h \<and> sweep_candidate grace now c"
    "d' = drop_chunks D (snd (mark ?s now ?d1))" "\<And>h. h \<in> D \<Longrightarrow> objects_gone holds rt d h st'"
    "\<And>e c. c \<in> set (chunks d) \<Longrightarrow> \<not> sweep_candidate grace now c \<Longrightarrow> holds st' e (c_hash c) = holds st e (c_hash c)"
    by (rule gc_wired.tick_effect [OF laws g inv run, unfolded wired_sweeper_sel]) (rule that, assumption+)
  have cand: "sweep_candidate grace now c \<longleftrightarrow> c_gc c = Doomed \<and> (\<exists>t. c_doomed c = Some t \<and> t < now - grace)"
    by (simp add: sweep_candidate_def split: option.split)
  have inD: "?c \<in> D \<Longrightarrow> sweep_candidate grace now c" using D(1) key_unique [OF keys c] by metis
  have row: "has_chunk d' ?c \<longleftrightarrow> ?c \<notin> D"
  proof -
    have "has_chunk ?d1 ?c" using c keep(2) by (simp add: has_chunk_def)
    then have "has_chunk (snd (mark ?s now ?d1)) ?c" by simp
    then show ?thesis by (auto simp: D(2) has_chunk_def drop_chunks_def)
  qed
  have "c \<in> set (chunks d')" if l: "c_gc c = Live" "now - grace \<le> c_seen c \<or> referenced d' ?c \<or>
      pinned_by (\<lambda>u. u_created u > now - uploadPinTTL) d' ?c"
  proof -
    have "\<not> doomable now grace ?d1 c" using l by (auto simp: doomable_def D(2))
    then have "c \<in> set (chunks (snd (mark ?s now ?d1)))"
      using c keep(2) by (auto simp: mark_def in_update_where intro!: bexI [of _ c])
    moreover have "?c \<notin> D" using inD l(1) cand by auto
    ultimately show ?thesis by (simp add: D(2) drop_chunks_def)
  qed
  then show ?thesis using row inD D(3) D(4) [OF c] cand by blast
qed

text \<open>C22: the collector collects. When removals do not fail and every recorded location is on a
  configured node, a tick deletes every chunk that had been doomed for a grace period and is
  neither referenced nor pinned by a session after the retention purge.\<close>

theorem gc_reaps:
  assumes laws: "minio_laws mn holds" and grace: "0 \<le> grace" and inv: "db_inv d"
    and ok: "\<And>e k st. fst (m_remove mn e k st) = None"
    and known: "\<forall>l \<in> set (chunk_locations d). map_of (rt_internal rt) (cl_node l) \<noteq> None"
    and run: "tick mn (wired_sweeper rt grace retentionDays) now (d, st) = (d', st')"
    and c: "c \<in> set (chunks d)" "c_gc c = Doomed" "c_doomed c = Some t" "t < now - grace"
    and free: "\<not> referenced d' (c_hash c)" "\<not> pinned_by (\<lambda>_. True) d' (c_hash c)"
  shows "\<not> has_chunk d' (c_hash c) \<and> objects_gone holds rt d (c_hash c) st'"
proof -
  let ?s = "wired_sweeper rt grace retentionDays"
  let ?d1 = "purged ?s now d"
  let ?d2 = "snd (mark ?s now ?d1)"
  have g: "0 \<le> sw_grace ?s" using grace by simp
  note keep = gc_wired.purged_keeps [OF inv, where rt = rt and grace = grace and retentionDays = retentionDays and now = now]
  let ?hs = "map c_hash (filter (sweep_candidate (sw_grace ?s) now) (chunks ?d2))"
  have keys: "distinct (map c_hash (chunks d))" using keys_okD(5) [OF struct_invD(1) [OF db_invD(1) [OF inv]]] .
  have reap: "reap_all mn ?s ?hs (?d2, st) = (d', st')"
    using run by (simp add: tick_def sweep_def purged_def sweep_candidate_def [abs_def] Let_def del: wired_sweeper_sel)
  have "c_hash c \<in> set ?hs"
    using c keep(2) mark_candidates [OF g, where now = now and d = ?d1]
    by simp (auto simp: sweep_candidate_def)
  moreover have "\<forall>l \<in> set (chunk_locations ?d2). map_of (rt_internal (sw_router ?s)) (cl_node l) \<noteq> None"
    using known keep(3) by simp
  ultimately have not: "\<not> reapable d' (c_hash c)" using reap_all_complete [OF laws ok _ reap] by blast
  obtain D where D: "d' = drop_chunks D ?d2" "\<And>h. h \<in> D \<Longrightarrow> objects_gone holds rt d h st'"
    by (rule gc_wired.tick_effect [OF laws g inv run, unfolded wired_sweeper_sel]) (rule that, assumption+)
  have "\<not> doomable now grace ?d1 c" using c(2) by (simp add: doomable_def)
  then have "c \<in> set (chunks ?d2)"
    using c(1) keep(2) by (auto simp: mark_def in_update_where intro!: bexI [of _ c])
  then have "c_hash c \<in> D" using not free c(2) by (auto simp: reapable_def D(1) drop_chunks_def)
  then show ?thesis using D by (auto simp: has_chunk_def drop_chunks_def)
qed

section \<open>A sample\<close>

text \<open>One file with two chunks, a third chunk doomed at time 0 with an object on a node.\<close>

definition sample_gc_db :: db where
  "sample_gc_db = sample_located_db\<lparr>chunks := chunks sample_located_db @
       [\<lparr>c_hash = ''h3'', c_size = 4, c_gc = Doomed, c_seen = 0, c_doomed = Some 0\<rparr>],
     chunk_locations := chunk_locations sample_located_db @ [\<lparr>cl_hash = ''h3'', cl_node = ''n1'', cl_status = Committed\<rparr>]\<rparr>"

definition sample_gc_router :: Router where
  "sample_gc_router = (empty_router 0)\<lparr>rt_internal := [(''n1'', ''e1'')]\<rparr>"

definition sample_gc_store :: "string \<Rightarrow> string \<Rightarrow> string option" where
  "sample_gc_store = (\<lambda>_ _. None)(''e1'' := [''h1'' \<mapsto> ''a'', ''h3'' \<mapsto> ''c''])"

lemmas sample_gc_eval = sample_gc_db_def sample_located_db_def CreateWithVersion_def transaction_def sample_files_db_def
  sample_db_defs has_file_def has_org_def has_folder_def has_user_def insert_version_def has_version_def has_chunk_def
  add_usage_def set_latest_def in_int64_def

lemma sample_gc_rows:
  "chunks sample_gc_db = [\<lparr>c_hash = ''h1'', c_size = 4, c_gc = Live, c_seen = 0, c_doomed = None\<rparr>,
     \<lparr>c_hash = ''h2'', c_size = 4, c_gc = Live, c_seen = 0, c_doomed = None\<rparr>,
     \<lparr>c_hash = ''h3'', c_size = 4, c_gc = Doomed, c_seen = 0, c_doomed = Some 0\<rparr>]"
  "map vc_hash (file_version_chunks sample_gc_db) = [''h2'', ''h1'']" "uploads sample_gc_db = []"
  "map cl_node (chunk_locations sample_gc_db) = [''n1'', ''n1'']" "upload_chunks sample_gc_db = []"
  by (simp_all add: sample_gc_eval)

lemma sample_gc_inv: "db_inv sample_gc_db"
proof -
  have "folder_in_org (folders sample_files_db) ''o1'' ''fo''"
    by (simp add: sample_files_db_def sample_db_defs folder_in_org_def)
  from CreateWithVersion_inv [OF sample_files_inv _ this]
  have "db_inv sample_located_db" unfolding sample_located_db_def by simp
  then have "db_inv (sample_located_db\<lparr>chunks := chunks sample_gc_db\<rparr>)"
    by (rule db_inv_chunks) (simp_all add: sample_gc_rows, auto simp: sample_gc_eval)
  then have "db_inv (sample_located_db\<lparr>chunks := chunks sample_gc_db, chunk_locations := chunk_locations sample_gc_db\<rparr>)" by simp
  moreover have "sample_gc_db = sample_located_db\<lparr>chunks := chunks sample_gc_db, chunk_locations := chunk_locations sample_gc_db\<rparr>"
    by (simp add: sample_gc_db_def)
  ultimately show ?thesis by metis
qed

text \<open>The tick's result, with the retention purge switched off.\<close>

lemma sample_gc_tick:
  "\<exists>d' st'. tick sample_minio (wired_sweeper sample_gc_router 10 0) 100 (sample_gc_db, sample_gc_store) = (d', st') \<and>
     map c_hash (chunks d') = [''h1'', ''h2''] \<and> map vc_hash (file_version_chunks d') = [''h2'', ''h1''] \<and>
     uploads d' = [] \<and> upload_chunks d' = []"
  by (simp add: tick_def sweep_def mark_def doomable_def referenced_def pinned_by_def reapChunk_def RemoveObject_def
      delete_chunk_def wired_sweeper_def wrap64_def sample_gc_router_def sample_minio_def Let_def sample_gc_eval)

theorem gc_tick_safe_witness:
  "\<exists>d' st'. tick sample_minio (wired_sweeper sample_gc_router 10 0) 100 (sample_gc_db, sample_gc_store) = (d', st') \<and>
     db_inv d' \<and> st' ''e1'' ''h1'' = Some ''a'' \<and> has_chunk d' ''h1''"
proof -
  obtain d' st' where r: "tick sample_minio (wired_sweeper sample_gc_router 10 0) 100 (sample_gc_db, sample_gc_store) = (d', st')"
    and v: "map vc_hash (file_version_chunks d') = [''h2'', ''h1'']"
    using sample_gc_tick by (elim exE conjE) (rule that)
  have "referenced d' ''h1''" unfolding referenced_def by (metis v list.set_map list.set_intros)
  with gc_tick_safe [OF sample_minio_laws _ sample_gc_inv r] have "db_inv d'" "has_chunk d' ''h1'' = has_chunk sample_gc_db ''h1''"
    "st' ''e1'' ''h1'' = sample_gc_store ''e1'' ''h1''" by auto
  then show ?thesis using r by (simp add: sample_gc_store_def has_chunk_def sample_gc_rows)
qed

theorem gc_two_phase_witness:
  "\<exists>d' st'. tick sample_minio (wired_sweeper sample_gc_router 10 0) 100 (sample_gc_db, sample_gc_store) = (d', st') \<and>
     hd (chunks sample_gc_db) \<in> set (chunks d')"
proof -
  obtain d' st' where r: "tick sample_minio (wired_sweeper sample_gc_router 10 0) 100 (sample_gc_db, sample_gc_store) = (d', st')"
    and v: "map vc_hash (file_version_chunks d') = [''h2'', ''h1'']"
    using sample_gc_tick by (elim exE conjE) (rule that)
  have "referenced d' ''h1''" unfolding referenced_def by (metis v list.set_map list.set_intros)
  with gc_two_phase [OF sample_minio_laws _ sample_gc_inv r, of "hd (chunks sample_gc_db)"]
  show ?thesis using r by (simp add: sample_gc_rows)
qed

theorem gc_reaps_witness:
  "\<exists>d' st'. tick sample_minio (wired_sweeper sample_gc_router 10 0) 100 (sample_gc_db, sample_gc_store) = (d', st') \<and>
     \<not> has_chunk d' ''h3''"
proof -
  obtain d' st' where r: "tick sample_minio (wired_sweeper sample_gc_router 10 0) 100 (sample_gc_db, sample_gc_store) = (d', st')"
    and v: "map vc_hash (file_version_chunks d') = [''h2'', ''h1'']" "uploads d' = []"
    using sample_gc_tick by (elim exE conjE) (rule that)
  have n: "\<not> referenced d' ''h3''" "\<not> pinned_by (\<lambda>_. True) d' ''h3''"
    using v by (simp_all add: referenced_def pinned_by_def flip: set_map)
  have k: "\<forall>l \<in> set (chunk_locations sample_gc_db). map_of (rt_internal sample_gc_router) (cl_node l) \<noteq> None"
    by (simp add: sample_gc_eval sample_gc_router_def)
  have "\<And>e k st. fst (m_remove sample_minio e k st) = None" by (simp add: sample_minio_def)
  from gc_reaps [OF sample_minio_laws _ sample_gc_inv this k r, of "chunks sample_gc_db ! 2" 0] n r
  show ?thesis by (simp add: sample_gc_rows)
qed

section \<open>An abandoned session keeps its doomed chunks\<close>

text \<open>The mark phase stops honouring a session in progress after \<open>uploadPinTTL\<close>, but the sweep
  phase does not: a doomed chunk of a session that stays in progress is never deleted, however
  old the session is.\<close>

lemma abandoned_session_pins:
  assumes "pinned_by (\<lambda>_. True) d h"
  shows "reapChunk mn s h (d, st) = (None, d, st)"
proof -
  have "List.find (\<lambda>c. c_hash c = h \<and> c_gc c = Doomed \<and> \<not> referenced d (c_hash c) \<and>
      \<not> pinned_by (\<lambda>_. True) d (c_hash c)) (chunks d) = None" using assms by (auto simp: find_None_iff)
  then show ?thesis by (simp add: reapChunk_def)
qed

end
