(* ===== verification/Encoding.thy ===== *)
theory Encoding
  imports Sha1
begin

text \<open>
  The text encodings of the Go standard library that the backend uses: \<^verbatim>\<open>encoding/hex\<close>,
  \<^verbatim>\<open>base64.RawURLEncoding\<close> (share tokens, refresh tokens, page cursors) and unpadded
  \<^verbatim>\<open>base32.StdEncoding\<close> (one-time-password secrets), with their round trips.
\<close>

section \<open>Alphabets\<close>

definition b64_alphabet :: string where
  "b64_alphabet = ''ABCDEFGHIJKLMNOPQRSTUVWXYZabcdefghijklmnopqrstuvwxyz0123456789-_''"

definition b32_alphabet :: string where
  "b32_alphabet = ''ABCDEFGHIJKLMNOPQRSTUVWXYZ234567''"

definition hex_alphabet :: string where
  "hex_alphabet = ''0123456789abcdef''"

definition digit_of :: "string \<Rightarrow> char \<Rightarrow> nat option" where
  "digit_of alphabet = map_of (zip alphabet [0 ..< length alphabet])"

lemma digit_of_nth:
  assumes "distinct alphabet" and "i < length alphabet"
  shows "digit_of alphabet (alphabet ! i) = Some i"
  using assms by (simp add: digit_of_def map_of_zip_nth)

lemma alphabets:
  "length b64_alphabet = 64" "distinct b64_alphabet" "length b32_alphabet = 32" "distinct b32_alphabet"
  "length hex_alphabet = 16" "distinct hex_alphabet"
  by (simp_all add: b64_alphabet_def b32_alphabet_def hex_alphabet_def)

lemma newline_free:
  "CHR 0x0A \<notin> set b64_alphabet" "CHR 0x0D \<notin> set b64_alphabet"
  "CHR 0x0A \<notin> set b32_alphabet" "CHR 0x0D \<notin> set b32_alphabet"
  by (simp_all add: b64_alphabet_def b32_alphabet_def)

section \<open>Groups of digits\<close>

text \<open>A number below \<open>r ^ n\<close> as its \<open>n\<close> digits in base \<open>r\<close>, most significant first, and back.\<close>

fun to_digits :: "nat \<Rightarrow> nat \<Rightarrow> nat \<Rightarrow> nat list" where
  "to_digits r 0 x = []"
| "to_digits r (Suc n) x = to_digits r n (x div r) @ [x mod r]"

definition from_digits :: "nat \<Rightarrow> nat list \<Rightarrow> nat" where
  "from_digits r ds = foldl (\<lambda>acc d. acc * r + d) 0 ds"

lemma length_to_digits [simp]: "length (to_digits r n x) = n"
  by (induction n arbitrary: x) auto

lemma to_digits_less: "0 < r \<Longrightarrow> d \<in> set (to_digits r n x) \<Longrightarrow> d < r"
  by (induction n arbitrary: x) auto

lemma from_to_digits: "0 < r \<Longrightarrow> x < r ^ n \<Longrightarrow> from_digits r (to_digits r n x) = x"
proof (induction n arbitrary: x)
  case (Suc n)
  then have "x div r < r ^ n" by (simp add: less_mult_imp_div_less mult.commute)
  with Suc show ?case by (simp add: from_digits_def)
qed (simp add: from_digits_def)

lemma from_digits_bound:
  assumes "\<forall>d \<in> set ds. d < r"
  shows "from_digits r ds < r ^ length ds"
  using assms
proof (induction ds rule: rev_induct)
  case (snoc d ds)
  then have "from_digits r ds + 1 \<le> r ^ length ds" by simp
  then have "(from_digits r ds + 1) * r \<le> r ^ length ds * r" by (rule mult_right_mono) simp
  then have "from_digits r ds * r + d < r ^ length ds * r" using snoc.prems by simp
  then show ?case by (simp add: from_digits_def mult.commute)
qed (simp add: from_digits_def)

lemma to_from_digits:
  assumes "\<forall>d \<in> set ds. d < r"
  shows "to_digits r (length ds) (from_digits r ds) = ds"
  using assms
proof (induction ds rule: rev_induct)
  case (snoc d ds)
  have "from_digits r (ds @ [d]) = from_digits r ds * r + d" by (simp add: from_digits_def)
  then show ?case using snoc by simp
qed simp

section \<open>Bytes in a group\<close>

text \<open>Both encodings read the bytes of a group as one number, shifted left until its bits fill
  whole characters: \<open>k\<close> bytes give \<open>n\<close> characters of \<open>b\<close> bits.\<close>

definition group_enc :: "string \<Rightarrow> nat \<Rightarrow> nat \<Rightarrow> byte list \<Rightarrow> string" where
  "group_enc alphabet b n bs =
     map (\<lambda>d. alphabet ! d) (to_digits (2 ^ b) n (from_digits 256 (map unat bs) * 2 ^ (n * b - 8 * length bs)))"

definition group_dec :: "nat \<Rightarrow> nat \<Rightarrow> nat list \<Rightarrow> byte list" where
  "group_dec b k ds =
     map word_of_nat (to_digits 256 k (from_digits (2 ^ b) ds div 2 ^ (length ds * b - 8 * k)))"

lemma unat_byte: "unat (b :: byte) < 256"
  using unsigned_less [of b, where 'a = nat] by simp

lemma group_roundtrip:
  assumes fits: "8 * length bs \<le> n * b" and len: "length alphabet = 2 ^ b" "distinct alphabet"
  shows "\<exists>ds. map (digit_of alphabet) (group_enc alphabet b n bs) = map Some ds \<and> length ds = n \<and>
    group_dec b (length bs) ds = bs"
proof -
  let ?x = "from_digits 256 (map unat bs) * 2 ^ (n * b - 8 * length bs)"
  let ?ds = "to_digits (2 ^ b) n ?x"
  have bytes: "\<forall>d \<in> set (map unat bs). d < 256" by (simp add: unat_byte)
  have "from_digits 256 (map unat bs) < 256 ^ length bs" using from_digits_bound [OF bytes] by simp
  also have "(256 :: nat) ^ length bs = 2 ^ (8 * length bs)" by (simp add: power_mult)
  finally have "?x < 2 ^ (8 * length bs) * 2 ^ (n * b - 8 * length bs)" by simp
  also have "(2 :: nat) ^ (8 * length bs) * 2 ^ (n * b - 8 * length bs) = (2 ^ b) ^ n"
    using fits by (simp add: power_add [symmetric] power_mult [symmetric] mult.commute)
  finally have num: "from_digits (2 ^ b) ?ds = ?x" by (intro from_to_digits) simp_all
  have "map (digit_of alphabet) (group_enc alphabet b n bs) = map Some ?ds"
    unfolding group_enc_def
    using to_digits_less [of "2 ^ b" _ n ?x] len by (simp add: digit_of_nth)
  moreover have "group_dec b (length bs) ?ds = map word_of_nat (map unat bs)"
    using to_from_digits [OF bytes] by (simp add: group_dec_def num)
  ultimately show ?thesis by (intro exI [of _ ?ds]) (simp add: comp_def)
qed

lemma length_group_enc [simp]: "length (group_enc alphabet b n bs) = n"
  by (simp add: group_enc_def)

lemma set_group_enc:
  assumes "length alphabet = 2 ^ b"
  shows "set (group_enc alphabet b n bs) \<subseteq> set alphabet"
  using assms to_digits_less [of "2 ^ b"] by (auto simp: group_enc_def)

section \<open>The encodings\<close>

fun hex_encode :: "byte list \<Rightarrow> string" where
  "hex_encode [] = []"
| "hex_encode (b # bs) = hex_alphabet ! (unat b div 16) # hex_alphabet ! (unat b mod 16) # hex_encode bs"

fun b64url_encode :: "byte list \<Rightarrow> string" where
  "b64url_encode [] = []"
| "b64url_encode [a] = group_enc b64_alphabet 6 2 [a]"
| "b64url_encode [a, b] = group_enc b64_alphabet 6 3 [a, b]"
| "b64url_encode (a # b # c # bs) = group_enc b64_alphabet 6 4 [a, b, c] @ b64url_encode bs"

fun b32_encode :: "byte list \<Rightarrow> string" where
  "b32_encode [] = []"
| "b32_encode [a] = group_enc b32_alphabet 5 2 [a]"
| "b32_encode [a, b] = group_enc b32_alphabet 5 4 [a, b]"
| "b32_encode [a, b, c] = group_enc b32_alphabet 5 5 [a, b, c]"
| "b32_encode [a, b, c, d] = group_enc b32_alphabet 5 7 [a, b, c, d]"
| "b32_encode (a # b # c # d # e # bs) = group_enc b32_alphabet 5 8 [a, b, c, d, e] @ b32_encode bs"

text \<open>Decoding skips line breaks, fails on any other foreign character, and ignores the bits of
  the last character that belong to no byte. A single left-over character is an error in base64;
  base32 drops left-over characters that make no byte.\<close>

fun b64_groups :: "nat list \<Rightarrow> byte list option" where
  "b64_groups [] = Some []"
| "b64_groups [w] = None"
| "b64_groups [w, x] = Some (group_dec 6 1 [w, x])"
| "b64_groups [w, x, y] = Some (group_dec 6 2 [w, x, y])"
| "b64_groups (w # x # y # z # ds) = map_option (\<lambda>bs. group_dec 6 3 [w, x, y, z] @ bs) (b64_groups ds)"

function b32_groups :: "nat list \<Rightarrow> byte list" where
  "b32_groups ds =
     (if 8 \<le> length ds then group_dec 5 5 (take 8 ds) @ b32_groups (drop 8 ds)
      else if length ds = 7 then group_dec 5 4 ds
      else if length ds = 5 then group_dec 5 3 ds
      else if length ds = 4 then group_dec 5 2 ds
      else if length ds = 2 then group_dec 5 1 ds
      else [])"
  by pat_completeness auto
termination by (relation "measure length") auto

declare b32_groups.simps [simp del]

definition skip_newlines :: "string \<Rightarrow> string" where
  "skip_newlines = filter (\<lambda>c. c \<noteq> CHR 0x0A \<and> c \<noteq> CHR 0x0D)"

definition b64url_decode :: "string \<Rightarrow> byte list option" where
  "b64url_decode s = Option.bind (those (map (digit_of b64_alphabet) (skip_newlines s))) b64_groups"

definition b32_decode :: "string \<Rightarrow> byte list option" where
  "b32_decode s = map_option b32_groups (those (map (digit_of b32_alphabet) (skip_newlines s)))"

section \<open>Round trips\<close>

lemma those_Some: "those (map Some xs) = Some xs"
  by (induction xs) auto

lemma set_b64url_encode: "set (b64url_encode bs) \<subseteq> set b64_alphabet"
  by (induction bs rule: b64url_encode.induct)
    (use set_group_enc [of b64_alphabet 6] in \<open>simp_all add: alphabets\<close>)

lemma set_b32_encode: "set (b32_encode bs) \<subseteq> set b32_alphabet"
  by (induction bs rule: b32_encode.induct)
    (use set_group_enc [of b32_alphabet 5] in \<open>simp_all add: alphabets\<close>)

lemma skip_newlines_id:
  assumes "set s \<subseteq> set alphabet" and "CHR 0x0A \<notin> set alphabet" and "CHR 0x0D \<notin> set alphabet"
  shows "skip_newlines s = s"
  unfolding skip_newlines_def using assms by (intro filter_True) blast

lemma b64_group:
  assumes "length bs \<le> 3" and "n = (length bs * 8 + 5) div 6"
  shows "\<exists>ds. map (digit_of b64_alphabet) (group_enc b64_alphabet 6 n bs) = map Some ds \<and> length ds = n \<and>
    group_dec 6 (length bs) ds = bs"
  by (rule group_roundtrip) (use assms in \<open>simp_all add: alphabets\<close>)

lemma b32_group:
  assumes "length bs \<le> 5" and "n = (length bs * 8 + 4) div 5"
  shows "\<exists>ds. map (digit_of b32_alphabet) (group_enc b32_alphabet 5 n bs) = map Some ds \<and> length ds = n \<and>
    group_dec 5 (length bs) ds = bs"
  by (rule group_roundtrip) (use assms in \<open>simp_all add: alphabets\<close>)

lemma length_small:
  "length ds = 2 \<Longrightarrow> \<exists>w x. ds = [w, x]" "length ds = 3 \<Longrightarrow> \<exists>w x y. ds = [w, x, y]"
  "length ds = 4 \<Longrightarrow> \<exists>w x y z. ds = [w, x, y, z]"
  by (auto simp: numeral_eq_Suc length_Suc_conv)

lemma b64_digits:
  "\<exists>ds. map (digit_of b64_alphabet) (b64url_encode bs) = map Some ds \<and> b64_groups ds = Some bs"
proof (induction bs rule: b64url_encode.induct)
  case (2 a)
  obtain ds where ds: "map (digit_of b64_alphabet) (group_enc b64_alphabet 6 2 [a]) = map Some ds" "length ds = 2"
    "group_dec 6 (length [a]) ds = [a]" by (rule exE [OF b64_group [of "[a]" 2]]) (simp, simp, elim conjE, rule that)
  then obtain w x where "ds = [w, x]" using length_small(1) by blast
  with ds show ?case by (intro exI [of _ ds]) simp
next
  case (3 a b)
  obtain ds where ds: "map (digit_of b64_alphabet) (group_enc b64_alphabet 6 3 [a, b]) = map Some ds" "length ds = 3"
    "group_dec 6 (length [a, b]) ds = [a, b]" by (rule exE [OF b64_group [of "[a, b]" 3]]) (simp, simp, elim conjE, rule that)
  then obtain w x y where "ds = [w, x, y]" using length_small(2) by blast
  with ds show ?case by (intro exI [of _ ds]) (simp add: numeral_2_eq_2)
next
  case (4 a b c bs)
  obtain ds where ds: "map (digit_of b64_alphabet) (group_enc b64_alphabet 6 4 [a, b, c]) = map Some ds" "length ds = 4"
    "group_dec 6 (length [a, b, c]) ds = [a, b, c]" by (rule exE [OF b64_group [of "[a, b, c]" 4]]) (simp, simp, elim conjE, rule that)
  then obtain w x y z where "ds = [w, x, y, z]" using length_small(3) by blast
  moreover obtain es where "map (digit_of b64_alphabet) (b64url_encode bs) = map Some es" "b64_groups es = Some bs"
    using 4 by blast
  ultimately show ?case using ds by (intro exI [of _ "ds @ es"]) (simp add: numeral_3_eq_3)
qed simp

lemma b32_tail:
  assumes "length bs \<in> {1, 2, 3, 4}"
  shows "\<exists>ds. map (digit_of b32_alphabet) (b32_encode bs) = map Some ds \<and> b32_groups ds = bs"
proof -
  let ?n = "(length bs * 8 + 4) div 5"
  have enc: "b32_encode bs = group_enc b32_alphabet 5 ?n bs"
    using assms by (cases bs rule: b32_encode.cases) auto
  obtain ds where ds: "map (digit_of b32_alphabet) (group_enc b32_alphabet 5 ?n bs) = map Some ds" "length ds = ?n"
    "group_dec 5 (length bs) ds = bs" using b32_group [of bs ?n] assms by auto
  then have "b32_groups ds = bs" using assms by (subst b32_groups.simps) auto
  with ds enc show ?thesis by auto
qed

lemma b32_digits:
  "\<exists>ds. map (digit_of b32_alphabet) (b32_encode bs) = map Some ds \<and> b32_groups ds = bs"
proof (induction bs rule: b32_encode.induct)
  case 1 then show ?case by (intro exI [of _ "[]"]) (simp add: b32_groups.simps [of "[]"])
next
  case (6 a b c d e bs)
  obtain ds where ds: "map (digit_of b32_alphabet) (group_enc b32_alphabet 5 8 [a, b, c, d, e]) = map Some ds" "length ds = 8"
    "group_dec 5 (length [a, b, c, d, e]) ds = [a, b, c, d, e]" by (rule exE [OF b32_group [of "[a, b, c, d, e]" 8]]) (simp, simp, elim conjE, rule that)
  moreover obtain es where "map (digit_of b32_alphabet) (b32_encode bs) = map Some es" "b32_groups es = bs" using 6 by blast
  ultimately show ?case
    by (intro exI [of _ "ds @ es"]) (simp add: b32_groups.simps [of "ds @ es"] numeral_eq_Suc)
qed (rule b32_tail, simp)+

lemma b64url_roundtrip: "b64url_decode (b64url_encode bs) = Some bs"
proof -
  obtain ds where "map (digit_of b64_alphabet) (b64url_encode bs) = map Some ds" "b64_groups ds = Some bs"
    using b64_digits by blast
  then show ?thesis
    using skip_newlines_id [OF set_b64url_encode newline_free(1,2), of bs] by (simp add: b64url_decode_def those_Some)
qed

lemma b32_roundtrip: "b32_decode (b32_encode bs) = Some bs"
proof -
  obtain ds where "map (digit_of b32_alphabet) (b32_encode bs) = map Some ds" "b32_groups ds = bs"
    using b32_digits by blast
  then show ?thesis
    using skip_newlines_id [OF set_b32_encode newline_free(3,4), of bs] by (simp add: b32_decode_def those_Some)
qed

lemma b64url_encode_inj: "b64url_encode as = b64url_encode bs \<Longrightarrow> as = bs"
  by (metis b64url_roundtrip option.inject)

lemma length_b64url_encode: "length (b64url_encode bs) = (8 * length bs + 5) div 6"
  by (induction bs rule: b64url_encode.induct) auto

end
