(* ===== verification/Sharing.thy ===== *)
theory Sharing
  imports File_Laws Encoding
begin

text \<open>
  Share links, \<^verbatim>\<open>internal/sharing\<close>: the repository, the service behind the public
  \<^verbatim>\<open>/v1/shares\<close> routes, and the handlers. The ports of \<^verbatim>\<open>Service\<close> are fields of \<open>ShareService\<close>;
  \<open>wired_share\<close> is what \<^verbatim>\<open>cmd/api\<close> builds from the adapters over the file and folder
  repositories.
\<close>

section \<open>Types\<close>

datatype ShareKind = KindFile | KindFolder | KindBundle

definition share_Kind :: "ShareLink \<Rightarrow> ShareKind" where
  "share_Kind l = (if sl_file l \<noteq> None then KindFile else if sl_folder l \<noteq> None then KindFolder else KindBundle)"

record FileInfo =
  fi_id :: id
  fi_name :: string
  fi_latest :: "id option"
  fi_size :: int
  fi_mime :: string
  fi_checksum :: string

record FolderInfo =
  fd_id :: id
  fd_name :: string

section \<open>The repository\<close>

definition ActiveLinkCount :: "time \<Rightarrow> db \<Rightarrow> id \<Rightarrow> nat" where
  "ActiveLinkCount now d orgID = rows_affected
     (\<lambda>l. sl_org l = orgID \<and> (case sl_expires l of None \<Rightarrow> True | Some t \<Rightarrow> t > now)) (share_links d)"

definition scanShare :: "ShareLink option \<Rightarrow> ShareLink res" where
  "scanShare row = (case row of None \<Rightarrow> Inl (Sharing sharing_ErrNotFound) | Some l \<Rightarrow> Inr l)"

text \<open>Thirty-two random bytes (the argument) as 43 characters.\<close>

definition newToken :: "byte list \<Rightarrow> string" where
  "newToken random = b64url_encode random"

text \<open>The \<^verbatim>\<open>INSERT\<close> of a link under its keys, foreign keys and the single-scope check.\<close>

definition insert_share :: "ShareLink \<Rightarrow> db \<Rightarrow> (ShareLink \<times> db) res" where
  "insert_share l d =
     (if \<exists>k \<in> set (share_links d). sl_id k = sl_id l \<or> sl_token k = sl_token l then Inl (PgError UniqueViolation)
      else if sl_file l \<noteq> None \<and> sl_folder l \<noteq> None then Inl (PgError CheckViolation)
      else if \<not> has_org d (sl_org l) \<or> \<not> has_user d (sl_by l) \<or>
              (case sl_file l of None \<Rightarrow> False | Some f \<Rightarrow> \<not> has_file d f) \<or>
              (case sl_folder l of None \<Rightarrow> False | Some f \<Rightarrow> \<not> has_folder d f)
        then Inl (PgError ForeignKeyViolation)
      else Inr (l, d\<lparr>share_links := share_links d @ [l]\<rparr>))"

definition CreateFileShare ::
  "id \<Rightarrow> byte list \<Rightarrow> time \<Rightarrow> id \<Rightarrow> id \<Rightarrow> id \<Rightarrow> time option \<Rightarrow> ShareLink dbop" where
  "CreateFileShare uuid random now orgID fileID createdBy expiresAt = transaction (insert_share
     \<lparr>sl_id = uuid, sl_org = orgID, sl_file = Some fileID, sl_folder = None, sl_token = newToken random,
      sl_by = createdBy, sl_expires = expiresAt, sl_created = now\<rparr>)"

definition repo_CreateFolderShare ::
  "id \<Rightarrow> byte list \<Rightarrow> time \<Rightarrow> id \<Rightarrow> id \<Rightarrow> id \<Rightarrow> time option \<Rightarrow> ShareLink dbop" where
  "repo_CreateFolderShare uuid random now orgID folderID createdBy expiresAt = transaction (insert_share
     \<lparr>sl_id = uuid, sl_org = orgID, sl_file = None, sl_folder = Some folderID, sl_token = newToken random,
      sl_by = createdBy, sl_expires = expiresAt, sl_created = now\<rparr>)"

fun insert_members :: "id \<Rightarrow> id list \<Rightarrow> db \<Rightarrow> db res" where
  "insert_members shareID [] d = Inr d"
| "insert_members shareID (fid # fids) d =
     (if (shareID, fid) \<in> set (share_link_files d) then Inl (PgError UniqueViolation)
      else if \<not> has_file d fid then Inl (PgError ForeignKeyViolation)
      else insert_members shareID fids (d\<lparr>share_link_files := share_link_files d @ [(shareID, fid)]\<rparr>))"

definition repo_CreateBundleShare ::
  "id \<Rightarrow> byte list \<Rightarrow> time \<Rightarrow> id \<Rightarrow> id list \<Rightarrow> id \<Rightarrow> time option \<Rightarrow> ShareLink dbop" where
  "repo_CreateBundleShare uuid random now orgID fileIDs createdBy expiresAt = transaction (\<lambda>d.
     case insert_share \<lparr>sl_id = uuid, sl_org = orgID, sl_file = None, sl_folder = None, sl_token = newToken random,
            sl_by = createdBy, sl_expires = expiresAt, sl_created = now\<rparr> d of
       Inl e \<Rightarrow> Inl e
     | Inr (link, d1) \<Rightarrow>
         (case insert_members (sl_id link) fileIDs d1 of Inl e \<Rightarrow> Inl e | Inr d2 \<Rightarrow> Inr (link, d2)))"

definition GetByToken :: "db \<Rightarrow> string \<Rightarrow> ShareLink res" where
  "GetByToken d token = scanShare (List.find (\<lambda>l. sl_token l = token) (share_links d))"

definition share_Delete :: "string \<Rightarrow> db \<Rightarrow> db" where
  "share_Delete token d = delete_shares (\<lambda>l. sl_token l = token) d"

definition BundleFileIDs :: "db \<Rightarrow> id \<Rightarrow> id list" where
  "BundleFileIDs d shareID = map snd (filter (\<lambda>(s, _). s = shareID) (share_link_files d))"

definition IsBundleMember :: "db \<Rightarrow> id \<Rightarrow> id \<Rightarrow> bool" where
  "IsBundleMember d shareID fileID \<longleftrightarrow> (shareID, fileID) \<in> set (share_link_files d)"

section \<open>The service\<close>

record ShareService =
  sh_getForShare :: "db \<Rightarrow> id \<Rightarrow> FileInfo res"
  sh_liveFileOrg :: "db \<Rightarrow> id \<Rightarrow> id res"
  sh_liveFileFolder :: "db \<Rightarrow> id \<Rightarrow> id res"
  sh_getFolder :: "db \<Rightarrow> id \<Rightarrow> FolderInfo res"
  sh_listChildren :: "db \<Rightarrow> id \<Rightarrow> (FolderInfo list \<times> FileInfo list) res"
  sh_isSelfOrDescendant :: "db \<Rightarrow> id \<Rightarrow> id \<Rightarrow> bool res"
  sh_plan :: "db \<Rightarrow> id \<Rightarrow> id \<Rightarrow> DownloadPlanChunk list res"

text \<open>The loop that drops empty and repeated ids, in order.\<close>

fun unique_ids :: "id list \<Rightarrow> id list \<Rightarrow> id list" where
  "unique_ids seen [] = []"
| "unique_ids seen (x # xs) =
     (if x = '''' \<or> x \<in> set seen then unique_ids seen xs else x # unique_ids (x # seen) xs)"

definition CreateBundleShare ::
  "ShareService \<Rightarrow> id \<Rightarrow> byte list \<Rightarrow> time \<Rightarrow> id \<Rightarrow> id list \<Rightarrow> id \<Rightarrow> time option \<Rightarrow> ShareLink dbop" where
  "CreateBundleShare s uuid random now orgID fileIDs createdBy expiresAt d =
     (let unique = unique_ids [] fileIDs
      in if unique = [] then (Inl (Sharing ErrEmptyBundle), d)
         else if \<not> list_all (\<lambda>x. sh_liveFileOrg s d x = Inr orgID) unique then (Inl (Sharing ErrFileNotShareable), d)
         else if length unique = 1 then CreateFileShare uuid random now orgID (hd unique) createdBy expiresAt d
         else repo_CreateBundleShare uuid random now orgID unique createdBy expiresAt d)"

definition liveLink :: "time \<Rightarrow> db \<Rightarrow> string \<Rightarrow> ShareLink res" where
  "liveLink now d token =
     (case GetByToken d token of
        Inl e \<Rightarrow> Inl e
      | Inr link \<Rightarrow>
          (case sl_expires link of
             None \<Rightarrow> Inr link
           | Some t \<Rightarrow> if now > t then Inl (Sharing ErrExpired) else Inr link))"

definition filePlan :: "ShareService \<Rightarrow> db \<Rightarrow> id \<Rightarrow> (FileInfo \<times> DownloadPlanChunk list) res" where
  "filePlan s d fileID =
     (case sh_getForShare s d fileID of
        Inl e \<Rightarrow> Inl e
      | Inr info \<Rightarrow>
          (case fi_latest info of
             None \<Rightarrow> Inl (Sharing ErrFileHasNoVersion)
           | Some v \<Rightarrow> (case sh_plan s d (fi_id info) v of Inl e \<Rightarrow> Inl e | Inr plan \<Rightarrow> Inr (info, plan))))"

definition folderListing :: "ShareService \<Rightarrow> db \<Rightarrow> id \<Rightarrow> (FolderInfo \<times> FolderInfo list \<times> FileInfo list) res" where
  "folderListing s d folderID =
     (case sh_getFolder s d folderID of
        Inl _ \<Rightarrow> Inl (Sharing sharing_ErrNotFound)
      | Inr folder \<Rightarrow>
          (case sh_listChildren s d folderID of Inl e \<Rightarrow> Inl e | Inr (subs, fs) \<Rightarrow> Inr (folder, subs, fs)))"

datatype ResolvedShare =
    ResolvedFile FileInfo "DownloadPlanChunk list"
  | ResolvedFolder FolderInfo "FolderInfo list" "FileInfo list"
  | ResolvedBundle "FileInfo list"

text \<open>Bundle members that no longer resolve are dropped.\<close>

fun shared_files :: "ShareService \<Rightarrow> db \<Rightarrow> id list \<Rightarrow> FileInfo list" where
  "shared_files s d [] = []"
| "shared_files s d (x # xs) =
     (case sh_getForShare s d x of Inl _ \<Rightarrow> shared_files s d xs | Inr info \<Rightarrow> info # shared_files s d xs)"

definition share_Resolve :: "ShareService \<Rightarrow> time \<Rightarrow> db \<Rightarrow> string \<Rightarrow> ResolvedShare res" where
  "share_Resolve s now d token =
     (case liveLink now d token of
        Inl e \<Rightarrow> Inl e
      | Inr link \<Rightarrow>
          (case (sl_file link, sl_folder link) of
             (Some f, _) \<Rightarrow> (case filePlan s d f of Inl e \<Rightarrow> Inl e | Inr (info, plan) \<Rightarrow> Inr (ResolvedFile info plan))
           | (None, Some fo) \<Rightarrow>
               (case folderListing s d fo of Inl e \<Rightarrow> Inl e | Inr (fd, subs, fs) \<Rightarrow> Inr (ResolvedFolder fd subs fs))
           | (None, None) \<Rightarrow> Inr (ResolvedBundle (shared_files s d (BundleFileIDs d (sl_id link))))))"

definition ResolveFolderChildren ::
  "ShareService \<Rightarrow> time \<Rightarrow> db \<Rightarrow> string \<Rightarrow> id \<Rightarrow> (FolderInfo \<times> FolderInfo list \<times> FileInfo list) res" where
  "ResolveFolderChildren s now d token folderID =
     (case liveLink now d token of
        Inl e \<Rightarrow> Inl e
      | Inr link \<Rightarrow>
          (case (share_Kind link, sl_folder link) of
             (KindFolder, Some shared) \<Rightarrow>
               (case sh_isSelfOrDescendant s d shared folderID of
                  Inl e \<Rightarrow> Inl e
                | Inr ok \<Rightarrow> if \<not> ok then Inl (Sharing ErrNotInShare) else folderListing s d folderID)
           | _ \<Rightarrow> Inl (Sharing ErrNotInShare)))"

definition share_covers :: "ShareService \<Rightarrow> db \<Rightarrow> ShareLink \<Rightarrow> id \<Rightarrow> bool res" where
  "share_covers s d link fileID =
     (case (sl_file link, sl_folder link) of
        (Some f, _) \<Rightarrow> Inr (f = fileID)
      | (None, Some fo) \<Rightarrow>
          (case sh_liveFileFolder s d fileID of
             Inl _ \<Rightarrow> Inl (Sharing ErrNotInShare)
           | Inr folderID \<Rightarrow> sh_isSelfOrDescendant s d fo folderID)
      | (None, None) \<Rightarrow> Inr (IsBundleMember d (sl_id link) fileID))"

definition ResolveDownloadPlan ::
  "ShareService \<Rightarrow> time \<Rightarrow> db \<Rightarrow> string \<Rightarrow> id \<Rightarrow> (FileInfo \<times> DownloadPlanChunk list) res" where
  "ResolveDownloadPlan s now d token fileID =
     (case liveLink now d token of
        Inl e \<Rightarrow> Inl e
      | Inr link \<Rightarrow>
          (case share_covers s d link fileID of
             Inl e \<Rightarrow> Inl e
           | Inr covered \<Rightarrow> if \<not> covered then Inl (Sharing ErrNotInShare) else filePlan s d fileID))"

section \<open>The adapters\<close>

definition GetForShare :: "db \<Rightarrow> id \<Rightarrow> FileInfo res" where
  "GetForShare d fileID =
     (case file_Get d fileID of
        Inl e \<Rightarrow> Inl e
      | Inr f \<Rightarrow>
          (case f_latest f of
             None \<Rightarrow> Inr \<lparr>fi_id = f_id f, fi_name = f_name f, fi_latest = None, fi_size = 0, fi_mime = [], fi_checksum = []\<rparr>
           | Some vid \<Rightarrow>
               (case GetVersion d (f_id f) vid of
                  Inl e \<Rightarrow> Inl e
                | Inr v \<Rightarrow> Inr \<lparr>fi_id = f_id f, fi_name = f_name f, fi_latest = Some vid, fi_size = v_size v,
                                fi_mime = v_mime v, fi_checksum = v_checksum v\<rparr>)))"

definition LiveFileOrg :: "db \<Rightarrow> id \<Rightarrow> id res" where
  "LiveFileOrg d fileID = (case file_Get d fileID of Inl e \<Rightarrow> Inl e | Inr f \<Rightarrow> Inr (f_org f))"

definition LiveFileFolder :: "db \<Rightarrow> id \<Rightarrow> id res" where
  "LiveFileFolder d fileID = (case file_Get d fileID of Inl e \<Rightarrow> Inl e | Inr f \<Rightarrow> Inr (f_folder f))"

definition GetFolderForShare :: "db \<Rightarrow> id \<Rightarrow> FolderInfo res" where
  "GetFolderForShare d folderID =
     (case folder_Get d folderID of Inl e \<Rightarrow> Inl e | Inr f \<Rightarrow> Inr \<lparr>fd_id = fo_id f, fd_name = fo_name f\<rparr>)"

definition entry_info :: "ListEntry \<Rightarrow> FileInfo" where
  "entry_info e = \<lparr>fi_id = f_id (le_file e), fi_name = f_name (le_file e), fi_latest = f_latest (le_file e),
     fi_size = (case le_size e of None \<Rightarrow> 0 | Some n \<Rightarrow> n), fi_mime = (case le_mime e of None \<Rightarrow> [] | Some m \<Rightarrow> m),
     fi_checksum = []\<rparr>"

definition ListShareChildren ::
  "(string \<Rightarrow> 'k :: linorder) \<Rightarrow> db \<Rightarrow> id \<Rightarrow> (FolderInfo list \<times> FileInfo list) res" where
  "ListShareChildren collate d folderID =
     (case folder_Get d folderID of
        Inl e \<Rightarrow> Inl e
      | Inr f \<Rightarrow>
          Inr (map (\<lambda>g. \<lparr>fd_id = fo_id g, fd_name = fo_name g\<rparr>) (ListChildren collate d (fo_org f) (Some (fo_id f))),
               map entry_info (ListInFolder collate d folderID)))"

definition wired_share ::
  "(string \<Rightarrow> 'k :: linorder) \<Rightarrow> (string \<Rightarrow> string \<Rightarrow> string res) \<Rightarrow> time \<Rightarrow> Router \<Rightarrow> ShareService" where
  "wired_share collate sign now rt =
     \<lparr>sh_getForShare = GetForShare, sh_liveFileOrg = LiveFileOrg, sh_liveFileFolder = LiveFileFolder,
      sh_getFolder = GetFolderForShare, sh_listChildren = ListShareChildren collate,
      sh_isSelfOrDescendant = IsSelfOrDescendant, sh_plan = DownloadPlan sign now rt\<rparr>"

section \<open>Handlers\<close>

definition maxShareTTL :: duration where
  "maxShareTTL = 7 * 24 * 3600 * 1000000000"

text \<open>The decoded body: \<open>None\<close> if it is not JSON; \<^verbatim>\<open>expires_at\<close> absent, not RFC 3339, or a time. An
  empty request has no field.\<close>

record createShareRequest =
  cs_expires :: "time json_field"
  cs_files :: "id list"

definition parseCreateShare ::
  "time \<Rightarrow> createShareRequest option \<Rightarrow> 'a response + createShareRequest \<times> time" where
  "parseCreateShare now body =
     (case body of
        None \<Rightarrow> Inl (WriteError http_ErrInvalid ''malformed JSON body'')
      | Some req \<Rightarrow>
          (case cs_expires req of
             field_absent \<Rightarrow> Inl (WriteError http_ErrInvalid ''expires_at is required'')
           | field_bad \<Rightarrow> Inl (WriteError http_ErrInvalid ''expires_at must be RFC3339'')
           | field_value t \<Rightarrow>
               if \<not> t > now \<or> t > now + maxShareTTL
                 then Inl (WriteError http_ErrInvalid ''expires_at must be between now and 7 days from now'')
               else Inr (req, t)))"

definition shareURL :: "bool \<Rightarrow> string \<Rightarrow> string \<Rightarrow> string \<Rightarrow> string" where
  "shareURL tls forwardedProto host token =
     (let scheme = (if tls then ''https'' else ''http'');
          scheme = (if forwardedProto \<noteq> '''' then forwardedProto else scheme)
      in scheme @ ''://'' @ host @ ''/v1/shares/'' @ token)"

text \<open>The created link's token and URL; \<open>url\<close> is \<^verbatim>\<open>shareURL\<close> of the request.\<close>

definition writeCreatedLink :: "(string \<Rightarrow> string) \<Rightarrow> ShareLink \<Rightarrow> (string \<times> string) response" where
  "writeCreatedLink url link = WriteJSON 201 (sl_token link, url (sl_token link))"

definition share_handler_Create ::
  "(string \<Rightarrow> string) \<Rightarrow> id \<Rightarrow> byte list \<Rightarrow> time \<Rightarrow> id \<Rightarrow> File \<Rightarrow> createShareRequest option \<Rightarrow> db
     \<Rightarrow> (string \<times> string) response \<times> db" where
  "share_handler_Create url uuid random now userID f body d =
     (case parseCreateShare now body of
        Inl resp \<Rightarrow> (resp, d)
      | Inr (_, expiresAt) \<Rightarrow>
          (case CreateFileShare uuid random now (f_org f) (f_id f) userID (Some expiresAt) d of
             (Inl e, d1) \<Rightarrow> (WriteError http_ErrInternal ''failed to create share link'', d1)
           | (Inr link, d1) \<Rightarrow> (writeCreatedLink url link, d1)))"

definition share_handler_CreateFolder ::
  "(string \<Rightarrow> string) \<Rightarrow> id \<Rightarrow> byte list \<Rightarrow> time \<Rightarrow> id \<Rightarrow> Folder \<Rightarrow> createShareRequest option \<Rightarrow> db
     \<Rightarrow> (string \<times> string) response \<times> db" where
  "share_handler_CreateFolder url uuid random now userID f body d =
     (case parseCreateShare now body of
        Inl resp \<Rightarrow> (resp, d)
      | Inr (_, expiresAt) \<Rightarrow>
          (case repo_CreateFolderShare uuid random now (fo_org f) (fo_id f) userID (Some expiresAt) d of
             (Inl e, d1) \<Rightarrow> (WriteError http_ErrInternal ''failed to create share link'', d1)
           | (Inr link, d1) \<Rightarrow> (writeCreatedLink url link, d1)))"

definition share_handler_CreateBundle ::
  "ShareService \<Rightarrow> (string \<Rightarrow> string) \<Rightarrow> id \<Rightarrow> byte list \<Rightarrow> time \<Rightarrow> id \<Rightarrow> id \<Rightarrow> createShareRequest option \<Rightarrow> db
     \<Rightarrow> (string \<times> string) response \<times> db" where
  "share_handler_CreateBundle s url uuid random now userID orgID body d =
     (case parseCreateShare now body of
        Inl resp \<Rightarrow> (resp, d)
      | Inr (req, expiresAt) \<Rightarrow>
          (case CreateBundleShare s uuid random now orgID (cs_files req) userID (Some expiresAt) d of
             (Inl e, d1) \<Rightarrow>
               (if e = Sharing ErrEmptyBundle then WriteError http_ErrInvalid ''file_ids must name at least one file''
                else if e = Sharing ErrFileNotShareable
                  then WriteError http_ErrInvalid ''every file must exist, be out of trash, and belong to this organization''
                else WriteError http_ErrInternal ''failed to create share link'', d1)
           | (Inr link, d1) \<Rightarrow> (writeCreatedLink url link, d1)))"

definition writeShareError :: "goerr \<Rightarrow> 'a response" where
  "writeShareError e =
     (if e = Sharing sharing_ErrNotFound then WriteError http_ErrNotFound ''share link not found''
      else if e = Sharing ErrNotInShare then WriteError http_ErrNotFound ''no such item in this share''
      else if e = Sharing ErrExpired then WriteError http_ErrForbidden ''share link has expired''
      else if e = Sharing ErrFileHasNoVersion then WriteError http_ErrConflict ''shared file has no version to serve''
      else WriteError http_ErrInternal ''failed to resolve share link'')"

text \<open>What a visitor sees of a file: no organization, folder, owner or version id.\<close>

record file_json =
  fj_id :: id
  fj_name :: string
  fj_size :: int
  fj_mime :: string
  fj_checksum :: string

definition fileJSON :: "FileInfo \<Rightarrow> file_json" where
  "fileJSON f = \<lparr>fj_id = fi_id f, fj_name = fi_name f, fj_size = fi_size f, fj_mime = fi_mime f, fj_checksum = fi_checksum f\<rparr>"

datatype share_json =
    FileShare file_json "DownloadPlanChunk list"
  | FolderShare FolderInfo "FolderInfo list" "file_json list"
  | BundleShare "file_json list"

fun share_response :: "ResolvedShare \<Rightarrow> share_json" where
  "share_response (ResolvedFile f plan) = FileShare (fileJSON f) plan"
| "share_response (ResolvedFolder fd subs fs) = FolderShare fd subs (map fileJSON fs)"
| "share_response (ResolvedBundle fs) = BundleShare (map fileJSON fs)"

definition share_handler_Resolve :: "ShareService \<Rightarrow> time \<Rightarrow> db \<Rightarrow> string \<Rightarrow> share_json response" where
  "share_handler_Resolve s now d token =
     (case share_Resolve s now d token of
        Inl e \<Rightarrow> writeShareError e
      | Inr resolved \<Rightarrow> WriteJSON 200 (share_response resolved))"

definition share_handler_Children ::
  "ShareService \<Rightarrow> time \<Rightarrow> db \<Rightarrow> string \<Rightarrow> id \<Rightarrow> (FolderInfo \<times> FolderInfo list \<times> file_json list) response" where
  "share_handler_Children s now d token folderID =
     (case ResolveFolderChildren s now d token folderID of
        Inl e \<Rightarrow> writeShareError e
      | Inr (f, subs, fs) \<Rightarrow> WriteJSON 200 (f, subs, map fileJSON fs))"

definition share_handler_DownloadPlan ::
  "ShareService \<Rightarrow> time \<Rightarrow> db \<Rightarrow> string \<Rightarrow> id \<Rightarrow> (file_json \<times> DownloadPlanChunk list) response" where
  "share_handler_DownloadPlan s now d token fileID =
     (case ResolveDownloadPlan s now d token fileID of
        Inl e \<Rightarrow> writeShareError e
      | Inr (info, plan) \<Rightarrow> WriteJSON 200 (fileJSON info, plan))"

definition share_handler_Delete ::
  "(db \<Rightarrow> id \<Rightarrow> id \<Rightarrow> bool res) \<Rightarrow> id \<Rightarrow> string \<Rightarrow> db \<Rightarrow> unit response \<times> db" where
  "share_handler_Delete isMember userID token d =
     (case GetByToken d token of
        Inl e \<Rightarrow> (if e = Sharing sharing_ErrNotFound then NoContent
                  else WriteError http_ErrInternal ''failed to load share link'', d)
      | Inr link \<Rightarrow>
          (case isMember d (sl_org link) userID of
             Inl _ \<Rightarrow> (WriteError http_ErrInternal ''failed to check membership'', d)
           | Inr ok \<Rightarrow>
               if \<not> ok then (WriteError http_ErrForbidden ''not a member of this organization'', d)
               else (NoContent, share_Delete token d)))"

end
