(* ===== verification/Sharing_Laws.thy ===== *)
theory Sharing_Laws
  imports Sharing
begin

text \<open>
  What the public share routes promise: a link gives exactly the items of its scope, for as long
  as it lives. \<open>in_scope\<close> is the specification of a link's scope, \<open>shares_ok\<close> the integrity of the
  share tables, the locale \<open>share_ports\<close> the contract of the ports of \<^verbatim>\<open>sharing.Service\<close>; it is
  interpreted on \<open>wired_share\<close>, the adapters of \<^verbatim>\<open>cmd/api\<close>.
\<close>

section \<open>Integrity of the share tables\<close>

definition link_ok :: "Folder list \<Rightarrow> File list \<Rightarrow> ShareLink \<Rightarrow> bool" where
  "link_ok gs fs l \<longleftrightarrow>
     (\<forall>f. sl_file l = Some f \<longrightarrow> file_in_org fs (sl_org l) f) \<and>
     (\<forall>g. sl_folder l = Some g \<longrightarrow> folder_in_org gs (sl_org l) g)"

definition shares_ok :: "db \<Rightarrow> bool" where
  "shares_ok d \<longleftrightarrow> distinct (map sl_id (share_links d)) \<and> distinct (map sl_token (share_links d)) \<and>
     (\<forall>l \<in> set (share_links d). link_ok (folders d) (files d) l) \<and>
     (\<forall>(s, f) \<in> set (share_link_files d). \<exists>l \<in> set (share_links d). sl_id l = s \<and> file_in_org (files d) (sl_org l) f)"

lemma shares_okD:
  assumes "shares_ok d"
  shows "distinct (map sl_id (share_links d))" and "distinct (map sl_token (share_links d))"
    and "l \<in> set (share_links d) \<Longrightarrow> link_ok (folders d) (files d) l"
    and "(s, f) \<in> set (share_link_files d) \<Longrightarrow> \<exists>l \<in> set (share_links d). sl_id l = s \<and> file_in_org (files d) (sl_org l) f"
  using assms unfolding shares_ok_def by auto

lemma shares_ok_empty: "shares_ok empty_db"
  by (simp add: shares_ok_def empty_db_def)

text \<open>Files and folders may be added, changed or trashed, as long as none leaves its organization.\<close>

lemma shares_ok_mono:
  assumes "shares_ok d" and "share_links d' = share_links d" and "share_link_files d' = share_link_files d"
    and "\<And>g x. file_in_org (files d) g x \<Longrightarrow> file_in_org (files d') g x"
    and "\<And>g x. folder_in_org (folders d) g x \<Longrightarrow> folder_in_org (folders d') g x"
  shows "shares_ok d'"
  using assms unfolding shares_ok_def link_ok_def by fastforce

lemma shares_ok_delete_shares: "shares_ok d \<Longrightarrow> shares_ok (delete_shares P d)"
proof -
  assume ok: "shares_ok d"
  let ?d = "delete_shares P d"
  have l: "share_links ?d = delete_where P (share_links d)"
    by (simp add: delete_shares_def Let_def)
  have m: "share_link_files ?d = delete_where (\<lambda>(s, _). s \<in> set (map sl_id (filter P (share_links d)))) (share_link_files d)"
    by (simp add: delete_shares_def Let_def)
  have "\<exists>l \<in> set (share_links ?d). sl_id l = s \<and> file_in_org (files d) (sl_org l) f"
    if "(s, f) \<in> set (share_link_files ?d)" for s f
  proof -
    have in_m: "(s, f) \<in> set (share_link_files d)" and s: "s \<notin> sl_id ` {k \<in> set (share_links d). P k}"
      using that by (auto simp: m)
    obtain k where k: "k \<in> set (share_links d)" "sl_id k = s" "file_in_org (files d) (sl_org k) f"
      using shares_okD(4) [OF ok in_m] by blast
    then show ?thesis using s by (auto simp: l)
  qed
  then show ?thesis
    using shares_okD(1-3) [OF ok] by (auto simp: shares_ok_def l distinct_delete_where)
qed

lemma shares_ok_delete_files:
  assumes "shares_ok d" and "distinct (map f_id (files d))" and "delete_files P d = Inr d'"
  shows "shares_ok d'"
proof -
  let ?gone = "map f_id (filter P (files d))"
  let ?d1 = "delete_shares (\<lambda>l. \<exists>f \<in> set ?gone. sl_file l = Some f) d"
  have ok: "shares_ok ?d1" by (rule shares_ok_delete_shares [OF assms(1)])
  have d': "share_links d' = share_links ?d1" "files d' = delete_where P (files d)" "folders d' = folders d"
    "share_link_files d' = delete_where (\<lambda>(_, f). f \<in> set ?gone) (share_link_files ?d1)"
    using assms(3) by (auto simp: delete_files_def Let_def split: if_splits)
  have keep: "file_in_org (files d') g x" if "file_in_org (files d) g x" "x \<notin> set ?gone" for g x
    using that by (auto simp: file_in_org_def d'(2))
  have links: "link_ok (folders d') (files d') l" if "l \<in> set (share_links d')" for l
  proof -
    have "link_ok (folders d) (files d) l" using shares_okD(3) [OF ok] that by (simp add: d')
    moreover have "\<forall>f. sl_file l = Some f \<longrightarrow> f \<notin> set ?gone"
      using that by (auto simp: d' delete_shares_def Let_def)
    ultimately show ?thesis using keep by (auto simp: link_ok_def d'(3))
  qed
  have "\<exists>l \<in> set (share_links d'). sl_id l = s \<and> file_in_org (files d') (sl_org l) f"
    if "(s, f) \<in> set (share_link_files d')" for s f
  proof -
    have "(s, f) \<in> set (share_link_files ?d1)" "f \<notin> set ?gone" using that by (auto simp: d')
    then show ?thesis using shares_okD(4) [OF ok, of s f] keep by (fastforce simp: d'(1))
  qed
  then show ?thesis using shares_okD(1,2) [OF ok] links by (auto simp: shares_ok_def d'(1))
qed

lemma shares_ok_delete_folders:
  assumes "shares_ok d" and "distinct (map f_id (files d))" and "delete_folders S d = Inr d'"
  shows "shares_ok d'"
proof -
  obtain d1 where d1: "delete_files (\<lambda>f. f_folder f \<in> set S) d = Inr d1"
    using assms(3) by (auto simp: delete_folders_def split: sum.splits)
  let ?d2 = "delete_shares (\<lambda>l. \<exists>f \<in> set S. sl_folder l = Some f) (delete_uploads (\<lambda>u. u_folder u \<in> set S) d1)"
  have up: "share_links (delete_uploads P d1) = share_links d1" "share_link_files (delete_uploads P d1) = share_link_files d1" for P
    by (simp_all add: delete_uploads_def Let_def)
  have "shares_ok d1" by (rule shares_ok_delete_files [OF assms(1,2) d1])
  then have ok: "shares_ok ?d2"
    by (intro shares_ok_delete_shares) (rule shares_ok_mono, simp_all add: up)
  have d': "d' = ?d2\<lparr>folders := delete_where (\<lambda>f. fo_id f \<in> set S) (folders ?d2)\<rparr>"
    using assms(3) d1 by (simp add: delete_folders_def Let_def)
  have "link_ok (folders d') (files d') l" if "l \<in> set (share_links ?d2)" for l
  proof -
    have "\<forall>g. sl_folder l = Some g \<longrightarrow> g \<notin> set S" using that by (auto simp: delete_shares_def Let_def)
    moreover have "link_ok (folders ?d2) (files ?d2) l" using shares_okD(3) [OF ok that] .
    ultimately show ?thesis by (auto simp: link_ok_def d' folder_in_org_def)
  qed
  then show ?thesis using ok by (auto simp: shares_ok_def d')
qed

lemma insert_share_ok:
  assumes "shares_ok d" and "link_ok (folders d) (files d) l" and "insert_share l d = Inr (k, d')"
  shows "shares_ok d'" and "k = l" and "d' = d\<lparr>share_links := share_links d @ [l]\<rparr>"
  using assms by (fastforce simp: insert_share_def shares_ok_def split: if_splits)+

lemma insert_members_effect:
  "insert_members s fids d = Inr d' \<Longrightarrow>
     d' = d\<lparr>share_link_files := share_link_files d @ map (Pair s) fids\<rparr>"
proof (induction fids arbitrary: d)
  case (Cons f fids)
  then have "insert_members s fids (d\<lparr>share_link_files := share_link_files d @ [(s, f)]\<rparr>) = Inr d'"
    by (simp split: if_splits)
  then show ?case using Cons.IH by fastforce
qed simp

lemma insert_members_succeeds:
  assumes "distinct fids" and "\<forall>f \<in> set fids. has_file d f \<and> (s, f) \<notin> set (share_link_files d)"
  shows "insert_members s fids d = Inr (d\<lparr>share_link_files := share_link_files d @ map (Pair s) fids\<rparr>)"
  using assms
proof (induction fids arbitrary: d)
  case (Cons f fids)
  have "insert_members s fids (d\<lparr>share_link_files := share_link_files d @ [(s, f)]\<rparr>) =
      Inr (d\<lparr>share_link_files := share_link_files d @ (s, f) # map (Pair s) fids\<rparr>)"
    using Cons.prems by (subst Cons.IH) (auto simp: has_file_def)
  then show ?case using Cons.prems by simp
qed simp

lemma transaction_insert_share:
  assumes "shares_ok d" and "link_ok (folders d) (files d) l"
  shows "shares_ok (snd (transaction (insert_share l) d))"
  using insert_share_ok(1) [OF assms] assms(1) by (auto simp: transaction_def split: sum.splits)

lemma CreateFileShare_shares_ok:
  assumes "shares_ok d" and "file_in_org (files d) orgID fid"
  shows "shares_ok (snd (CreateFileShare uuid random now orgID fid by_user ex d))"
  unfolding CreateFileShare_def by (rule transaction_insert_share) (simp_all add: assms link_ok_def)

lemma CreateFolderShare_shares_ok:
  assumes "shares_ok d" and "folder_in_org (folders d) orgID fid"
  shows "shares_ok (snd (repo_CreateFolderShare uuid random now orgID fid by_user ex d))"
  unfolding repo_CreateFolderShare_def by (rule transaction_insert_share) (simp_all add: assms link_ok_def)

lemma CreateBundleShare_repo_shares_ok:
  assumes "shares_ok d" and "\<forall>f \<in> set fids. file_in_org (files d) orgID f"
  shows "shares_ok (snd (repo_CreateBundleShare uuid random now orgID fids by_user ex d))"
proof -
  let ?l = "\<lparr>sl_id = uuid, sl_org = orgID, sl_file = None, sl_folder = None,
    sl_token = newToken random, sl_by = by_user, sl_expires = ex, sl_created = now\<rparr>"
  show ?thesis
  proof (cases "\<exists>d1 d2. insert_share ?l d = Inr (?l, d1) \<and> insert_members uuid fids d1 = Inr d2")
    case True
    then obtain d1 d2 where ins: "insert_share ?l d = Inr (?l, d1)" "insert_members uuid fids d1 = Inr d2" by blast
    have d1: "shares_ok d1" "d1 = d\<lparr>share_links := share_links d @ [?l]\<rparr>"
      using insert_share_ok [OF assms(1) _ ins(1)] by (simp_all add: link_ok_def)
    have "shares_ok d2"
      using d1 assms(2) unfolding insert_members_effect [OF ins(2)] by (auto simp: shares_ok_def)
    then show ?thesis using ins by (simp add: repo_CreateBundleShare_def transaction_def)
  next
    case False
    then have "snd (repo_CreateBundleShare uuid random now orgID fids by_user ex d) = d"
      using insert_share_ok(2) [OF assms(1), of ?l]
      by (auto simp: repo_CreateBundleShare_def transaction_def link_ok_def split: sum.splits)
    then show ?thesis using assms(1) by simp
  qed
qed

section \<open>The scope of a link\<close>

text \<open>A file link covers its file, a bundle its members, a folder link the live files in the
  subtree of its folder.\<close>

definition in_scope :: "db \<Rightarrow> ShareLink \<Rightarrow> id \<Rightarrow> bool" where
  "in_scope d l x \<longleftrightarrow>
     (case (sl_file l, sl_folder l) of
        (Some f, _) \<Rightarrow> x = f
      | (None, Some g) \<Rightarrow> (\<exists>f \<in> set (files d). f_id f = x \<and> f_deleted f = None \<and> f_folder f \<in> descendants (folders d) g)
      | (None, None) \<Rightarrow> (sl_id l, x) \<in> set (share_link_files d))"

definition link_live :: "time \<Rightarrow> ShareLink \<Rightarrow> bool" where
  "link_live now l \<longleftrightarrow> (\<forall>t. sl_expires l = Some t \<longrightarrow> now \<le> t)"

lemma liveLink_iff:
  "liveLink now d token = Inr l \<longleftrightarrow>
     List.find (\<lambda>l. sl_token l = token) (share_links d) = Some l \<and> link_live now l"
  by (auto simp: liveLink_def GetByToken_def scanShare_def link_live_def split: option.splits)

lemma liveLinkD:
  "liveLink now d token = Inr l \<Longrightarrow> l \<in> set (share_links d) \<and> sl_token l = token \<and> link_live now l"
  by (auto simp: liveLink_iff dest: find_SomeD)

lemma file_Get_iff:
  assumes "db_inv d"
  shows "file_Get d x = Inr f \<longleftrightarrow> f \<in> set (files d) \<and> f_id f = x \<and> f_deleted f = None"
proof
  assume f: "f \<in> set (files d) \<and> f_id f = x \<and> f_deleted f = None"
  have "List.find (\<lambda>f. f_id f = x \<and> f_deleted f = None) (files d) = Some f"
    using f keys_okD(3) [OF struct_invD(1) [OF db_invD(1) [OF assms]]]
    by (cases "List.find (\<lambda>f. f_id f = x \<and> f_deleted f = None) (files d)")
      (auto simp: find_None_iff dest!: find_SomeD intro: key_unique)
  then show "file_Get d x = Inr f" by (simp add: file_Get_def scanFile_def)
qed (simp add: file_Get_SomeD)

lemma file_Get_error: "file_Get d x = Inl e \<Longrightarrow> e = File file_ErrNotFound"
  by (simp add: file_Get_def scanFile_def split: option.splits)

lemma IsSelfOrDescendant_eq:
  assumes "db_inv d"
  shows "IsSelfOrDescendant d a b = Inr (b \<in> descendants (folders d) a)"
  using subtreeCTE_total [OF struct_invD(3) [OF db_invD(1) [OF assms]], of a]
  by (auto simp: IsSelfOrDescendant_def subtreeCTE_set)

section \<open>The contract of the ports\<close>

locale share_ports =
  fixes s :: ShareService
  assumes getForShare: "sh_getForShare s d x = Inr info \<Longrightarrow>
      \<exists>f. file_Get d x = Inr f \<and> fi_id info = x \<and> fi_name info = f_name f \<and> fi_latest info = f_latest f"
    and liveFileOrg: "sh_liveFileOrg s d x = Inr g \<longleftrightarrow> (\<exists>f. file_Get d x = Inr f \<and> f_org f = g)"
    and liveFileFolder: "sh_liveFileFolder s d x = Inr g \<longleftrightarrow> (\<exists>f. file_Get d x = Inr f \<and> f_folder f = g)"
    and descendant: "db_inv d \<Longrightarrow> sh_isSelfOrDescendant s d a b = Inr (b \<in> descendants (folders d) a)"
    and getFolder: "sh_getFolder s d x = Inr fd \<Longrightarrow> \<exists>f. folder_Get d x = Inr f \<and> fd = \<lparr>fd_id = x, fd_name = fo_name f\<rparr>"
    and plan: "sh_plan s d x v = Inr p \<Longrightarrow> map dp_hash p = map snd (GetVersionChunks d v)"
begin

lemma covers:
  assumes "db_inv d"
  shows "in_scope d l x \<Longrightarrow> share_covers s d l x = Inr True"
    and "\<not> in_scope d l x \<Longrightarrow> share_covers s d l x = Inr False \<or> share_covers s d l x = Inl (Sharing ErrNotInShare)"
proof -
  have "(in_scope d l x \<longrightarrow> share_covers s d l x = Inr True) \<and>
    (\<not> in_scope d l x \<longrightarrow> share_covers s d l x = Inr False \<or> share_covers s d l x = Inl (Sharing ErrNotInShare))"
  proof (cases "sl_file l")
    case None
    show ?thesis
    proof (cases "sl_folder l")
      case (Some g)
      show ?thesis
      proof (cases "file_Get d x")
        case (Inl e)
        then have "\<nexists>y. sh_liveFileFolder s d x = Inr y" by (simp add: liveFileFolder)
        then obtain e' where "sh_liveFileFolder s d x = Inl e'" by (cases "sh_liveFileFolder s d x") auto
        moreover have "\<not> in_scope d l x" using Inl None Some file_Get_iff [OF assms, of x] by (auto simp: in_scope_def)
        ultimately show ?thesis using None Some by (simp add: share_covers_def)
      next
        case (Inr f)
        then have "sh_liveFileFolder s d x = Inr (f_folder f)" by (simp add: liveFileFolder)
        moreover have "in_scope d l x \<longleftrightarrow> f_folder f \<in> descendants (folders d) g"
        proof -
          have f: "f' \<in> set (files d) \<and> f_id f' = x \<and> f_deleted f' = None \<longleftrightarrow> f' = f" for f'
            using file_Get_iff [OF assms, of x f'] Inr by auto
          have "in_scope d l x \<longleftrightarrow>
              (\<exists>f'. (f' \<in> set (files d) \<and> f_id f' = x \<and> f_deleted f' = None) \<and> f_folder f' \<in> descendants (folders d) g)"
            using None Some by (auto simp: in_scope_def)
          then show ?thesis unfolding f by simp
        qed
        ultimately show ?thesis using None Some descendant [OF assms] by (simp add: share_covers_def)
      qed
    qed (auto simp: None in_scope_def share_covers_def IsBundleMember_def)
  qed (auto simp: in_scope_def share_covers_def)
  then show "in_scope d l x \<Longrightarrow> share_covers s d l x = Inr True"
    and "\<not> in_scope d l x \<Longrightarrow> share_covers s d l x = Inr False \<or> share_covers s d l x = Inl (Sharing ErrNotInShare)"
    by blast+
qed

lemma outside:
  assumes "db_inv d" and "liveLink now d token = Inr l" and "\<not> in_scope d l x"
  shows "ResolveDownloadPlan s now d token x = Inl (Sharing ErrNotInShare)"
  using covers(2) [OF assms(1,3)] assms(2) by (auto simp: ResolveDownloadPlan_def)

lemma filePlan_ok:
  assumes "filePlan s d x = Inr (info, p)"
  obtains f v where "file_Get d x = Inr f" and "f_latest f = Some v" and "fi_id info = x" and "fi_name info = f_name f"
    and "map dp_hash p = map snd (GetVersionChunks d v)"
proof -
  obtain v where v: "sh_getForShare s d x = Inr info" "fi_latest info = Some v" "sh_plan s d (fi_id info) v = Inr p"
    using assms by (auto simp: filePlan_def split: sum.splits option.splits)
  obtain f where "file_Get d x = Inr f" "fi_id info = x" "fi_name info = f_name f" "fi_latest info = f_latest f"
    using getForShare [OF v(1)] by blast
  then show thesis using that [of f v] v(2) plan [OF v(3)] by simp
qed

lemma download_scope:
  assumes "db_inv d" and "ResolveDownloadPlan s now d token x = Inr (info, p)"
  obtains l f v where "liveLink now d token = Inr l" and "in_scope d l x" and "file_Get d x = Inr f"
    and "f_latest f = Some v" and "fi_id info = x" and "fi_name info = f_name f"
    and "map dp_hash p = map snd (GetVersionChunks d v)"
proof -
  obtain l where l: "liveLink now d token = Inr l" "share_covers s d l x = Inr True" "filePlan s d x = Inr (info, p)"
    using assms(2) by (auto simp: ResolveDownloadPlan_def split: sum.splits if_splits)
  have sc: "in_scope d l x" using covers(2) [OF assms(1)] l(2) by fastforce
  show thesis using filePlan_ok [OF l(3)] that [OF l(1) sc] by blast
qed

lemma children_scope:
  assumes "db_inv d" and "liveLink now d token = Inr l"
  shows "ResolveFolderChildren s now d token g =
    (if sl_file l = None \<and> (\<exists>r. sl_folder l = Some r \<and> g \<in> descendants (folders d) r) then folderListing s d g
     else Inl (Sharing ErrNotInShare))"
  using assms by (auto simp: ResolveFolderChildren_def share_Kind_def descendant split: option.splits)

end

lemma GetForShare_ok:
  assumes "GetForShare d x = Inr info"
  shows "\<exists>f. file_Get d x = Inr f \<and> fi_id info = x \<and> fi_name info = f_name f \<and> fi_latest info = f_latest f"
  using assms by (auto simp: GetForShare_def split: sum.splits option.splits dest: file_Get_SomeD)

interpretation share_wired: share_ports "wired_share collate sign now rt"
proof unfold_locales
  fix d x v p
  assume "sh_plan (wired_share collate sign now rt) d x v = Inr p"
  then show "map dp_hash p = map snd (GetVersionChunks d v)"
    by (auto simp: wired_share_def DownloadPlan_def comp_def case_prod_beta split: sum.splits)
qed (auto simp: wired_share_def LiveFileOrg_def LiveFileFolder_def GetFolderForShare_def
    IsSelfOrDescendant_eq GetForShare_ok split: sum.splits dest: folder_Get_SomeD)

section \<open>Properties\<close>

lemma in_scope_org:
  assumes inv: "db_inv d" and ok: "shares_ok d" and l: "l \<in> set (share_links d)"
    and sc: "in_scope d l x" and f: "f \<in> set (files d)" "f_id f = x" "f_deleted f = None"
  shows "f_org f = sl_org l"
proof -
  note si = db_invD(1) [OF inv]
  note keys = keys_okD [OF struct_invD(1) [OF si]]
  have org: "f_org f = g" if "file_in_org (files d) g x" for g
    using that f key_unique [OF keys(3)] by (auto simp: file_in_org_def)
  consider (a) y where "sl_file l = Some y" | (b) g where "sl_file l = None" "sl_folder l = Some g"
    | (c) "sl_file l = None" "sl_folder l = None" by fastforce
  then show ?thesis
  proof cases
    case a
    then show ?thesis using org shares_okD(3) [OF ok l] sc by (simp add: in_scope_def link_ok_def)
  next
    case b
    obtain f' where f': "f' \<in> set (files d)" "f_id f' = x" "f_folder f' \<in> descendants (folders d) g"
      using sc b by (auto simp: in_scope_def)
    then have "f' = f" using f key_unique [OF keys(3)] by blast
    moreover obtain h where h: "h \<in> set (folders d)" "fo_id h = g" "fo_org h = sl_org l"
      using shares_okD(3) [OF ok l] b by (auto simp: link_ok_def folder_in_org_def)
    moreover obtain k where "k \<in> set (folders d)" "fo_id k = f_folder f" "fo_org k = f_org f"
      using struct_invD(5) [OF si] f(1) by (auto simp: files_ok_def folder_in_org_def)
    ultimately show ?thesis
      using descendants_org [OF keys(2) struct_invD(2) [OF si], of h k] f'(3) by simp
  next
    case c
    then have "(sl_id l, x) \<in> set (share_link_files d)" using sc by (simp add: in_scope_def)
    then obtain k where "k \<in> set (share_links d)" "sl_id k = sl_id l" "file_in_org (files d) (sl_org k) x"
      using shares_okD(4) [OF ok] by blast
    then show ?thesis using org key_unique [OF shares_okD(1) [OF ok]] l by blast
  qed
qed

text \<open>C23: a share link gives nothing beyond its scope. When the public download route answers with a
  plan, the token is that of an unexpired link, the file is live, belongs to the link's
  organization and is covered by the link (its file, a member of its bundle, or in the subtree of
  its folder), and the plan lists the chunks of the file's latest version.\<close>

theorem shared_download_in_scope:
  assumes "db_inv d" and "shares_ok d"
    and "ResolveDownloadPlan (wired_share collate sign now rt) now d token x = Inr (info, plan)"
  shows "\<exists>l \<in> set (share_links d). \<exists>f \<in> set (files d). \<exists>v.
     sl_token l = token \<and> link_live now l \<and> in_scope d l x \<and>
     f_id f = x \<and> f_deleted f = None \<and> f_org f = sl_org l \<and> f_latest f = Some v \<and>
     fi_id info = x \<and> fi_name info = f_name f \<and> map dp_hash plan = map snd (GetVersionChunks d v)"
proof -
  obtain l f v where l: "liveLink now d token = Inr l" "in_scope d l x" and f: "file_Get d x = Inr f"
    and v: "f_latest f = Some v" "fi_id info = x" "fi_name info = f_name f" "map dp_hash plan = map snd (GetVersionChunks d v)"
    using share_wired.download_scope [OF assms(1,3)] by blast
  note l' = liveLinkD [OF l(1)] and f' = file_Get_SomeD [OF f]
  then have "f_org f = sl_org l" using in_scope_org [OF assms(1,2) _ l(2)] by simp
  then show ?thesis using l' f' l(2) v by blast
qed

text \<open>C24: a visitor cannot probe for items outside the share. For a live link, the download route
  answers an item outside the link's scope, and the listing route a folder outside the shared
  subtree, with one and the same 404, whether or not such a row exists.\<close>

theorem share_hides_outside:
  assumes "db_inv d" and "liveLink now d token = Inr l"
  shows "(\<not> in_scope d l x \<longrightarrow> share_handler_DownloadPlan (wired_share collate sign now rt) now d token x =
      WriteError http_ErrNotFound ''no such item in this share'') \<and>
    (\<not> (sl_file l = None \<and> (\<exists>r. sl_folder l = Some r \<and> g \<in> descendants (folders d) r)) \<longrightarrow>
      share_handler_Children (wired_share collate sign now rt) now d token g =
      WriteError http_ErrNotFound ''no such item in this share'')"
  using share_wired.outside [OF assms, of x collate sign now rt]
    share_wired.children_scope [OF assms, of collate sign now rt g]
  by (auto simp: share_handler_DownloadPlan_def share_handler_Children_def writeShareError_def)

text \<open>Revocation is immediate and confined. \<^verbatim>\<open>DELETE /v1/shares/{token}\<close> by a member of the
  link's organization makes every public read of the token answer 404; by anyone else it answers 403
  and changes nothing. No other link changes, and no other table does.\<close>

theorem share_revocation:
  assumes ok: "shares_ok d"
  shows "case share_handler_Delete IsMember userID token d of (resp, d') \<Rightarrow>
     (case List.find (\<lambda>l. sl_token l = token) (share_links d) of
        None \<Rightarrow> resp = NoContent \<and> d' = d
      | Some l \<Rightarrow>
          if is_member d (sl_org l) userID then
            resp = NoContent \<and>
            share_handler_Resolve s now d' token = WriteError http_ErrNotFound ''share link not found'' \<and>
            share_handler_Children s now d' token g = WriteError http_ErrNotFound ''share link not found'' \<and>
            share_handler_DownloadPlan s now d' token x = WriteError http_ErrNotFound ''share link not found''
          else resp = WriteError http_ErrForbidden ''not a member of this organization'' \<and> d' = d) \<and>
     (\<forall>k \<in> set (share_links d). sl_token k \<noteq> token \<longrightarrow>
        GetByToken d' (sl_token k) = Inr k \<and> BundleFileIDs d' (sl_id k) = BundleFileIDs d (sl_id k)) \<and>
     d'\<lparr>share_links := [], share_link_files := []\<rparr> = d\<lparr>share_links := [], share_link_files := []\<rparr>"
proof -
  note tok = shares_okD(2) [OF ok] and ids = shares_okD(1) [OF ok]
  show ?thesis
  proof (cases "List.find (\<lambda>l. sl_token l = token) (share_links d)")
    case None
    then show ?thesis
      using find_key [OF tok] by (simp add: share_handler_Delete_def GetByToken_def scanShare_def)
  next
    case (Some l)
    note l = find_SomeD [OF Some]
    let ?d = "share_Delete token d"
    have links: "share_links ?d = delete_where (\<lambda>l. sl_token l = token) (share_links d)"
      by (simp add: share_Delete_def delete_shares_def Let_def)
    have gone: "GetByToken ?d token = Inl (Sharing sharing_ErrNotFound)"
      by (simp add: GetByToken_def scanShare_def links find_None_iff [THEN iffD2])
    have only: "k = l" if "k \<in> set (share_links d)" "sl_token k = token" for k
      using key_unique [OF tok that(1)] l that(2) by blast
    have mem: "share_link_files ?d = delete_where (\<lambda>(s, _). s = sl_id l) (share_link_files d)"
    proof -
      have "s \<in> sl_id ` {k \<in> set (share_links d). sl_token k = token} \<longleftrightarrow> s = sl_id l" for s
        using only l by auto
      then show ?thesis by (simp add: share_Delete_def delete_shares_def Let_def)
    qed
    have kept: "GetByToken ?d (sl_token k) = Inr k \<and> BundleFileIDs ?d (sl_id k) = BundleFileIDs d (sl_id k)"
      if k: "k \<in> set (share_links d)" "sl_token k \<noteq> token" for k
    proof -
      have "sl_id k \<noteq> sl_id l" using key_unique [OF ids k(1)] l k(2) by blast
      then have "BundleFileIDs ?d (sl_id k) = BundleFileIDs d (sl_id k)"
        by (auto simp: BundleFileIDs_def mem delete_where_def intro!: arg_cong [of _ _ "map snd"] filter_cong)
      moreover have "List.find (\<lambda>l. sl_token l = sl_token k) (share_links ?d) = Some k"
        using k by (intro find_key) (auto simp: links distinct_delete_where tok)
      ultimately show ?thesis by (simp add: GetByToken_def scanShare_def)
    qed
    have rest: "?d\<lparr>share_links := [], share_link_files := []\<rparr> = d\<lparr>share_links := [], share_link_files := []\<rparr>"
      by (simp add: share_Delete_def delete_shares_def Let_def)
    show ?thesis
      using Some gone kept rest find_key [OF tok]
      by (simp add: share_handler_Delete_def IsMember_eq GetByToken_def [of d token] scanShare_def share_handler_Resolve_def
          share_Resolve_def liveLink_def share_handler_Children_def ResolveFolderChildren_def
          share_handler_DownloadPlan_def ResolveDownloadPlan_def writeShareError_def)
         (simp add: GetByToken_def scanShare_def)
  qed
qed

text \<open>The ids kept by the deduplication loop.\<close>

lemma set_unique_ids: "set (unique_ids seen ids) = set ids - {''''} - set seen"
  by (induction ids arbitrary: seen) auto

lemma distinct_unique_ids: "distinct (unique_ids seen ids)"
  by (induction ids arbitrary: seen) (auto simp: set_unique_ids)

lemma GetForShare_succeeds:
  assumes "db_inv d" and "file_Get d x = Inr f"
  shows "\<exists>info. GetForShare d x = Inr info \<and> fi_id info = x"
proof (cases "f_latest f")
  case (Some v)
  note f = file_Get_SomeD [OF assms(2)]
  then obtain w where w: "w \<in> set (file_versions d)" "v_id w = v" "v_file w = f_id f"
    using struct_invD(5) [OF db_invD(1) [OF assms(1)]] Some by (auto simp: files_ok_def)
  then obtain u where "List.find (\<lambda>k. v_id k = v \<and> v_file k = f_id f) (file_versions d) = Some u"
    by (cases "List.find (\<lambda>k. v_id k = v \<and> v_file k = f_id f) (file_versions d)") (auto simp: find_None_iff)
  then show ?thesis using assms(2) Some f by (simp add: GetForShare_def GetVersion_def scanVersion_def)
qed (use assms in \<open>auto simp: GetForShare_def dest: file_Get_SomeD\<close>)

lemma shared_files_all:
  assumes "\<forall>x \<in> set xs. \<exists>info. sh_getForShare s d x = Inr info \<and> fi_id info = x"
  shows "map fi_id (shared_files s d xs) = xs"
  using assms by (induction xs) auto

lemma bundle_listed:
  assumes "db_inv d" and tables: "files d' = files d" "file_versions d' = file_versions d"
    and "liveLink t d' token = Inr l" and "sl_file l = None" and "sl_folder l = None"
    and "BundleFileIDs d' (sl_id l) = xs" and live: "\<forall>x \<in> set xs. \<exists>f. file_Get d x = Inr f \<and> f_org f = g"
  shows "\<exists>infos. share_Resolve (wired_share collate sign now rt) t d' token = Inr (ResolvedBundle infos) \<and> map fi_id infos = xs"
proof -
  have "GetForShare d' x = GetForShare d x" for x
    by (simp only: GetForShare_def file_Get_def GetVersion_def tables)
  then have "map fi_id (shared_files (wired_share collate sign now rt) d' xs) = xs"
    using live GetForShare_succeeds [OF assms(1)] by (intro shared_files_all) (auto simp: wired_share_def)
  then show ?thesis using assms by (simp add: share_Resolve_def)
qed

lemma new_members_only:
  assumes "shares_ok d" and "\<forall>l \<in> set (share_links d). sl_id l \<noteq> uuid"
  shows "(uuid, x) \<notin> set (share_link_files d)"
  using shares_okD(4) [OF assms(1), of uuid x] assms(2) by blast

text \<open>The state after a link is stored, for a fresh id and token.\<close>

definition new_link :: "id \<Rightarrow> byte list \<Rightarrow> time \<Rightarrow> id \<Rightarrow> id list \<Rightarrow> id \<Rightarrow> time option \<Rightarrow> ShareLink" where
  "new_link uuid random now orgID xs userID ex =
     \<lparr>sl_id = uuid, sl_org = orgID, sl_file = (if length xs = 1 then Some (hd xs) else None), sl_folder = None,
      sl_token = newToken random, sl_by = userID, sl_expires = ex, sl_created = now\<rparr>"

lemma CreateBundleShare_eq:
  assumes ok: "shares_ok d" and fresh: "\<forall>l \<in> set (share_links d). sl_id l \<noteq> uuid \<and> sl_token l \<noteq> newToken random"
    and refs: "has_org d orgID" "has_user d userID" and ne: "unique_ids [] ids \<noteq> []"
    and live: "\<forall>x \<in> set (unique_ids [] ids). \<exists>f. file_Get d x = Inr f \<and> f_org f = orgID"
  shows "CreateBundleShare (wired_share collate sign now rt) uuid random now orgID ids userID ex d =
    (Inr (new_link uuid random now orgID (unique_ids [] ids) userID ex),
     d\<lparr>share_links := share_links d @ [new_link uuid random now orgID (unique_ids [] ids) userID ex],
       share_link_files := share_link_files d @ (if length (unique_ids [] ids) = 1 then [] else map (Pair uuid) (unique_ids [] ids))\<rparr>)"
proof -
  let ?u = "unique_ids [] ids" and ?s = "wired_share collate sign now rt"
  let ?l = "new_link uuid random now orgID ?u userID ex"
  have all: "list_all (\<lambda>x. sh_liveFileOrg ?s d x = Inr orgID) ?u"
    using live by (auto simp: list_all_iff share_wired.liveFileOrg)
  have isfile: "has_file d x" if "x \<in> set ?u" for x
    using live that by (fastforce simp: has_file_def dest: file_Get_SomeD)
  have fr: "\<not> (\<exists>k \<in> set (share_links d). sl_id k = uuid \<or> sl_token k = newToken random)" using fresh by blast
  show ?thesis
  proof (cases "length ?u = 1")
    case True
    then have "insert_share ?l d = Inr (?l, d\<lparr>share_links := share_links d @ [?l]\<rparr>)"
      using fr refs isfile [of "hd ?u"] ne by (simp add: insert_share_def new_link_def)
    then show ?thesis
      using True ne all by (simp add: CreateBundleShare_def CreateFileShare_def transaction_def new_link_def Let_def)
  next
    case False
    let ?d1 = "d\<lparr>share_links := share_links d @ [?l]\<rparr>"
    have ins: "insert_share ?l d = Inr (?l, ?d1)" using fr refs False by (simp add: insert_share_def new_link_def)
    have "insert_members uuid ?u ?d1 = Inr (?d1\<lparr>share_link_files := share_link_files ?d1 @ map (Pair uuid) ?u\<rparr>)"
      using isfile new_members_only [OF ok, of uuid] fresh
      by (intro insert_members_succeeds distinct_unique_ids) (auto simp: has_file_def)
    then show ?thesis
      using False ne all ins
      by (simp add: CreateBundleShare_def repo_CreateBundleShare_def transaction_def new_link_def Let_def)
  qed
qed

lemma CreateBundleShare_refused:
  fixes collate sign now rt
  defines "s \<equiv> wired_share collate sign now rt"
  shows "set ids \<subseteq> {''''} \<Longrightarrow> CreateBundleShare s uuid random now orgID ids userID ex d = (Inl (Sharing ErrEmptyBundle), d)"
    and "\<not> set ids \<subseteq> {''''} \<Longrightarrow> \<exists>x \<in> set ids - {''''}. \<nexists>f. file_Get d x = Inr f \<and> f_org f = orgID \<Longrightarrow>
      CreateBundleShare s uuid random now orgID ids userID ex d = (Inl (Sharing ErrFileNotShareable), d)"
proof -
  have e: "unique_ids [] ids = [] \<longleftrightarrow> set ids \<subseteq> {''''}"
    using set_unique_ids [of "[]" ids] by (auto simp flip: set_empty)
  show "set ids \<subseteq> {''''} \<Longrightarrow> CreateBundleShare s uuid random now orgID ids userID ex d = (Inl (Sharing ErrEmptyBundle), d)"
    using e by (simp add: CreateBundleShare_def)
  assume ne: "\<not> set ids \<subseteq> {''''}" and bad: "\<exists>x \<in> set ids - {''''}. \<nexists>f. file_Get d x = Inr f \<and> f_org f = orgID"
  have "\<not> list_all (\<lambda>x. sh_liveFileOrg s d x = Inr orgID) (unique_ids [] ids)"
    using bad by (auto simp: list_all_iff set_unique_ids s_def share_wired.liveFileOrg)
  then show "CreateBundleShare s uuid random now orgID ids userID ex d = (Inl (Sharing ErrFileNotShareable), d)"
    using ne e by (simp add: CreateBundleShare_def)
qed

text \<open>Creating a bundle link gives a link to exactly the chosen files. With a fresh id and token,
  \<^verbatim>\<open>CreateBundleShare\<close> refuses an empty selection and one with a file that is missing, trashed or
  foreign, and writes nothing then; otherwise the stored link is found by its token, covers exactly
  the selected files, keeps the share tables sound, and while it lives \<^verbatim>\<open>Resolve\<close> lists those
  files in the order of their first mention, unless there is only one.\<close>

theorem CreateBundleShare_resolves:
  assumes inv: "db_inv d" and ok: "shares_ok d"
    and fresh: "\<forall>l \<in> set (share_links d). sl_id l \<noteq> uuid \<and> sl_token l \<noteq> newToken random"
    and refs: "has_org d orgID" "has_user d userID"
  shows "case CreateBundleShare (wired_share collate sign now rt) uuid random now orgID ids userID ex d of (r, d') \<Rightarrow>
     if set ids \<subseteq> {''''} then r = Inl (Sharing ErrEmptyBundle) \<and> d' = d
     else if \<exists>x \<in> set ids - {''''}. \<nexists>f. f \<in> set (files d) \<and> f_id f = x \<and> f_deleted f = None \<and> f_org f = orgID
       then r = Inl (Sharing ErrFileNotShareable) \<and> d' = d
     else \<exists>l. r = Inr l \<and> sl_org l = orgID \<and> sl_expires l = ex \<and> GetByToken d' (newToken random) = Inr l \<and> shares_ok d' \<and>
       (\<forall>x. in_scope d' l x \<longleftrightarrow> x \<in> set ids - {''''}) \<and>
       (\<forall>t. link_live t l \<longrightarrow> length (unique_ids [] ids) \<noteq> 1 \<longrightarrow>
          (\<exists>infos. share_Resolve (wired_share collate sign now rt) t d' (newToken random) = Inr (ResolvedBundle infos) \<and>
             map fi_id infos = unique_ids [] ids))"
proof -
  let ?s = "wired_share collate sign now rt" and ?u = "unique_ids [] ids"
  let ?l = "new_link uuid random now orgID ?u userID ex"
  have live: "(\<exists>f. file_Get d x = Inr f \<and> f_org f = orgID) \<longleftrightarrow>
      (\<exists>f. f \<in> set (files d) \<and> f_id f = x \<and> f_deleted f = None \<and> f_org f = orgID)" for x
    by (auto simp: file_Get_iff [OF inv])
  have set_u: "set ?u = set ids - {''''}" by (simp add: set_unique_ids)
  show ?thesis
  proof (cases "set ids \<subseteq> {''''} \<or> (\<exists>x \<in> set ids - {''''}. \<nexists>f. file_Get d x = Inr f \<and> f_org f = orgID)")
    case True
    show ?thesis
    proof (cases "set ids \<subseteq> {''''}")
      case False
      then have bad: "\<exists>x \<in> set ids - {''''}. \<nexists>f. file_Get d x = Inr f \<and> f_org f = orgID" using True by blast
      show ?thesis unfolding CreateBundleShare_refused(2) [OF False bad] using False bad unfolding live by simp
    qed (simp add: CreateBundleShare_refused(1))
  next
    case False
    then have all: "\<forall>x \<in> set ?u. \<exists>f. file_Get d x = Inr f \<and> f_org f = orgID" and ne: "?u \<noteq> []"
      using set_u by (blast, auto)
    define d' where "d' = d\<lparr>share_links := share_links d @ [?l],
      share_link_files := share_link_files d @ (if length ?u = 1 then [] else map (Pair uuid) ?u)\<rparr>"
    have run: "CreateBundleShare ?s uuid random now orgID ids userID ex d = (Inr ?l, d')"
      unfolding d'_def by (rule CreateBundleShare_eq [OF ok fresh refs ne all])
    have tables: "files d' = files d" "folders d' = folders d" "file_versions d' = file_versions d" by (simp_all add: d'_def)
    have inorg: "file_in_org (files d) orgID x" if "x \<in> set ?u" for x
      using all that by (fastforce simp: file_in_org_def dest: file_Get_SomeD)
    have u1: "length ?u = 1 \<Longrightarrow> set ?u = {hd ?u}" by (cases ?u) auto
    have tok: "GetByToken d' (newToken random) = Inr ?l"
      using fresh by (simp add: GetByToken_def scanShare_def d'_def find_append_rows new_link_def find_None_iff [THEN iffD2])
    have ok': "shares_ok d'"
      using ok inorg fresh ne
      by (auto simp: shares_ok_def d'_def new_link_def link_ok_def)
    have scope: "in_scope d' ?l x \<longleftrightarrow> x \<in> set ?u" for x
      using u1 new_members_only [OF ok, of uuid x] fresh
      by (cases "length ?u = 1") (auto simp: in_scope_def new_link_def d'_def)
    have list: "\<exists>infos. share_Resolve ?s t d' (newToken random) = Inr (ResolvedBundle infos) \<and> map fi_id infos = ?u"
      if "link_live t ?l" "length ?u \<noteq> 1" for t
    proof (rule bundle_listed [OF inv tables(1,3)])
      show "liveLink t d' (newToken random) = Inr ?l"
        using tok that(1) by (auto simp: liveLink_def link_live_def split: option.splits)
      show "BundleFileIDs d' (sl_id ?l) = ?u"
        using that(2) new_members_only [OF ok, of uuid] fresh
        by (auto simp: BundleFileIDs_def d'_def new_link_def filter_empty_conv comp_def)
    qed (use that all in \<open>auto simp: new_link_def\<close>)
    show ?thesis using False run tok ok' scope list unfolding live set_u by (simp add: new_link_def)
  qed
qed

text \<open>Links written by the handlers carry the parsed expiry.\<close>

lemma parseCreateShare_ok:
  "parseCreateShare now body = Inr (req, t) \<Longrightarrow> now < t \<and> t \<le> now + maxShareTTL"
  by (auto simp: parseCreateShare_def split: option.splits json_field.splits if_splits)

lemma insert_share_links:
  "insert_share l d = Inr (k, d') \<Longrightarrow> set (share_links d') = insert l (set (share_links d))"
  by (auto simp: insert_share_def split: if_splits)

lemma CreateFileShare_links:
  "CreateFileShare uuid random now orgID fid u ex d = (r, d') \<Longrightarrow> l \<in> set (share_links d') \<Longrightarrow>
     l \<in> set (share_links d) \<or> sl_expires l = ex"
  by (auto simp: CreateFileShare_def transaction_def split: sum.splits dest!: insert_share_links)

lemma CreateFolderShare_links:
  "repo_CreateFolderShare uuid random now orgID fid u ex d = (r, d') \<Longrightarrow> l \<in> set (share_links d') \<Longrightarrow>
     l \<in> set (share_links d) \<or> sl_expires l = ex"
  by (auto simp: repo_CreateFolderShare_def transaction_def split: sum.splits dest!: insert_share_links)

lemma CreateBundleShare_links:
  "CreateBundleShare s uuid random now orgID ids u ex d = (r, d') \<Longrightarrow> l \<in> set (share_links d') \<Longrightarrow>
     l \<in> set (share_links d) \<or> sl_expires l = ex"
  by (auto simp: CreateBundleShare_def Let_def repo_CreateBundleShare_def transaction_def
      split: sum.splits if_splits dest!: insert_share_links insert_members_effect dest: CreateFileShare_links)

definition within_ttl :: "time \<Rightarrow> db \<Rightarrow> db \<Rightarrow> bool" where
  "within_ttl now d d' \<longleftrightarrow> (\<forall>l \<in> set (share_links d'). l \<in> set (share_links d) \<or>
     (\<exists>t. sl_expires l = Some t \<and> now < t \<and> t \<le> now + maxShareTTL))"

lemma within_ttlI:
  assumes "parseCreateShare now body = Inr (req, t)"
    and "\<And>l. l \<in> set (share_links d') \<Longrightarrow> l \<in> set (share_links d) \<or> sl_expires l = Some t"
  shows "within_ttl now d d'"
  using parseCreateShare_ok [OF assms(1)] assms(2) by (auto simp: within_ttl_def)

lemma within_ttl_refl: "within_ttl now d d"
  by (simp add: within_ttl_def)

text \<open>Every link dies. Whatever the request, a link that one of the three creation routes stores
  expires after now and within seven days; and once the expiry of a link is past, each public read
  of its token answers 403.\<close>

theorem share_links_expire:
  assumes "shares_ok d"
  shows "within_ttl now d (snd (share_handler_Create url uuid random now userID f body d)) \<and>
    within_ttl now d (snd (share_handler_CreateFolder url uuid random now userID g body d)) \<and>
    within_ttl now d (snd (share_handler_CreateBundle s url uuid random now userID orgID body d)) \<and>
    (\<forall>l \<in> set (share_links d). \<forall>t. sl_expires l = Some t \<longrightarrow> t < later \<longrightarrow>
      share_handler_Resolve s later d (sl_token l) = WriteError http_ErrForbidden ''share link has expired'' \<and>
      share_handler_Children s later d (sl_token l) x = WriteError http_ErrForbidden ''share link has expired'' \<and>
      share_handler_DownloadPlan s later d (sl_token l) x = WriteError http_ErrForbidden ''share link has expired'')"
proof -
  have "within_ttl now d (snd (share_handler_Create url uuid random now userID f body d))"
    by (cases "parseCreateShare now body :: (string \<times> string) response + _")
      (auto simp: share_handler_Create_def within_ttl_refl split: prod.splits sum.splits
        intro!: within_ttlI dest: CreateFileShare_links)
  moreover have "within_ttl now d (snd (share_handler_CreateFolder url uuid random now userID g body d))"
    by (cases "parseCreateShare now body :: (string \<times> string) response + _")
      (auto simp: share_handler_CreateFolder_def within_ttl_refl split: prod.splits sum.splits
        intro!: within_ttlI dest: CreateFolderShare_links)
  moreover have "within_ttl now d (snd (share_handler_CreateBundle s url uuid random now userID orgID body d))"
    by (cases "parseCreateShare now body :: (string \<times> string) response + _")
      (auto simp: share_handler_CreateBundle_def within_ttl_refl split: prod.splits sum.splits
        intro!: within_ttlI dest: CreateBundleShare_links)
  moreover have "liveLink later d (sl_token l) = Inl (Sharing ErrExpired)"
    if "l \<in> set (share_links d)" "sl_expires l = Some t" "t < later" for l t
  proof -
    have "List.find (\<lambda>k. sl_token k = sl_token l) (share_links d) = Some l"
      using find_key [OF shares_okD(2) [OF assms] that(1)] by simp
    then show ?thesis using that by (simp add: liveLink_def GetByToken_def scanShare_def)
  qed
  ultimately show ?thesis
    by (auto simp: share_handler_Resolve_def share_Resolve_def share_handler_Children_def ResolveFolderChildren_def
        share_handler_DownloadPlan_def ResolveDownloadPlan_def writeShareError_def)
qed

section \<open>A concrete share\<close>

definition sample_link :: ShareLink where
  "sample_link = \<lparr>sl_id = ''s1'', sl_org = ''o1'', sl_file = None, sl_folder = Some ''fo'', sl_token = ''tok'',
     sl_by = ''u1'', sl_expires = Some 100, sl_created = 0\<rparr>"

definition sample_share_db :: db where
  "sample_share_db = sample_located_db\<lparr>share_links := [sample_link]\<rparr>"

definition sample_shares :: ShareService where
  "sample_shares = wired_share (\<lambda>_. 0 :: nat) (\<lambda>endpoint key. Inr (endpoint @ key)) 5 sample_router"

lemma sample_share_rows:
  "files sample_share_db = [\<lparr>f_id = ''f'', f_org = ''o1'', f_folder = ''fo'', f_name = ''x.txt'', f_latest = Some ''v'',
     f_created_by = ''u1'', f_created = 3, f_updated = 3, f_deleted = None\<rparr>]"
  "folders sample_share_db = [sample_folder ''fo'' None ''Home'' None]"
  "share_links sample_share_db = [sample_link]" "share_link_files sample_share_db = []"
  "has_org sample_share_db ''o1''" "has_user sample_share_db ''u1''" "is_member sample_share_db ''o1'' ''u1''"
  "\<not> is_member sample_share_db ''o1'' ''u9''"
  by (simp_all add: sample_share_db_def sample_located_db_def CreateWithVersion_def transaction_def sample_files_db_def
      sample_db_defs has_file_def has_org_def has_folder_def has_user_def insert_version_def has_version_def has_chunk_def
      add_usage_def set_latest_def in_int64_def is_member_def)

lemma sample_share_inv: "db_inv sample_share_db"
proof -
  have "db_inv (snd (CreateWithVersion ''f'' ''v'' 3 ''o1'' ''fo'' ''x.txt'' ''u1'' 8 ''sum'' ''text'' [''h2'', ''h1''] sample_files_db))"
    by (rule CreateWithVersion_inv [OF sample_files_inv])
      (simp_all add: sample_files_db_def sample_db_defs folder_in_org_def)
  then show ?thesis
    by (simp add: sample_share_db_def sample_located_db_def db_inv_def struct_inv_def keys_ok_def)
qed

lemma sample_share_ok: "shares_ok sample_share_db"
  by (simp add: shares_ok_def sample_share_rows sample_link_def link_ok_def folder_in_org_def sample_folder_def)

lemma sample_share_link: "liveLink 5 sample_share_db ''tok'' = Inr sample_link"
  by (simp add: liveLink_def GetByToken_def scanShare_def sample_share_rows sample_link_def)

lemma sample_share_scope: "in_scope sample_share_db sample_link x \<longleftrightarrow> x = ''f''"
  by (auto simp: in_scope_def sample_link_def sample_share_rows descendants_def sample_folder_def)

theorem shared_download_in_scope_witness:
  "\<exists>info plan. ResolveDownloadPlan sample_shares 5 sample_share_db ''tok'' ''f'' = Inr (info, plan) \<and>
     map dp_hash plan = [''h2'', ''h1''] \<and> f_org (hd (files sample_share_db)) = sl_org sample_link"
proof -
  have cs: "GetVersionChunks sample_share_db ''v'' = [(0, ''h2''), (1, ''h1'')]"
    by (simp add: sample_share_db_def sample_located_db_def CreateWithVersion_def transaction_def sample_files_db_def
        sample_db_defs has_file_def has_org_def has_folder_def has_user_def insert_version_def has_version_def
        has_chunk_def add_usage_def set_latest_def in_int64_def GetVersionChunks_def)
  have fg: "file_Get sample_share_db ''f'' = Inr (hd (files sample_share_db))"
    by (simp add: file_Get_def scanFile_def sample_share_rows)
  then obtain info where info: "GetForShare sample_share_db ''f'' = Inr info" "fi_id info = ''f''"
    using GetForShare_succeeds [OF sample_share_inv] by blast
  then have lv: "fi_latest info = Some ''v''" using GetForShare_ok [OF info(1)] fg by (simp add: sample_share_rows)
  obtain w where "GetVersion sample_share_db ''f'' ''v'' = Inr w"
    using info(1) fg by (auto simp: GetForShare_def sample_share_rows split: sum.splits)
  then obtain plan where plan: "sh_plan sample_shares sample_share_db ''f'' ''v'' = Inr plan"
    by (simp add: sample_shares_def wired_share_def DownloadPlan_def)
  have "share_covers sample_shares sample_share_db sample_link ''f'' = Inr True"
    unfolding sample_shares_def by (rule share_wired.covers(1) [OF sample_share_inv]) (simp add: sample_share_scope)
  then have run: "ResolveDownloadPlan sample_shares 5 sample_share_db ''tok'' ''f'' = Inr (info, plan)"
    using info lv plan by (simp add: ResolveDownloadPlan_def sample_share_link filePlan_def sample_shares_def wired_share_def)
  show ?thesis
    using shared_download_in_scope [OF sample_share_inv sample_share_ok run [unfolded sample_shares_def]] run cs
    by (auto simp: sample_share_rows)
qed

theorem share_hides_outside_witness:
  "share_handler_DownloadPlan sample_shares 5 sample_share_db ''tok'' ''g'' =
     WriteError http_ErrNotFound ''no such item in this share'' \<and>
   share_handler_Children sample_shares 5 sample_share_db ''tok'' ''q'' =
     WriteError http_ErrNotFound ''no such item in this share''"
proof -
  have "parent_rel (folders sample_share_db) = {}"
    by (simp add: parent_rel_def sample_share_rows sample_folder_def)
  then have q: "''q'' \<notin> descendants (folders sample_share_db) ''fo''" by (simp add: descendants_def)
  have fo: "sl_folder sample_link = Some ''fo''" by (simp add: sample_link_def)
  show ?thesis
    unfolding sample_shares_def
    using share_hides_outside [OF sample_share_inv sample_share_link, where x = "''g''" and g = "''q''"
        and collate = "\<lambda>_. 0 :: nat" and sign = "\<lambda>endpoint key. Inr (endpoint @ key)" and rt = sample_router]
    by (simp add: sample_share_scope fo q)
qed

theorem share_revocation_witness:
  "fst (share_handler_Delete IsMember ''u9'' ''tok'' sample_share_db) =
     WriteError http_ErrForbidden ''not a member of this organization'' \<and>
   share_handler_DownloadPlan sample_shares 5 (snd (share_handler_Delete IsMember ''u1'' ''tok'' sample_share_db)) ''tok'' ''f'' =
     WriteError http_ErrNotFound ''share link not found''"
  using share_revocation [OF sample_share_ok, where userID = "''u1''" and token = "''tok''" and s = sample_shares
      and now = 5 and x = "''f''" and g = "''q''"]
    share_revocation [OF sample_share_ok, where userID = "''u9''" and token = "''tok''" and s = sample_shares
      and now = 5 and x = "''f''" and g = "''q''"]
  by (auto simp: sample_share_rows sample_link_def split: prod.splits)

theorem CreateBundleShare_resolves_witness:
  "fst (CreateBundleShare sample_shares ''s2'' [] 5 ''o1'' [''f'', ''g''] ''u1'' (Some 50) sample_share_db) =
     Inl (Sharing ErrFileNotShareable) \<and>
   (\<exists>l d'. CreateBundleShare sample_shares ''s2'' [] 5 ''o1'' [''f'', '''', ''f''] ''u1'' (Some 50) sample_share_db = (Inr l, d') \<and>
      (\<forall>x. in_scope d' l x \<longleftrightarrow> x = ''f''))"
proof -
  have fresh: "\<forall>l \<in> set (share_links sample_share_db). sl_id l \<noteq> ''s2'' \<and> sl_token l \<noteq> newToken []"
    by (simp add: sample_share_rows sample_link_def newToken_def)
  note p = CreateBundleShare_resolves [OF sample_share_inv sample_share_ok fresh sample_share_rows(5,6),
      where collate = "\<lambda>_. 0 :: nat" and sign = "\<lambda>endpoint key. Inr (endpoint @ key)" and rt = sample_router
        and now = 5 and ex = "Some 50", folded sample_shares_def]
  have ids: "set [''f'', '''', ''f''] - {''''} = {''f''}" by auto
  show ?thesis
    using p [where ids = "[''f'', ''g'']"] p [where ids = "[''f'', '''', ''f'']", unfolded ids]
    by (auto simp: sample_share_rows split: prod.splits)
qed

theorem share_links_expire_witness:
  "share_handler_Resolve sample_shares 101 sample_share_db ''tok'' =
     WriteError http_ErrForbidden ''share link has expired''"
  using share_links_expire [OF sample_share_ok, where s = sample_shares and later = 101]
  by (simp add: sample_share_rows sample_link_def)

section \<open>Trashed items behind a link\<close>

text \<open>A file link whose file was trashed answers 500: the lookup's \<^verbatim>\<open>file.ErrNotFound\<close> is none of
  the errors that \<^verbatim>\<open>writeShareError\<close> maps.\<close>

lemma trashed_file_share_internal:
  assumes "liveLink now d token = Inr l" and "sl_file l = Some x" and "file_Get d x = Inl e"
  shows "share_handler_Resolve (wired_share collate sign now rt) now d token =
    WriteError http_ErrInternal ''failed to resolve share link''"
  using assms file_Get_error [OF assms(3)]
  by (simp add: share_handler_Resolve_def share_Resolve_def filePlan_def wired_share_def GetForShare_def writeShareError_def)

text \<open>A folder link whose folder was trashed answers 404 when it is resolved, but a live file in its
  subtree, such as one restored on its own, still downloads through the link.\<close>

lemma trashed_folder_still_downloads:
  assumes "db_inv d" and "liveLink now d token = Inr l" and "sl_file l = None" and "sl_folder l = Some g"
    and "folder_Get d g = Inl e" and "in_scope d l x" and "file_Get d x = Inr f" and "f_latest f = Some v"
  shows "share_handler_Resolve (wired_share collate sign now rt) now d token = WriteError http_ErrNotFound ''share link not found''"
    and "\<exists>info plan. ResolveDownloadPlan (wired_share collate sign now rt) now d token x = Inr (info, plan)"
proof -
  show "share_handler_Resolve (wired_share collate sign now rt) now d token = WriteError http_ErrNotFound ''share link not found''"
    using assms by (simp add: share_handler_Resolve_def share_Resolve_def folderListing_def wired_share_def
        GetFolderForShare_def writeShareError_def)
  obtain info where info: "GetForShare d x = Inr info" using GetForShare_succeeds [OF assms(1,7)] by blast
  then have lv: "fi_latest info = Some v" "fi_id info = x" using GetForShare_ok [OF info] assms(7,8) by auto
  obtain w where "GetVersion d x v = Inr w"
    using info assms(7,8) file_Get_SomeD [OF assms(7)] by (auto simp: GetForShare_def split: sum.splits)
  then show "\<exists>info plan. ResolveDownloadPlan (wired_share collate sign now rt) now d token x = Inr (info, plan)"
    using share_wired.covers(1) [OF assms(1,6), of collate sign now rt] assms(2) info lv
    by (simp add: ResolveDownloadPlan_def filePlan_def wired_share_def DownloadPlan_def)
qed

end
