(* ===== verification/Sha256.thy ===== *)
theory Sha256
  imports Encoding
begin

unbundle bit_operations_syntax

text \<open>
  SHA-256 and HMAC-SHA-1 of the Go standard library (\<^verbatim>\<open>crypto/sha256\<close>, \<^verbatim>\<open>crypto/hmac\<close>): the
  digest under which session and reset tokens are stored, and the keyed digest of the one-time
  passwords.
\<close>

section \<open>SHA-256\<close>

definition sha256_k :: "32 word list" where
  "sha256_k =
    [1116352408, 1899447441, 3049323471, 3921009573, 961987163, 1508970993, 2453635748, 2870763221,
     3624381080, 310598401, 607225278, 1426881987, 1925078388, 2162078206, 2614888103, 3248222580,
     3835390401, 4022224774, 264347078, 604807628, 770255983, 1249150122, 1555081692, 1996064986,
     2554220882, 2821834349, 2952996808, 3210313671, 3336571891, 3584528711, 113926993, 338241895,
     666307205, 773529912, 1294757372, 1396182291, 1695183700, 1986661051, 2177026350, 2456956037,
     2730485921, 2820302411, 3259730800, 3345764771, 3516065817, 3600352804, 4094571909, 275423344,
     430227734, 506948616, 659060556, 883997877, 958139571, 1322822218, 1537002063, 1747873779,
     1955562222, 2024104815, 2227730452, 2361852424, 2428436474, 2756734187, 3204031479, 3329325298]"

text \<open>The schedule newest first, as for SHA-1: word \<open>t\<close> from words \<open>t-2\<close>, \<open>t-7\<close>, \<open>t-15\<close> and \<open>t-16\<close>.\<close>

definition small_sigma0 :: "32 word \<Rightarrow> 32 word" where
  "small_sigma0 w = rotl 25 w XOR rotl 14 w XOR drop_bit 3 w"

definition small_sigma1 :: "32 word \<Rightarrow> 32 word" where
  "small_sigma1 w = rotl 15 w XOR rotl 13 w XOR drop_bit 10 w"

definition big_sigma0 :: "32 word \<Rightarrow> 32 word" where
  "big_sigma0 w = rotl 30 w XOR rotl 19 w XOR rotl 10 w"

definition big_sigma1 :: "32 word \<Rightarrow> 32 word" where
  "big_sigma1 w = rotl 26 w XOR rotl 21 w XOR rotl 7 w"

fun sha256_extend :: "nat \<Rightarrow> 32 word list \<Rightarrow> 32 word list" where
  "sha256_extend 0 ws = ws"
| "sha256_extend (Suc n) ws =
     sha256_extend n ((small_sigma1 (ws ! 1) + ws ! 6 + small_sigma0 (ws ! 14) + ws ! 15) # ws)"

definition sha256_schedule :: "byte list \<Rightarrow> 32 word list" where
  "sha256_schedule block = rev (sha256_extend 48 (rev (words32 block)))"

type_synonym sha256_state =
  "32 word \<times> 32 word \<times> 32 word \<times> 32 word \<times> 32 word \<times> 32 word \<times> 32 word \<times> 32 word"

fun sha256_shift :: "32 word \<Rightarrow> 32 word \<Rightarrow> sha256_state \<Rightarrow> sha256_state" where
  "sha256_shift t1 t2 (a, b, c, d, e, f, g, h) = (t1 + t2, a, b, c, d + t1, e, f, g)"

fun sha256_rounds :: "(32 word \<times> 32 word) list \<Rightarrow> sha256_state \<Rightarrow> sha256_state" where
  "sha256_rounds [] s = s"
| "sha256_rounds ((k, w) # kws) (a, b, c, d, e, f, g, h) =
     sha256_rounds kws (sha256_shift
       (h + big_sigma1 e + ((e AND f) XOR (NOT e AND g)) + k + w)
       (big_sigma0 a + ((a AND b) XOR (a AND c) XOR (b AND c))) (a, b, c, d, e, f, g, h))"

fun sha256_block :: "sha256_state \<Rightarrow> byte list \<Rightarrow> sha256_state" where
  "sha256_block (a, b, c, d, e, f, g, h) block =
     (case sha256_rounds (zip sha256_k (sha256_schedule block)) (a, b, c, d, e, f, g, h) of
        (a', b', c', d', e', f', g', h') \<Rightarrow> (a + a', b + b', c + c', d + d', e + e', f + f', g + g', h + h'))"

text \<open>The padding is that of SHA-1.\<close>

definition sha256_Sum :: "byte list \<Rightarrow> byte list" where
  "sha256_Sum m =
     (let p = sha1_pad m in
      case foldl sha256_block (1779033703, 3144134277, 1013904242, 2773480762, 1359893119, 2600822924, 528734635, 1541459225)
             (blocks64 (length p div 64) p) of
        (a, b, c, d, e, f, g, h) \<Rightarrow>
          bytes32 a @ bytes32 b @ bytes32 c @ bytes32 d @ bytes32 e @ bytes32 f @ bytes32 g @ bytes32 h)"

lemma length_sha256_Sum: "length (sha256_Sum m) = 32"
  unfolding sha256_Sum_def Let_def by (simp only: length_append length_bytes32 split: prod.split) simp

section \<open>HMAC\<close>

text \<open>A key longer than the 64-byte block is hashed first.\<close>

definition hmac_key :: "byte list \<Rightarrow> byte list" where
  "hmac_key key = (let k = (if length key > 64 then sha1_Sum key else key) in k @ replicate (64 - length k) 0)"

definition hmac_sha1 :: "byte list \<Rightarrow> byte list \<Rightarrow> byte list" where
  "hmac_sha1 key m =
     sha1_Sum (map (\<lambda>b. b XOR 0x5c) (hmac_key key) @ sha1_Sum (map (\<lambda>b. b XOR 0x36) (hmac_key key) @ m))"

lemma length_hmac_sha1: "length (hmac_sha1 key m) = 20"
  by (simp add: hmac_sha1_def length_sha1_Sum)

end
