(* ===== verification/Totp.thy ===== *)
theory Totp
  imports Sha256
begin

unbundle bit_operations_syntax

text \<open>
  One-time passwords, \<^verbatim>\<open>internal/auth/totp.go\<close>: HOTP over the 30-second time step with a window of
  one step on either side. Times are nanoseconds since the epoch.
\<close>

definition second :: duration where
  "second = 1000000000"

text \<open>\<^verbatim>\<open>time.Unix()\<close> rounds towards minus infinity, Go's \<^verbatim>\<open>/\<close> towards zero.\<close>

definition unix :: "time \<Rightarrow> int" where
  "unix t = t div second"

definition go_div :: "int \<Rightarrow> int \<Rightarrow> int" where
  "go_div x y = sgn x * sgn y * (\<bar>x\<bar> div \<bar>y\<bar>)"

definition totpDigits :: nat where
  "totpDigits = 6"

definition totpPeriod :: duration where
  "totpPeriod = 30 * second"

definition totpSkew :: int where
  "totpSkew = 1"

definition newTOTPSecret :: "byte list \<Rightarrow> string" where
  "newTOTPSecret random = b32_encode random"

text \<open>\<^verbatim>\<open>%0*d\<close>: at least \<open>n\<close> digits.\<close>

definition zero_pad :: "nat \<Rightarrow> string \<Rightarrow> string" where
  "zero_pad n s = replicate (n - length s) (CHR ''0'') @ s"

definition totpCode :: "byte list \<Rightarrow> int \<Rightarrow> string" where
  "totpCode secret step =
     (let sum = hmac_sha1 secret (bytes64 (word_of_int step));
          offset = unat (sum ! (length sum - 1) AND 0x0f);
          code = be32 (take 4 (drop offset sum)) AND 0x7fffffff
      in zero_pad totpDigits (dec (unat code mod 1000000)))"

text \<open>The loop over the window, from \<open>-totpSkew\<close>; the comparison in constant time is equality.\<close>

fun totp_loop :: "byte list \<Rightarrow> string \<Rightarrow> int \<Rightarrow> int list \<Rightarrow> int option" where
  "totp_loop key code current [] = None"
| "totp_loop key code current (delta # ds) =
     (if totpCode key (current + delta) = code then Some (current + delta) else totp_loop key code current ds)"

definition verifyTOTP :: "string \<Rightarrow> string \<Rightarrow> time \<Rightarrow> int option" where
  "verifyTOTP secret code now =
     (case b32_decode secret of
        None \<Rightarrow> None
      | Some key \<Rightarrow> totp_loop key code (go_div (unix now) 30) [- totpSkew .. totpSkew])"

text \<open>\<^verbatim>\<open>url.PathEscape\<close>: unreserved characters and \<^verbatim>\<open>$&+=:@\<close> stay.\<close>

definition path_escape_char :: "char \<Rightarrow> string" where
  "path_escape_char c =
     (let n = of_char c :: nat
      in if 97 \<le> n \<and> n \<le> 122 \<or> 65 \<le> n \<and> n \<le> 90 \<or> 48 \<le> n \<and> n \<le> 57 \<or> c \<in> set ''-_.~$&+=:@'' then [c]
         else [CHR ''%'', ''0123456789ABCDEF'' ! (n div 16), ''0123456789ABCDEF'' ! (n mod 16)])"

definition PathEscape :: "string \<Rightarrow> string" where
  "PathEscape s = concat (map path_escape_char s)"

definition otpauthURI :: "string \<Rightarrow> string \<Rightarrow> string" where
  "otpauthURI email secret =
     ''otpauth://totp/Nimbus:'' @ PathEscape email @ ''?secret='' @ secret @
     ''&issuer=Nimbus&algorithm=SHA1&digits='' @ dec totpDigits @ ''&period='' @ dec_int (totpPeriod div second)"

section \<open>The window\<close>

lemma totp_loop_Some:
  "totp_loop key code current ds = Some s \<Longrightarrow> totpCode key s = code \<and> (\<exists>delta \<in> set ds. s = current + delta)"
  by (induction ds) (auto split: if_splits)

lemma totp_loop_None:
  "totp_loop key code current ds = None \<longleftrightarrow> (\<forall>delta \<in> set ds. totpCode key (current + delta) \<noteq> code)"
  by (induction ds) auto

text \<open>The step a code is accepted for at time \<open>t\<close> is the current one or a neighbour: the time is
  inside the 90 seconds around it.\<close>

lemma verifyTOTP_window:
  assumes "verifyTOTP secret code t = Some s" and "0 \<le> t"
  shows "(s - 1) * totpPeriod \<le> t" and "t < (s + 2) * totpPeriod"
proof -
  let ?c = "unix t div 30"
  have u: "0 \<le> unix t" using assms(2) by (simp add: unix_def second_def)
  then have "go_div (unix t) 30 = ?c" by (simp add: go_div_def sgn_if)
  then obtain d where d: "s = ?c + d" "- 1 \<le> d" "d \<le> 1"
    using assms(1) by (auto simp: verifyTOTP_def totpSkew_def split: option.splits dest!: totp_loop_Some)
  have "?c * 30 \<le> unix t" "unix t < (?c + 1) * 30" by simp_all
  moreover have "unix t * second \<le> t" "t < (unix t + 1) * second" by (simp_all add: unix_def second_def)
  ultimately show "(s - 1) * totpPeriod \<le> t" and "t < (s + 2) * totpPeriod"
    using d(2,3) unfolding d(1) totpPeriod_def second_def by (simp_all add: algebra_simps)
qed

lemma verifyTOTP_complete:
  assumes "b32_decode secret = Some key" and "0 \<le> t" and "totpCode key s = code"
    and "(s - 1) * totpPeriod \<le> t" and "t < (s + 2) * totpPeriod"
  shows "verifyTOTP secret code t \<noteq> None"
proof -
  let ?c = "unix t div 30"
  have u: "0 \<le> unix t" using assms(2) by (simp add: unix_def second_def)
  then have c: "go_div (unix t) 30 = ?c" by (simp add: go_div_def sgn_if)
  have "unix t * second \<le> t" "t < (unix t + 1) * second" by (simp_all add: unix_def second_def)
  then have "((s - 1) * 30) * second < (unix t + 1) * second" "unix t * second < ((s + 2) * 30) * second"
    using assms(4,5) by (simp_all add: totpPeriod_def algebra_simps)
  moreover have "0 < second" by (simp add: second_def)
  ultimately have "(s - 1) * 30 < unix t + 1" "unix t < (s + 2) * 30"
    using mult_less_cancel_right_pos by blast+
  then have "s - ?c \<in> {- 1 .. 1}" by auto
  then show ?thesis
    using assms(1,3) c by (auto simp: verifyTOTP_def totp_loop_None totpSkew_def intro!: bexI [of _ "s - ?c"])
qed

end
