(* ===== verification/Go_Strings.thy ===== *)
theory Go_Strings
  imports Schema
begin

text \<open>
  The operations of Go's \<^verbatim>\<open>strings\<close> package that the backend uses on one-byte separators, with the
  facts their callers need: splitting and joining are inverse, and trimming text that has no white
  space at its ends changes nothing.
\<close>

text \<open>ASCII white space at both ends; \<^verbatim>\<open>strings.ToLower\<close> is \<open>lower_char\<close> on ASCII text.\<close>

definition is_space :: "char \<Rightarrow> bool" where
  "is_space c \<longleftrightarrow> (of_char c :: nat) \<in> {9, 10, 11, 12, 13, 32}"

definition TrimSpace :: "string \<Rightarrow> string" where
  "TrimSpace s = rev (dropWhile is_space (rev (dropWhile is_space s)))"

definition HasPrefix :: "string \<Rightarrow> string \<Rightarrow> bool" where
  "HasPrefix s p \<longleftrightarrow> take (length p) s = p"

text \<open>\<^verbatim>\<open>strings.SplitN(s, sep, 2)\<close>: the text before and after the first separator.\<close>

definition SplitN2 :: "char \<Rightarrow> string \<Rightarrow> string list" where
  "SplitN2 sep s =
     (if sep \<in> set s then [takeWhile (\<lambda>c. c \<noteq> sep) s, tl (dropWhile (\<lambda>c. c \<noteq> sep) s)] else [s])"

text \<open>\<^verbatim>\<open>strings.Split\<close> and \<^verbatim>\<open>strings.Join\<close>.\<close>

fun Split :: "char \<Rightarrow> string \<Rightarrow> string list" where
  "Split sep [] = [[]]"
| "Split sep (c # cs) =
     (if c = sep then [] # Split sep cs
      else case Split sep cs of [] \<Rightarrow> [[c]] | p # ps \<Rightarrow> (c # p) # ps)"

fun Join :: "char \<Rightarrow> string list \<Rightarrow> string" where
  "Join sep [] = []"
| "Join sep [p] = p"
| "Join sep (p # q # ps) = p @ sep # Join sep (q # ps)"

lemma SplitN2_join: "sep \<notin> set p \<Longrightarrow> SplitN2 sep (p @ sep # q) = [p, q]"
  by (auto simp: SplitN2_def takeWhile_append dropWhile_append)

lemma SplitN2_none: "sep \<notin> set s \<Longrightarrow> SplitN2 sep s = [s]"
  by (simp add: SplitN2_def)

lemma Split_nonempty [simp]: "Split sep s \<noteq> []"
  by (induction s) (auto split: list.splits)

lemma Split_plain: "sep \<notin> set p \<Longrightarrow> Split sep p = [p]"
  by (induction p) auto

lemma Split_append: "sep \<notin> set p \<Longrightarrow> Split sep (p @ sep # q) = p # Split sep q"
  by (induction p) auto

lemma Split_Join:
  "ps \<noteq> [] \<Longrightarrow> \<forall>p \<in> set ps. sep \<notin> set p \<Longrightarrow> Split sep (Join sep ps) = ps"
  by (induction sep ps rule: Join.induct) (simp_all add: Split_plain Split_append)

lemma last_Split:
  assumes "sep \<notin> set q"
  shows "last (Split sep (p @ sep # q)) = q"
proof -
  have "\<exists>x ps. Split sep (p @ sep # q) = (x # ps) @ [q]"
    using assms by (induction p) (auto simp: Split_plain)
  then show ?thesis by (metis last_snoc)
qed

lemma TrimSpace_id:
  assumes "s \<noteq> []" and "\<not> is_space (hd s)" and "\<not> is_space (last s)"
  shows "TrimSpace s = s"
proof -
  have "dropWhile is_space s = s" using assms by (cases s) auto
  moreover have "dropWhile is_space (rev s) = rev s" using assms by (cases s rule: rev_cases) auto
  ultimately show ?thesis by (simp add: TrimSpace_def)
qed

text \<open>\<^verbatim>\<open>url.PathUnescape\<close> on a well-formed escaped text, as the mux applies it to each segment.\<close>

definition hex_digit :: "char \<Rightarrow> nat" where
  "hex_digit c =
     (let n = of_char c :: nat in if n < 58 then n - 48 else if n < 71 then n - 55 else n - 87)"

fun PathUnescape :: "string \<Rightarrow> string" where
  "PathUnescape (p # a # b # s) =
     (if p = CHR ''%'' then char_of (16 * hex_digit a + hex_digit b) # PathUnescape s
      else p # PathUnescape (a # b # s))"
| "PathUnescape s = s"

end
