(* ===== verification/Auth.thy ===== *)
theory Auth
  imports Org Totp Go_Strings
begin

text \<open>
  Users and sessions, \<^verbatim>\<open>internal/auth\<close>: the repository over the users and token tables, the
  service, the token issuer and the middleware. bcrypt, golang-jwt, Redis and the mailer are
  parameters of the model (the records \<open>jwt\<close> and \<open>redis\<close>, and fields of \<open>AuthService\<close>). A request
  reads the clock once (\<open>now\<close>); the random bytes and UUIDs it draws are the argument \<open>draw\<close>.
\<close>

section \<open>State\<close>

record RefreshToken =
  rf_id :: id
  rf_user :: id
  rf_family :: id
  rf_hash :: string
  rf_used :: "time option"
  rf_expires :: time

record ResetToken =
  pw_id :: id
  pw_user :: id
  pw_hash :: string
  pw_expires :: time
  pw_used :: "time option"

record TotpRow =
  tt_user :: id
  tt_secret :: string
  tt_confirmed :: "time option"
  tt_created :: time

text \<open>The token tables beside the shared database, Redis, and the e-mails handed to the mailer.\<close>

record 'r auth_state =
  au_db :: db
  refresh_tokens :: "RefreshToken list"
  password_reset_tokens :: "ResetToken list"
  user_totp :: "TotpRow list"
  auth_audit_log :: "(id \<times> string \<times> time) list"
  au_redis :: 'r
  au_outbox :: "(string \<times> string \<times> string) list"

type_synonym ('r, 'a) authop = "'r auth_state \<Rightarrow> 'a res \<times> 'r auth_state"

section \<open>The libraries\<close>

text \<open>Redis: \<^verbatim>\<open>GET\<close>, \<^verbatim>\<open>SET\<close> with expiry, \<^verbatim>\<open>SETNX\<close> with expiry, \<^verbatim>\<open>EXISTS\<close>, \<^verbatim>\<open>DEL\<close>, each at a time.\<close>

record 'r redis =
  rd_get :: "time \<Rightarrow> string \<Rightarrow> 'r \<Rightarrow> string option res"
  rd_set :: "time \<Rightarrow> string \<Rightarrow> string \<Rightarrow> duration \<Rightarrow> 'r \<Rightarrow> goerr option \<times> 'r"
  rd_setnx :: "time \<Rightarrow> string \<Rightarrow> string \<Rightarrow> duration \<Rightarrow> 'r \<Rightarrow> bool res \<times> 'r"
  rd_exists :: "time \<Rightarrow> string \<Rightarrow> 'r \<Rightarrow> bool res"
  rd_del :: "time \<Rightarrow> string \<Rightarrow> 'r \<Rightarrow> 'r"

record Claims =
  jc_sub :: string
  jc_exp :: "time option"
  jc_iat :: "time option"
  jc_id :: string

text \<open>golang-jwt: \<^verbatim>\<open>NewNumericDate\<close>, signing with HS256, and \<^verbatim>\<open>ParseWithClaims\<close> for HMAC methods
  (\<open>None\<close> for an error or an invalid token).\<close>

record jwt =
  jw_numeric :: "time \<Rightarrow> time"
  jw_sign :: "string \<Rightarrow> Claims \<Rightarrow> string res"
  jw_parse :: "string \<Rightarrow> string \<Rightarrow> time \<Rightarrow> Claims option"

section \<open>The repository\<close>

text \<open>\<^verbatim>\<open>citext\<close> compares e-mail addresses without case.\<close>

definition same_email :: "string \<Rightarrow> string \<Rightarrow> bool" where
  "same_email a b \<longleftrightarrow> map lower_char a = map lower_char b"

definition CreateUser :: "id \<Rightarrow> time \<Rightarrow> string \<Rightarrow> string \<Rightarrow> User dbop" where
  "CreateUser uuid now email passwordHash d =
     (if has_user d uuid \<or> (\<exists>u \<in> set (users d). same_email (us_email u) email) then (Inl (Auth ErrEmailTaken), d)
      else let u = \<lparr>us_id = uuid, us_email = email, us_hash = passwordHash, us_admin = False, us_created = now\<rparr>
           in (Inr u, d\<lparr>users := users d @ [u]\<rparr>))"

definition GetUserByEmail :: "db \<Rightarrow> string \<Rightarrow> User res" where
  "GetUserByEmail d email =
     (case List.find (\<lambda>u. same_email (us_email u) email) (users d) of None \<Rightarrow> Inl (Auth ErrUserNotFound) | Some u \<Rightarrow> Inr u)"

definition GetUserByID :: "db \<Rightarrow> id \<Rightarrow> User res" where
  "GetUserByID d uid =
     (case List.find (\<lambda>u. us_id u = uid) (users d) of None \<Rightarrow> Inl (Auth ErrUserNotFound) | Some u \<Rightarrow> Inr u)"

text \<open>The insert with \<^verbatim>\<open>ON CONFLICT (email)\<close>; \<open>hash\<close> is bcrypt.\<close>

definition EnsureSeededAdmin :: "(string \<Rightarrow> string res) \<Rightarrow> id \<Rightarrow> time \<Rightarrow> string \<Rightarrow> string \<Rightarrow> unit dbop" where
  "EnsureSeededAdmin hash uuid now email plainPassword d =
     (case hash plainPassword of
        Inl e \<Rightarrow> (Inl e, d)
      | Inr h \<Rightarrow>
          (if \<exists>u \<in> set (users d). same_email (us_email u) email
             then (Inr (), d\<lparr>users := update_where (\<lambda>u. same_email (us_email u) email) (\<lambda>u. u\<lparr>us_admin := True\<rparr>) (users d)\<rparr>)
           else if has_user d uuid then (Inl (PgError UniqueViolation), d)
           else (Inr (), d\<lparr>users := users d @
                  [\<lparr>us_id = uuid, us_email = email, us_hash = h, us_admin = True, us_created = now\<rparr>]\<rparr>)))"

definition insert_refresh :: "RefreshToken \<Rightarrow> 'r auth_state \<Rightarrow> 'r auth_state res" where
  "insert_refresh t s =
     (if \<exists>k \<in> set (refresh_tokens s). rf_id k = rf_id t \<or> rf_hash k = rf_hash t then Inl (PgError UniqueViolation)
      else if \<not> has_user (au_db s) (rf_user t) then Inl (PgError ForeignKeyViolation)
      else Inr (s\<lparr>refresh_tokens := refresh_tokens s @ [t]\<rparr>))"

definition CreateRefreshFamily ::
  "id \<Rightarrow> id \<Rightarrow> id \<Rightarrow> string \<Rightarrow> time \<Rightarrow> ('r, unit) authop" where
  "CreateRefreshFamily rowID familyID userID tokenHash expiresAt s =
     (case insert_refresh \<lparr>rf_id = rowID, rf_user = userID, rf_family = familyID, rf_hash = tokenHash, rf_used = None,
             rf_expires = expiresAt\<rparr> s of
        Inl e \<Rightarrow> (Inl e, s)
      | Inr s1 \<Rightarrow> (Inr (), s1))"

text \<open>The transaction: it commits after a rotation and after revoking a compromised family.\<close>

definition RotateRefreshToken ::
  "id \<Rightarrow> time \<Rightarrow> string \<Rightarrow> string \<Rightarrow> time \<Rightarrow> ('r, id) authop" where
  "RotateRefreshToken rowID now oldTokenHash newTokenHash newExpiresAt s =
     (case List.find (\<lambda>t. rf_hash t = oldTokenHash) (refresh_tokens s) of
        None \<Rightarrow> (Inl (Auth ErrInvalidRefresh), s)
      | Some t \<Rightarrow>
          if rf_used t \<noteq> None
            then (Inl (Auth ErrInvalidRefresh),
                  s\<lparr>refresh_tokens := delete_where (\<lambda>k. rf_family k = rf_family t) (refresh_tokens s)\<rparr>)
          else if now > rf_expires t then (Inl (Auth ErrInvalidRefresh), s)
          else let s1 = s\<lparr>refresh_tokens := update_where (\<lambda>k. rf_id k = rf_id t) (\<lambda>k. k\<lparr>rf_used := Some now\<rparr>) (refresh_tokens s)\<rparr>
               in case insert_refresh \<lparr>rf_id = rowID, rf_user = rf_user t, rf_family = rf_family t, rf_hash = newTokenHash,
                         rf_used = None, rf_expires = newExpiresAt\<rparr> s1 of
                    Inl e \<Rightarrow> (Inl e, s)
                  | Inr s2 \<Rightarrow> (Inr (rf_user t), s2))"

text \<open>The user of the first deleted row, empty when there is none.\<close>

definition RevokeFamilyByTokenHash :: "string \<Rightarrow> ('r, id) authop" where
  "RevokeFamilyByTokenHash tokenHash s =
     (case List.find (\<lambda>t. rf_hash t = tokenHash) (refresh_tokens s) of
        None \<Rightarrow> (Inr '''', s)
      | Some t \<Rightarrow>
          (Inr (rf_user (hd (filter (\<lambda>k. rf_family k = rf_family t) (refresh_tokens s)))),
           s\<lparr>refresh_tokens := delete_where (\<lambda>k. rf_family k = rf_family t) (refresh_tokens s)\<rparr>))"

definition CreatePasswordResetToken :: "id \<Rightarrow> id \<Rightarrow> string \<Rightarrow> time \<Rightarrow> ('r, unit) authop" where
  "CreatePasswordResetToken rowID userID tokenHash expiresAt s =
     (if \<exists>k \<in> set (password_reset_tokens s). pw_id k = rowID \<or> pw_hash k = tokenHash then (Inl (PgError UniqueViolation), s)
      else if \<not> has_user (au_db s) userID then (Inl (PgError ForeignKeyViolation), s)
      else (Inr (), s\<lparr>password_reset_tokens := password_reset_tokens s @
             [\<lparr>pw_id = rowID, pw_user = userID, pw_hash = tokenHash, pw_expires = expiresAt, pw_used = None\<rparr>]\<rparr>))"

definition repo_ResetPassword :: "time \<Rightarrow> string \<Rightarrow> string \<Rightarrow> ('r, id) authop" where
  "repo_ResetPassword now tokenHash newPasswordHash s =
     (case List.find (\<lambda>t. pw_hash t = tokenHash) (password_reset_tokens s) of
        None \<Rightarrow> (Inl (Auth ErrInvalidResetToken), s)
      | Some t \<Rightarrow>
          if pw_used t \<noteq> None \<or> now > pw_expires t then (Inl (Auth ErrInvalidResetToken), s)
          else (Inr (pw_user t),
            s\<lparr>password_reset_tokens := update_where (\<lambda>k. pw_hash k = tokenHash) (\<lambda>k. k\<lparr>pw_used := Some now\<rparr>) (password_reset_tokens s),
              au_db := (au_db s)\<lparr>users := update_where (\<lambda>u. us_id u = pw_user t) (\<lambda>u. u\<lparr>us_hash := newPasswordHash\<rparr>) (users (au_db s))\<rparr>,
              refresh_tokens := delete_where (\<lambda>k. rf_user k = pw_user t) (refresh_tokens s)\<rparr>))"

definition CreateTOTPEnrollment :: "time \<Rightarrow> id \<Rightarrow> string \<Rightarrow> ('r, unit) authop" where
  "CreateTOTPEnrollment now userID secret s =
     (case List.find (\<lambda>t. tt_user t = userID) (user_totp s) of
        None \<Rightarrow>
          (if \<not> has_user (au_db s) userID then (Inl (PgError ForeignKeyViolation), s)
           else (Inr (), s\<lparr>user_totp := user_totp s @
                  [\<lparr>tt_user = userID, tt_secret = secret, tt_confirmed = None, tt_created = now\<rparr>]\<rparr>))
      | Some t \<Rightarrow>
          if tt_confirmed t = None
            then (Inr (), s\<lparr>user_totp := update_where (\<lambda>k. tt_user k = userID)
                             (\<lambda>k. k\<lparr>tt_secret := secret, tt_created := now\<rparr>) (user_totp s)\<rparr>)
          else (Inl (Auth ErrTOTPAlreadyEnabled), s))"

definition GetTOTP :: "'r auth_state \<Rightarrow> id \<Rightarrow> (string \<times> bool) res" where
  "GetTOTP s userID =
     (case List.find (\<lambda>t. tt_user t = userID) (user_totp s) of
        None \<Rightarrow> Inl (Auth ErrTOTPNotEnrolled)
      | Some t \<Rightarrow> Inr (tt_secret t, tt_confirmed t \<noteq> None))"

definition repo_ConfirmTOTP :: "time \<Rightarrow> id \<Rightarrow> ('r, unit) authop" where
  "repo_ConfirmTOTP now userID s =
     (let P = (\<lambda>t. tt_user t = userID \<and> tt_confirmed t = None)
      in if rows_affected P (user_totp s) = 0 then (Inl (Auth ErrTOTPNotEnrolled), s)
         else (Inr (), s\<lparr>user_totp := update_where P (\<lambda>t. t\<lparr>tt_confirmed := Some now\<rparr>) (user_totp s)\<rparr>))"

definition DeleteTOTP :: "id \<Rightarrow> ('r, unit) authop" where
  "DeleteTOTP userID s = (Inr (), s\<lparr>user_totp := delete_where (\<lambda>t. tt_user t = userID) (user_totp s)\<rparr>)"

definition RecordAuditEvent :: "time \<Rightarrow> id \<Rightarrow> string \<Rightarrow> ('r, unit) authop" where
  "RecordAuditEvent now userID event s =
     (if \<not> has_user (au_db s) userID then (Inl (PgError ForeignKeyViolation), s)
      else (Inr (), s\<lparr>auth_audit_log := auth_audit_log s @ [(userID, event, now)]\<rparr>))"

section \<open>Access tokens\<close>

record tokenIssuer =
  ti_secret :: string
  ti_prevSecret :: string
  ti_ttl :: duration

definition newTokenIssuer :: "string \<Rightarrow> string \<Rightarrow> duration \<Rightarrow> tokenIssuer" where
  "newTokenIssuer secret prevSecret ttl = \<lparr>ti_secret = secret, ti_prevSecret = prevSecret, ti_ttl = ttl\<rparr>"

definition issue :: "jwt \<Rightarrow> tokenIssuer \<Rightarrow> id \<Rightarrow> time \<Rightarrow> id \<Rightarrow> (string \<times> id \<times> time) res" where
  "issue jw ti jti now userID =
     (let expiresAt = now + ti_ttl ti;
          claims = \<lparr>jc_sub = userID, jc_exp = Some (jw_numeric jw expiresAt), jc_iat = Some (jw_numeric jw now), jc_id = jti\<rparr>
      in case jw_sign jw (ti_secret ti) claims of
           Inl e \<Rightarrow> Inl e
         | Inr token \<Rightarrow> Inr (token, jti, expiresAt))"

definition verifyWithKey :: "jwt \<Rightarrow> time \<Rightarrow> string \<Rightarrow> string \<Rightarrow> (id \<times> id \<times> time) res" where
  "verifyWithKey jw now tokenStr key =
     (case jw_parse jw tokenStr key now of
        None \<Rightarrow> Inl (Auth ErrInvalidToken)
      | Some claims \<Rightarrow>
          (case jc_exp claims of
             None \<Rightarrow> Inl (Auth ErrInvalidToken)
           | Some e \<Rightarrow> Inr (jc_sub claims, jc_id claims, e)))"

definition verify :: "jwt \<Rightarrow> tokenIssuer \<Rightarrow> time \<Rightarrow> string \<Rightarrow> (id \<times> id \<times> time) res" where
  "verify jw ti now tokenStr =
     (case verifyWithKey jw now tokenStr (ti_secret ti) of
        Inr r \<Rightarrow> Inr r
      | Inl _ \<Rightarrow>
          if ti_prevSecret ti \<noteq> '''' then
            (case verifyWithKey jw now tokenStr (ti_prevSecret ti) of
               Inr r \<Rightarrow> Inr r
             | Inl _ \<Rightarrow> Inl (Auth ErrInvalidToken))
          else Inl (Auth ErrInvalidToken))"

section \<open>The service\<close>

text \<open>\<^verbatim>\<open>hashPassword\<close> and \<^verbatim>\<open>verifyPassword\<close> are bcrypt's functions; a missing mailer disables sending.\<close>

record 'r AuthService =
  as_redis :: "'r redis"
  as_jwt :: jwt
  as_issuer :: tokenIssuer
  as_refreshTTL :: duration
  as_mailer :: "(string \<Rightarrow> string \<Rightarrow> string \<Rightarrow> goerr option) option"
  as_webBaseURL :: string
  as_CreateForOwner :: "id \<Rightarrow> time \<Rightarrow> string \<Rightarrow> id \<Rightarrow> unit dbop"
  as_hashPassword :: "string \<Rightarrow> string res"
  as_verifyPassword :: "string \<Rightarrow> string \<Rightarrow> bool"

text \<open>What a request draws at random: token bytes, and the UUIDs of rows, families and tokens.\<close>

record draw =
  dr_bytes :: "byte list"
  dr_row :: id
  dr_family :: id
  dr_jti :: id

record TokenPair =
  tp_access :: string
  tp_refresh :: string
  tp_expiresIn :: int

datatype LoginResult = Challenge string | Tokens TokenPair

definition hashToken :: "string \<Rightarrow> string" where
  "hashToken raw = hex_encode (sha256_Sum (bytes_of_string raw))"

definition newRefreshToken :: "byte list \<Rightarrow> string \<times> string" where
  "newRefreshToken random = (let raw = b64url_encode random in (raw, hashToken raw))"

definition totpChallengeKey :: "string \<Rightarrow> string" where
  "totpChallengeKey challengeHash = ''nimbus:totp:challenge:'' @ challengeHash"

definition totpUsedKey :: "id \<Rightarrow> int \<Rightarrow> string" where
  "totpUsedKey userID step = ''nimbus:totp:used:'' @ userID @ '':'' @ dec_int step"

definition blacklistKey :: "id \<Rightarrow> string" where
  "blacklistKey jti = ''nimbus:blacklist:'' @ jti"

definition resetTokenTTL :: duration where
  "resetTokenTTL = 3600 * second"

definition totpChallengeTTL :: duration where
  "totpChallengeTTL = 5 * 60 * second"

definition AuditEventLogin :: string where "AuditEventLogin = ''login''"
definition AuditEventRefresh :: string where "AuditEventRefresh = ''refresh''"
definition AuditEventLogout :: string where "AuditEventLogout = ''logout''"
definition AuditEventPasswordReset :: string where "AuditEventPasswordReset = ''password_reset''"
definition AuditEventTOTPEnabled :: string where "AuditEventTOTPEnabled = ''totp_enabled''"
definition AuditEventTOTPDisabled :: string where "AuditEventTOTPDisabled = ''totp_disabled''"


text \<open>Audit rows are best effort.\<close>

definition recordAuditEvent :: "time \<Rightarrow> id \<Rightarrow> string \<Rightarrow> 'r auth_state \<Rightarrow> 'r auth_state" where
  "recordAuditEvent now userID event s = snd (RecordAuditEvent now userID event s)"

definition defaultOrgName :: "string \<Rightarrow> string" where
  "defaultOrgName email =
     (let local = (if CHR ''@'' \<in> set email \<and> takeWhile (\<lambda>c. c \<noteq> CHR ''@'') email \<noteq> ''''
                   then takeWhile (\<lambda>c. c \<noteq> CHR ''@'') email else email)
      in local @ [char_of (39 :: nat)] @ ''s Organization'')"

definition Register :: "'r AuthService \<Rightarrow> id \<Rightarrow> id \<Rightarrow> time \<Rightarrow> string \<Rightarrow> string \<Rightarrow> string \<Rightarrow> ('r, User) authop" where
  "Register sv uuid orgUUID now email password orgName s =
     (case as_hashPassword sv password of
        Inl e \<Rightarrow> (Inl e, s)
      | Inr hash \<Rightarrow>
          (case CreateUser uuid now email hash (au_db s) of
             (Inl e, d1) \<Rightarrow> (Inl e, s\<lparr>au_db := d1\<rparr>)
           | (Inr u, d1) \<Rightarrow>
               (let orgName = (if TrimSpace orgName = '''' then defaultOrgName email else orgName)
                in (Inr u, s\<lparr>au_db := snd (as_CreateForOwner sv orgUUID now orgName (us_id u) d1)\<rparr>))))"

definition issueNewSession :: "'r AuthService \<Rightarrow> draw \<Rightarrow> time \<Rightarrow> id \<Rightarrow> ('r, TokenPair) authop" where
  "issueNewSession sv dr now userID s =
     (case issue (as_jwt sv) (as_issuer sv) (dr_jti dr) now userID of
        Inl e \<Rightarrow> (Inl e, s)
      | Inr (access, _, _) \<Rightarrow>
          (let (refreshRaw, refreshHash) = newRefreshToken (dr_bytes dr);
               expiresAt = now + as_refreshTTL sv
           in case CreateRefreshFamily (dr_row dr) (dr_family dr) userID refreshHash expiresAt s of
                (Inl e, s1) \<Rightarrow> (Inl e, s1)
              | (Inr _, s1) \<Rightarrow>
                  (Inr \<lparr>tp_access = access, tp_refresh = refreshRaw, tp_expiresIn = go_div (ti_ttl (as_issuer sv)) second\<rparr>, s1)))"

definition Login :: "'r AuthService \<Rightarrow> draw \<Rightarrow> time \<Rightarrow> string \<Rightarrow> string \<Rightarrow> ('r, LoginResult) authop" where
  "Login sv dr now email password s =
     (case GetUserByEmail (au_db s) email of
        Inl e \<Rightarrow> (if e = Auth ErrUserNotFound then Inl (Auth ErrInvalidCredentials) else Inl e, s)
      | Inr u \<Rightarrow>
          if \<not> as_verifyPassword sv (us_hash u) password then (Inl (Auth ErrInvalidCredentials), s)
          else let session = (case issueNewSession sv dr now (us_id u) s of
                   (Inl e, s1) \<Rightarrow> (Inl e, s1)
                 | (Inr pair, s1) \<Rightarrow> (Inr (Tokens pair), recordAuditEvent now (us_id u) AuditEventLogin s1))
               in case GetTOTP s (us_id u) of
                    Inr (_, True) \<Rightarrow>
                      (let (challenge, challengeHash) = newRefreshToken (dr_bytes dr)
                       in case rd_set (as_redis sv) now (totpChallengeKey challengeHash) (us_id u) totpChallengeTTL (au_redis s) of
                            (Some e, r) \<Rightarrow> (Inl e, s\<lparr>au_redis := r\<rparr>)
                          | (None, r) \<Rightarrow> (Inr (Challenge challenge), s\<lparr>au_redis := r\<rparr>))
                  | Inr (_, False) \<Rightarrow> session
                  | Inl e \<Rightarrow> if e \<noteq> Auth ErrTOTPNotEnrolled then (Inl e, s) else session)"

definition TrimRightSlash :: "string \<Rightarrow> string" where
  "TrimRightSlash s = rev (dropWhile (\<lambda>c. c = CHR ''/'') (rev s))"

definition crlf :: string where
  "crlf = [CHR 0x0D, CHR 0x0A]"

definition reset_mail :: "string \<Rightarrow> string \<Rightarrow> string" where
  "reset_mail email resetURL =
     ''Someone (hopefully you) asked to reset the Nimbus password for '' @ email @ ''.'' @ crlf @ crlf @
     ''Reset it here within the next hour:'' @ crlf @ crlf @ resetURL @ crlf @ crlf @
     ''If this wasn'' @ [char_of (39 :: nat)] @ ''t you, ignore this email '' @ [CHR 0xE2, CHR 0x80, CHR 0x94] @
     '' the link expires and your password stays unchanged.'' @ crlf"

definition ForgotPassword :: "'r AuthService \<Rightarrow> draw \<Rightarrow> time \<Rightarrow> string \<Rightarrow> ('r, unit) authop" where
  "ForgotPassword sv dr now email s =
     (case GetUserByEmail (au_db s) email of
        Inl e \<Rightarrow> (if e = Auth ErrUserNotFound then Inr () else Inl e, s)
      | Inr u \<Rightarrow>
          (let (raw, tokenHash) = newRefreshToken (dr_bytes dr)
           in case CreatePasswordResetToken (dr_row dr) (us_id u) tokenHash (now + resetTokenTTL) s of
                (Inl e, s1) \<Rightarrow> (Inl e, s1)
              | (Inr _, s1) \<Rightarrow>
                  (let resetURL = TrimRightSlash (as_webBaseURL sv) @ ''/reset-password?token='' @ raw
                   in case as_mailer sv of
                        None \<Rightarrow> (Inr (), s1)
                      | Some send \<Rightarrow>
                          (let mail = (us_email u, ''Reset your Nimbus password'', reset_mail (us_email u) resetURL);
                               s2 = s1\<lparr>au_outbox := au_outbox s1 @ [mail]\<rparr>
                           in case send (us_email u) (fst (snd mail)) (snd (snd mail)) of
                                None \<Rightarrow> (Inr (), s2)
                              | Some e \<Rightarrow> (Inl e, s2)))))"

definition ResetPassword :: "'r AuthService \<Rightarrow> time \<Rightarrow> string \<Rightarrow> string \<Rightarrow> ('r, unit) authop" where
  "ResetPassword sv now token newPassword s =
     (case as_hashPassword sv newPassword of
        Inl e \<Rightarrow> (Inl e, s)
      | Inr hash \<Rightarrow>
          (case repo_ResetPassword now (hashToken token) hash s of
             (Inl e, s1) \<Rightarrow> (Inl e, s1)
           | (Inr userID, s1) \<Rightarrow> (Inr (), recordAuditEvent now userID AuditEventPasswordReset s1)))"

definition SetupTOTP :: "draw \<Rightarrow> time \<Rightarrow> id \<Rightarrow> ('r, string \<times> string) authop" where
  "SetupTOTP dr now userID s =
     (case GetUserByID (au_db s) userID of
        Inl e \<Rightarrow> (Inl e, s)
      | Inr u \<Rightarrow>
          (let secret = newTOTPSecret (dr_bytes dr)
           in case CreateTOTPEnrollment now userID secret s of
                (Inl e, s1) \<Rightarrow> (Inl e, s1)
              | (Inr _, s1) \<Rightarrow> (Inr (secret, otpauthURI (us_email u) secret), s1)))"

text \<open>The accepted time step is burnt in Redis for \<^verbatim>\<open>totpPeriod*(totpSkew+2)\<close>.\<close>

definition verifyTOTPOnce ::
  "'r AuthService \<Rightarrow> time \<Rightarrow> id \<Rightarrow> string \<Rightarrow> string \<Rightarrow> 'r \<Rightarrow> goerr option \<times> 'r" where
  "verifyTOTPOnce sv now userID secret code r =
     (case verifyTOTP secret code now of
        None \<Rightarrow> (Some (Auth ErrInvalidTOTPCode), r)
      | Some step \<Rightarrow>
          (case rd_setnx (as_redis sv) now (totpUsedKey userID step) ''1'' (totpPeriod * (totpSkew + 2)) r of
             (Inl e, r1) \<Rightarrow> (Some e, r1)
           | (Inr fresh, r1) \<Rightarrow> (if \<not> fresh then Some (Auth ErrInvalidTOTPCode) else None, r1)))"

definition ConfirmTOTP :: "'r AuthService \<Rightarrow> time \<Rightarrow> id \<Rightarrow> string \<Rightarrow> ('r, unit) authop" where
  "ConfirmTOTP sv now userID code s =
     (case GetTOTP s userID of
        Inl e \<Rightarrow> (Inl e, s)
      | Inr (secret, confirmed) \<Rightarrow>
          if confirmed then (Inl (Auth ErrTOTPAlreadyEnabled), s)
          else case verifyTOTPOnce sv now userID secret code (au_redis s) of
              (Some e, r) \<Rightarrow> (Inl e, s\<lparr>au_redis := r\<rparr>)
            | (None, r) \<Rightarrow>
                (case repo_ConfirmTOTP now userID (s\<lparr>au_redis := r\<rparr>) of
                   (Inl e, s1) \<Rightarrow> (Inl e, s1)
                 | (Inr _, s1) \<Rightarrow> (Inr (), recordAuditEvent now userID AuditEventTOTPEnabled s1)))"

definition DisableTOTP :: "'r AuthService \<Rightarrow> time \<Rightarrow> id \<Rightarrow> string \<Rightarrow> ('r, unit) authop" where
  "DisableTOTP sv now userID code s =
     (case GetTOTP s userID of
        Inl e \<Rightarrow> (Inl e, s)
      | Inr (secret, confirmed) \<Rightarrow>
          (case (if confirmed then verifyTOTPOnce sv now userID secret code (au_redis s) else (None, au_redis s)) of
             (Some e, r) \<Rightarrow> (Inl e, s\<lparr>au_redis := r\<rparr>)
           | (None, r) \<Rightarrow>
               (let s1 = snd (DeleteTOTP userID (s\<lparr>au_redis := r\<rparr>))
                in (Inr (), if confirmed then recordAuditEvent now userID AuditEventTOTPDisabled s1 else s1))))"

definition TOTPEnabled :: "'r auth_state \<Rightarrow> id \<Rightarrow> bool res" where
  "TOTPEnabled s userID =
     (case GetTOTP s userID of
        Inl e \<Rightarrow> if e = Auth ErrTOTPNotEnrolled then Inr False else Inl e
      | Inr (_, confirmed) \<Rightarrow> Inr confirmed)"

definition CompleteTOTPLogin :: "'r AuthService \<Rightarrow> draw \<Rightarrow> time \<Rightarrow> string \<Rightarrow> string \<Rightarrow> ('r, TokenPair) authop" where
  "CompleteTOTPLogin sv dr now challengeToken code s =
     (let key = totpChallengeKey (hashToken challengeToken)
      in case rd_get (as_redis sv) now key (au_redis s) of
           Inl e \<Rightarrow> (Inl e, s)
         | Inr None \<Rightarrow> (Inl (Auth ErrInvalidChallenge), s)
         | Inr (Some userID) \<Rightarrow>
             (case GetTOTP s userID of
                Inr (secret, True) \<Rightarrow>
                  (case verifyTOTPOnce sv now userID secret code (au_redis s) of
                     (Some e, r) \<Rightarrow> (Inl e, s\<lparr>au_redis := r\<rparr>)
                   | (None, r) \<Rightarrow>
                       (case issueNewSession sv dr now userID (s\<lparr>au_redis := rd_del (as_redis sv) now key r\<rparr>) of
                          (Inl e, s1) \<Rightarrow> (Inl e, s1)
                        | (Inr pair, s1) \<Rightarrow> (Inr pair, recordAuditEvent now userID AuditEventLogin s1)))
              | _ \<Rightarrow> (Inl (Auth ErrInvalidChallenge), s)))"

definition Refresh :: "'r AuthService \<Rightarrow> draw \<Rightarrow> time \<Rightarrow> string \<Rightarrow> ('r, TokenPair) authop" where
  "Refresh sv dr now refreshToken s =
     (let (newRaw, newHash) = newRefreshToken (dr_bytes dr)
      in case RotateRefreshToken (dr_row dr) now (hashToken refreshToken) newHash (now + as_refreshTTL sv) s of
           (Inl e, s1) \<Rightarrow> (Inl e, s1)
         | (Inr userID, s1) \<Rightarrow>
             (case issue (as_jwt sv) (as_issuer sv) (dr_jti dr) now userID of
                Inl e \<Rightarrow> (Inl e, s1)
              | Inr (access, _, _) \<Rightarrow>
                  (Inr \<lparr>tp_access = access, tp_refresh = newRaw, tp_expiresIn = go_div (ti_ttl (as_issuer sv)) second\<rparr>,
                   recordAuditEvent now userID AuditEventRefresh s1)))"

text \<open>The blacklist write's own error is dropped.\<close>

definition Logout :: "'r AuthService \<Rightarrow> time \<Rightarrow> string \<Rightarrow> string \<Rightarrow> ('r, unit) authop" where
  "Logout sv now refreshToken accessToken s =
     (case (if refreshToken \<noteq> '''' then RevokeFamilyByTokenHash (hashToken refreshToken) s else (Inr '''', s)) of
        (Inl e, s1) \<Rightarrow> (Inl e, s1)
      | (Inr uid, s1) \<Rightarrow>
          (let (userID, s2) =
             (if accessToken = '''' then (uid, s1)
              else case verify (as_jwt sv) (as_issuer sv) now accessToken of
                  Inl _ \<Rightarrow> (uid, s1)
                | Inr (sub, jti, expiresAt) \<Rightarrow>
                    (if uid = '''' then sub else uid,
                     if expiresAt - now > 0
                       then s1\<lparr>au_redis := snd (rd_set (as_redis sv) now (blacklistKey jti) ''1'' (expiresAt - now) (au_redis s1))\<rparr>
                     else s1))
           in (Inr (), if userID \<noteq> '''' then recordAuditEvent now userID AuditEventLogout s2 else s2)))"

definition VerifyAccessToken :: "'r AuthService \<Rightarrow> time \<Rightarrow> 'r auth_state \<Rightarrow> string \<Rightarrow> id res" where
  "VerifyAccessToken sv now s token =
     (case verify (as_jwt sv) (as_issuer sv) now token of
        Inl e \<Rightarrow> Inl e
      | Inr (userID, jti, _) \<Rightarrow>
          (case rd_exists (as_redis sv) now (blacklistKey jti) (au_redis s) of
             Inl e \<Rightarrow> Inl e
           | Inr blacklisted \<Rightarrow> if blacklisted then Inl (Auth ErrInvalidToken) else Inr userID))"

definition PeekUserID :: "'r AuthService \<Rightarrow> time \<Rightarrow> string \<Rightarrow> id" where
  "PeekUserID sv now token =
     (case verify (as_jwt sv) (as_issuer sv) now token of Inl _ \<Rightarrow> '''' | Inr (userID, _, _) \<Rightarrow> userID)"

end
