(* ===== verification/Auth_Routes.thy ===== *)
theory Auth_Routes
  imports Auth
begin

text \<open>
  The middleware and the \<^verbatim>\<open>/v1/auth\<close> handlers (\<^verbatim>\<open>internal/auth/middleware.go\<close>, \<^verbatim>\<open>handler.go\<close>), and the
  wiring of \<^verbatim>\<open>cmd/api/wire_auth.go\<close>. A handler takes the decoded body, \<open>None\<close> when it is not JSON;
  absent fields are empty strings, as Go decodes them.
\<close>

section \<open>Middleware\<close>

text \<open>The \<^verbatim>\<open>Authorization\<close> header, empty when absent.\<close>

definition bearerToken :: "string \<Rightarrow> string option" where
  "bearerToken h =
     (if take 7 h \<noteq> ''Bearer '' then None
      else let token = TrimSpace (drop 7 h) in if token = '''' then None else Some token)"

text \<open>The user id put into the request's context, or the response.\<close>

definition Middleware :: "'r AuthService \<Rightarrow> time \<Rightarrow> 'r auth_state \<Rightarrow> string \<Rightarrow> 'a response + id" where
  "Middleware sv now s header =
     (case bearerToken header of
        None \<Rightarrow> Inl (WriteError http_ErrUnauthorized ''missing bearer token'')
      | Some token \<Rightarrow>
          (case VerifyAccessToken sv now s token of
             Inl _ \<Rightarrow> Inl (WriteError http_ErrUnauthorized ''invalid or expired token'')
           | Inr userID \<Rightarrow> Inr userID))"

definition RequirePlatformAdmin :: "db \<Rightarrow> id \<Rightarrow> 'a response option" where
  "RequirePlatformAdmin d userID =
     (case GetUserByID d userID of
        Inr u \<Rightarrow> if us_admin u then None else Some (WriteError http_ErrForbidden ''platform admin access required'')
      | Inl _ \<Rightarrow> Some (WriteError http_ErrForbidden ''platform admin access required''))"

section \<open>Handlers\<close>

abbreviation malformed :: "'a response" where
  "malformed \<equiv> WriteError http_ErrInvalid ''malformed JSON body''"

definition normal_email :: "string \<Rightarrow> string" where
  "normal_email email = TrimSpace (map lower_char email)"

record registerRequest =
  rg_email :: string
  rg_password :: string
  rg_orgName :: string

definition auth_handler_Register ::
  "'r AuthService \<Rightarrow> id \<Rightarrow> id \<Rightarrow> time \<Rightarrow> registerRequest option \<Rightarrow> 'r auth_state
     \<Rightarrow> (id \<times> string) response \<times> 'r auth_state" where
  "auth_handler_Register sv uuid orgUUID now body s =
     (case body of
        None \<Rightarrow> (malformed, s)
      | Some req \<Rightarrow>
          (let email = normal_email (rg_email req); orgName = TrimSpace (rg_orgName req)
           in if CHR ''@'' \<notin> set email \<or> length (rg_password req) < 8
                then (WriteError http_ErrInvalid ''email must be valid and password must be at least 8 characters'', s)
              else if length orgName > 200
                then (WriteError http_ErrInvalid ''org_name must be at most 200 characters'', s)
              else case Register sv uuid orgUUID now email (rg_password req) orgName s of
                  (Inl e, s1) \<Rightarrow>
                    (if e = Auth ErrEmailTaken then WriteError http_ErrConflict ''email already registered''
                     else WriteError http_ErrInternal ''registration failed'', s1)
                | (Inr u, s1) \<Rightarrow> (WriteJSON 201 (us_id u, us_email u), s1)))"

definition writeTokenPair :: "TokenPair \<Rightarrow> LoginResult response" where
  "writeTokenPair pair = WriteJSON 200 (Tokens pair)"

definition auth_handler_Login ::
  "'r AuthService \<Rightarrow> draw \<Rightarrow> time \<Rightarrow> (string \<times> string) option \<Rightarrow> 'r auth_state \<Rightarrow> LoginResult response \<times> 'r auth_state" where
  "auth_handler_Login sv dr now body s =
     (case body of
        None \<Rightarrow> (malformed, s)
      | Some (email, password) \<Rightarrow>
          (case Login sv dr now (normal_email email) password s of
             (Inl _, s1) \<Rightarrow> (WriteError http_ErrUnauthorized ''invalid email or password'', s1)
           | (Inr (Challenge c), s1) \<Rightarrow> (WriteJSON 200 (Challenge c), s1)
           | (Inr (Tokens pair), s1) \<Rightarrow> (writeTokenPair pair, s1)))"

text \<open>\<^verbatim>\<open>err.Error()\<close> of the errors that reach a client.\<close>

fun error_text :: "auth_err \<Rightarrow> string" where
  "error_text ErrEmailTaken = ''email already registered''"
| "error_text ErrInvalidCredentials = ''invalid email or password''"
| "error_text ErrInvalidRefresh = ''invalid or expired refresh token''"
| "error_text ErrUserNotFound = ''user not found''"
| "error_text ErrInvalidResetToken = ''invalid or expired reset token''"
| "error_text ErrTOTPAlreadyEnabled = ''two-factor authentication is already enabled''"
| "error_text ErrTOTPNotEnrolled = ''no two-factor enrollment found''"
| "error_text ErrInvalidTOTPCode = ''invalid authentication code''"
| "error_text ErrInvalidChallenge = ''invalid or expired login challenge''"
| "error_text ErrInvalidToken = ''invalid access token''"

definition auth_handler_TOTPLogin ::
  "'r AuthService \<Rightarrow> draw \<Rightarrow> time \<Rightarrow> (string \<times> string) option \<Rightarrow> 'r auth_state \<Rightarrow> LoginResult response \<times> 'r auth_state" where
  "auth_handler_TOTPLogin sv dr now body s =
     (case body of
        None \<Rightarrow> (malformed, s)
      | Some (challengeToken, code) \<Rightarrow>
          if challengeToken = '''' \<or> code = ''''
            then (WriteError http_ErrInvalid ''challenge_token and code are required'', s)
          else case CompleteTOTPLogin sv dr now challengeToken code s of
              (Inl e, s1) \<Rightarrow>
                (if e = Auth ErrInvalidTOTPCode then WriteError http_ErrUnauthorized (error_text ErrInvalidTOTPCode)
                 else if e = Auth ErrInvalidChallenge then WriteError http_ErrUnauthorized (error_text ErrInvalidChallenge)
                 else WriteError http_ErrInternal ''login failed'', s1)
            | (Inr pair, s1) \<Rightarrow> (writeTokenPair pair, s1))"

definition auth_handler_ForgotPassword ::
  "'r AuthService \<Rightarrow> draw \<Rightarrow> time \<Rightarrow> string option \<Rightarrow> 'r auth_state \<Rightarrow> unit response \<times> 'r auth_state" where
  "auth_handler_ForgotPassword sv dr now body s =
     (case body of
        None \<Rightarrow> (malformed, s)
      | Some email \<Rightarrow>
          (let email = normal_email email
           in if CHR ''@'' \<notin> set email then (WriteError http_ErrInvalid ''email must be valid'', s)
              else case ForgotPassword sv dr now email s of
                  (Inl _, s1) \<Rightarrow> (WriteError http_ErrInternal ''could not send reset email'', s1)
                | (Inr _, s1) \<Rightarrow> (Accepted, s1)))"

definition auth_handler_ResetPassword ::
  "'r AuthService \<Rightarrow> time \<Rightarrow> (string \<times> string) option \<Rightarrow> 'r auth_state \<Rightarrow> unit response \<times> 'r auth_state" where
  "auth_handler_ResetPassword sv now body s =
     (case body of
        None \<Rightarrow> (malformed, s)
      | Some (token, password) \<Rightarrow>
          if token = '''' \<or> length password < 8
            then (WriteError http_ErrInvalid ''token is required and password must be at least 8 characters'', s)
          else case ResetPassword sv now token password s of
              (Inl e, s1) \<Rightarrow>
                (if e = Auth ErrInvalidResetToken then WriteError http_ErrInvalid (error_text ErrInvalidResetToken)
                 else WriteError http_ErrInternal ''password reset failed'', s1)
            | (Inr _, s1) \<Rightarrow> (NoContent, s1))"

definition auth_handler_Me :: "'r auth_state \<Rightarrow> id \<Rightarrow> (id \<times> string \<times> bool) response" where
  "auth_handler_Me s userID =
     (case GetUserByID (au_db s) userID of
        Inl _ \<Rightarrow> WriteError http_ErrInternal ''could not load profile''
      | Inr u \<Rightarrow> WriteJSON 200 (us_id u, us_email u, us_admin u))"

definition auth_handler_TOTPStatus :: "'r auth_state \<Rightarrow> id \<Rightarrow> bool response" where
  "auth_handler_TOTPStatus s userID =
     (case TOTPEnabled s userID of
        Inl _ \<Rightarrow> WriteError http_ErrInternal ''could not read 2FA status''
      | Inr enabled \<Rightarrow> WriteJSON 200 enabled)"

definition auth_handler_TOTPSetup ::
  "draw \<Rightarrow> time \<Rightarrow> id \<Rightarrow> 'r auth_state \<Rightarrow> (string \<times> string) response \<times> 'r auth_state" where
  "auth_handler_TOTPSetup dr now userID s =
     (case SetupTOTP dr now userID s of
        (Inl e, s1) \<Rightarrow>
          (if e = Auth ErrTOTPAlreadyEnabled then WriteError http_ErrConflict (error_text ErrTOTPAlreadyEnabled)
           else WriteError http_ErrInternal ''could not start 2FA enrollment'', s1)
      | (Inr (secret, uri), s1) \<Rightarrow> (WriteJSON 200 (secret, uri), s1))"

definition auth_handler_TOTPConfirm ::
  "'r AuthService \<Rightarrow> time \<Rightarrow> id \<Rightarrow> string option \<Rightarrow> 'r auth_state \<Rightarrow> unit response \<times> 'r auth_state" where
  "auth_handler_TOTPConfirm sv now userID body s =
     (case body of
        None \<Rightarrow> (malformed, s)
      | Some code \<Rightarrow>
          (case ConfirmTOTP sv now userID code s of
             (Inl e, s1) \<Rightarrow>
               (if e = Auth ErrInvalidTOTPCode then WriteError http_ErrInvalid (error_text ErrInvalidTOTPCode)
                else if e = Auth ErrTOTPNotEnrolled
                  then WriteError http_ErrConflict
                    (''no pending enrollment '' @ [CHR 0xE2, CHR 0x80, CHR 0x94] @ '' start setup first'')
                else if e = Auth ErrTOTPAlreadyEnabled then WriteError http_ErrConflict (error_text ErrTOTPAlreadyEnabled)
                else WriteError http_ErrInternal ''could not confirm 2FA'', s1)
           | (Inr _, s1) \<Rightarrow> (NoContent, s1)))"

definition auth_handler_TOTPDisable ::
  "'r AuthService \<Rightarrow> time \<Rightarrow> id \<Rightarrow> string option \<Rightarrow> 'r auth_state \<Rightarrow> unit response \<times> 'r auth_state" where
  "auth_handler_TOTPDisable sv now userID body s =
     (case body of
        None \<Rightarrow> (malformed, s)
      | Some code \<Rightarrow>
          (case DisableTOTP sv now userID code s of
             (Inl e, s1) \<Rightarrow>
               (if e = Auth ErrInvalidTOTPCode then WriteError http_ErrInvalid (error_text ErrInvalidTOTPCode)
                else if e = Auth ErrTOTPNotEnrolled then WriteError http_ErrNotFound ''two-factor authentication is not enabled''
                else WriteError http_ErrInternal ''could not disable 2FA'', s1)
           | (Inr _, s1) \<Rightarrow> (NoContent, s1)))"

definition auth_handler_Refresh ::
  "'r AuthService \<Rightarrow> draw \<Rightarrow> time \<Rightarrow> string option \<Rightarrow> 'r auth_state \<Rightarrow> LoginResult response \<times> 'r auth_state" where
  "auth_handler_Refresh sv dr now body s =
     (case body of
        None \<Rightarrow> (malformed, s)
      | Some refreshToken \<Rightarrow>
          if refreshToken = '''' then (WriteError http_ErrInvalid ''refresh_token is required'', s)
          else case Refresh sv dr now refreshToken s of
              (Inl _, s1) \<Rightarrow> (WriteError http_ErrUnauthorized ''invalid or expired refresh token'', s1)
            | (Inr pair, s1) \<Rightarrow> (writeTokenPair pair, s1))"

definition auth_handler_Logout ::
  "'r AuthService \<Rightarrow> time \<Rightarrow> string \<Rightarrow> string option \<Rightarrow> 'r auth_state \<Rightarrow> unit response \<times> 'r auth_state" where
  "auth_handler_Logout sv now header body s =
     (case body of
        None \<Rightarrow> (malformed, s)
      | Some refreshToken \<Rightarrow>
          (case Logout sv now refreshToken (case bearerToken header of None \<Rightarrow> '''' | Some t \<Rightarrow> t) s of
             (Inl _, s1) \<Rightarrow> (WriteError http_ErrInternal ''logout failed'', s1)
           | (Inr _, s1) \<Rightarrow> (NoContent, s1)))"

section \<open>Wiring\<close>

text \<open>\<^verbatim>\<open>org\<close> looks users up by e-mail through \<^verbatim>\<open>auth\<close>'s repository; \<^verbatim>\<open>auth\<close> creates the default
  organization through \<^verbatim>\<open>org\<close>'s service.\<close>

definition userLookup_GetUserByEmail :: "db \<Rightarrow> string \<Rightarrow> id res" where
  "userLookup_GetUserByEmail d email = (case GetUserByEmail d email of Inl e \<Rightarrow> Inl e | Inr u \<Rightarrow> Inr (us_id u))"

definition wired_auth ::
  "'r redis \<Rightarrow> jwt \<Rightarrow> (string \<Rightarrow> string res) \<Rightarrow> (string \<Rightarrow> string \<Rightarrow> bool) \<Rightarrow> (id \<Rightarrow> string \<Rightarrow> unit dbop)
     \<Rightarrow> string \<Rightarrow> string \<Rightarrow> duration \<Rightarrow> duration \<Rightarrow> (string \<Rightarrow> string \<Rightarrow> string \<Rightarrow> goerr option) option \<Rightarrow> string \<Rightarrow> 'r AuthService" where
  "wired_auth rd jw generate compare createRoot jwtSecret jwtSecretPrevious accessTTL refreshTTL mailer webBaseURL =
     \<lparr>as_redis = rd, as_jwt = jw, as_issuer = newTokenIssuer jwtSecret jwtSecretPrevious accessTTL,
      as_refreshTTL = refreshTTL, as_mailer = mailer, as_webBaseURL = webBaseURL,
      as_CreateForOwner = CreateForOwner createRoot, as_hashPassword = generate, as_verifyPassword = compare\<rparr>"

end
