(* ===== verification/Sha256_Vectors.thy ===== *)
theory Sha256_Vectors
  imports Sha256
begin

unbundle bit_operations_syntax

text \<open>
  The digests of the empty message and of \<^verbatim>\<open>"abc"\<close>, the test vectors of the standard, evaluated in
  the kernel. Sums are reduced modulo \<open>2 ^ 32\<close> as they arise, so that the numerals stay small.
\<close>

definition reduced :: "32 word \<Rightarrow> 32 word" where
  "reduced w = w"

lemma reduced_numeral: "reduced (numeral n) = of_nat (numeral n mod 4294967296)" "reduced 0 = 0" "reduced 1 = 1"
proof -
  have "(of_nat (m mod 4294967296) :: 32 word) = of_nat m" for m
    by (rule word_of_nat_eq_iff [THEN iffD2]) (simp add: take_bit_eq_mod)
  from this [of "numeral n"] show "reduced (numeral n) = of_nat (numeral n mod 4294967296)"
    unfolding reduced_def of_nat_numeral by (rule sym)
qed (simp_all add: reduced_def)

lemma shift_reduced:
  "sha256_shift t1 t2 (a, b, c, d, e, f, g, h) = (reduced (t1 + t2), a, b, c, reduced (d + t1), e, f, g)"
  by (simp add: reduced_def)

lemma extend_reduced:
  "sha256_extend (numeral k) ws = sha256_extend (pred_numeral k)
     (reduced (small_sigma1 (ws ! 1) + ws ! 6 + small_sigma0 (ws ! 14) + ws ! 15) # ws)"
  by (simp add: numeral_eq_Suc reduced_def)

lemma replicate_unroll: "replicate (numeral k) x = x # replicate (pred_numeral k) x"
  by (simp add: numeral_eq_Suc)

lemmas sha256_eval = sha256_k_def big_sigma1_def big_sigma0_def small_sigma0_def small_sigma1_def rotl_def
  sha256_schedule_def bytes32_def extend_reduced shift_reduced reduced_numeral

lemmas pad_eval = bytes_of_string_def sha1_pad_def bytes64_def replicate_unroll be32_def

lemma single_block:
  assumes "length p = 64"
  shows "blocks64 (length p div 64) p = [p]"
  using assms by simp

lemma padded:
  "length (sha1_pad (bytes_of_string '''')) = 64" "length (sha1_pad (bytes_of_string ''abc'')) = 64"
  "words32 (sha1_pad (bytes_of_string '''')) = [0x80000000, 0, 0, 0, 0, 0, 0, 0, 0, 0, 0, 0, 0, 0, 0, 0]"
  "words32 (sha1_pad (bytes_of_string ''abc'')) = [0x61626380, 0, 0, 0, 0, 0, 0, 0, 0, 0, 0, 0, 0, 0, 0, 24]"
  by (simp_all add: pad_eval)

lemma sha256_empty:
  "hex_encode (sha256_Sum (bytes_of_string '''')) = ''e3b0c44298fc1c149afbf4c8996fb92427ae41e4649b934ca495991b7852b855''"
  unfolding sha256_Sum_def Let_def single_block [OF padded(1)]
  by (simp add: padded sha256_eval hex_alphabet_def del: sha256_shift.simps)

lemma sha256_abc:
  "hex_encode (sha256_Sum (bytes_of_string ''abc'')) = ''ba7816bf8f01cfea414140de5dae2223b00361a396177a9cb410ff61f20015ad''"
  unfolding sha256_Sum_def Let_def single_block [OF padded(2)]
  by (simp add: padded sha256_eval hex_alphabet_def del: sha256_shift.simps)

end
