(* ===== verification/Paging.thy ===== *)
theory Paging
  imports Encoding
begin

text \<open>
  What the paged read endpoints (\<^verbatim>\<open>internal/activity\<close> and \<^verbatim>\<open>internal/search\<close>) share: Go's
  \<^verbatim>\<open>strconv\<close> number parsing, cursors as base64 text, and the contract of keyset pagination. The
  contract is the locale \<open>keyset_pages\<close>; its client lemma is that following \<^verbatim>\<open>next_cursor\<close>
  until it is empty ends, and that the pages are the result list cut into pieces, whatever
  happens to the table between two requests that the contract allows.
\<close>

section \<open>Parsing decimal numbers\<close>

text \<open>\<^verbatim>\<open>strconv.ParseUint\<close>, \<^verbatim>\<open>ParseInt\<close> and \<^verbatim>\<open>Atoi\<close> in base 10: a syntax error has the value 0, a
  number out of range the nearest bound. The digits are read from the left, so an overflow is
  noticed before a foreign character further right.\<close>

datatype 'a parse = ParseOk 'a | ParseRange 'a | ParseSyntax

definition decimal_digit :: "char \<Rightarrow> nat option" where
  "decimal_digit c = (let n = of_char c :: nat in if 48 \<le> n \<and> n \<le> 57 then Some (n - 48) else None)"

fun ParseUint :: "nat \<Rightarrow> string \<Rightarrow> nat parse" where
  "ParseUint n [] = ParseOk n"
| "ParseUint n (c # cs) =
     (case decimal_digit c of
        None \<Rightarrow> ParseSyntax
      | Some d \<Rightarrow> if 2 ^ 64 - 1 < 10 * n + d then ParseRange (2 ^ 64 - 1) else ParseUint (10 * n + d) cs)"

definition signed_value :: "bool \<Rightarrow> string \<Rightarrow> int parse" where
  "signed_value neg ds =
     (if ds = [] then ParseSyntax
      else case ParseUint 0 ds of
          ParseSyntax \<Rightarrow> ParseSyntax
        | ParseRange _ \<Rightarrow> ParseRange (if neg then - (2 ^ 63) else 2 ^ 63 - 1)
        | ParseOk n \<Rightarrow>
            if \<not> neg \<and> 2 ^ 63 \<le> n then ParseRange (2 ^ 63 - 1)
            else if neg \<and> 2 ^ 63 < n then ParseRange (- (2 ^ 63))
            else ParseOk (if neg then - int n else int n))"

definition ParseInt :: "string \<Rightarrow> int parse" where
  "ParseInt s =
     (case s of
        [] \<Rightarrow> ParseSyntax
      | c # r \<Rightarrow> if c = CHR ''-'' then signed_value True r
                 else if c = CHR ''+'' then signed_value False r else signed_value False s)"

definition Atoi :: "string \<Rightarrow> int" where
  "Atoi s = (case ParseInt s of ParseOk n \<Rightarrow> n | ParseRange n \<Rightarrow> n | ParseSyntax \<Rightarrow> 0)"

lemma decimal_digit_char: "d < 10 \<Longrightarrow> decimal_digit (digit_char d) = Some d"
  by (simp add: decimal_digit_def digit_char_def Let_def)

lemma ParseUint_append:
  "ParseUint n (xs @ ys) = (case ParseUint n xs of ParseOk m \<Rightarrow> ParseUint m ys | e \<Rightarrow> e)"
  by (induction n xs rule: ParseUint.induct) (auto split: option.splits)

lemma ParseUint_dec: "m < 2 ^ 64 \<Longrightarrow> ParseUint 0 (dec m) = ParseOk m"
proof (induction m rule: dec.induct)
  case (1 n)
  show ?case
  proof (cases "n < 10")
    case True
    then show ?thesis by (simp add: dec.simps [of n] decimal_digit_char)
  next
    case False
    then have "ParseUint 0 (dec (n div 10)) = ParseOk (n div 10)" using 1 by simp
    moreover have "10 * (n div 10) + n mod 10 = n" by simp
    ultimately show ?thesis
      using False 1(2) by (simp add: dec.simps [of n] ParseUint_append decimal_digit_char)
  qed
qed

lemma dec_shape: "\<exists>d r. d < 10 \<and> dec n = digit_char d # r"
proof (induction n rule: dec.induct)
  case (1 n)
  show ?case
  proof (cases "n < 10")
    case True
    then show ?thesis by (intro exI [of _ n] exI [of _ "[]"]) (simp add: dec.simps [of n])
  next
    case False
    then obtain d r where "d < 10" "dec (n div 10) = digit_char d # r" using 1 by blast
    with False show ?thesis
      by (intro exI [of _ d] exI [of _ "r @ [digit_char (n mod 10)]"]) (simp add: dec.simps [of n])
  qed
qed

lemma digit_char_unsigned: "d < 10 \<Longrightarrow> digit_char d \<noteq> CHR ''-'' \<and> digit_char d \<noteq> CHR ''+''"
  by (auto dest!: decimal_digit_char simp: decimal_digit_def)

lemma dec_nonempty: "dec n \<noteq> []"
  using dec_shape [of n] by auto

text \<open>Formatting and parsing are inverse on every \<^verbatim>\<open>int64\<close>.\<close>

lemma ParseInt_dec_int:
  assumes "in_int64 i"
  shows "ParseInt (dec_int i) = ParseOk i"
proof (cases "i < 0")
  case True
  then have "nat (- i) \<le> 2 ^ 63" and "ParseUint 0 (dec (nat (- i))) = ParseOk (nat (- i))"
    using assms by (auto simp: in_int64_def nat_le_iff intro!: ParseUint_dec)
  with True show ?thesis by (simp add: ParseInt_def dec_int_def signed_value_def dec_nonempty)
next
  case False
  then have *: "nat i < 2 ^ 63" and "ParseUint 0 (dec (nat i)) = ParseOk (nat i)"
    using assms by (auto simp: in_int64_def nat_less_iff intro!: ParseUint_dec)
  moreover obtain d r where "d < 10" "dec (nat i) = digit_char d # r" using dec_shape by blast
  ultimately show ?thesis
    using False digit_char_unsigned [of d]
    by (auto simp: ParseInt_def dec_int_def signed_value_def)
qed

section \<open>Cursor text\<close>

definition string_of_bytes :: "byte list \<Rightarrow> string" where
  "string_of_bytes bs = map (\<lambda>b. char_of (unat b)) bs"

lemma char_byte_roundtrip: "char_of (unat (of_char c :: byte)) = c"
proof -
  have "(of_char c :: byte) = word_of_nat (of_char c)" by (simp add: of_nat_of_char)
  then have "unat (of_char c :: byte) = of_char c"
    using nat_of_char_less_256 [of c] by (simp add: take_bit_eq_mod unsigned_of_nat)
  then show ?thesis by simp
qed

lemma string_bytes_roundtrip: "string_of_bytes (bytes_of_string s) = s"
  by (simp add: string_of_bytes_def bytes_of_string_def comp_def char_byte_roundtrip)

text \<open>\<^verbatim>\<open>base64.RawURLEncoding\<close> between strings.\<close>

definition EncodeToString :: "string \<Rightarrow> string" where
  "EncodeToString s = b64url_encode (bytes_of_string s)"

definition DecodeString :: "string \<Rightarrow> string option" where
  "DecodeString s = map_option string_of_bytes (b64url_decode s)"

lemma DecodeString_EncodeToString: "DecodeString (EncodeToString s) = Some s"
  by (simp add: DecodeString_def EncodeToString_def b64url_roundtrip string_bytes_roundtrip)

lemma EncodeToString_nonempty: "s \<noteq> [] \<Longrightarrow> EncodeToString s \<noteq> []"
  using length_b64url_encode [of "bytes_of_string s"]
  by (cases s) (auto simp: EncodeToString_def bytes_of_string_def)

section \<open>Page sizes\<close>

text \<open>Both services replace a limit outside \<open>1 .. maxLimit\<close> by the default.\<close>

definition defaultLimit :: int where
  "defaultLimit = 20"

definition maxLimit :: int where
  "maxLimit = 100"

definition page_limit :: "int \<Rightarrow> int" where
  "page_limit limit = (if limit \<le> 0 \<or> maxLimit < limit then defaultLimit else limit)"

lemma page_limit_bounds: "0 < page_limit limit" "page_limit limit \<le> 100"
  by (auto simp: page_limit_def defaultLimit_def maxLimit_def)

section \<open>Rows after a key\<close>

text \<open>In a strictly ordered result the rows after the last one of a page are the rest.\<close>

lemma keyset_filter:
  assumes "sorted_wrt R xs" and asym: "\<And>x y. R x y \<Longrightarrow> \<not> R y x" and "i < length xs"
  shows "filter (R (xs ! i)) xs = drop (Suc i) xs"
  using assms(1,3)
proof (induction xs arbitrary: i)
  case (Cons x xs)
  show ?case
  proof (cases i)
    case 0
    have "\<not> R x x" using asym by blast
    moreover have "\<forall>y \<in> set xs. R x y" using Cons.prems(1) by simp
    ultimately show ?thesis using 0 by simp
  next
    case (Suc j)
    then have "R x (xs ! j)" using Cons.prems by simp
    then have "\<not> R (xs ! j) x" by (rule asym)
    with Suc Cons show ?thesis by simp
  qed
qed simp

lemma keyset_resume:
  assumes "sorted_wrt R xs" and "\<And>x y. R x y \<Longrightarrow> \<not> R y x" and "0 < n" and "n \<le> length xs"
  shows "filter (R (last (take n xs))) xs = drop n xs"
proof -
  have "take n xs \<noteq> []" and "length (take n xs) = n" using assms(3,4) by auto
  then have "last (take n xs) = xs ! (n - 1)" using assms(3) by (simp add: last_conv_nth)
  then show ?thesis using keyset_filter [OF assms(1,2), of "n - 1"] assms(3,4) by simp
qed

section \<open>The contract of keyset pagination\<close>

text \<open>A client's loop: request a page, let the others' writes \<open>m\<close> happen, follow the cursor until
  it is empty. One element of the list is spent per request, so \<open>None\<close> means the loop was cut
  off, or a request failed.\<close>

fun walk ::
  "('s \<Rightarrow> string \<Rightarrow> ('r list \<times> string) res) \<Rightarrow> ('m \<Rightarrow> 's \<Rightarrow> 's) \<Rightarrow> 'm list \<Rightarrow> 's \<Rightarrow> string \<Rightarrow> 'r list list option"
where
  "walk page step [] s c = None"
| "walk page step (m # ms) s c =
     (case page s c of
        Inl _ \<Rightarrow> None
      | Inr (rs, next) \<Rightarrow>
          if next = [] then Some [rs] else map_option ((#) rs) (walk page step ms (step m s) next))"

locale keyset_pages =
  fixes n :: nat
    and page :: "'s \<Rightarrow> string \<Rightarrow> ('r list \<times> string) res"
    and rest :: "'s \<Rightarrow> string \<Rightarrow> 'r list"
    and step :: "'m \<Rightarrow> 's \<Rightarrow> 's"
    and ok :: "'s \<Rightarrow> string \<Rightarrow> bool"
  assumes pos: "0 < n"
    and page: "ok s c \<Longrightarrow> \<exists>next. page s c = Inr (take n (rest s c), next) \<and> (next = [] \<longleftrightarrow> length (rest s c) < n)"
    and resume: "ok s c \<Longrightarrow> page s c = Inr (rs, next) \<Longrightarrow> next \<noteq> [] \<Longrightarrow>
      ok (step m s) next \<and> rest (step m s) next = drop n (rest s c)"
begin

lemma walk_pages:
  assumes "ok s c" and "length (rest s c) div n < length ms"
  shows "\<exists>pages. walk page step ms s c = Some pages \<and> concat pages = rest s c \<and>
    length pages = length (rest s c) div n + 1 \<and> (\<forall>p \<in> set (butlast pages). length p = n)"
  using assms
proof (induction ms arbitrary: s c)
  case (Cons m ms)
  obtain "next" where nx: "page s c = Inr (take n (rest s c), next)" "next = [] \<longleftrightarrow> length (rest s c) < n"
    using page [OF Cons.prems(1)] by blast
  show ?case
  proof (cases "length (rest s c) < n")
    case True
    with nx show ?thesis by simp
  next
    case False
    with nx have "next \<noteq> []" by simp
    from resume [OF Cons.prems(1) nx(1) this, of m]
    have ok: "ok (step m s) next" and rest: "rest (step m s) next = drop n (rest s c)" by simp_all
    have len: "length (rest s c) div n = length (drop n (rest s c)) div n + 1"
      using False pos by (simp add: le_div_geq)
    have "length (rest (step m s) next) div n < length ms" using Cons.prems(2) by (simp only: rest len) simp
    from Cons.IH [OF ok this] obtain pages where
      "walk page step ms (step m s) next = Some pages" "concat pages = drop n (rest s c)"
      "length pages = length (drop n (rest s c)) div n + 1" "\<forall>p \<in> set (butlast pages). length p = n"
      by (auto simp: rest)
    moreover from this(3) have "pages \<noteq> []" by auto
    ultimately show ?thesis
      using nx(1) \<open>next \<noteq> []\<close> False len by (intro exI [of _ "take n (rest s c) # pages"]) auto
  qed
qed simp

end

end
