(* ===== verification/Activity.thy ===== *)
theory Activity
  imports Paging Schema Http
begin

text \<open>
  The activity feed, \<^verbatim>\<open>internal/activity\<close>: recording events, the per-member and per-verb
  aggregates of the usage view, and the paged listing with its cursors. The table and its
  \<^verbatim>\<open>bigserial\<close> sequence are the record \<open>activity_db\<close>; organizations and users are looked up in
  the main database for the foreign keys. The announcement to connected browsers is the list of
  notifications an operation returns.
\<close>

section \<open>Rows and constants\<close>

definition VerbUploaded :: string where
  "VerbUploaded = ''uploaded''"

definition VerbThumbnailGenerated :: string where
  "VerbThumbnailGenerated = ''thumbnail_generated''"

definition TargetTypeFile :: string where
  "TargetTypeFile = ''file''"

record Event =
  ev_id :: int
  ev_org :: id
  ev_actor :: "id option"
  ev_verb :: string
  ev_target_type :: string
  ev_target :: id
  ev_created :: time

record activity_db =
  activity_events :: "Event list"
  activity_seq :: int

record ActorStat =
  as_events :: nat
  as_last :: time

record notification =
  nt_org :: id
  nt_verb :: string
  nt_target_type :: string
  nt_target :: id

section \<open>The repository\<close>

text \<open>The sequence value is drawn before the foreign keys are checked, so a refused insert leaves
  a gap; a sequence past the largest \<^verbatim>\<open>bigint\<close> is an error.\<close>

definition Record ::
  "time \<Rightarrow> db \<Rightarrow> id \<Rightarrow> id option \<Rightarrow> string \<Rightarrow> string \<Rightarrow> id \<Rightarrow> activity_db \<Rightarrow> unit res \<times> activity_db" where
  "Record now d orgID actorUserID verb targetType targetID a =
     (if 2 ^ 63 \<le> activity_seq a then (Inl (PgError OutOfRange), a)
      else
        (let a1 = a\<lparr>activity_seq := activity_seq a + 1\<rparr> in
         if \<not> has_org d orgID \<or> (case actorUserID of None \<Rightarrow> False | Some u \<Rightarrow> \<not> has_user d u)
           then (Inl (PgError ForeignKeyViolation), a1)
         else (Inr (), a1\<lparr>activity_events := activity_events a @
                [\<lparr>ev_id = activity_seq a, ev_org = orgID, ev_actor = actorUserID, ev_verb = verb,
                  ev_target_type = targetType, ev_target = targetID, ev_created = now\<rparr>]\<rparr>)))"

text \<open>\<^verbatim>\<open>GROUP BY\<close> makes one entry per actor with an event, whatever its age.\<close>

definition ActorStats :: "activity_db \<Rightarrow> id \<Rightarrow> time \<Rightarrow> id \<rightharpoonup> ActorStat" where
  "ActorStats a orgID since = (\<lambda>userID.
     let es = filter (\<lambda>e. ev_org e = orgID \<and> ev_actor e = Some userID) (activity_events a)
     in if es = [] then None
        else Some \<lparr>as_events = rows_affected (\<lambda>e. since \<le> ev_created e) es,
                   as_last = Max (ev_created ` set es)\<rparr>)"

definition VerbCounts :: "activity_db \<Rightarrow> id \<Rightarrow> time \<Rightarrow> string \<rightharpoonup> nat" where
  "VerbCounts a orgID since = (\<lambda>verb.
     let n = rows_affected (\<lambda>e. ev_org e = orgID \<and> since \<le> ev_created e \<and> ev_verb e = verb) (activity_events a)
     in if n = 0 then None else Some n)"

definition activity_encodeCursor :: "int \<Rightarrow> string" where
  "activity_encodeCursor i = EncodeToString (dec_int i)"

definition activity_decodeCursor :: "string \<Rightarrow> int res" where
  "activity_decodeCursor cursor =
     (case DecodeString cursor of
        None \<Rightarrow> Inl ErrInvalidCursor
      | Some b \<Rightarrow> (case ParseInt b of ParseOk i \<Rightarrow> Inr i | _ \<Rightarrow> Inl ErrInvalidCursor))"

definition activity_repo_List :: "activity_db \<Rightarrow> id \<Rightarrow> string \<Rightarrow> int \<Rightarrow> (Event list \<times> string) res" where
  "activity_repo_List a orgID cursor limit =
     (case (if cursor \<noteq> [] then activity_decodeCursor cursor else Inr (2 ^ 63 - 1)) of
        Inl e \<Rightarrow> Inl e
      | Inr beforeID \<Rightarrow>
          (let out = take (nat limit) (sort_key (\<lambda>e. - ev_id e)
                 (filter (\<lambda>e. ev_org e = orgID \<and> ev_id e < beforeID) (activity_events a)))
           in Inr (out, if int (length out) = limit then activity_encodeCursor (ev_id (last out)) else [])))"

section \<open>The service and the handler\<close>

definition activity_List :: "activity_db \<Rightarrow> id \<Rightarrow> string \<Rightarrow> int \<Rightarrow> (Event list \<times> string) res" where
  "activity_List a orgID cursor limit = activity_repo_List a orgID cursor (page_limit limit)"

definition record_and_notify ::
  "time \<Rightarrow> db \<Rightarrow> id \<Rightarrow> id option \<Rightarrow> string \<Rightarrow> id \<Rightarrow> activity_db \<Rightarrow> (unit res \<times> notification list) \<times> activity_db" where
  "record_and_notify now d orgID actor verb fileID a =
     (case Record now d orgID actor verb TargetTypeFile fileID a of
        (Inl e, a1) \<Rightarrow> ((Inl e, []), a1)
      | (Inr _, a1) \<Rightarrow> ((Inr (), [\<lparr>nt_org = orgID, nt_verb = verb, nt_target_type = TargetTypeFile,
                                  nt_target = fileID\<rparr>]), a1))"

definition activity_RecordUpload ::
  "time \<Rightarrow> db \<Rightarrow> id \<Rightarrow> id \<Rightarrow> id \<Rightarrow> activity_db \<Rightarrow> (unit res \<times> notification list) \<times> activity_db" where
  "activity_RecordUpload now d orgID actorUserID fileID =
     record_and_notify now d orgID (Some actorUserID) VerbUploaded fileID"

definition RecordThumbnail ::
  "time \<Rightarrow> db \<Rightarrow> id \<Rightarrow> id \<Rightarrow> activity_db \<Rightarrow> (unit res \<times> notification list) \<times> activity_db" where
  "RecordThumbnail now d orgID fileID = record_and_notify now d orgID None VerbThumbnailGenerated fileID"

record activity_entry =
  ae_verb :: string
  ae_target_type :: string
  ae_target :: id
  ae_actor :: "id option"
  ae_created :: time

definition activity_handler_List ::
  "activity_db \<Rightarrow> id \<Rightarrow> string \<Rightarrow> string \<Rightarrow> (activity_entry list \<times> string) response" where
  "activity_handler_List a orgID cursor limit =
     (case activity_List a orgID cursor (Atoi limit) of
        Inl _ \<Rightarrow> WriteError http_ErrInternal ''failed to list activity''
      | Inr (events, next) \<Rightarrow> WriteJSON 200
          (map (\<lambda>e. \<lparr>ae_verb = ev_verb e, ae_target_type = ev_target_type e, ae_target = ev_target e,
                     ae_actor = ev_actor e, ae_created = ev_created e\<rparr>) events, next))"

section \<open>The table's invariant\<close>

definition activity_ok :: "activity_db \<Rightarrow> bool" where
  "activity_ok a \<longleftrightarrow> distinct (map ev_id (activity_events a)) \<and>
     1 \<le> activity_seq a \<and>
     (\<forall>e \<in> set (activity_events a). 1 \<le> ev_id e \<and> ev_id e < activity_seq a \<and> ev_id e < 2 ^ 63)"

lemma Record_ok:
  assumes "activity_ok a"
  shows "activity_ok (snd (Record now d oid actor verb tt tid a))"
  using assms by (auto simp: activity_ok_def Record_def Let_def split: option.splits)

text \<open>A record only ever appends an event with the next sequence number.\<close>

lemma Record_events:
  "\<exists>new. activity_events (snd (Record now d oid actor verb tt tid a)) = activity_events a @ new \<and>
     (\<forall>e \<in> set new. ev_id e = activity_seq a) \<and> activity_seq a \<le> activity_seq (snd (Record now d oid actor verb tt tid a))"
  by (auto simp: Record_def Let_def)

text \<open>The requests that other callers make between two pages.\<close>

type_synonym record_request = "time \<times> db \<times> id \<times> id option \<times> string \<times> string \<times> id"

definition record_batch :: "record_request list \<Rightarrow> activity_db \<Rightarrow> activity_db" where
  "record_batch reqs a = fold (\<lambda>(now, d, oid, actor, verb, tt, tid) a. snd (Record now d oid actor verb tt tid a)) reqs a"

lemma record_batch_grows:
  assumes "activity_ok a"
  shows "activity_ok (record_batch reqs a) \<and> activity_seq a \<le> activity_seq (record_batch reqs a) \<and>
    (\<exists>new. activity_events (record_batch reqs a) = activity_events a @ new \<and> (\<forall>e \<in> set new. activity_seq a \<le> ev_id e))"
  using assms
proof (induction reqs arbitrary: a)
  case Nil
  then show ?case by (simp add: record_batch_def)
next
  case (Cons r reqs)
  obtain now d oid actor verb tt tid where r: "r = (now, d, oid, actor, verb, tt, tid)" by (cases r)
  let ?a = "snd (Record now d oid actor verb tt tid a)"
  obtain new where new: "activity_events ?a = activity_events a @ new" "\<forall>e \<in> set new. ev_id e = activity_seq a"
      "activity_seq a \<le> activity_seq ?a"
    using Record_events by blast
  from Cons.IH [OF Record_ok [OF Cons.prems, of now d oid actor verb tt tid]]
  obtain more where "activity_ok (record_batch reqs ?a)" "activity_seq ?a \<le> activity_seq (record_batch reqs ?a)"
    "activity_events (record_batch reqs ?a) = activity_events ?a @ more" "\<forall>e \<in> set more. activity_seq ?a \<le> ev_id e"
    by blast
  moreover have "record_batch (r # reqs) a = record_batch reqs ?a" by (simp add: record_batch_def r)
  ultimately show ?case using new by (intro conjI exI [of _ "new @ more"]) (simp; force)+
qed

section \<open>Paging through the feed\<close>

lemma activity_cursor_roundtrip:
  assumes "in_int64 i"
  shows "activity_decodeCursor (activity_encodeCursor i) = Inr i"
  using assms by (simp add: activity_decodeCursor_def activity_encodeCursor_def
    DecodeString_EncodeToString ParseInt_dec_int)

lemma activity_encodeCursor_nonempty: "activity_encodeCursor i \<noteq> []"
  unfolding activity_encodeCursor_def
  by (rule EncodeToString_nonempty) (auto simp: dec_int_def dec_nonempty)

text \<open>The events a request with a cursor is about, newest first.\<close>

abbreviation newer :: "Event \<Rightarrow> Event \<Rightarrow> bool" where
  "newer e e' \<equiv> ev_id e' < ev_id e"

definition feed_rest :: "id \<Rightarrow> activity_db \<Rightarrow> string \<Rightarrow> Event list" where
  "feed_rest orgID a cursor = sort_key (\<lambda>e. - ev_id e) (filter (\<lambda>e. ev_org e = orgID \<and>
     (cursor = [] \<or> (\<forall>b. activity_decodeCursor cursor = Inr b \<longrightarrow> ev_id e < b))) (activity_events a))"

definition feed_ok :: "activity_db \<Rightarrow> string \<Rightarrow> bool" where
  "feed_ok a cursor \<longleftrightarrow> activity_ok a \<and>
     (if cursor = [] then activity_seq a < 2 ^ 63
      else \<exists>i. activity_decodeCursor cursor = Inr i \<and> i < activity_seq a)"

lemma sorted_feed_rest:
  assumes "activity_ok a"
  shows "sorted_wrt newer (feed_rest oid a c)"
proof -
  have "sorted_wrt (\<le>) (map (\<lambda>e. - ev_id e) (feed_rest oid a c))" by (simp add: feed_rest_def)
  moreover have "distinct (map (\<lambda>e. - ev_id e) (feed_rest oid a c))"
    using assms by (auto simp: feed_rest_def activity_ok_def distinct_map inj_on_def)
  ultimately have "sorted_wrt (<) (map (\<lambda>e. - ev_id e) (feed_rest oid a c))"
    by (simp only: strict_sorted_iff)
  then show ?thesis by (simp add: sorted_wrt_map)
qed

lemma activity_List_page:
  assumes "feed_ok a c"
  shows "activity_List a oid c limit =
    (let rs = take (nat (page_limit limit)) (feed_rest oid a c) in
     Inr (rs, if length rs = nat (page_limit limit) then activity_encodeCursor (ev_id (last rs)) else []))"
proof -
  have first: "\<forall>e \<in> set (activity_events a). ev_id e < 2 ^ 63 - 1" if "activity_seq a < 2 ^ 63"
    using assms that by (force simp: feed_ok_def activity_ok_def)
  have "int (length rs) = page_limit limit \<longleftrightarrow> length rs = nat (page_limit limit)" for rs :: "Event list"
    using page_limit_bounds(1) [of limit] by auto
  moreover have "filter (\<lambda>e. ev_org e = oid \<and> ev_id e < 2 ^ 63 - 1) (activity_events a) =
      filter (\<lambda>e. ev_org e = oid) (activity_events a)" if "c = []"
    using first assms that by (intro filter_cong) (auto simp: feed_ok_def)
  ultimately show ?thesis
    using assms by (auto simp: activity_List_def activity_repo_List_def feed_rest_def feed_ok_def Let_def)
qed

lemma feed_resume:
  assumes ok: "feed_ok a c" and pg: "activity_List a oid c limit = Inr (rs, next)" and more: "next \<noteq> []"
  shows "feed_ok (record_batch m a) next \<and>
    feed_rest oid (record_batch m a) next = drop (nat (page_limit limit)) (feed_rest oid a c)"
proof -
  define n where "n = nat (page_limit limit)"
  have n: "0 < n" using page_limit_bounds(1) [of limit] by (simp add: n_def)
  have rs: "rs = take n (feed_rest oid a c)" and len: "length rs = n"
      and nx: "next = activity_encodeCursor (ev_id (last rs))"
    using pg more unfolding activity_List_page [OF ok] n_def Let_def by (auto split: if_splits)
  have aok: "activity_ok a" using ok by (simp add: feed_ok_def)
  have "last rs \<in> set rs" using len n by (intro last_in_set) auto
  then have mem: "last rs \<in> set (feed_rest oid a c)" using rs in_set_takeD by metis
  then have "last rs \<in> set (activity_events a)" by (simp add: feed_rest_def)
  then have l: "ev_id (last rs) < activity_seq a" "in_int64 (ev_id (last rs))"
    using aok by (force simp: activity_ok_def in_int64_def)+
  have dec: "activity_decodeCursor next = Inr (ev_id (last rs))"
    using l(2) by (simp add: nx activity_cursor_roundtrip)
  obtain new where batch: "activity_ok (record_batch m a)" "activity_seq a \<le> activity_seq (record_batch m a)"
      "activity_events (record_batch m a) = activity_events a @ new" "\<forall>e \<in> set new. activity_seq a \<le> ev_id e"
    using record_batch_grows [OF aok] by blast
  have "filter (newer (last rs)) (feed_rest oid a c) = drop n (feed_rest oid a c)"
    unfolding rs by (rule keyset_resume) (use sorted_feed_rest [OF aok] n len rs in auto)
  moreover have "feed_rest oid (record_batch m a) next = filter (newer (last rs)) (feed_rest oid a c)"
  proof -
    have "\<forall>b. activity_decodeCursor c = Inr b \<longrightarrow> ev_id (last rs) < b" if "c \<noteq> []"
      using mem that by (simp add: feed_rest_def)
    moreover have "filter (\<lambda>e. ev_org e = oid \<and> newer (last rs) e) new = []"
      using batch(4) l(1) by (force simp: filter_empty_conv)
    ultimately show ?thesis
      using more by (auto simp: feed_rest_def filter_sort dec batch(3) intro!: arg_cong [where f = "sort_key _"] filter_cong)
  qed
  moreover have "feed_ok (record_batch m a) next"
    using batch(1,2) l(1) more by (force simp: feed_ok_def dec)
  ultimately show ?thesis by (simp add: n_def)
qed

interpretation feed: keyset_pages "nat (page_limit limit)" "\<lambda>a c. activity_List a oid c limit"
  "feed_rest oid" record_batch feed_ok for limit oid
proof unfold_locales
  show "0 < nat (page_limit limit)" using page_limit_bounds(1) [of limit] by simp
next
  fix a c
  assume "feed_ok a c"
  then show "\<exists>next. activity_List a oid c limit = Inr (take (nat (page_limit limit)) (feed_rest oid a c), next) \<and>
      (next = [] \<longleftrightarrow> length (feed_rest oid a c) < nat (page_limit limit))"
    by (auto simp: activity_List_page Let_def activity_encodeCursor_nonempty)
next
  fix a c rs "next" m
  assume "feed_ok a c" "activity_List a oid c limit = Inr (rs, next)" "next \<noteq> []"
  then show "feed_ok (record_batch m a) next \<and>
      feed_rest oid (record_batch m a) next = drop (nat (page_limit limit)) (feed_rest oid a c)"
    by (rule feed_resume)
qed

text \<open>C30: A client that follows \<^verbatim>\<open>next_cursor\<close> through an organization's activity, with any events
  recorded by others between its requests, is done after the number of requests the page size
  gives, and has then seen every event that was there when it began, exactly once, newest first,
  and none of the later ones.\<close>

theorem activity_feed_complete:
  assumes "activity_ok a" and "activity_seq a < 2 ^ 63"
    and "rows_affected (\<lambda>e. ev_org e = oid) (activity_events a) div nat (page_limit limit) < length batches"
  shows "\<exists>pages. walk (\<lambda>a c. activity_List a oid c limit) record_batch batches a [] = Some pages \<and>
    sorted_wrt newer (concat pages) \<and>
    set (concat pages) = {e \<in> set (activity_events a). ev_org e = oid} \<and>
    length pages = rows_affected (\<lambda>e. ev_org e = oid) (activity_events a) div nat (page_limit limit) + 1"
proof -
  have rest: "length (feed_rest oid a []) = rows_affected (\<lambda>e. ev_org e = oid) (activity_events a)"
    "set (feed_rest oid a []) = {e \<in> set (activity_events a). ev_org e = oid}"
    by (simp_all add: feed_rest_def rows_affected_def)
  have "feed_ok a []" using assms by (simp add: feed_ok_def)
  from feed.walk_pages [OF this, of oid limit batches] assms(3) rest sorted_feed_rest [OF assms(1), of oid "[]"]
  show ?thesis by fastforce
qed

definition sample_activity :: activity_db where
  "sample_activity = \<lparr>activity_events =
     [\<lparr>ev_id = 1, ev_org = ''o1'', ev_actor = Some ''u1'', ev_verb = ''uploaded'', ev_target_type = ''file'', ev_target = ''f1'', ev_created = 0\<rparr>,
      \<lparr>ev_id = 2, ev_org = ''o2'', ev_actor = Some ''u1'', ev_verb = ''uploaded'', ev_target_type = ''file'', ev_target = ''f2'', ev_created = 1\<rparr>,
      \<lparr>ev_id = 3, ev_org = ''o1'', ev_actor = None, ev_verb = ''thumbnail_generated'', ev_target_type = ''file'', ev_target = ''f1'', ev_created = 2\<rparr>],
     activity_seq = 4\<rparr>"

theorem activity_feed_complete_witness:
  "\<exists>pages. walk (\<lambda>a c. activity_List a ''o1'' c 1) record_batch [[], [], []] sample_activity [] = Some pages \<and>
    sorted_wrt newer (concat pages) \<and>
    set (concat pages) = {e \<in> set (activity_events sample_activity). ev_org e = ''o1''} \<and>
    length pages = 3"
proof -
  have "rows_affected (\<lambda>e. ev_org e = ''o1'') (activity_events sample_activity) div nat (page_limit 1) = 2"
    by (simp add: sample_activity_def rows_affected_def page_limit_def maxLimit_def)
  then show ?thesis
    using activity_feed_complete [of sample_activity "''o1''" 1 "[[], [], []]"]
    by (simp del: walk.simps add: activity_ok_def) (simp del: walk.simps add: sample_activity_def)
qed

text \<open>A cursor that does not decode is answered with 500.\<close>

lemma activity_bad_cursor_internal:
  assumes "c \<noteq> []" and "DecodeString c = None"
  shows "activity_handler_List a oid c limit = WriteError http_ErrInternal ''failed to list activity''"
  using assms by (simp add: activity_handler_List_def activity_List_def activity_repo_List_def activity_decodeCursor_def)

end
