(* ===== verification/Events.thy ===== *)
theory Events
  imports Nimbus_Prelude Http
begin

text \<open>
  Upload events and their dead letters, \<^verbatim>\<open>internal/events\<close>: publishing, the consumer's decision to
  acknowledge, redeliver or dead-letter a message, the \<^verbatim>\<open>dead_events\<close> table and the administrators'
  routes over it. NATS JetStream and JSON are arguments: a payload is text, \<open>encode\<close> and \<open>decode\<close>
  are the JSON codec, and the stream's answer to a publish is a boolean. Concurrent retries of a
  dead event are a step relation over the handler's database and publish calls.
\<close>

section \<open>Messages\<close>

definition StreamName :: string where
  "StreamName = ''UPLOADS''"

definition UploadCompletedSubject :: string where
  "UploadCompletedSubject = ''nimbus.uploads.completed''"

record UploadCompleted =
  uce_EventID :: id
  uce_FileID :: id
  uce_VersionID :: id
  uce_OrgID :: id
  uce_RequestID :: string

record message =
  msg_subject :: string
  msg_data :: string

text \<open>\<^verbatim>\<open>PublishUploadCompleted\<close> and \<^verbatim>\<open>PublishRaw\<close>; \<open>ok\<close> is the stream's acknowledgement.\<close>

definition PublishUploadCompleted ::
  "(UploadCompleted \<Rightarrow> string res) \<Rightarrow> bool \<Rightarrow> UploadCompleted \<Rightarrow> message list \<Rightarrow> unit res \<times> message list" where
  "PublishUploadCompleted encode ok evt stream =
     (case encode evt of
        Inl e \<Rightarrow> (Inl e, stream)
      | Inr payload \<Rightarrow>
          if ok then (Inr (), stream @ [\<lparr>msg_subject = UploadCompletedSubject, msg_data = payload\<rparr>])
          else (Inl IOError, stream))"

definition PublishRaw :: "bool \<Rightarrow> string \<Rightarrow> string \<Rightarrow> message list \<Rightarrow> unit res \<times> message list" where
  "PublishRaw ok subject payload stream =
     (if ok then (Inr (), stream @ [\<lparr>msg_subject = subject, msg_data = payload\<rparr>]) else (Inl IOError, stream))"

section \<open>Dead events\<close>

datatype dead_status = DeadStatus | RetriedStatus

record DeadEvent =
  de_id :: id
  de_subject :: string
  de_payload :: string
  de_error :: string
  de_deliveries :: int
  de_status :: dead_status
  de_created :: time
  de_retried :: "time option"

definition InsertDeadEvent ::
  "id \<Rightarrow> time \<Rightarrow> string \<Rightarrow> string \<Rightarrow> string \<Rightarrow> int \<Rightarrow> DeadEvent list \<Rightarrow> unit res \<times> DeadEvent list" where
  "InsertDeadEvent uuid now subject payload errMsg deliveries t =
     (if \<not> in_int32 deliveries then (Inl (PgError OutOfRange), t)
      else if \<exists>e \<in> set t. de_id e = uuid then (Inl (PgError UniqueViolation), t)
      else (Inr (), t @ [\<lparr>de_id = uuid, de_subject = subject, de_payload = payload, de_error = errMsg,
              de_deliveries = deliveries, de_status = DeadStatus, de_created = now, de_retried = None\<rparr>]))"

definition ListDeadEvents :: "DeadEvent list \<Rightarrow> DeadEvent list" where
  "ListDeadEvents t = take 100 (sort_key (\<lambda>e. - de_created e) t)"

definition GetDeadEvent :: "DeadEvent list \<Rightarrow> id \<Rightarrow> DeadEvent res" where
  "GetDeadEvent t i =
     (case List.find (\<lambda>e. de_id e = i) t of None \<Rightarrow> Inl ErrDeadEventNotFound | Some e \<Rightarrow> Inr e)"

definition MarkRetried :: "time \<Rightarrow> id \<Rightarrow> DeadEvent list \<Rightarrow> bool \<times> DeadEvent list" where
  "MarkRetried now i t =
     (let hit = (\<lambda>e. de_id e = i \<and> de_status e = DeadStatus)
      in (rows_affected hit t = 1, update_where hit (\<lambda>e. e\<lparr>de_status := RetriedStatus, de_retried := Some now\<rparr>) t))"

definition RevertRetry :: "id \<Rightarrow> DeadEvent list \<Rightarrow> DeadEvent list" where
  "RevertRetry i t = update_where (\<lambda>e. de_id e = i) (\<lambda>e. e\<lparr>de_status := DeadStatus, de_retried := None\<rparr>) t"

text \<open>The gauge \<^verbatim>\<open>nimbus_dlq_dead_events\<close> reads this count.\<close>

definition dead_count :: "DeadEvent list \<Rightarrow> nat" where
  "dead_count t = rows_affected (\<lambda>e. de_status e = DeadStatus) t"

section \<open>The consumer\<close>

definition maxDeliver :: nat where
  "maxDeliver = 5"

datatype ack = Ack | Nak | Term

text \<open>The callback of \<^verbatim>\<open>Subscribe\<close> on one delivery. \<open>md\<close> is the delivery count of the message's
  metadata when it can be read; \<open>handler\<close> is the processing step on a state of its own.\<close>

definition on_delivery ::
  "(string \<Rightarrow> UploadCompleted option) \<Rightarrow> (UploadCompleted \<Rightarrow> 's \<Rightarrow> unit res \<times> 's) \<Rightarrow> (goerr \<Rightarrow> string) \<Rightarrow>
   id \<Rightarrow> time \<Rightarrow> nat option \<Rightarrow> message \<Rightarrow> DeadEvent list \<times> 's \<Rightarrow> ack \<times> DeadEvent list \<times> 's" where
  "on_delivery decode handler err_text uuid now md msg ts =
     (case decode (msg_data msg) of
        None \<Rightarrow> (Term, ts)
      | Some evt \<Rightarrow>
          (case handler evt (snd ts) of
             (Inr _, s1) \<Rightarrow> (Ack, fst ts, s1)
           | (Inl e, s1) \<Rightarrow>
               (case md of
                  Some n \<Rightarrow>
                    if maxDeliver \<le> n
                    then (Term, snd (InsertDeadEvent uuid now (msg_subject msg) (msg_data msg) (err_text e) (int n) (fst ts)), s1)
                    else (Nak, fst ts, s1)
                | None \<Rightarrow> (Nak, fst ts, s1))))"

section \<open>The routes\<close>

record dead_entry =
  dq_event :: DeadEvent
  dq_retried_at :: "time option"

definition DLQ_List :: "DeadEvent list \<Rightarrow> dead_entry list response" where
  "DLQ_List t = WriteJSON 200 (map (\<lambda>e. \<lparr>dq_event = e, dq_retried_at = de_retried e\<rparr>) (ListDeadEvents t))"

text \<open>\<^verbatim>\<open>DLQHandler.Retry\<close>: \<open>pub_ok\<close> is the stream's answer, \<open>revert_ok\<close> whether the undo reaches the
  database.\<close>

definition DLQ_Retry ::
  "time \<Rightarrow> bool \<Rightarrow> bool \<Rightarrow> id \<Rightarrow> DeadEvent list \<times> message list \<Rightarrow> string response \<times> DeadEvent list \<times> message list" where
  "DLQ_Retry now pub_ok revert_ok i ts =
     (case GetDeadEvent (fst ts) i of
        Inl ErrDeadEventNotFound \<Rightarrow> (WriteError http_ErrNotFound ''dead event not found'', ts)
      | Inl _ \<Rightarrow> (WriteError http_ErrInternal ''failed to load dead event'', ts)
      | Inr evt \<Rightarrow>
          (case MarkRetried now i (fst ts) of
             (flipped, t1) \<Rightarrow>
               if \<not> flipped then (WriteError http_ErrConflict ''dead event was already retried'', t1, snd ts)
               else
                 (case PublishRaw pub_ok (de_subject evt) (de_payload evt) (snd ts) of
                    (Inl _, st1) \<Rightarrow>
                      (WriteError http_ErrInternal (''republish failed '' @ [CHR 0xE2, CHR 0x80, CHR 0x94] @ '' event left in the queue, retry later''),
                       if revert_ok then RevertRetry i t1 else t1, st1)
                  | (Inr _, st1) \<Rightarrow> (WriteJSON 200 ''retried'', t1, st1))))"

section \<open>One message from first delivery to its end\<close>

text \<open>JetStream delivers a message again after a negative acknowledgement until \<^verbatim>\<open>MaxDeliver\<close>
  deliveries, and counts them. The result is the last answer with the number of deliveries made.\<close>

function deliver_from ::
  "(string \<Rightarrow> UploadCompleted option) \<Rightarrow> (UploadCompleted \<Rightarrow> 's \<Rightarrow> unit res \<times> 's) \<Rightarrow> (goerr \<Rightarrow> string) \<Rightarrow>
   (nat \<Rightarrow> id \<times> time) \<Rightarrow> message \<Rightarrow> nat \<Rightarrow> DeadEvent list \<times> 's \<Rightarrow> ack \<times> nat \<times> DeadEvent list \<times> 's" where
  "deliver_from decode handler err_text fresh msg n ts =
     (case on_delivery decode handler err_text (fst (fresh n)) (snd (fresh n)) (Some n) msg ts of
        (a, ts1) \<Rightarrow> if a = Nak \<and> n < maxDeliver then deliver_from decode handler err_text fresh msg (Suc n) ts1
                    else (a, n, ts1))"
  by pat_completeness auto
termination by (relation "measure (\<lambda>(_, _, _, _, _, n, _). maxDeliver - n)") auto

declare deliver_from.simps [simp del]

text \<open>The outcomes of the handler on the successive deliveries of an event.\<close>

fun attempts :: "(UploadCompleted \<Rightarrow> 's \<Rightarrow> unit res \<times> 's) \<Rightarrow> UploadCompleted \<Rightarrow> nat \<Rightarrow> 's \<Rightarrow> unit res list \<times> 's" where
  "attempts handler evt 0 s = ([], s)"
| "attempts handler evt (Suc k) s =
     (case handler evt s of (r, s1) \<Rightarrow> case attempts handler evt k s1 of (rs, s2) \<Rightarrow> (r # rs, s2))"

text \<open>The row a message leaves when all its deliveries failed, the last one with \<open>e\<close>.\<close>

definition dead_letter :: "message \<Rightarrow> id \<times> time \<Rightarrow> string \<Rightarrow> DeadEvent" where
  "dead_letter msg fresh e = \<lparr>de_id = fst fresh, de_subject = msg_subject msg, de_payload = msg_data msg, de_error = e,
     de_deliveries = int maxDeliver, de_status = DeadStatus, de_created = snd fresh, de_retried = None\<rparr>"

text \<open>The three ways one delivery of a decodable message goes.\<close>

lemma deliver_from_step:
  assumes dec: "decode (msg_data msg) = Some evt" and h: "handler evt s = (r, s1)"
  shows "r = Inr () \<Longrightarrow> deliver_from decode handler err_text fresh msg n (t, s) = (Ack, n, t, s1)"
    and "r = Inl e \<Longrightarrow> n < maxDeliver \<Longrightarrow> deliver_from decode handler err_text fresh msg n (t, s) =
      deliver_from decode handler err_text fresh msg (Suc n) (t, s1)"
    and "r = Inl e \<Longrightarrow> fst (fresh maxDeliver) \<notin> de_id ` set t \<Longrightarrow>
      deliver_from decode handler err_text fresh msg maxDeliver (t, s) =
        (Term, maxDeliver, t @ [dead_letter msg (fresh maxDeliver) (err_text e)], s1)"
proof -
  have range: "in_int32 (int maxDeliver)" by (simp add: in_int32_def maxDeliver_def)
  show "r = Inr () \<Longrightarrow> deliver_from decode handler err_text fresh msg n (t, s) = (Ack, n, t, s1)"
    using dec h by (subst deliver_from.simps) (simp add: on_delivery_def)
  show "r = Inl e \<Longrightarrow> n < maxDeliver \<Longrightarrow> deliver_from decode handler err_text fresh msg n (t, s) =
      deliver_from decode handler err_text fresh msg (Suc n) (t, s1)"
    using dec h by (subst deliver_from.simps) (simp add: on_delivery_def)
  show "r = Inl e \<Longrightarrow> fst (fresh maxDeliver) \<notin> de_id ` set t \<Longrightarrow>
      deliver_from decode handler err_text fresh msg maxDeliver (t, s) =
        (Term, maxDeliver, t @ [dead_letter msg (fresh maxDeliver) (err_text e)], s1)"
    using dec h range by (subst deliver_from.simps) (force simp: on_delivery_def InsertDeadEvent_def dead_letter_def)
qed

lemma deliver_from_settles:
  assumes dec: "decode (msg_data msg) = Some evt" and fresh: "fst (fresh maxDeliver) \<notin> de_id ` set t"
    and "1 \<le> n" "n \<le> maxDeliver"
  shows "\<exists>k rs s' es. attempts handler evt k s = (rs, s') \<and> 1 \<le> k \<and> n + k \<le> Suc maxDeliver \<and>
    (rs = map Inl es @ [Inr ()] \<and>
       deliver_from decode handler err_text fresh msg n (t, s) = (Ack, n + k - 1, t, s') \<or>
     rs = map Inl es \<and> es \<noteq> [] \<and> n + k = Suc maxDeliver \<and> deliver_from decode handler err_text fresh msg n (t, s) =
       (Term, maxDeliver, t @ [dead_letter msg (fresh maxDeliver) (err_text (last es))], s'))"
  using assms(3,4)
proof (induction "maxDeliver - n" arbitrary: n s)
  case 0
  then have n: "n = maxDeliver" by simp
  obtain r s1 where h: "handler evt s = (r, s1)" by fastforce
  note ends = deliver_from_step(1) [of decode, OF dec, of handler, OF h, of err_text fresh n t]
    deliver_from_step(3) [of decode, OF dec, of handler, OF h, of _ fresh t err_text]
  show ?case
  proof (cases r)
    case (Inl e)
    with n h fresh ends(2) show ?thesis
      by (intro exI [of _ 1] exI [of _ "[Inl e]"] exI [of _ s1] exI [of _ "[e]"]) simp
  next
    case (Inr u)
    with n h ends(1) show ?thesis
      by (intro exI [of _ 1] exI [of _ "[Inr ()]"] exI [of _ s1] exI [of _ "[]"]) simp
  qed
next
  case (Suc m)
  then have n: "n < maxDeliver" and m: "m = maxDeliver - Suc n" "1 \<le> Suc n" "Suc n \<le> maxDeliver" by simp_all
  obtain r s1 where h: "handler evt s = (r, s1)" by fastforce
  show ?case
  proof (cases r)
    case (Inr u)
    with n h deliver_from_step(1) [of decode, OF dec, of handler, OF h, of err_text fresh n t] show ?thesis
      by (intro exI [of _ 1] exI [of _ "[Inr ()]"] exI [of _ s1] exI [of _ "[]"]) simp
  next
    case (Inl e)
    note step = deliver_from_step(2) [of decode, OF dec, of handler, OF h Inl n, of err_text fresh t]
    from Suc.hyps(1) [OF m, of s1] obtain k rs s' es where
      "attempts handler evt k s1 = (rs, s')" "1 \<le> k" "Suc n + k \<le> Suc maxDeliver"
      "rs = map Inl es @ [Inr ()] \<and>
         deliver_from decode handler err_text fresh msg (Suc n) (t, s1) = (Ack, Suc n + k - 1, t, s') \<or>
       rs = map Inl es \<and> es \<noteq> [] \<and> Suc n + k = Suc maxDeliver \<and> deliver_from decode handler err_text fresh msg (Suc n) (t, s1) =
         (Term, maxDeliver, t @ [dead_letter msg (fresh maxDeliver) (err_text (last es))], s')" by blast
    with h Inl step show ?thesis
      by (intro exI [of _ "Suc k"] exI [of _ "r # rs"] exI [of _ s'] exI [of _ "e # es"]) auto
  qed
qed


definition sample_event :: UploadCompleted where
  "sample_event = \<lparr>uce_EventID = ''e1'', uce_FileID = ''f1'', uce_VersionID = ''v1'', uce_OrgID = ''o1'', uce_RequestID = ''r1''\<rparr>"

definition sample_msg :: message where
  "sample_msg = \<lparr>msg_subject = UploadCompletedSubject, msg_data = ''x''\<rparr>"

text \<open>A step that fails twice and then succeeds.\<close>

definition sample_step :: "UploadCompleted \<Rightarrow> nat \<Rightarrow> unit res \<times> nat" where
  "sample_step evt n = (if n < 2 then Inl IOError else Inr (), n + 1)"


section \<open>Concurrent retries\<close>

text \<open>Requests to retry one dead event run in parallel; each database statement and each publish is
  one step. The program counter of a request says which call of \<^verbatim>\<open>DLQHandler.Retry\<close> comes next.\<close>

datatype retry_pc = AtLoad | AtMark DeadEvent | AtPublish DeadEvent | AtRevert | Answered "string response"

record retry_sys =
  rt_table :: "DeadEvent list"
  rt_stream :: "message list"
  rt_pc :: "nat \<Rightarrow> retry_pc"

definition set_pc :: "nat \<Rightarrow> retry_pc \<Rightarrow> retry_sys \<Rightarrow> retry_sys" where
  "set_pc k pc s = s\<lparr>rt_pc := (rt_pc s)(k := pc)\<rparr>"

abbreviation republish_failed :: "string response" where
  "republish_failed \<equiv> WriteError http_ErrInternal
     (''republish failed '' @ [CHR 0xE2, CHR 0x80, CHR 0x94] @ '' event left in the queue, retry later'')"

inductive retry_step :: "id \<Rightarrow> retry_sys \<Rightarrow> retry_sys \<Rightarrow> bool" for i where
  load_missing: "rt_pc s k = AtLoad \<Longrightarrow> GetDeadEvent (rt_table s) i = Inl e \<Longrightarrow>
    retry_step i s (set_pc k (Answered (WriteError http_ErrNotFound ''dead event not found'')) s)"
| load: "rt_pc s k = AtLoad \<Longrightarrow> GetDeadEvent (rt_table s) i = Inr evt \<Longrightarrow> retry_step i s (set_pc k (AtMark evt) s)"
| mark: "rt_pc s k = AtMark evt \<Longrightarrow> MarkRetried now i (rt_table s) = (True, t1) \<Longrightarrow>
    retry_step i s (set_pc k (AtPublish evt) (s\<lparr>rt_table := t1\<rparr>))"
| mark_lost: "rt_pc s k = AtMark evt \<Longrightarrow> MarkRetried now i (rt_table s) = (False, t1) \<Longrightarrow>
    retry_step i s (set_pc k (Answered (WriteError http_ErrConflict ''dead event was already retried'')) (s\<lparr>rt_table := t1\<rparr>))"
| publish: "rt_pc s k = AtPublish evt \<Longrightarrow>
    PublishRaw True (de_subject evt) (de_payload evt) (rt_stream s) = (Inr u, st1) \<Longrightarrow>
    retry_step i s (set_pc k (Answered (WriteJSON 200 ''retried'')) (s\<lparr>rt_stream := st1\<rparr>))"
| publish_fails: "rt_pc s k = AtPublish evt \<Longrightarrow>
    PublishRaw False (de_subject evt) (de_payload evt) (rt_stream s) = (Inl e, st1) \<Longrightarrow>
    retry_step i s (set_pc k AtRevert (s\<lparr>rt_stream := st1\<rparr>))"
| revert: "rt_pc s k = AtRevert \<Longrightarrow>
    retry_step i s (set_pc k (Answered republish_failed) (s\<lparr>rt_table := RevertRetry i (rt_table s)\<rparr>))"
| revert_fails: "rt_pc s k = AtRevert \<Longrightarrow> retry_step i s (set_pc k (Answered republish_failed) s)"

text \<open>The handler is the sequence of its steps with no other request in between.\<close>

lemma DLQ_Retry_steps:
  assumes "rt_pc s k = AtLoad"
    and "DLQ_Retry now pub_ok revert_ok i (rt_table s, rt_stream s) = (resp, t', st')"
  shows "(retry_step i)\<^sup>*\<^sup>* s (set_pc k (Answered resp) (s\<lparr>rt_table := t', rt_stream := st'\<rparr>))"
proof (cases "GetDeadEvent (rt_table s) i")
  case (Inl e)
  then have "e = ErrDeadEventNotFound" by (auto simp: GetDeadEvent_def split: option.splits)
  with Inl assms have "resp = WriteError http_ErrNotFound ''dead event not found''" "t' = rt_table s" "st' = rt_stream s"
    by (auto simp: DLQ_Retry_def)
  then show ?thesis using retry_step.load_missing [OF assms(1) Inl] by simp
next
  case (Inr evt)
  define s1 where "s1 = set_pc k (AtMark evt) s"
  have load: "retry_step i s s1" using retry_step.load [OF assms(1) Inr] by (simp add: s1_def)
  obtain flipped t1 where m: "MarkRetried now i (rt_table s) = (flipped, t1)" by fastforce
  have s1: "rt_pc s1 k = AtMark evt" "rt_table s1 = rt_table s" "rt_stream s1 = rt_stream s" by (simp_all add: s1_def set_pc_def)
  show ?thesis
  proof (cases flipped)
    case False
    with m s1 have "retry_step i s1 (set_pc k (Answered (WriteError http_ErrConflict ''dead event was already retried'')) (s1\<lparr>rt_table := t1\<rparr>))"
      by (intro retry_step.mark_lost [OF s1(1)]) simp
    with load show ?thesis using assms(2) Inr m False
      by (auto simp: DLQ_Retry_def s1_def set_pc_def intro: converse_rtranclp_into_rtranclp)
  next
    case True
    define s2 where "s2 = set_pc k (AtPublish evt) (s1\<lparr>rt_table := t1\<rparr>)"
    have mark: "retry_step i s1 s2" unfolding s2_def using m s1 True by (intro retry_step.mark) simp_all
    have s2: "rt_pc s2 k = AtPublish evt" "rt_table s2 = t1" "rt_stream s2 = rt_stream s" by (simp_all add: s2_def s1 set_pc_def)
    note pub = retry_step.publish [OF s2(1)] retry_step.publish_fails [OF s2(1)]
    show ?thesis
    proof (cases pub_ok)
      case ok: True
      have "retry_step i s2 (set_pc k (Answered resp) (s\<lparr>rt_table := t', rt_stream := st'\<rparr>))"
        using pub(1) [of "()" st'] assms(2) Inr m True ok
        by (simp add: DLQ_Retry_def PublishRaw_def s2) (simp add: s2_def s1_def set_pc_def)
      with load mark show ?thesis by (meson converse_rtranclp_into_rtranclp r_into_rtranclp)
    next
      case bad: False
      define s3 where "s3 = set_pc k AtRevert s2"
      have fails: "retry_step i s2 s3" using pub(2) [of IOError "rt_stream s2"] by (simp add: PublishRaw_def s3_def)
      have s3: "rt_pc s3 k = AtRevert" by (simp add: s3_def set_pc_def)
      have "retry_step i s3 (set_pc k (Answered resp) (s\<lparr>rt_table := t', rt_stream := st'\<rparr>))"
        using retry_step.revert [OF s3, of i] retry_step.revert_fails [OF s3, of i] assms(2) Inr m True bad
        by (auto simp: DLQ_Retry_def PublishRaw_def s2_def s1_def s3_def set_pc_def split: if_splits)
      with load mark fails show ?thesis by (meson converse_rtranclp_into_rtranclp r_into_rtranclp)
    qed
  qed
qed


section \<open>A dead event is republished at most once\<close>

text \<open>What the requests together have done so far: nothing, one of them holds the event, the holder
  could not undo its claim, or one of them published it.\<close>

datatype retry_phase = Free | Held nat | Stuck | Republished nat

definition holding :: "retry_pc \<Rightarrow> bool" where
  "holding pc \<longleftrightarrow> pc = AtRevert \<or> (\<exists>evt. pc = AtPublish evt)"

definition same_letter :: "DeadEvent \<Rightarrow> message \<Rightarrow> bool" where
  "same_letter e msg \<longleftrightarrow> msg = \<lparr>msg_subject = de_subject e, msg_data = de_payload e\<rparr>"

definition retry_inv :: "id \<Rightarrow> message \<Rightarrow> message list \<Rightarrow> retry_phase \<Rightarrow> retry_sys \<Rightarrow> bool" where
  "retry_inv i msg st0 ph s \<longleftrightarrow>
     distinct (map de_id (rt_table s)) \<and>
     (\<exists>e. List.find (\<lambda>e. de_id e = i) (rt_table s) = Some e \<and> same_letter e msg \<and> (de_status e = DeadStatus \<longleftrightarrow> ph = Free)) \<and>
     (\<forall>k evt. rt_pc s k = AtMark evt \<or> rt_pc s k = AtPublish evt \<longrightarrow> same_letter evt msg) \<and>
     (\<forall>k. holding (rt_pc s k) \<longleftrightarrow> ph = Held k) \<and>
     (\<forall>k. rt_pc s k = Answered (WriteJSON 200 ''retried'') \<longleftrightarrow> ph = Republished k) \<and>
     rt_stream s = st0 @ (case ph of Republished _ \<Rightarrow> [msg] | _ \<Rightarrow> [])"

lemma rows_affected_key:
  assumes "distinct (map de_id t)" and "List.find (\<lambda>e. de_id e = i) t = Some e"
  shows "rows_affected (\<lambda>x. de_id x = i \<and> P x) t = (if P e then 1 else 0)"
  using assms
proof (induction t)
  case (Cons x t)
  show ?case
  proof (cases "de_id x = i")
    case True
    then have "\<forall>y \<in> set t. de_id y \<noteq> i" using Cons.prems(1) by (simp add: image_iff) metis
    then have "filter (\<lambda>x. de_id x = i \<and> P x) t = []" by (auto simp: filter_empty_conv)
    with True Cons.prems show ?thesis by (simp add: rows_affected_def)
  qed (use Cons in \<open>simp add: rows_affected_def\<close>)
qed simp

lemma MarkRetried_find:
  assumes "distinct (map de_id t)" and "List.find (\<lambda>e. de_id e = i) t = Some e"
  shows "fst (MarkRetried now i t) \<longleftrightarrow> de_status e = DeadStatus"
    and "List.find (\<lambda>e. de_id e = i) (snd (MarkRetried now i t)) =
      Some (if de_status e = DeadStatus then e\<lparr>de_status := RetriedStatus, de_retried := Some now\<rparr> else e)"
    and "map de_id (snd (MarkRetried now i t)) = map de_id t"
  using rows_affected_key [OF assms, of "\<lambda>x. de_status x = DeadStatus"] assms find_SomeD [OF assms(2)]
  by (simp_all add: MarkRetried_def Let_def find_update_where)

lemma RevertRetry_find:
  assumes "List.find (\<lambda>e. de_id e = i) t = Some e"
  shows "List.find (\<lambda>e. de_id e = i) (RevertRetry i t) = Some (e\<lparr>de_status := DeadStatus, de_retried := None\<rparr>)"
    and "map de_id (RevertRetry i t) = map de_id t"
  using assms find_SomeD [OF assms] by (simp_all add: RevertRetry_def find_update_where)

lemma same_letter_update [simp]:
  "same_letter (e\<lparr>de_status := a, de_retried := b\<rparr>) msg = same_letter e msg"
  by (simp add: same_letter_def)

lemma set_pc_sel [simp]:
  "rt_table (set_pc k pc s) = rt_table s" "rt_stream (set_pc k pc s) = rt_stream s" "rt_pc (set_pc k pc s) = (rt_pc s)(k := pc)"
  by (simp_all add: set_pc_def)

lemma retry_inv_phase:
  assumes "retry_inv i msg st0 ph s"
  shows "holding (rt_pc s k) \<longleftrightarrow> ph = Held k" and "rt_pc s k = Answered (WriteJSON 200 ''retried'') \<longleftrightarrow> ph = Republished k"
  using assms unfolding retry_inv_def by blast+

lemma retry_mark_inv:
  assumes pc: "rt_pc s k = AtMark evt" and m: "MarkRetried now i (rt_table s) = (flipped, t1)"
    and inv: "retry_inv i msg st0 ph s"
  shows "flipped \<Longrightarrow> retry_inv i msg st0 (Held k) (set_pc k (AtPublish evt) (s\<lparr>rt_table := t1\<rparr>))"
    and "\<not> flipped \<Longrightarrow> retry_inv i msg st0 ph (set_pc k (Answered (WriteError c x)) (s\<lparr>rt_table := t1\<rparr>))"
proof -
  obtain e where e: "distinct (map de_id (rt_table s))" "List.find (\<lambda>e. de_id e = i) (rt_table s) = Some e"
      and letter: "same_letter e msg" "same_letter evt msg" and st: "de_status e = DeadStatus \<longleftrightarrow> ph = Free"
    using inv pc by (auto simp: retry_inv_def)
  note found = MarkRetried_find [OF e, of now, unfolded m, simplified]
  have t1: "distinct (map de_id t1)" using e(1) by (simp only: found(3))
  have ph: "ph \<noteq> Held k" "ph \<noteq> Republished k" using retry_inv_phase [OF inv, of k] pc by (simp_all add: holding_def)
  show "retry_inv i msg st0 (Held k) (set_pc k (AtPublish evt) (s\<lparr>rt_table := t1\<rparr>))" if flipped
  proof -
    have "ph = Free" using that found(1) st by simp
    then show ?thesis
      using that inv [unfolded retry_inv_def] t1 letter found(1,2) by (simp add: retry_inv_def holding_def)
  qed
  show "retry_inv i msg st0 ph (set_pc k (Answered (WriteError c x)) (s\<lparr>rt_table := t1\<rparr>))" if "\<not> flipped"
    using that inv [unfolded retry_inv_def] t1 ph found(1,2) e(2) by (simp add: retry_inv_def holding_def)
qed

lemma retry_revert_inv:
  assumes "retry_inv i msg st0 (Held k) s"
  shows "retry_inv i msg st0 Free (set_pc k (Answered republish_failed) (s\<lparr>rt_table := RevertRetry i (rt_table s)\<rparr>))"
proof -
  obtain e where e: "List.find (\<lambda>e. de_id e = i) (rt_table s) = Some e" "same_letter e msg"
    using assms by (auto simp: retry_inv_def)
  with assms RevertRetry_find [OF e(1)] show ?thesis by (auto simp: retry_inv_def holding_def)
qed

text \<open>Every step keeps the invariant and moves the phase along \<open>Free\<close>, \<open>Held\<close>, then \<open>Republished\<close>,
  \<open>Stuck\<close> or back to \<open>Free\<close>.\<close>

lemma retry_step_inv:
  assumes "retry_step i s s'" and inv: "retry_inv i msg st0 ph s"
  shows "\<exists>ph'. retry_inv i msg st0 ph' s'"
  using assms(1)
proof (cases rule: retry_step.cases)
  case (load_missing k e)
  then show ?thesis using inv by (auto simp: retry_inv_def GetDeadEvent_def)
next
  case (load k evt)
  have "ph \<noteq> Held k" "ph \<noteq> Republished k" using retry_inv_phase [OF inv, of k] load(2) by (simp_all add: holding_def)
  with inv load have "retry_inv i msg st0 ph s'"
    by (auto simp: retry_inv_def GetDeadEvent_def holding_def split: option.splits)
  then show ?thesis ..
next
  case (mark k evt now t1)
  then show ?thesis using retry_mark_inv(1) [OF mark(2,3) inv] by auto
next
  case (mark_lost k evt now t1)
  then show ?thesis using retry_mark_inv(2) [OF mark_lost(2,3) inv] by auto
next
  case (publish k evt u st1)
  then have "ph = Held k" using retry_inv_phase(1) [OF inv, of k] by (simp add: holding_def)
  moreover have "same_letter evt msg" using inv publish(2) unfolding retry_inv_def by blast
  then have "st1 = rt_stream s @ [msg]" using publish(3) by (simp add: PublishRaw_def same_letter_def)
  ultimately have "retry_inv i msg st0 (Republished k) s'"
    using inv publish(1,2) by (auto simp: retry_inv_def holding_def)
  then show ?thesis ..
next
  case (publish_fails k evt e st1)
  then have "ph = Held k" using retry_inv_phase(1) [OF inv, of k] by (simp add: holding_def)
  with inv publish_fails have "retry_inv i msg st0 (Held k) s'"
    by (auto simp: retry_inv_def holding_def PublishRaw_def)
  then show ?thesis ..
next
  case (revert k)
  then have "ph = Held k" using retry_inv_phase(1) [OF inv, of k] by (simp add: holding_def)
  then show ?thesis using retry_revert_inv inv revert(1) by blast
next
  case (revert_fails k)
  then have "ph = Held k" using retry_inv_phase(1) [OF inv, of k] by (simp add: holding_def)
  with inv revert_fails have "retry_inv i msg st0 Stuck s'" by (auto simp: retry_inv_def holding_def)
  then show ?thesis ..
qed

lemma retry_reachable_inv:
  assumes "(retry_step i)\<^sup>*\<^sup>* s s'" and "retry_inv i msg st0 ph s"
  shows "\<exists>ph'. retry_inv i msg st0 ph' s'"
  using assms by (induction rule: rtranclp_induct) (auto dest: retry_step_inv)

text \<open>C33: However many requests retry one dead event at the same time, and in whatever order their
  database statements and publishes interleave, with publishes and undo statements failing at any
  point, the message is put back on the stream at most once, unchanged, and at most one request is
  told it was retried: exactly the one that published it.\<close>

theorem dead_event_retried_once:
  assumes "distinct (map de_id (rt_table s))" and "GetDeadEvent (rt_table s) i = Inr e" and "de_status e = DeadStatus"
    and "\<forall>k. rt_pc s k = AtLoad" and "(retry_step i)\<^sup>*\<^sup>* s s'"
  shows "(rt_stream s' = rt_stream s \<and> (\<forall>k. rt_pc s' k \<noteq> Answered (WriteJSON 200 ''retried''))) \<or>
    (rt_stream s' = rt_stream s @ [\<lparr>msg_subject = de_subject e, msg_data = de_payload e\<rparr>] \<and>
     (\<exists>!k. rt_pc s' k = Answered (WriteJSON 200 ''retried'')))"
proof -
  have "retry_inv i \<lparr>msg_subject = de_subject e, msg_data = de_payload e\<rparr> (rt_stream s) Free s"
    using assms(1-4) by (auto simp: retry_inv_def same_letter_def holding_def GetDeadEvent_def split: option.splits)
  from retry_reachable_inv [OF assms(5) this] obtain ph where
    ph: "retry_inv i \<lparr>msg_subject = de_subject e, msg_data = de_payload e\<rparr> (rt_stream s) ph s'" by blast
  note answered = retry_inv_phase(2) [OF ph]
  show ?thesis
  proof (cases "\<exists>k. ph = Republished k")
    case True
    then show ?thesis using ph answered by (auto simp: retry_inv_def)
  next
    case False
    then have "rt_stream s' = rt_stream s" using ph by (auto simp: retry_inv_def split: retry_phase.splits)
    then show ?thesis using False answered by simp
  qed
qed

definition sample_dead :: DeadEvent where
  "sample_dead = \<lparr>de_id = ''d1'', de_subject = UploadCompletedSubject, de_payload = ''x'', de_error = ''io'',
     de_deliveries = 5, de_status = DeadStatus, de_created = 0, de_retried = None\<rparr>"

definition sample_retries :: retry_sys where
  "sample_retries = \<lparr>rt_table = [sample_dead], rt_stream = [], rt_pc = (\<lambda>_. AtLoad)\<rparr>"

text \<open>Request 0 loads the event, request 1 runs to its end in between.\<close>

theorem dead_event_retried_once_witness:
  "\<exists>s'. (retry_step ''d1'')\<^sup>*\<^sup>* sample_retries s' \<and> rt_pc s' 0 = AtMark sample_dead \<and>
    ((rt_stream s' = [] \<and> (\<forall>k. rt_pc s' k \<noteq> Answered (WriteJSON 200 ''retried''))) \<or>
     (rt_stream s' = [\<lparr>msg_subject = UploadCompletedSubject, msg_data = ''x''\<rparr>] \<and>
      (\<exists>!k. rt_pc s' k = Answered (WriteJSON 200 ''retried''))))"
proof -
  define s1 where "s1 = set_pc 0 (AtMark sample_dead) sample_retries"
  have "retry_step ''d1'' sample_retries s1"
    unfolding s1_def by (rule retry_step.load) (simp_all add: sample_retries_def GetDeadEvent_def sample_dead_def)
  moreover obtain resp t' st' where run: "DLQ_Retry 1 True True ''d1'' (rt_table s1, rt_stream s1) = (resp, t', st')"
    by (metis prod_cases3)
  have "rt_pc s1 1 = AtLoad" by (simp add: s1_def sample_retries_def)
  from DLQ_Retry_steps [OF this run]
  have "(retry_step ''d1'')\<^sup>*\<^sup>* s1 (set_pc 1 (Answered resp) (s1\<lparr>rt_table := t', rt_stream := st'\<rparr>))" .
  ultimately have reach: "(retry_step ''d1'')\<^sup>*\<^sup>* sample_retries (set_pc 1 (Answered resp) (s1\<lparr>rt_table := t', rt_stream := st'\<rparr>))"
    by (rule converse_rtranclp_into_rtranclp)
  have "distinct (map de_id (rt_table sample_retries))" "GetDeadEvent (rt_table sample_retries) ''d1'' = Inr sample_dead"
    "de_status sample_dead = DeadStatus" "\<forall>k. rt_pc sample_retries k = AtLoad" "rt_stream sample_retries = []"
    by (simp_all add: sample_retries_def sample_dead_def GetDeadEvent_def)
  with dead_event_retried_once [OF _ _ _ _ reach, of sample_dead] reach show ?thesis
    by (intro exI [of _ "set_pc 1 (Answered resp) (s1\<lparr>rt_table := t', rt_stream := st'\<rparr>)"])
      (simp add: s1_def sample_dead_def)
qed

end
