(* ===== verification/Processing.thy ===== *)
theory Processing
  imports Storage_Repair Activity Sha256 Events Go_Strings
begin

text \<open>
  Thumbnail generation in the worker, \<^verbatim>\<open>internal/processing\<close>: reassembling a version from its
  committed replicas with a checksum on every chunk, the size of a scaled image, and \<^verbatim>\<open>Process\<close>, the
  step the event consumer runs. Decoding, scaling and encoding of pictures and the rendering of a
  PDF page are third-party code: the functions of the record \<open>codecs\<close>. Floating-point rounding is
  the argument \<open>rnd\<close>. Tracing spans and log lines have no effect in the model.
\<close>

section \<open>Reassembling a version\<close>

definition chunk_sum :: "string \<Rightarrow> string" where
  "chunk_sum data = hex_encode (sha256_Sum (bytes_of_string data))"

text \<open>The loop of \<^verbatim>\<open>fetchVerifiedChunk\<close>: the first replica that reads back with the right checksum.\<close>

fun fetchVerifiedChunk :: "'st minio \<Rightarrow> Router \<Rightarrow> 'st \<Rightarrow> string \<Rightarrow> NodeID list \<Rightarrow> string res" where
  "fetchVerifiedChunk mn rt st hash [] = Inl IOError"
| "fetchVerifiedChunk mn rt st hash (nodeID # nodeIDs) =
     (case GetObject mn rt nodeID hash st of
        Inl _ \<Rightarrow> fetchVerifiedChunk mn rt st hash nodeIDs
      | Inr data \<Rightarrow> if chunk_sum data \<noteq> hash then fetchVerifiedChunk mn rt st hash nodeIDs else Inr data)"

fun reassemble_loop :: "'st minio \<Rightarrow> Router \<Rightarrow> db \<Rightarrow> 'st \<Rightarrow> string list \<Rightarrow> string \<Rightarrow> string res" where
  "reassemble_loop mn rt d st [] buf = Inr buf"
| "reassemble_loop mn rt d st (h # hs) buf =
     (let nodeIDs = LocationsForChunk d h
      in if nodeIDs = [] then Inl IOError
         else case fetchVerifiedChunk mn rt st h nodeIDs of
                Inl e \<Rightarrow> Inl e
              | Inr data \<Rightarrow> reassemble_loop mn rt d st hs (buf @ data))"

definition reassemble :: "'st minio \<Rightarrow> Router \<Rightarrow> db \<Rightarrow> 'st \<Rightarrow> id \<Rightarrow> string res" where
  "reassemble mn rt d st versionID = reassemble_loop mn rt d st (map snd (GetVersionChunks d versionID)) []"

section \<open>The thumbnail\<close>

definition maxThumbnailDimension :: nat where
  "maxThumbnailDimension = 256"

text \<open>The picture libraries: \<^verbatim>\<open>image.Decode\<close> with the width and height of the result, the scaler,
  \<^verbatim>\<open>jpeg.Encode\<close>, and the rendering of a PDF's first page.\<close>

record 'img codecs =
  cd_decode :: "string \<Rightarrow> ('img \<times> nat \<times> nat) res"
  cd_scale :: "'img \<Rightarrow> nat \<Rightarrow> nat \<Rightarrow> 'img"
  cd_encode :: "'img \<Rightarrow> string res"
  cd_pdf_page :: "string \<Rightarrow> 'img res"
  cd_placeholder :: 'img

text \<open>The size of the scaled picture: every floating-point operation rounds its exact result, and
  the conversion to an integer cuts the fraction off.\<close>

definition thumb_scale :: "(real \<Rightarrow> real) \<Rightarrow> nat \<Rightarrow> nat \<Rightarrow> real" where
  "thumb_scale rnd w h =
     (let scale = rnd (real maxThumbnailDimension / real (max w h)) in if 1 < scale then 1 else scale)"

definition thumb_edge :: "(real \<Rightarrow> real) \<Rightarrow> real \<Rightarrow> nat \<Rightarrow> nat" where
  "thumb_edge rnd scale n = max (nat \<lfloor>rnd (real n * scale)\<rfloor>) 1"

definition generateImageThumbnail :: "(real \<Rightarrow> real) \<Rightarrow> 'img codecs \<Rightarrow> string \<Rightarrow> string res" where
  "generateImageThumbnail rnd c data =
     (case cd_decode c data of
        Inl e \<Rightarrow> Inl e
      | Inr (src, w, h) \<Rightarrow>
          if w = 0 \<or> h = 0 then Inl IOError
          else
            (let scale = thumb_scale rnd w h
             in cd_encode c (cd_scale c src (thumb_edge rnd scale w) (thumb_edge rnd scale h))))"

definition generatePDFThumbnail :: "'img codecs \<Rightarrow> string \<Rightarrow> string res" where
  "generatePDFThumbnail c data = (case cd_pdf_page c data of Inl e \<Rightarrow> Inl e | Inr page \<Rightarrow> cd_encode c page)"

definition generatePDFPlaceholder :: "'img codecs \<Rightarrow> string res" where
  "generatePDFPlaceholder c = cd_encode c (cd_placeholder c)"

definition thumbnailObjectKey :: "id \<Rightarrow> string" where
  "thumbnailObjectKey versionID = ''thumb:'' @ versionID"

section \<open>Processing an event\<close>

text \<open>The type switch: an error to be retried, \<open>None\<close> when there is nothing to do, or the bytes.\<close>

definition make_thumbnail ::
  "(real \<Rightarrow> real) \<Rightarrow> 'img codecs \<Rightarrow> 'st minio \<Rightarrow> Router \<Rightarrow> db \<Rightarrow> 'st \<Rightarrow> id \<Rightarrow> string \<Rightarrow> string option res" where
  "make_thumbnail rnd c mn rt d st versionID mime =
     (if HasPrefix mime ''image/'' then
        (case reassemble mn rt d st versionID of
           Inl e \<Rightarrow> Inl e
         | Inr data \<Rightarrow>
             (case generateImageThumbnail rnd c data of Inl _ \<Rightarrow> Inr None | Inr thumb \<Rightarrow> Inr (Some thumb)))
      else if mime = ''application/pdf'' then
        (case reassemble mn rt d st versionID of
           Inl e \<Rightarrow> Inl e
         | Inr data \<Rightarrow>
             (case generatePDFThumbnail c data of
                Inl _ \<Rightarrow> (case generatePDFPlaceholder c of Inl e \<Rightarrow> Inl e | Inr thumb \<Rightarrow> Inr (Some thumb))
              | Inr thumb \<Rightarrow> Inr (Some thumb)))
      else Inr None)"

record 'st world =
  w_db :: db
  w_objects :: 'st
  w_activity :: activity_db
  w_notes :: "notification list"

definition Process ::
  "(real \<Rightarrow> real) \<Rightarrow> 'img codecs \<Rightarrow> 'st minio \<Rightarrow> Router \<Rightarrow> time \<Rightarrow> UploadCompleted \<Rightarrow> 'st world \<Rightarrow> unit res \<times> 'st world" where
  "Process rnd c mn rt now evt w =
     (case GetVersion (w_db w) (uce_FileID evt) (uce_VersionID evt) of
        Inl e \<Rightarrow> (Inl e, w)
      | Inr version \<Rightarrow>
          (case make_thumbnail rnd c mn rt (w_db w) (w_objects w) (uce_VersionID evt) (v_mime version) of
             Inl e \<Rightarrow> (Inl e, w)
           | Inr None \<Rightarrow> (Inr (), w)
           | Inr (Some thumb) \<Rightarrow>
               (let key = thumbnailObjectKey (uce_VersionID evt)
                in case Resolve rt key 1 of
                     (_, Some e) \<Rightarrow> (Inl e, w)
                   | (nodeIDs, None) \<Rightarrow>
                       (case PutObject mn rt (hd nodeIDs) key thumb (w_objects w) of
                          (Some e, st1) \<Rightarrow> (Inl e, w\<lparr>w_objects := st1\<rparr>)
                        | (None, st1) \<Rightarrow>
                            (case SetThumbnailKey (uce_VersionID evt) key (w_db w) of
                               (Inl e, d1) \<Rightarrow> (Inl e, w\<lparr>w_objects := st1, w_db := d1\<rparr>)
                             | (Inr _, d1) \<Rightarrow>
                                 (case RecordThumbnail now d1 (uce_OrgID evt) (uce_FileID evt) (w_activity w) of
                                    ((_, notes), a1) \<Rightarrow>
                                      (Inr (), w\<lparr>w_objects := st1, w_db := d1, w_activity := a1,
                                                w_notes := w_notes w @ notes\<rparr>)))))))"

section \<open>What is reassembled\<close>

lemma fetchVerifiedChunk_Inr:
  "fetchVerifiedChunk mn rt st h ns = Inr x \<Longrightarrow> chunk_sum x = h \<and> (\<exists>n \<in> set ns. GetObject mn rt n h st = Inr x)"
  by (induction ns) (auto split: sum.splits if_splits)

lemma fetchVerifiedChunk_succeeds:
  "(\<exists>x. fetchVerifiedChunk mn rt st h ns = Inr x) \<longleftrightarrow> (\<exists>n \<in> set ns. \<exists>x. GetObject mn rt n h st = Inr x \<and> chunk_sum x = h)"
  by (induction ns) (auto split: sum.splits)

lemma reassemble_loop_Inr:
  assumes "reassemble_loop mn rt d st hs buf = Inr x"
  shows "\<exists>parts. x = buf @ concat parts \<and> map chunk_sum parts = hs \<and>
    (\<forall>i < length hs. \<exists>n \<in> set (LocationsForChunk d (hs ! i)). GetObject mn rt n (hs ! i) st = Inr (parts ! i))"
  using assms
proof (induction hs arbitrary: buf)
  case (Cons h hs)
  then obtain p where p: "fetchVerifiedChunk mn rt st h (LocationsForChunk d h) = Inr p"
    and rest: "reassemble_loop mn rt d st hs (buf @ p) = Inr x"
    by (auto simp: Let_def split: if_splits sum.splits)
  from Cons.IH [OF rest] obtain parts where "x = (buf @ p) @ concat parts" "map chunk_sum parts = hs"
    "\<forall>i < length hs. \<exists>n \<in> set (LocationsForChunk d (hs ! i)). GetObject mn rt n (hs ! i) st = Inr (parts ! i)" by blast
  with fetchVerifiedChunk_Inr [OF p] show ?case
    by (intro exI [of _ "p # parts"]) (auto simp: less_Suc_eq_0_disj)
qed simp

lemma reassemble_loop_succeeds:
  "(\<exists>x. reassemble_loop mn rt d st hs buf = Inr x) \<longleftrightarrow>
    (\<forall>h \<in> set hs. \<exists>n \<in> set (LocationsForChunk d h). \<exists>x. GetObject mn rt n h st = Inr x \<and> chunk_sum x = h)"
proof (induction hs arbitrary: buf)
  case (Cons h hs)
  show ?case
  proof (cases "fetchVerifiedChunk mn rt st h (LocationsForChunk d h)")
    case (Inl e)
    then have "\<not> (\<exists>x. fetchVerifiedChunk mn rt st h (LocationsForChunk d h) = Inr x)" by simp
    then show ?thesis unfolding fetchVerifiedChunk_succeeds using Inl by (auto simp: Let_def)
  next
    case (Inr p)
    then have "\<exists>x. fetchVerifiedChunk mn rt st h (LocationsForChunk d h) = Inr x" by simp
    then have ex: "\<exists>n \<in> set (LocationsForChunk d h). \<exists>x. GetObject mn rt n h st = Inr x \<and> chunk_sum x = h"
      by (simp only: fetchVerifiedChunk_succeeds)
    then have "LocationsForChunk d h \<noteq> []" by auto
    with Inr Cons ex show ?thesis by (simp add: Let_def)
  qed
qed simp

lemma reassemble_verified_facts:
  shows "(\<exists>data. reassemble mn rt d st vid = Inr data) \<longleftrightarrow>
      (\<forall>h \<in> snd ` set (GetVersionChunks d vid). \<exists>n \<in> set (LocationsForChunk d h). \<exists>x.
        GetObject mn rt n h st = Inr x \<and> chunk_sum x = h)"
    and "reassemble mn rt d st vid = Inr data \<Longrightarrow>
      \<exists>parts. data = concat parts \<and> map chunk_sum parts = map snd (GetVersionChunks d vid) \<and>
        (\<forall>i < length parts. \<exists>n \<in> set (LocationsForChunk d (chunk_sum (parts ! i))).
          GetObject mn rt n (chunk_sum (parts ! i)) st = Inr (parts ! i))"
proof -
  show "(\<exists>data. reassemble mn rt d st vid = Inr data) \<longleftrightarrow>
      (\<forall>h \<in> snd ` set (GetVersionChunks d vid). \<exists>n \<in> set (LocationsForChunk d h). \<exists>x.
        GetObject mn rt n h st = Inr x \<and> chunk_sum x = h)"
    unfolding reassemble_def reassemble_loop_succeeds by (simp only: set_map)
  assume "reassemble mn rt d st vid = Inr data"
  from reassemble_loop_Inr [OF this [unfolded reassemble_def]]
  show "\<exists>parts. data = concat parts \<and> map chunk_sum parts = map snd (GetVersionChunks d vid) \<and>
        (\<forall>i < length parts. \<exists>n \<in> set (LocationsForChunk d (chunk_sum (parts ! i))).
          GetObject mn rt n (chunk_sum (parts ! i)) st = Inr (parts ! i))"
    by (metis (no_types, lifting) append_Nil length_map nth_map)
qed

text \<open>C34: Reassembly succeeds exactly when every chunk of the version has a committed replica that reads
  back with the recorded SHA-256, whatever the other replicas return; and what it returns is the
  chunks' contents in sequence order, each read from one of the chunk's committed locations and
  hashing to the chunk's recorded name.\<close>

theorem reassemble_verified:
  "((\<exists>data. reassemble mn rt d st vid = Inr data) \<longleftrightarrow>
      (\<forall>h \<in> snd ` set (GetVersionChunks d vid). \<exists>n \<in> set (LocationsForChunk d h). \<exists>x.
        GetObject mn rt n h st = Inr x \<and> chunk_sum x = h)) \<and>
   (\<forall>data. reassemble mn rt d st vid = Inr data \<longrightarrow>
      (\<exists>parts. data = concat parts \<and> map chunk_sum parts = map snd (GetVersionChunks d vid) \<and>
        (\<forall>i < length parts. \<exists>n \<in> set (LocationsForChunk d (chunk_sum (parts ! i))).
          GetObject mn rt n (chunk_sum (parts ! i)) st = Inr (parts ! i))))"
  using reassemble_verified_facts [of mn rt d st vid] by blast


text \<open>A chunk with an unreachable first replica and an intact second one.\<close>

definition sample_chunk_minio :: "unit minio" where
  "sample_chunk_minio = \<lparr>m_stat = (\<lambda>_ _ _. True), m_get = (\<lambda>cli _ _. if cli = ''e2'' then Inr ''abc'' else Inl IOError),
     m_put = (\<lambda>_ _ _ st. (None, st)), m_remove = (\<lambda>_ _ st. (None, st))\<rparr>"

definition sample_chunk_router :: Router where
  "sample_chunk_router = (empty_router 0)\<lparr>rt_internal := [(''n1'', ''e1''), (''n2'', ''e2'')]\<rparr>"

definition sample_chunk_db :: db where
  "sample_chunk_db = empty_db\<lparr>
     file_version_chunks := [\<lparr>vc_version = ''v1'', vc_seq = 0, vc_hash = chunk_sum ''abc''\<rparr>],
     chunk_locations := [\<lparr>cl_hash = chunk_sum ''abc'', cl_node = ''n1'', cl_status = Committed\<rparr>,
                         \<lparr>cl_hash = chunk_sum ''abc'', cl_node = ''n2'', cl_status = Committed\<rparr>]\<rparr>"

lemma sample_chunk_reads:
  "GetVersionChunks sample_chunk_db ''v1'' = [(0, chunk_sum ''abc'')]"
  "LocationsForChunk sample_chunk_db (chunk_sum ''abc'') = [''n1'', ''n2'']"
  "GetObject sample_chunk_minio sample_chunk_router ''n2'' h () = Inr ''abc''"
  "GetObject sample_chunk_minio sample_chunk_router ''n1'' h () = Inl IOError"
  by (simp_all add: sample_chunk_db_def GetVersionChunks_def LocationsForChunk_def GetObject_def sample_chunk_minio_def
    sample_chunk_router_def)

theorem reassemble_verified_witness:
  "\<exists>parts. ''abc'' = concat parts \<and> map chunk_sum parts = [chunk_sum ''abc''] \<and>
    (\<forall>i < length parts. \<exists>n \<in> set (LocationsForChunk sample_chunk_db (chunk_sum (parts ! i))).
      GetObject sample_chunk_minio sample_chunk_router n (chunk_sum (parts ! i)) () = Inr (parts ! i))"
proof -
  have "reassemble sample_chunk_minio sample_chunk_router sample_chunk_db () ''v1'' = Inr ''abc''"
    by (simp add: reassemble_def sample_chunk_reads)
  with reassemble_verified [of sample_chunk_minio sample_chunk_router sample_chunk_db "()" "''v1''"]
  show ?thesis by (simp only: sample_chunk_reads(1)) simp
qed

section \<open>What processing an event changes\<close>

lemma make_thumbnail_Some:
  assumes "make_thumbnail rnd c mn rt d st vid mime = Inr (Some thumb)"
  shows "\<exists>data. reassemble mn rt d st vid = Inr data \<and>
    (HasPrefix mime ''image/'' \<and> generateImageThumbnail rnd c data = Inr thumb \<or>
     mime = ''application/pdf'' \<and> (generatePDFThumbnail c data = Inr thumb \<or> generatePDFPlaceholder c = Inr thumb))"
  using assms by (auto simp: make_thumbnail_def split: if_splits sum.splits)

lemma Process_cases:
  assumes "Process rnd c mn rt now evt w = (r, w')"
  obtains (failed) e where "r = Inl e" "w_db w' = w_db w" "w_activity w' = w_activity w" "w_notes w' = w_notes w"
  | (skipped) "r = Inr ()" "w' = w"
  | (stored) v thumb nodes where "r = Inr ()" "GetVersion (w_db w) (uce_FileID evt) (uce_VersionID evt) = Inr v"
      "make_thumbnail rnd c mn rt (w_db w) (w_objects w) (uce_VersionID evt) (v_mime v) = Inr (Some thumb)"
      "Resolve rt (thumbnailObjectKey (uce_VersionID evt)) 1 = (nodes, None)"
      "PutObject mn rt (hd nodes) (thumbnailObjectKey (uce_VersionID evt)) thumb (w_objects w) = (None, w_objects w')"
      "w_db w' = snd (SetThumbnailKey (uce_VersionID evt) (thumbnailObjectKey (uce_VersionID evt)) (w_db w))"
proof (cases "GetVersion (w_db w) (uce_FileID evt) (uce_VersionID evt)")
  case (Inl e)
  then show ?thesis using assms by (intro failed) (auto simp: Process_def)
next
  case v: (Inr v)
  show ?thesis
  proof (cases "make_thumbnail rnd c mn rt (w_db w) (w_objects w) (uce_VersionID evt) (v_mime v)")
    case (Inl e)
    then show ?thesis using assms v by (intro failed) (auto simp: Process_def)
  next
    case made: (Inr made)
    show ?thesis
    proof (cases made)
      case None
      then show ?thesis using assms v made by (intro skipped) (auto simp: Process_def)
    next
      case (Some thumb)
      define key where "key = thumbnailObjectKey (uce_VersionID evt)"
      obtain nodes err where res: "Resolve rt key 1 = (nodes, err)" by fastforce
      obtain perr st1 where put: "PutObject mn rt (hd nodes) key thumb (w_objects w) = (perr, st1)" by fastforce
      obtain ro ns a1 where rec: "RecordThumbnail now (snd (SetThumbnailKey (uce_VersionID evt) key (w_db w)))
          (uce_OrgID evt) (uce_FileID evt) (w_activity w) = ((ro, ns), a1)" by (metis prod.collapse)
      show ?thesis
      proof (cases "err = None \<and> perr = None")
        case True
        then have "r = Inr () \<and> w_db w' = snd (SetThumbnailKey (uce_VersionID evt) key (w_db w)) \<and> w_objects w' = st1"
          using assms rec unfolding SetThumbnailKey_def
          by (auto simp: Process_def v made Some res put Let_def key_def [symmetric] SetThumbnailKey_def)
        with v made Some res put True show ?thesis by (intro stored) (auto simp: key_def)
      next
        case False
        then have "(\<exists>e. r = Inl e) \<and> w_db w' = w_db w \<and> w_activity w' = w_activity w \<and> w_notes w' = w_notes w"
          using assms by (cases err; cases perr) (auto simp: Process_def v made Some res put Let_def key_def [symmetric])
        then show ?thesis using failed by blast
      qed
    qed
  qed
qed

lemma thumbnail_pipeline_facts:
  assumes "Process rnd c mn rt now evt w = (r, w')"
  shows "db_inv (w_db w) \<Longrightarrow> db_inv (w_db w')"
    and "r = Inl e \<Longrightarrow> w_db w' = w_db w \<and> w_activity w' = w_activity w \<and> w_notes w' = w_notes w"
    and "r = Inr () \<Longrightarrow> w' = w \<or> (\<exists>v parts thumb nodes.
      GetVersion (w_db w) (uce_FileID evt) (uce_VersionID evt) = Inr v \<and>
      map chunk_sum parts = map snd (GetVersionChunks (w_db w) (uce_VersionID evt)) \<and>
      (HasPrefix (v_mime v) ''image/'' \<and> generateImageThumbnail rnd c (concat parts) = Inr thumb \<or>
       v_mime v = ''application/pdf'' \<and>
         (generatePDFThumbnail c (concat parts) = Inr thumb \<or> generatePDFPlaceholder c = Inr thumb)) \<and>
      Resolve rt (thumbnailObjectKey (uce_VersionID evt)) 1 = (nodes, None) \<and>
      PutObject mn rt (hd nodes) (thumbnailObjectKey (uce_VersionID evt)) thumb (w_objects w) = (None, w_objects w') \<and>
      w_db w' = snd (SetThumbnailKey (uce_VersionID evt) (thumbnailObjectKey (uce_VersionID evt)) (w_db w)))"
proof -
  show "db_inv (w_db w')" if "db_inv (w_db w)"
    using assms that preservesD [OF SetThumbnailKey_inv] by (cases rule: Process_cases) simp_all
  show "w_db w' = w_db w \<and> w_activity w' = w_activity w \<and> w_notes w' = w_notes w" if "r = Inl e"
    using assms that by (cases rule: Process_cases) simp_all
  show "w' = w \<or> (\<exists>v parts thumb nodes.
      GetVersion (w_db w) (uce_FileID evt) (uce_VersionID evt) = Inr v \<and>
      map chunk_sum parts = map snd (GetVersionChunks (w_db w) (uce_VersionID evt)) \<and>
      (HasPrefix (v_mime v) ''image/'' \<and> generateImageThumbnail rnd c (concat parts) = Inr thumb \<or>
       v_mime v = ''application/pdf'' \<and>
         (generatePDFThumbnail c (concat parts) = Inr thumb \<or> generatePDFPlaceholder c = Inr thumb)) \<and>
      Resolve rt (thumbnailObjectKey (uce_VersionID evt)) 1 = (nodes, None) \<and>
      PutObject mn rt (hd nodes) (thumbnailObjectKey (uce_VersionID evt)) thumb (w_objects w) = (None, w_objects w') \<and>
      w_db w' = snd (SetThumbnailKey (uce_VersionID evt) (thumbnailObjectKey (uce_VersionID evt)) (w_db w)))" if "r = Inr ()"
    using assms
  proof (cases rule: Process_cases)
    case (stored v thumb nodes)
    from make_thumbnail_Some [OF stored(3)] obtain data where
      data: "reassemble mn rt (w_db w) (w_objects w) (uce_VersionID evt) = Inr data" and
      made: "HasPrefix (v_mime v) ''image/'' \<and> generateImageThumbnail rnd c data = Inr thumb \<or>
       v_mime v = ''application/pdf'' \<and> (generatePDFThumbnail c data = Inr thumb \<or> generatePDFPlaceholder c = Inr thumb)"
      by blast
    from reassemble_loop_Inr [OF data [unfolded reassemble_def]] obtain parts where "data = concat parts"
      "map chunk_sum parts = map snd (GetVersionChunks (w_db w) (uce_VersionID evt))" by auto
    with stored(2,4-6) made show ?thesis by blast
  qed (use that in simp_all)
qed

text \<open>C35: Processing an upload event keeps the database sound. When it fails, and will be redelivered,
  nothing is recorded; when it succeeds, either nothing changed at all, or the thumbnail was made
  from the version's chunks, each verified against its recorded hash and in order (or is the PDF
  placeholder), was stored under the version's thumbnail key on a node the router chose, and only
  then the version's thumbnail key was set.\<close>

theorem thumbnail_pipeline:
  assumes "Process rnd c mn rt now evt w = (r, w')"
  shows "(db_inv (w_db w) \<longrightarrow> db_inv (w_db w')) \<and>
    (\<forall>e. r = Inl e \<longrightarrow> w_db w' = w_db w \<and> w_activity w' = w_activity w \<and> w_notes w' = w_notes w) \<and>
    (r = Inr () \<longrightarrow> w' = w \<or> (\<exists>v parts thumb nodes.
      GetVersion (w_db w) (uce_FileID evt) (uce_VersionID evt) = Inr v \<and>
      map chunk_sum parts = map snd (GetVersionChunks (w_db w) (uce_VersionID evt)) \<and>
      (HasPrefix (v_mime v) ''image/'' \<and> generateImageThumbnail rnd c (concat parts) = Inr thumb \<or>
       v_mime v = ''application/pdf'' \<and>
         (generatePDFThumbnail c (concat parts) = Inr thumb \<or> generatePDFPlaceholder c = Inr thumb)) \<and>
      Resolve rt (thumbnailObjectKey (uce_VersionID evt)) 1 = (nodes, None) \<and>
      PutObject mn rt (hd nodes) (thumbnailObjectKey (uce_VersionID evt)) thumb (w_objects w) = (None, w_objects w') \<and>
      w_db w' = snd (SetThumbnailKey (uce_VersionID evt) (thumbnailObjectKey (uce_VersionID evt)) (w_db w))))"
  using thumbnail_pipeline_facts [OF assms] by blast

definition sample_codecs :: "unit codecs" where
  "sample_codecs = \<lparr>cd_decode = (\<lambda>_. Inr ((), 1024, 512)), cd_scale = (\<lambda>i _ _. i), cd_encode = (\<lambda>_. Inr ''jpeg''),
     cd_pdf_page = (\<lambda>_. Inl IOError), cd_placeholder = ()\<rparr>"

definition sample_world :: "unit world" where
  "sample_world = \<lparr>w_db = sample_chunk_db\<lparr>file_versions := [\<lparr>v_id = ''v1'', v_file = ''f1'', v_size = 3, v_checksum = ''c'',
       v_mime = ''image/png'', v_thumb = None, v_created_by = ''u1'', v_created = 0\<rparr>]\<rparr>,
     w_objects = (), w_activity = \<lparr>activity_events = [], activity_seq = 1\<rparr>, w_notes = []\<rparr>"

text \<open>With no node to store the thumbnail on, the event fails and nothing is recorded.\<close>

theorem thumbnail_pipeline_witness:
  "\<exists>e w'. Process (\<lambda>x. x) sample_codecs sample_chunk_minio (empty_router 0) 0 sample_event sample_world = (Inl e, w') \<and>
    w_db w' = w_db sample_world \<and> w_activity w' = w_activity sample_world \<and> w_notes w' = w_notes sample_world"
proof -
  obtain r w' where run: "Process (\<lambda>x. x) sample_codecs sample_chunk_minio (empty_router 0) 0 sample_event sample_world = (r, w')"
    by fastforce
  moreover have "\<exists>e. fst (Process (\<lambda>x. x) sample_codecs sample_chunk_minio (empty_router 0) 0 sample_event sample_world) = Inl e"
    by (simp add: Process_def sample_world_def sample_event_def GetVersion_def scanVersion_def make_thumbnail_def HasPrefix_def
      reassemble_def GetVersionChunks_def sample_chunk_db_def Let_def LocationsForChunk_def GetObject_def empty_router_def)
  ultimately obtain e where "r = Inl e" by auto
  with run thumbnail_pipeline [OF run] show ?thesis by blast
qed

section \<open>The size of a thumbnail\<close>

text \<open>What IEEE 754 double arithmetic promises of its rounding, on the non-negative numbers used here.\<close>

definition rounding_ok :: "(real \<Rightarrow> real) \<Rightarrow> bool" where
  "rounding_ok rnd \<longleftrightarrow> mono rnd \<and> (\<forall>n \<le> 2 ^ 53. rnd (real n) = real n) \<and>
     (\<forall>x \<ge> 0. \<bar>rnd x - x\<bar> \<le> x / 2 ^ 53)"

lemma thumb_scale_bounds:
  assumes rnd: "rounding_ok rnd" and "0 < w" "0 < h"
  shows "0 \<le> thumb_scale rnd w h" "thumb_scale rnd w h \<le> 1"
    "real (max w h) * thumb_scale rnd w h \<le> 256 * (1 + 1 / 2 ^ 53)"
proof -
  let ?m = "real (max w h)" and ?q = "256 / real (max w h)"
  have m: "0 < ?m" using assms(2) by simp
  then have q: "0 \<le> ?q" by simp
  have near: "\<bar>rnd ?q - ?q\<bar> \<le> ?q / 2 ^ 53" using rnd q unfolding rounding_ok_def by blast
  have le: "thumb_scale rnd w h \<le> rnd ?q" by (simp add: thumb_scale_def Let_def maxThumbnailDimension_def)
  from rnd have "\<forall>n \<le> 2 ^ 53. rnd (real n) = real n" unfolding rounding_ok_def by blast
  from spec [OF this, of 0] have "rnd 0 = 0" by simp
  then have "0 \<le> rnd ?q" using rnd q unfolding rounding_ok_def mono_def by metis
  then show "0 \<le> thumb_scale rnd w h" by (simp add: thumb_scale_def Let_def maxThumbnailDimension_def)
  show "thumb_scale rnd w h \<le> 1" by (simp add: thumb_scale_def Let_def)
  have "?m * thumb_scale rnd w h \<le> ?m * (?q + ?q / 2 ^ 53)"
    using near le m by (intro mult_left_mono) linarith+
  also have "\<And>m :: real. 0 < m \<Longrightarrow> m * (256 / m + 256 / m / 2 ^ 53) = 256 * (1 + 1 / 2 ^ 53)" by (simp add: field_simps)
  from this [OF m] have "?m * (?q + ?q / 2 ^ 53) = 256 * (1 + 1 / 2 ^ 53)" .
  finally show "?m * thumb_scale rnd w h \<le> 256 * (1 + 1 / 2 ^ 53)" .
qed

lemma thumb_edge_bounds:
  assumes rnd: "rounding_ok rnd" and n: "0 < n" "n \<le> 2 ^ 53" and s: "0 \<le> s" "s \<le> 1"
    and small: "real n * s \<le> 256 * (1 + 1 / 2 ^ 53)"
  shows "1 \<le> thumb_edge rnd s n" "thumb_edge rnd s n \<le> 256" "thumb_edge rnd s n \<le> n"
proof -
  show "1 \<le> thumb_edge rnd s n" by (simp add: thumb_edge_def)
  have "rnd (real n * s) \<le> rnd (real n)" using rnd s by (intro monoD [of rnd]) (simp_all add: rounding_ok_def mult_left_le)
  also have "\<dots> = real n" using rnd n by (simp add: rounding_ok_def)
  finally have "\<lfloor>rnd (real n * s)\<rfloor> \<le> int n" by (simp add: floor_le_iff)
  then show "thumb_edge rnd s n \<le> n" using n by (simp add: thumb_edge_def)
  have "0 \<le> real n * s" using s by simp
  then have "rnd (real n * s) \<le> real n * s + real n * s / 2 ^ 53" using rnd by (smt (verit) rounding_ok_def)
  also have "\<dots> \<le> 256 * (1 + 1 / 2 ^ 53) + 256 * (1 + 1 / 2 ^ 53) / 2 ^ 53"
    using small by (intro add_mono divide_right_mono) simp_all
  also have "\<dots> < 257" by simp
  finally have "\<lfloor>rnd (real n * s)\<rfloor> \<le> 256" by (simp add: floor_le_iff)
  then show "thumb_edge rnd s n \<le> 256" by (simp add: thumb_edge_def nat_le_iff)
qed

lemma thumbnail_fits_facts:
  assumes "rounding_ok rnd" and "0 < w" "w \<le> 2 ^ 53" and "0 < h" "h \<le> 2 ^ 53"
  defines "s \<equiv> thumb_scale rnd w h"
  shows "1 \<le> thumb_edge rnd s w \<and> thumb_edge rnd s w \<le> min w maxThumbnailDimension"
    and "1 \<le> thumb_edge rnd s h \<and> thumb_edge rnd s h \<le> min h maxThumbnailDimension"
    and "max w h \<le> maxThumbnailDimension \<Longrightarrow> thumb_edge rnd s w = w \<and> thumb_edge rnd s h = h"
proof -
  note sb = thumb_scale_bounds [OF assms(1,2,4), folded s_def]
  have "real w * s \<le> real (max w h) * s" "real h * s \<le> real (max w h) * s" using sb(1) by (intro mult_right_mono; simp)+
  then have "real w * s \<le> 256 * (1 + 1 / 2 ^ 53)" "real h * s \<le> 256 * (1 + 1 / 2 ^ 53)" using sb(3) by linarith+
  from thumb_edge_bounds [OF assms(1-3) sb(1,2) this(1)] thumb_edge_bounds [OF assms(1,4,5) sb(1,2) this(2)]
  show "1 \<le> thumb_edge rnd s w \<and> thumb_edge rnd s w \<le> min w maxThumbnailDimension"
    "1 \<le> thumb_edge rnd s h \<and> thumb_edge rnd s h \<le> min h maxThumbnailDimension"
    by (simp_all add: maxThumbnailDimension_def)
  show "thumb_edge rnd s w = w \<and> thumb_edge rnd s h = h" if "max w h \<le> maxThumbnailDimension"
  proof -
    have "1 \<le> 256 / real (max w h)" using that assms(2) by (simp add: maxThumbnailDimension_def)
    then have "rnd (real 1) \<le> rnd (256 / real (max w h))" using assms(1) by (auto simp: rounding_ok_def mono_def)
    moreover have "rnd (real 1) = real 1" using assms(1) unfolding rounding_ok_def by (metis one_le_numeral one_le_power)
    ultimately have "s = 1" by (simp add: s_def thumb_scale_def Let_def maxThumbnailDimension_def)
    then show ?thesis using assms by (simp add: thumb_edge_def rounding_ok_def)
  qed
qed

text \<open>C1: The thumbnail of an image with edges \<open>w\<close> and \<open>h\<close> has edges of at least one pixel and at most
  \<^verbatim>\<open>maxThumbnailDimension\<close>, in spite of the rounding of the scale factor; it is never larger than the
  original, and an original that fits keeps its size.\<close>

theorem thumbnail_fits:
  assumes "rounding_ok rnd" and "0 < w" "w \<le> 2 ^ 53" and "0 < h" "h \<le> 2 ^ 53"
  shows "1 \<le> thumb_edge rnd (thumb_scale rnd w h) w \<and> thumb_edge rnd (thumb_scale rnd w h) w \<le> min w maxThumbnailDimension \<and>
    1 \<le> thumb_edge rnd (thumb_scale rnd w h) h \<and> thumb_edge rnd (thumb_scale rnd w h) h \<le> min h maxThumbnailDimension \<and>
    (max w h \<le> maxThumbnailDimension \<longrightarrow>
       thumb_edge rnd (thumb_scale rnd w h) w = w \<and> thumb_edge rnd (thumb_scale rnd w h) h = h)"
  using thumbnail_fits_facts [OF assms] by blast

theorem thumbnail_fits_witness:
  "1 \<le> thumb_edge (\<lambda>x. x) (thumb_scale (\<lambda>x. x) 1024 512) 1024 \<and>
   thumb_edge (\<lambda>x. x) (thumb_scale (\<lambda>x. x) 1024 512) 1024 \<le> min 1024 maxThumbnailDimension"
  using thumbnail_fits [of "\<lambda>x. x" 1024 512] by (simp add: rounding_ok_def mono_def)

end
