(* ===== verification/Read_Routes.thy ===== *)
theory Read_Routes
  imports File_Laws
begin

text \<open>
  The listing handlers of \<^verbatim>\<open>internal/org\<close>, \<^verbatim>\<open>internal/folder\<close> and \<^verbatim>\<open>internal/file\<close>, and the adapter
  through which a folder lists its files. They only read; \<open>collate\<close> is the database's order of names.
  The lemmas say that the listings of an organization leave out nothing and repeat nothing.
\<close>

section \<open>Organizations\<close>

record org_summary =
  og_id :: id
  og_name :: string
  og_owner :: id

definition org_handler_ListMine :: "id \<Rightarrow> db \<Rightarrow> org_summary list response" where
  "org_handler_ListMine userID d =
     WriteJSON 200 (map (\<lambda>g. \<lparr>og_id = o_id g, og_name = o_name g, og_owner = o_owner g\<rparr>) (ListForUser d userID))"

record member_summary =
  mm_user :: id
  mm_email :: string
  mm_role :: string

definition org_handler_ListMembers :: "id \<Rightarrow> db \<Rightarrow> member_summary list response" where
  "org_handler_ListMembers orgID d =
     WriteJSON 200 (map (\<lambda>m. \<lparr>mm_user = mb_user m, mm_email = mb_email m, mm_role = Role_string (mb_role m)\<rparr>) (ListMembers d orgID))"

section \<open>Folders\<close>

record FileSummary =
  fs_id :: id
  fs_name :: string
  fs_size :: "int option"
  fs_mime :: "string option"
  fs_thumb :: bool

definition fileLister_ListInFolder :: "(string \<Rightarrow> 'k :: linorder) \<Rightarrow> db \<Rightarrow> id \<Rightarrow> FileSummary list" where
  "fileLister_ListInFolder collate d folderID =
     map (\<lambda>e. \<lparr>fs_id = f_id (le_file e), fs_name = f_name (le_file e), fs_size = le_size e, fs_mime = le_mime e,
               fs_thumb = le_thumb e\<rparr>) (ListInFolder collate d folderID)"

record folder_summary =
  fy_id :: id
  fy_org :: id
  fy_parent :: "id option"
  fy_name :: string
  fy_created :: time
  fy_updated :: time

definition folder_toResponse :: "Folder \<Rightarrow> folder_summary" where
  "folder_toResponse f = \<lparr>fy_id = fo_id f, fy_org = fo_org f, fy_parent = fo_parent f, fy_name = fo_name f,
     fy_created = fo_created f, fy_updated = fo_updated f\<rparr>"

definition folder_handler_ListTrashed :: "id \<Rightarrow> db \<Rightarrow> folder_summary list response" where
  "folder_handler_ListTrashed orgID d = WriteJSON 200 (map folder_toResponse (folder_ListTrashed d orgID))"

definition folder_handler_ListRoot :: "(string \<Rightarrow> 'k :: linorder) \<Rightarrow> id \<Rightarrow> db \<Rightarrow> folder_summary list response" where
  "folder_handler_ListRoot collate orgID d = WriteJSON 200 (map folder_toResponse (ListChildren collate d orgID None))"

definition folder_handler_ListChildren ::
  "(string \<Rightarrow> 'k :: linorder) \<Rightarrow> Folder \<Rightarrow> db \<Rightarrow> (folder_summary list \<times> FileSummary list) response" where
  "folder_handler_ListChildren collate f d =
     WriteJSON 200 (map folder_toResponse (ListChildren collate d (fo_org f) (Some (fo_id f))),
                    fileLister_ListInFolder collate d (fo_id f))"

definition folder_handler_Path :: "Folder \<Rightarrow> db \<Rightarrow> PathEntry list response" where
  "folder_handler_Path f d =
     (case Ancestors d (fo_id f) of
        Inl _ \<Rightarrow> WriteError http_ErrInternal ''failed to load folder path''
      | Inr chain \<Rightarrow> WriteJSON 200 chain)"

section \<open>Files\<close>

record file_summary =
  fz_id :: id
  fz_org :: id
  fz_folder :: id
  fz_name :: string
  fz_latest :: "id option"
  fz_created :: time
  fz_updated :: time

definition file_toResponse :: "File \<Rightarrow> file_summary" where
  "file_toResponse f = \<lparr>fz_id = f_id f, fz_org = f_org f, fz_folder = f_folder f, fz_name = f_name f, fz_latest = f_latest f,
     fz_created = f_created f, fz_updated = f_updated f\<rparr>"

definition file_handler_ListTrashed :: "id \<Rightarrow> db \<Rightarrow> file_summary list response" where
  "file_handler_ListTrashed orgID d = WriteJSON 200 (map file_toResponse (file_ListTrashed d orgID))"

definition file_handler_Delete :: "time \<Rightarrow> File \<Rightarrow> db \<Rightarrow> unit response \<times> db" where
  "file_handler_Delete now f d =
     (case SoftDelete now (f_id f) d of
        (Inl _, d1) \<Rightarrow> (WriteError http_ErrInternal ''failed to trash file'', d1)
      | (Inr _, d1) \<Rightarrow> (NoContent, d1))"

record version_summary =
  vy_id :: id
  vy_size :: int
  vy_checksum :: string
  vy_mime :: string
  vy_created :: time

definition file_handler_ListVersions :: "File \<Rightarrow> db \<Rightarrow> version_summary list response" where
  "file_handler_ListVersions f d =
     WriteJSON 200 (map (\<lambda>v. \<lparr>vy_id = v_id v, vy_size = v_size v, vy_checksum = v_checksum v, vy_mime = v_mime v,
        vy_created = v_created v\<rparr>) (ListVersions d (f_id f)))"

definition file_handler_Thumbnail ::
  "(string \<Rightarrow> string \<Rightarrow> string res) \<Rightarrow> time \<Rightarrow> Router \<Rightarrow> File \<Rightarrow> db \<Rightarrow> string list response" where
  "file_handler_Thumbnail sign now rt f d =
     (case ThumbnailTargets sign now rt d f of
        Inl e \<Rightarrow> writeFileError e
      | Inr targets \<Rightarrow> WriteJSON 200 targets)"

section \<open>What the listings hold\<close>

lemma file_handler_Delete_inv: "db_inv d \<Longrightarrow> db_inv (snd (file_handler_Delete now f d))"
  using preservesD [OF SoftDelete_inv, of d] by (simp add: file_handler_Delete_def SoftDelete_def)

text \<open>A folder's listing is the live folders below it and the live files in it; every live file of an
  organization is in the listing of its own folder and of no other, and every other file of the
  organization is in the trash listing.\<close>

lemma ListChildren_exact:
  "set (ListChildren collate d oid p) = {f \<in> set (folders d). fo_org f = oid \<and> fo_parent f = p \<and> fo_deleted f = None}"
  by (auto simp: ListChildren_def)

lemma file_listed_once:
  assumes "f \<in> set (files d)"
  shows "(f_deleted f = None \<and> f \<in> le_file ` set (ListInFolder collate d g) \<longleftrightarrow> f_deleted f = None \<and> g = f_folder f)"
    and "f \<in> set (file_ListTrashed d (f_org f)) \<longleftrightarrow> f_deleted f \<noteq> None"
proof -
  have "le_file (list_entry d h) = h" for h by (simp add: list_entry_def split: option.splits)
  then have "le_file ` set (ListInFolder collate d g) = {h \<in> set (files d). f_folder h = g \<and> f_deleted h = None}"
    by (auto simp: ListInFolder_def image_image)
  then show "(f_deleted f = None \<and> f \<in> le_file ` set (ListInFolder collate d g) \<longleftrightarrow> f_deleted f = None \<and> g = f_folder f)"
    using assms by auto
  show "f \<in> set (file_ListTrashed d (f_org f)) \<longleftrightarrow> f_deleted f \<noteq> None" using assms by (auto simp: file_ListTrashed_def)
qed

end
