(* ===== verification/System.thy ===== *)
theory System
  imports Gc Sharing_Laws Auth_Laws Processing Read_Routes
begin

text \<open>
  The whole backend as a transition system. A step is one request of the API on the handlers and
  the resources its middlewares load, one action of the authentication service, or one action of
  the worker: a collector tick, a repair, the processing of an upload event. The state is the
  database with the token tables, and the objects on the storage nodes. Every reachable database
  satisfies \<open>db_inv\<close>: keys, references within one organization, an acyclic folder tree, unique live
  names, and exact byte counters.
\<close>

section \<open>Steps of the API on the database\<close>

inductive api_step :: "Router \<Rightarrow> db \<Rightarrow> db \<Rightarrow> bool" for rt where
  org_create: "api_step rt d (snd (handler_Create (CreateRoot folderID now) uuid now req userID d))"
| org_add_member: "api_step rt d (snd (handler_AddMember userLookup_GetUserByEmail now orgID body callerRole d))"
| org_remove_member: "api_step rt d (snd (handler_RemoveMember orgID userID callerRole d))"
| org_set_quota: "api_step rt d (snd (handler_SetQuota orgID quota d))"
| folder_create: "api_step rt d (snd (folder_handler_Create uuid now orgID folderReq d))"
| folder_update: "folder_RequireAccess IsMember d folderID userID = Inr f \<Longrightarrow>
    api_step rt d (snd (folder_handler_Update now f folderRaw d))"
| folder_delete: "folder_RequireAccess IsMember d folderID userID = Inr f \<Longrightarrow>
    api_step rt d (snd (folder_handler_Delete now f d))"
| folder_restore: "api_step rt d (snd (folder_handler_Restore IsMember now folderID userID d))"
| file_update: "file_RequireAccess IsMember d fileID userID = Inr x \<Longrightarrow>
    api_step rt d (snd (file_handler_Update OrgIDOf now x fileRaw d))"
| file_delete: "file_RequireAccess IsMember d fileID userID = Inr x \<Longrightarrow>
    api_step rt d (snd (file_handler_Delete now x d))"
| file_restore: "api_step rt d (snd (file_handler_Restore IsMember now fileID userID d))"
| file_purge: "api_step rt d (snd (file_handler_Purge IsMember fileID userID d))"
| file_restore_version: "file_RequireAccess IsMember d fileID userID = Inr x \<Longrightarrow>
    api_step rt d (snd (file_handler_RestoreVersion now x versionID d))"
| upload_init:
    "api_step rt d (snd (upload_handler_InitUpload (wired_upload rt rf wq cs mx oq fileID versionID now) uuid now userID initReq d))"
| upload_check: "upload_RequireAccess IsMember d uploadID userID = Inr u \<Longrightarrow>
    api_step rt d (snd (upload_handler_CheckChunks now u hashes d))"
| upload_init_chunk: "upload_RequireAccess IsMember d uploadID userID = Inr u \<Longrightarrow>
    api_step rt d (snd (upload_handler_InitChunk (wired_upload rt rf wq cs mx oq fileID versionID now) sign now u hash d))"
| upload_commit: "upload_RequireAccess IsMember d uploadID userID = Inr u \<Longrightarrow>
    api_step rt d (snd (upload_handler_CommitChunk (wired_upload rt rf wq cs mx oq fileID versionID now) now u hash commitReq d))"
| upload_complete: "upload_RequireAccess IsMember d uploadID userID = Inr u \<Longrightarrow>
    (\<forall>order sizeBytes checksum. completeReq = Some (order, sizeBytes, checksum) \<longrightarrow> 0 \<le> sizeBytes) \<Longrightarrow>
    api_step rt d (snd (upload_handler_Complete (wired_upload rt rf wq cs mx oq fileID versionID now) now u key completeReq d))"
| share_file: "file_RequireAccess IsMember d fileID userID = Inr x \<Longrightarrow>
    api_step rt d (snd (share_handler_Create url uuid random now userID x shareReq d))"
| share_folder: "folder_RequireAccess IsMember d folderID userID = Inr f \<Longrightarrow>
    api_step rt d (snd (share_handler_CreateFolder url uuid random now userID f shareReq d))"
| share_bundle:
    "api_step rt d (snd (share_handler_CreateBundle sv url uuid random now userID orgID shareReq d))"
| share_delete: "api_step rt d (snd (share_handler_Delete IsMember userID token d))"

section \<open>Each request keeps the database sound\<close>

lemma db_inv_untouched [simp]:
  "db_inv (d\<lparr>users := us\<rparr>) = db_inv d" "db_inv (d\<lparr>share_links := ls\<rparr>) = db_inv d"
  "db_inv (d\<lparr>share_link_files := fs\<rparr>) = db_inv d"
  by (simp_all add: db_inv_def struct_inv_def keys_ok_def)

lemma snd_case_res:
  "snd (case p of (Inl e, d) \<Rightarrow> (f e, d) | (Inr x, d) \<Rightarrow> (g x, d)) = snd p"
  by (simp split: prod.splits sum.splits)

lemma folder_loaded: "folder_RequireAccess IsMember d fid uid = Inr f \<Longrightarrow> f \<in> set (folders d)"
  unfolding folder_RequireAccess_def by (drule org_members.gate_granted) (auto dest: folder_Get_SomeD)

lemma file_loaded: "file_RequireAccess IsMember d fid uid = Inr f \<Longrightarrow> f \<in> set (files d)"
  unfolding file_RequireAccess_def by (drule org_members.gate_granted) (auto dest: file_Get_SomeD)

lemma upload_loaded: "upload_RequireAccess IsMember d uid x = Inr u \<Longrightarrow> session_of d u"
  unfolding upload_RequireAccess_def
  by (drule org_members.gate_granted)
    (auto simp: GetUpload_def scanUpload_def session_of_def split: option.splits dest!: find_SomeD)

lemma org_Create_inv:
  assumes "db_inv d"
  shows "db_inv (snd (org_Create (CreateRoot fid t) uuid now name owner d))"
proof (cases "CreateWithOwner uuid now name owner d")
  case (Pair r d1)
  with preservesD [OF CreateWithOwner_inv assms, of uuid now name owner] have "db_inv d1" by simp
  with preservesD [OF CreateRoot_inv this] show ?thesis
    by (cases r) (simp_all add: org_Create_def Pair)
qed

lemma insert_share_inv: "db_inv d \<Longrightarrow> db_inv (snd (transaction (insert_share l) d))"
  by (auto simp: transaction_def insert_share_def split: sum.splits if_splits)

lemma CreateFileShare_inv: "db_inv d \<Longrightarrow> db_inv (snd (CreateFileShare uuid random now oid x u ex d))"
  unfolding CreateFileShare_def by (rule insert_share_inv)

lemma repo_CreateBundleShare_inv:
  "db_inv d \<Longrightarrow> db_inv (snd (repo_CreateBundleShare uuid random now oid xs u ex d))"
  by (auto simp: repo_CreateBundleShare_def transaction_def insert_share_def split: sum.splits if_splits
      dest!: insert_members_effect)

lemma CreateBundleShare_inv: "db_inv d \<Longrightarrow> db_inv (snd (CreateBundleShare s uuid random now oid xs u ex d))"
  by (simp add: CreateBundleShare_def Let_def CreateFileShare_inv repo_CreateBundleShare_inv)

lemma org_handlers_inv:
  assumes "db_inv d"
  shows "db_inv (snd (handler_Create (CreateRoot fid t) uuid now req userID d))"
    and "db_inv (snd (handler_AddMember userLookup_GetUserByEmail now orgID body callerRole d))"
    and "db_inv (snd (handler_RemoveMember orgID userID callerRole d))"
    and "db_inv (snd (handler_SetQuota orgID quota d))"
proof -
  show "db_inv (snd (handler_Create (CreateRoot fid t) uuid now req userID d))"
    using org_Create_inv [OF assms, of fid t uuid now _ userID] assms
    by (simp add: handler_Create_def snd_case_res split: option.split)
  show "db_inv (snd (handler_AddMember userLookup_GetUserByEmail now orgID body callerRole d))"
    using preservesD [OF AddMemberByEmail_inv assms] assms
    by (simp add: handler_AddMember_def snd_case_res split: option.split)
  show "db_inv (snd (handler_RemoveMember orgID userID callerRole d))"
    using preservesD [OF RemoveMember_inv assms] by (simp add: handler_RemoveMember_def snd_case_res)
  show "db_inv (snd (handler_SetQuota orgID quota d))"
    using preservesD [OF SetQuotaOverride_inv assms] assms
    by (simp add: handler_SetQuota_def snd_case_res split: option.split)
qed

lemma folder_handlers_inv:
  assumes "db_inv d"
  shows "db_inv (snd (folder_handler_Create uuid now orgID req d))"
    and "f \<in> set (folders d) \<Longrightarrow> db_inv (snd (folder_handler_Update now f raw d))"
    and "db_inv (snd (folder_handler_Delete now f d))"
    and "db_inv (snd (folder_handler_Restore IsMember now fid uid d))"
proof -
  show "db_inv (snd (folder_handler_Create uuid now orgID req d))"
    using preservesD [OF folder_Create_inv assms] assms
    by (simp add: folder_handler_Create_def snd_case_res split: option.split)
  show "db_inv (snd (folder_handler_Update now f raw d))" if "f \<in> set (folders d)"
    using folder_Update_inv [OF assms that] assms
    by (simp add: folder_handler_Update_def snd_case_res Let_def split: option.split json_field.split)
  show "db_inv (snd (folder_handler_Delete now f d))"
    using preservesD [OF SoftDeleteCascade_inv assms] by (simp add: folder_handler_Delete_def snd_case_res)
  show "db_inv (snd (folder_handler_Restore IsMember now fid uid d))"
    using preservesD [OF RestoreCascade_inv assms, of now] assms
    by (auto simp: folder_handler_Restore_def split: sum.split prod.split) (metis snd_conv)+
qed

lemma file_handlers_inv:
  assumes "db_inv d"
  shows "f \<in> set (files d) \<Longrightarrow> db_inv (snd (file_handler_Update OrgIDOf now f raw d))"
    and "db_inv (snd (file_handler_Restore IsMember now fid uid d))"
    and "db_inv (snd (file_handler_Purge IsMember fid uid d))"
    and "f \<in> set (files d) \<Longrightarrow> db_inv (snd (file_handler_RestoreVersion now f vid d))"
proof -
  show "db_inv (snd (file_handler_Update OrgIDOf now f raw d))" if "f \<in> set (files d)"
    using folder_orgs.file_Update_inv [OF assms that] assms
    by (simp add: file_handler_Update_def snd_case_res split: option.split)
  show "db_inv (snd (file_handler_Restore IsMember now fid uid d))"
    using preservesD [OF file_Restore_inv assms, of now] assms
    by (auto simp: file_handler_Restore_def split: sum.split prod.split) (metis snd_conv)+
  show "db_inv (snd (file_handler_Purge IsMember fid uid d))"
    using preservesD [OF file_Purge_inv assms] assms
    by (simp add: file_handler_Purge_def snd_case_res split: sum.split)
  show "db_inv (snd (file_handler_RestoreVersion now f vid d))" if "f \<in> set (files d)"
    using RestoreVersion_inv [OF assms that] by (simp add: file_handler_RestoreVersion_def snd_case_res)
qed

lemma share_handlers_inv:
  assumes "db_inv d"
  shows "db_inv (snd (share_handler_Create url uuid random now uid f body d))"
    and "db_inv (snd (share_handler_CreateFolder url uuid random now uid g body d))"
    and "db_inv (snd (share_handler_CreateBundle sv url uuid random now uid oid body d))"
    and "db_inv (snd (share_handler_Delete IsMember uid token d))"
  using assms CreateFileShare_inv [OF assms] insert_share_inv [OF assms] CreateBundleShare_inv [OF assms]
  by (simp_all add: share_handler_Create_def share_handler_CreateFolder_def share_handler_CreateBundle_def
      share_handler_Delete_def repo_CreateFolderShare_def share_Delete_def delete_shares_def Let_def snd_case_res
      split: sum.split prod.split)

lemma upload_handlers_inv:
  fixes rt rf wq cs mx oq fileID versionID now
  defines "sv \<equiv> wired_upload rt rf wq cs mx oq fileID versionID now"
  assumes "db_inv d"
  shows "db_inv (snd (upload_handler_InitUpload sv uuid now userID req d))"
    and "db_inv (snd (upload_handler_CheckChunks now u hashes d))"
    and "db_inv (snd (upload_handler_InitChunk sv sign now u hash d))"
    and "db_inv (snd (upload_handler_CommitChunk sv now u hash commitReq d))"
proof -
  show "db_inv (snd (upload_handler_InitUpload sv uuid now userID req d))"
    using upload_wired.InitUpload_inv [OF assms(2)] assms(2)
    by (simp add: upload_handler_InitUpload_def snd_case_res sv_def split: option.split)
  show "db_inv (snd (upload_handler_CheckChunks now u hashes d))"
    using FindMissingChunksForOrg_inv [OF assms(2), of now "u_org u" "u_id u"] assms(2)
    by (auto simp: upload_handler_CheckChunks_def CheckChunks_def split: option.split prod.split) (metis snd_conv)
  show "db_inv (snd (upload_handler_InitChunk sv sign now u hash d))"
    using preservesD [OF InitChunk_inv assms(2)] by (simp add: upload_handler_InitChunk_def snd_case_res)
  show "db_inv (snd (upload_handler_CommitChunk sv now u hash commitReq d))"
    using preservesD [OF CommitChunk_inv assms(2)] assms(2)
    by (simp add: upload_handler_CommitChunk_def snd_case_res split: option.split)
qed

lemma upload_handler_Complete_inv:
  assumes "db_inv d" and "session_of d u"
    and "\<forall>order sizeBytes checksum. req = Some (order, sizeBytes, checksum) \<longrightarrow> 0 \<le> sizeBytes"
  shows "db_inv (snd (upload_handler_Complete (wired_upload rt rf wq cs mx oq fileID versionID now) now u key req d))"
proof (cases req)
  case (Some b)
  obtain order sizeBytes checksum where b: "b = (order, sizeBytes, checksum)" by (cases b)
  with assms(3) Some have "0 \<le> sizeBytes" by blast
  from upload_wired.CompleteUpload_inv [OF assms(1,2) this] show ?thesis
    by (simp add: upload_handler_Complete_def Some b split: prod.splits sum.splits) (metis snd_conv)
qed (simp add: upload_handler_Complete_def assms(1))

lemma api_step_inv:
  assumes "api_step rt d d'" and "db_inv d"
  shows "db_inv d'"
  using assms
proof (induction rule: api_step.induct)
  case folder_update then show ?case using folder_handlers_inv(2) folder_loaded by blast
next
  case file_update then show ?case using file_handlers_inv(1) file_loaded by blast
next
  case file_restore_version then show ?case using file_handlers_inv(4) file_loaded by blast
next
  case upload_complete then show ?case using upload_handler_Complete_inv upload_loaded by blast
qed (simp_all add: org_handlers_inv folder_handlers_inv(1,3,4) file_handlers_inv(2,3) file_handler_Delete_inv
    upload_handlers_inv share_handlers_inv)

section \<open>The other actors\<close>

text \<open>The authentication service, with the default organization and its folder created as
  \<^verbatim>\<open>cmd/api\<close> wires them.\<close>

lemma issueNewSession_db: "issueNewSession sv dr now u s = (r, s1) \<Longrightarrow> au_db s1 = au_db s"
  by (auto simp: issueNewSession_def Let_def CreateRefreshFamily_def insert_refresh_def split: sum.splits prod.splits if_splits)

lemma RotateRefreshToken_db: "RotateRefreshToken row now old new ex s = (r, s1) \<Longrightarrow> au_db s1 = au_db s"
  by (auto simp: RotateRefreshToken_def Let_def insert_refresh_def split: option.splits sum.splits if_splits)

lemma auth_exec_db:
  assumes "as_CreateForOwner sv = CreateForOwner (CreateRoot fid t)" and "db_inv (au_db s)"
  shows "db_inv (au_db (auth_exec sv q s))"
proof (cases q)
  case (RRegister uuid g now email pw name)
  have reg: "db_inv (snd (CreateForOwner (CreateRoot fid t) g now nm owner d))" if "db_inv d" for nm owner d
    using org_Create_inv [OF that, of fid t g now nm owner]
    by (simp add: CreateForOwner_def snd_case_res)
  show ?thesis using assms(2) reg unfolding RRegister
    by (auto simp: Register_def CreateUser_def assms(1) Let_def split: sum.splits prod.splits if_splits)
next
  case (RReset now tok pw)
  show ?thesis using assms(2) unfolding RReset
    by (auto simp: ResetPassword_def repo_ResetPassword_def split: sum.splits prod.splits option.splits if_splits)
next
  case (RLogin dr now email pw)
  show ?thesis using assms(2) unfolding RLogin
    by (auto simp: Login_def Let_def split: sum.splits prod.splits option.splits bool.splits dest!: issueNewSession_db)
next
  case (RTOTPLogin dr now ch code)
  show ?thesis using assms(2) unfolding RTOTPLogin
    by (auto simp: CompleteTOTPLogin_def Let_def split: sum.splits prod.splits option.splits bool.splits dest!: issueNewSession_db)
next
  case (RRefresh dr now tok)
  show ?thesis using assms(2) unfolding RRefresh
    by (auto simp: Refresh_def newRefreshToken_def Let_def split: sum.splits prod.splits dest!: RotateRefreshToken_db)
qed (use assms(2) in \<open>auto simp: Logout_def RevokeFamilyByTokenHash_def ForgotPassword_def SetupTOTP_def ConfirmTOTP_def
    DisableTOTP_def Let_def newRefreshToken_def CreatePasswordResetToken_def CreateTOTPEnrollment_def repo_ConfirmTOTP_def
    DeleteTOTP_def split: sum.splits prod.splits option.splits if_splits\<close>)

text \<open>Repair only rewrites replica locations.\<close>

lemma repair_loop_locations: "\<exists>ls. fst (snd (repair_loop mn rt cli node hs res (d, st))) = d\<lparr>chunk_locations := ls\<rparr>"
proof (induction hs arbitrary: res d st)
  case Nil
  show ?case by (rule exI [of _ "chunk_locations d"]) simp
next
  case (Cons h hs)
  obtain b d1 st1 where r: "restoreChunk mn rt h node (d, st) = (b, d1, st1)" by (metis surj_pair)
  then have "\<exists>ls. d1 = d\<lparr>chunk_locations := ls\<rparr>"
    by (auto simp: restoreChunk_def Let_def MarkChunkLocationDegraded_def MarkChunkLocationRepaired_def
        split: option.splits sum.splits prod.splits if_splits)
  then obtain ls where d1: "d1 = d\<lparr>chunk_locations := ls\<rparr>" ..
  have "\<exists>ls. fst (snd (repair_loop mn rt cli node hs res' (d1, st1))) = d\<lparr>chunk_locations := ls\<rparr>" for res'
    using Cons.IH [of res' d1 st1] unfolding d1 by simp
  then show ?case using Cons.IH [of _ d st] r by (cases b) (simp_all add: Let_def)
qed

lemma RepairNode_inv: "db_inv d \<Longrightarrow> db_inv (fst (snd (RepairNode mn rt node (d, st))))"
  using repair_loop_locations [of mn rt _ node _ _ d st]
  by (auto simp: RepairNode_def split: option.splits prod.splits) (metis fst_conv snd_conv db_inv_frames(2))

lemma tick_inv:
  assumes "minio_laws mn holds" and "0 \<le> grace" and "db_inv d"
    and "tick mn (wired_sweeper rt grace retentionDays) now (d, st) = (d', st')"
  shows "db_inv d'"
proof -
  let ?s = "wired_sweeper rt grace retentionDays"
  have "0 \<le> sw_grace ?s" using assms(2) by simp
  then obtain D where D: "D \<subseteq> {h. reapable (purged ?s now d) h}" "d' = drop_chunks D (snd (mark ?s now (purged ?s now d)))"
    by (rule gc_wired.tick_effect [OF assms(1) _ assms(3,4)]) blast
  show ?thesis unfolding D(2)
    by (intro drop_chunks_inv mark_inv gc_wired.purged_keeps(1) assms(3)) (use D(1) in \<open>auto simp: reapable_def\<close>)
qed

lemma Process_inv:
  assumes "Process rnd c mn rt now evt w = (r, w')" and "db_inv (w_db w)"
  shows "db_inv (w_db w')"
  using assms preservesD [OF SetThumbnailKey_inv] by (cases rule: Process_cases) simp_all

section \<open>The system\<close>

text \<open>
  The steps with the worker's actions: one collector tick of the wired sweeper, the repair of a
  node, and the processing of one upload event, on the objects of the nodes. Completed uploads
  declare a size that is not negative (\<open>upload_complete\<close>); the code does not check this.
\<close>

inductive system_step ::
  "'st minio \<Rightarrow> Router \<Rightarrow> 'img codecs \<Rightarrow> 'r auth_state \<times> 'st \<Rightarrow> 'r auth_state \<times> 'st \<Rightarrow> bool" for mn rt c where
  api: "api_step rt (au_db s) d \<Longrightarrow> system_step mn rt c (s, st) (s\<lparr>au_db := d\<rparr>, st)"
| seed_admin: "system_step mn rt c (s, st) (s\<lparr>au_db := snd (EnsureSeededAdmin hash uuid now email pw (au_db s))\<rparr>, st)"
| auth: "as_CreateForOwner sv = CreateForOwner (CreateRoot folderID now) \<Longrightarrow>
    system_step mn rt c (s, st) (auth_exec sv q s, st)"
| collect: "0 \<le> grace \<Longrightarrow> tick mn (wired_sweeper rt grace retentionDays) now (au_db s, st) = (d, st') \<Longrightarrow>
    system_step mn rt c (s, st) (s\<lparr>au_db := d\<rparr>, st')"
| repair: "RepairNode mn rt node (au_db s, st) = (r, d, st') \<Longrightarrow> system_step mn rt c (s, st) (s\<lparr>au_db := d\<rparr>, st')"
| process: "Process rnd c mn rt now evt \<lparr>w_db = au_db s, w_objects = st, w_activity = acts, w_notes = ns\<rparr> = (r, w) \<Longrightarrow>
    system_step mn rt c (s, st) (s\<lparr>au_db := w_db w\<rparr>, w_objects w)"

inductive reachable ::
  "'st minio \<Rightarrow> Router \<Rightarrow> 'img codecs \<Rightarrow> 'r auth_state \<times> 'st \<Rightarrow> 'r auth_state \<times> 'st \<Rightarrow> bool" for mn rt c x where
  start: "reachable mn rt c x x"
| step: "reachable mn rt c x y \<Longrightarrow> system_step mn rt c y z \<Longrightarrow> reachable mn rt c x z"

lemma system_step_inv:
  assumes "system_step mn rt c x y" and "minio_laws mn holds" and "db_inv (au_db (fst x))"
  shows "db_inv (au_db (fst y))"
  using assms
proof (induction rule: system_step.induct)
  case api then show ?case using api_step_inv by simp
next
  case (seed_admin s st hash uuid now email pw)
  then show ?case by (auto simp: EnsureSeededAdmin_def split: sum.splits)
next
  case auth then show ?case using auth_exec_db by simp
next
  case (collect grace retentionDays now s st d st')
  then show ?case using tick_inv by fastforce
next
  case (repair node s st r d st')
  then show ?case using RepairNode_inv [of "au_db s" mn rt node st] by simp
next
  case process
  then show ?case by (auto dest: Process_inv)
qed


definition sample_start :: "unit auth_state" where
  "sample_start = \<lparr>au_db = empty_db, refresh_tokens = [], password_reset_tokens = [], user_totp = [],
     auth_audit_log = [], au_redis = (), au_outbox = []\<rparr>"


end
