(* ===== verification/Auth_Codes.thy ===== *)
theory Auth_Codes
  imports Auth_Laws
begin

text \<open>
  The second factor and the end of a session, over sequences of requests: what each request leaves
  in Redis, that a one-time password is accepted once, that a confirmed enrolment cannot be
  skipped, and that a logout revokes the access token and the refresh family.
\<close>

section \<open>One-time passwords\<close>

fun request_time :: "auth_request \<Rightarrow> time" where
  "request_time (RRegister _ _ t _ _ _) = t" | "request_time (RLogin _ t _ _) = t"
| "request_time (RTOTPLogin _ t _ _) = t" | "request_time (RRefresh _ t _) = t"
| "request_time (RLogout t _ _) = t" | "request_time (RForgot _ t _) = t"
| "request_time (RReset t _ _) = t" | "request_time (RSetup _ t _) = t"
| "request_time (RConfirm t _ _) = t" | "request_time (RDisable t _ _) = t"

text \<open>The user and time step whose code a request is accepted with.\<close>

definition accepts :: "'r AuthService \<Rightarrow> time \<Rightarrow> id \<Rightarrow> string \<Rightarrow> string \<Rightarrow> 'r \<Rightarrow> (id \<times> int) option" where
  "accepts sv now uid secret code r =
     (if fst (verifyTOTPOnce sv now uid secret code r) = None then map_option (Pair uid) (verifyTOTP secret code now) else None)"

fun burnt :: "'r AuthService \<Rightarrow> auth_request \<Rightarrow> 'r auth_state \<Rightarrow> (id \<times> int) option" where
  "burnt sv (RTOTPLogin dr now ch code) s =
     (case rd_get (as_redis sv) now (totpChallengeKey (hashToken ch)) (au_redis s) of
        Inr (Some uid) \<Rightarrow>
          (case GetTOTP s uid of Inr (secret, True) \<Rightarrow> accepts sv now uid secret code (au_redis s) | _ \<Rightarrow> None)
      | _ \<Rightarrow> None)"
| "burnt sv (RConfirm now uid code) s =
     (case GetTOTP s uid of Inr (secret, False) \<Rightarrow> accepts sv now uid secret code (au_redis s) | _ \<Rightarrow> None)"
| "burnt sv (RDisable now uid code) s =
     (case GetTOTP s uid of Inr (secret, True) \<Rightarrow> accepts sv now uid secret code (au_redis s) | _ \<Rightarrow> None)"
| "burnt sv _ s = None"

fun accepted :: "'r AuthService \<Rightarrow> auth_request list \<Rightarrow> 'r auth_state \<Rightarrow> (id \<times> int) list" where
  "accepted sv [] s = []"
| "accepted sv (q # qs) s = (case burnt sv q s of None \<Rightarrow> [] | Some p \<Rightarrow> [p]) @ accepted sv qs (auth_exec sv q s)"

text \<open>A burnt step that is still recorded stays recorded as long as it was.\<close>

definition keeps_used :: "('r \<Rightarrow> time \<Rightarrow> string \<Rightarrow> string option) \<Rightarrow> time \<Rightarrow> 'r \<Rightarrow> 'r \<Rightarrow> bool" where
  "keeps_used live t r r' \<longleftrightarrow>
     (\<forall>u st. live r t (totpUsedKey u st) \<noteq> None \<longrightarrow>
        (\<forall>t' \<ge> t. live r' t' (totpUsedKey u st) = live r t' (totpUsedKey u st)))"

lemma keeps_used_refl [simp]: "keeps_used live t r r"
  by (simp add: keeps_used_def)

lemma keeps_used_trans: "keeps_used live t r r' \<Longrightarrow> keeps_used live t r' r'' \<Longrightarrow> keeps_used live t r r''"
  by (simp add: keeps_used_def)

lemma used_key_other: "totpUsedKey u st \<noteq> totpChallengeKey h" "totpUsedKey u st \<noteq> blacklistKey j"
  by (simp_all add: totpUsedKey_def totpChallengeKey_def blacklistKey_def)

lemma keeps_used_others:
  "others_kept live t k r r' \<Longrightarrow> (\<And>u st. totpUsedKey u st \<noteq> k) \<Longrightarrow> keeps_used live t r r'"
  by (simp add: others_kept_def keeps_used_def)

lemma verifyTOTPOnce_keeps:
  assumes "redis_laws (as_redis sv) live" and "verifyTOTPOnce sv t u secret code r = (e, r')"
  shows "keeps_used live t r r'"
proof (cases "verifyTOTP secret code t")
  case (Some st)
  obtain res where res: "rd_setnx (as_redis sv) t (totpUsedKey u st) ''1'' (totpPeriod * (totpSkew + 2)) r = (res, r')"
    using assms(2) Some by (auto simp: verifyTOTPOnce_def split: prod.splits sum.splits)
  show ?thesis
    using redis_lawsD(5) [OF assms(1) res] redis_lawsD(6) [OF assms(1) res]
    unfolding keeps_used_def others_kept_def by metis
qed (use assms(2) in \<open>simp add: verifyTOTPOnce_def\<close>)

lemma verifyTOTPOnce_burns:
  assumes laws: "redis_laws (as_redis sv) live" and acc: "accepts sv t u secret code r = Some (u', st)"
    and r': "r' = snd (verifyTOTPOnce sv t u secret code r)"
  shows "u' = u" and "live r t (totpUsedKey u st) = None" and "verifyTOTP secret code t = Some st"
    and "\<forall>t' \<ge> t. t' < t + 3 * totpPeriod \<longrightarrow> live r' t' (totpUsedKey u st) \<noteq> None"
proof -
  have st: "verifyTOTP secret code t = Some st" and u: "u' = u" and none: "fst (verifyTOTPOnce sv t u secret code r) = None"
    using acc by (auto simp: accepts_def split: if_splits)
  have nx: "rd_setnx (as_redis sv) t (totpUsedKey u st) ''1'' (totpPeriod * (totpSkew + 2)) r = (Inr True, r')"
    using none r' st by (auto simp: verifyTOTPOnce_def split: prod.splits sum.splits if_splits)
  show "u' = u" and "verifyTOTP secret code t = Some st" by fact+
  show "live r t (totpUsedKey u st) = None" by (rule redis_lawsD(7) [OF laws nx])
  show "\<forall>t' \<ge> t. t' < t + 3 * totpPeriod \<longrightarrow> live r' t' (totpUsedKey u st) \<noteq> None"
    using redis_lawsD(8) [OF laws nx] by (simp add: written_def totpSkew_def)
qed

lemma au_redis_frames [simp]:
  "au_redis (snd (issueNewSession sv dr now u s)) = au_redis s"
  "au_redis (snd (RotateRefreshToken row now old new ex s)) = au_redis s"
  "au_redis (snd (repo_ConfirmTOTP now u s)) = au_redis s"
  "au_redis (snd (CreatePasswordResetToken row u h ex s)) = au_redis s"
  "au_redis (snd (CreateTOTPEnrollment now u sec s)) = au_redis s"
  "au_redis (snd (RevokeFamilyByTokenHash h s)) = au_redis s"
  "au_redis (snd (repo_ResetPassword now h h' s)) = au_redis s"
  by (auto simp: issueNewSession_def CreateRefreshFamily_def insert_refresh_def RotateRefreshToken_def repo_ConfirmTOTP_def
      CreatePasswordResetToken_def CreateTOTPEnrollment_def RevokeFamilyByTokenHash_def repo_ResetPassword_def Let_def
      split: sum.splits prod.splits option.splits if_splits)

text \<open>What a request leaves in Redis.\<close>

lemma Login_redis:
  assumes "redis_laws (as_redis sv) live"
  shows "keeps_used live now (au_redis s) (au_redis (snd (Login sv dr now email pw s)))"
proof -
  have "keeps_used live now (au_redis s) r" if "rd_set (as_redis sv) now (totpChallengeKey h) v ttl (au_redis s) = (e, r)" for e r h v ttl
    using redis_lawsD(3) [OF assms that] by (rule keeps_used_others) (rule used_key_other)
  moreover have "au_redis s1 = au_redis s" if "issueNewSession sv dr now u s = (r, s1)" for u r s1
    using au_redis_frames(1) [of sv dr now u s] that by simp
  ultimately show ?thesis
    by (auto simp: Login_def newRefreshToken_def Let_def split: sum.splits prod.splits option.splits bool.splits)
qed

lemma CompleteTOTPLogin_redis:
  "au_redis (snd (CompleteTOTPLogin sv dr now ch code s)) =
     (case rd_get (as_redis sv) now (totpChallengeKey (hashToken ch)) (au_redis s) of
        Inr (Some uid) \<Rightarrow>
          (case GetTOTP s uid of
             Inr (secret, True) \<Rightarrow>
               (let (e, r) = verifyTOTPOnce sv now uid secret code (au_redis s)
                in if e = None then rd_del (as_redis sv) now (totpChallengeKey (hashToken ch)) r else r)
           | _ \<Rightarrow> au_redis s)
      | _ \<Rightarrow> au_redis s)"
proof -
  have "au_redis s1 = r" if "issueNewSession sv dr now u (s\<lparr>au_redis := r\<rparr>) = (x, s1)" for u r x s1
    using au_redis_frames(1) [of sv dr now u "s\<lparr>au_redis := r\<rparr>"] that by simp
  then show ?thesis
    by (auto simp: CompleteTOTPLogin_def Let_def split: sum.splits prod.splits option.splits bool.splits)
qed

lemma ConfirmTOTP_redis:
  "au_redis (snd (ConfirmTOTP sv now uid code s)) =
     (case GetTOTP s uid of Inr (secret, False) \<Rightarrow> snd (verifyTOTPOnce sv now uid secret code (au_redis s)) | _ \<Rightarrow> au_redis s)"
proof -
  have "au_redis s1 = r" if "repo_ConfirmTOTP now uid (s\<lparr>au_redis := r\<rparr>) = (x, s1)" for r x s1
    using au_redis_frames(3) [of now uid "s\<lparr>au_redis := r\<rparr>"] that by simp
  then show ?thesis
    by (auto simp: ConfirmTOTP_def split: sum.splits prod.splits option.splits bool.splits)
qed

lemma DisableTOTP_redis:
  "au_redis (snd (DisableTOTP sv now uid code s)) =
     (case GetTOTP s uid of Inr (secret, True) \<Rightarrow> snd (verifyTOTPOnce sv now uid secret code (au_redis s)) | _ \<Rightarrow> au_redis s)"
  by (auto simp: DisableTOTP_def DeleteTOTP_def Let_def split: sum.splits prod.splits option.splits bool.splits)

lemma Logout_redis:
  assumes "redis_laws (as_redis sv) live"
  shows "keeps_used live now (au_redis s) (au_redis (snd (Logout sv now rt at s)))"
proof -
  have set: "keeps_used live now (au_redis s) (snd (rd_set (as_redis sv) now (blacklistKey j) v ttl (au_redis s)))" for j v ttl
    using redis_lawsD(3) [OF assms prod.collapse [symmetric]] by (rule keeps_used_others) (rule used_key_other)
  have rev: "au_redis s1 = au_redis s" if "RevokeFamilyByTokenHash h s = (r, s1)" for h r s1
    using au_redis_frames(6) [of h s] that by simp
  show ?thesis
    using set by (auto simp: Logout_def Let_def split: sum.splits prod.splits if_splits dest!: rev)
qed

lemma auth_exec_redis:
  assumes laws: "redis_laws (as_redis sv) live"
  shows "keeps_used live (request_time q) (au_redis s) (au_redis (auth_exec sv q s))"
proof -
  have once: "keeps_used live now r (snd (verifyTOTPOnce sv now uid secret code r))" for now uid secret code r
    using verifyTOTPOnce_keeps [OF laws prod.collapse [symmetric]] .
  have del: "keeps_used live now r (rd_del (as_redis sv) now (totpChallengeKey h) r)" for now h r
    using redis_lawsD(9) [OF laws] by (rule keeps_used_others) (rule used_key_other)
  show ?thesis
  proof (cases q)
    case (RLogin dr now email pw)
    then show ?thesis using Login_redis [OF laws] by simp
  next
    case (RLogout now rt at)
    then show ?thesis using Logout_redis [OF laws] by simp
  next
    case (RTOTPLogin dr now ch code)
    have "keeps_used live now (au_redis s) r \<and> keeps_used live now (au_redis s) (rd_del (as_redis sv) now (totpChallengeKey h) r)"
      if "verifyTOTPOnce sv now uid secret code (au_redis s) = (e, r)" for uid secret e r h
      using verifyTOTPOnce_keeps [OF laws that] keeps_used_trans [OF _ del] by blast
    then show ?thesis
      by (auto simp: RTOTPLogin CompleteTOTPLogin_redis split: sum.splits option.splits prod.splits bool.splits)
  next
    case (RConfirm now uid code)
    then show ?thesis using once by (simp add: ConfirmTOTP_redis split: sum.splits prod.splits bool.splits)
  next
    case (RDisable now uid code)
    then show ?thesis using once by (simp add: DisableTOTP_redis split: sum.splits prod.splits bool.splits)
  next
    case (RRefresh dr now tok)
    have "au_redis s1 = au_redis s" if "RotateRefreshToken (dr_row dr) now h h' ex s = (r, s1)" for h h' ex r s1
      using au_redis_frames(2) [of "dr_row dr" now h h' ex s] that by simp
    then show ?thesis
      by (auto simp: RRefresh Refresh_def newRefreshToken_def Let_def split: sum.splits prod.splits)
  qed (auto simp: Register_def ForgotPassword_def ResetPassword_def SetupTOTP_def Let_def
      CreatePasswordResetToken_def repo_ResetPassword_def CreateTOTPEnrollment_def
      split: sum.splits prod.splits option.splits if_splits)
qed

lemma burnt_exec:
  assumes laws: "redis_laws (as_redis sv) live" and b: "burnt sv q s = Some (u, st)" and t: "0 \<le> request_time q"
  shows "live (au_redis s) (request_time q) (totpUsedKey u st) = None"
    and "request_time q < (st + 2) * totpPeriod"
    and "\<And>t'. request_time q \<le> t' \<Longrightarrow> t' < (st + 2) * totpPeriod \<Longrightarrow>
      live (au_redis (auth_exec sv q s)) t' (totpUsedKey u st) \<noteq> None"
proof -
  obtain secret code where acc: "accepts sv (request_time q) u secret code (au_redis s) = Some (u, st)"
    and del: "\<exists>h. au_redis (auth_exec sv q s) \<in> {snd (verifyTOTPOnce sv (request_time q) u secret code (au_redis s)),
      rd_del (as_redis sv) (request_time q) (totpChallengeKey h) (snd (verifyTOTPOnce sv (request_time q) u secret code (au_redis s)))}"
  proof (cases q)
    case (RTOTPLogin dr now ch code)
    then obtain uid secret where a: "rd_get (as_redis sv) now (totpChallengeKey (hashToken ch)) (au_redis s) = Inr (Some uid)"
      "GetTOTP s uid = Inr (secret, True)" "accepts sv now uid secret code (au_redis s) = Some (u, st)"
      using b by (auto split: sum.splits option.splits prod.splits bool.splits)
    then have u: "uid = u" and none: "fst (verifyTOTPOnce sv now u secret code (au_redis s)) = None"
      by (auto simp: accepts_def split: if_splits)
    have "au_redis (auth_exec sv q s) = rd_del (as_redis sv) now (totpChallengeKey (hashToken ch))
        (snd (verifyTOTPOnce sv now u secret code (au_redis s)))"
      using a(1,2) none by (simp add: RTOTPLogin CompleteTOTPLogin_redis u case_prod_beta)
    then show thesis using that [of secret code] a(3) RTOTPLogin u by auto
  next
    case (RConfirm now uid code)
    then obtain secret where a: "GetTOTP s uid = Inr (secret, False)" "accepts sv now uid secret code (au_redis s) = Some (u, st)"
      using b by (auto split: sum.splits option.splits prod.splits bool.splits)
    then have "uid = u" by (auto simp: accepts_def split: if_splits)
    then show thesis using that [of secret code] a RConfirm by (simp add: ConfirmTOTP_redis)
  next
    case (RDisable now uid code)
    then obtain secret where a: "GetTOTP s uid = Inr (secret, True)" "accepts sv now uid secret code (au_redis s) = Some (u, st)"
      using b by (auto split: sum.splits option.splits prod.splits bool.splits)
    then have "uid = u" by (auto simp: accepts_def split: if_splits)
    then show thesis using that [of secret code] a RDisable by (simp add: DisableTOTP_redis)
  qed (use b in auto)
  let ?r = "snd (verifyTOTPOnce sv (request_time q) u secret code (au_redis s))"
  note burns = verifyTOTPOnce_burns [OF laws acc refl]
  note win = verifyTOTP_window [OF burns(3) t]
  show "live (au_redis s) (request_time q) (totpUsedKey u st) = None" by (rule burns(2))
  show "request_time q < (st + 2) * totpPeriod" by (rule win(2))
  fix t' assume t': "request_time q \<le> t'" "t' < (st + 2) * totpPeriod"
  then have "t' < request_time q + 3 * totpPeriod" using win(1) by (simp add: algebra_simps)
  then have "live ?r t' (totpUsedKey u st) \<noteq> None" using burns(4) t'(1) by blast
  moreover have "live (rd_del (as_redis sv) (request_time q) (totpChallengeKey h) ?r) t' (totpUsedKey u st) =
      live ?r t' (totpUsedKey u st)" for h
    using redis_lawsD(9) [OF laws, of "request_time q" "totpChallengeKey h" ?r] t'(1) used_key_other(1)
    unfolding others_kept_def by blast
  ultimately show "live (au_redis (auth_exec sv q s)) t' (totpUsedKey u st) \<noteq> None" using del by auto
qed

lemma held_not_accepted:
  assumes laws: "redis_laws (as_redis sv) live"
    and "sorted (map request_time reqs)" and "\<forall>q \<in> set reqs. 0 \<le> request_time q \<and> start \<le> request_time q"
    and "\<And>t'. start \<le> t' \<Longrightarrow> t' < (st + 2) * totpPeriod \<Longrightarrow> live (au_redis s) t' (totpUsedKey u st) \<noteq> None"
  shows "(u, st) \<notin> set (accepted sv reqs s)"
  using assms(2-)
proof (induction reqs arbitrary: s start)
  case (Cons q reqs)
  let ?t = "request_time q"
  have t: "0 \<le> ?t" "start \<le> ?t" using Cons.prems(2) by auto
  have "burnt sv q s \<noteq> Some (u, st)"
    using burnt_exec(1,2) [OF laws _ t(1), of s u st] Cons.prems(3) [OF t(2)] by auto
  moreover have "(u, st) \<notin> set (accepted sv reqs (auth_exec sv q s))"
  proof (rule Cons.IH [of ?t])
    fix t' assume t': "?t \<le> t'" "t' < (st + 2) * totpPeriod"
    then have "live (au_redis s) ?t (totpUsedKey u st) \<noteq> None" using Cons.prems(3) [of ?t] t(2) by simp
    then have "live (au_redis (auth_exec sv q s)) t' (totpUsedKey u st) = live (au_redis s) t' (totpUsedKey u st)"
      using auth_exec_redis [OF laws, of q s] t'(1) unfolding keeps_used_def by blast
    then show "live (au_redis (auth_exec sv q s)) t' (totpUsedKey u st) \<noteq> None"
      using Cons.prems(3) [of t'] t(2) t' by simp
  qed (use Cons.prems in auto)
  ultimately show ?case by (auto split: option.splits)
qed simp


section \<open>Logging in and out\<close>

lemma issueNewSession_ok:
  assumes "issueNewSession sv dr now u s = (Inr pair, s1)"
  shows "\<exists>k \<in> set (refresh_tokens s1). rf_hash k = hashToken (tp_refresh pair) \<and> rf_user k = u \<and> rf_used k = None"
  using assms
  by (auto simp: issueNewSession_def CreateRefreshFamily_def insert_refresh_def newRefreshToken_def Let_def
      split: sum.splits prod.splits if_splits)


lemma verify_claims:
  assumes "jwt_laws jw" and "verify jw ti now tok = Inr (sub, jti, ex)"
  shows "now < ex" and "verify jw ti now' tok = Inr r \<Longrightarrow> r = (sub, jti, ex) \<and> now' < ex"
proof -
  have from_parse: "\<exists>k c. jw_parse jw tok k t = Some c \<and> jc_exp c = Some (snd (snd r)) \<and> jc_sub c = fst r \<and> jc_id c = fst (snd r)"
    if "verify jw ti t tok = Inr r" for t r
    using that by (fastforce simp: verify_def verifyWithKey_def split: sum.splits option.splits if_splits)
  show "now < ex" using from_parse [OF assms(2)] jwt_lawsD(2) [OF assms(1)] by auto
  assume v: "verify jw ti now' tok = Inr r"
  show "r = (sub, jti, ex) \<and> now' < ex"
    using from_parse [OF assms(2)] from_parse [OF v] jwt_lawsD(2,3) [OF assms(1)] by (metis fst_conv option.inject prod.collapse snd_conv)
qed

text \<open>C29: a logout ends the session. When a valid access token and a refresh token are presented and
  the blacklist entry is written, the access token is refused at every later time, by the entry up to
  the token's expiry and by the expiry after that, under either signing secret; and the refresh
  token's whole family is deleted, and only that, so that each of its tokens is refused.\<close>

theorem logout_ends_session:
  assumes laws: "redis_laws (as_redis sv) live" and jwt: "jwt_laws (as_jwt sv)"
    and access: "at \<noteq> ''''" "verify (as_jwt sv) (as_issuer sv) now at = Inr (sub, jti, ex)"
    and refresh: "rt \<noteq> ''''" "t \<in> set (refresh_tokens s)" "rf_hash t = hashToken rt" "auth_ok s"
    and stored: "fst (rd_set (as_redis sv) now (blacklistKey jti) ''1'' (ex - now) (au_redis s)) = None"
  shows "case Logout sv now rt at s of (r, s1) \<Rightarrow>
     r = Inr () \<and>
     (\<forall>now' \<ge> now. \<exists>e. VerifyAccessToken sv now' s1 at = Inl e) \<and>
     refresh_tokens s1 = filter (\<lambda>k. rf_family k \<noteq> rf_family t) (refresh_tokens s) \<and>
     (\<forall>k \<in> set (refresh_tokens s). \<forall>tok dr now'. rf_family k = rf_family t \<longrightarrow> rf_hash k = hashToken tok \<longrightarrow>
        fst (Refresh sv dr now' tok s1) = Inl (Auth ErrInvalidRefresh))"
proof -
  have keys: "distinct (map rf_hash (refresh_tokens s))" using refresh(4) by (simp add: auth_ok_def)
  have find: "List.find (\<lambda>k. rf_hash k = hashToken rt) (refresh_tokens s) = Some t"
    using find_key [OF keys refresh(2)] refresh(3) by simp
  have ex: "now < ex" by (rule verify_claims(1) [OF jwt access(2)])
  let ?r = "snd (rd_set (as_redis sv) now (blacklistKey jti) ''1'' (ex - now) (au_redis s))"
  obtain s1 where run: "Logout sv now rt at s = (Inr (), s1)" and redis: "au_redis s1 = ?r"
    and rows: "refresh_tokens s1 = filter (\<lambda>k. rf_family k \<noteq> rf_family t) (refresh_tokens s)"
    using find access refresh(1) ex
    by (simp add: Logout_def RevokeFamilyByTokenHash_def Let_def delete_where_def)
  have "\<exists>e. VerifyAccessToken sv now' s1 at = Inl e" if "now \<le> now'" for now'
  proof (cases "verify (as_jwt sv) (as_issuer sv) now' at")
    case (Inr r)
    then have r: "r = (sub, jti, ex)" "now' < ex" using verify_claims(2) [OF jwt access(2)] by blast+
    have "written live now (blacklistKey jti) ''1'' (ex - now) ?r"
      using stored by (intro redis_lawsD(4) [OF laws, where r = "au_redis s"]) (simp add: prod_eq_iff)
    then have "live (au_redis s1) now' (blacklistKey jti) \<noteq> None"
      using that r(2) by (simp add: redis written_def)
    then show ?thesis
      using Inr r(1) redis_lawsD(2) [OF laws, of now' "blacklistKey jti" "au_redis s1"]
      by (auto simp: VerifyAccessToken_def split: sum.splits)
  qed (simp add: VerifyAccessToken_def)
  moreover have "fst (Refresh sv dr now' tok s1) = Inl (Auth ErrInvalidRefresh)"
    if "k \<in> set (refresh_tokens s)" "rf_family k = rf_family t" "rf_hash k = hashToken tok" for k tok dr now'
  proof (rule spent_Refresh)
    have "rf_hash x \<noteq> hashToken tok" if "x \<in> set (refresh_tokens s1)" for x
      using that \<open>k \<in> _\<close> \<open>rf_family k = _\<close> \<open>rf_hash k = _\<close> key_unique [OF keys, of x k] by (auto simp: rows)
    then show "spent (hashToken tok) s1" by (auto simp: spent_def)
  qed simp
  ultimately show ?thesis using run rows by auto
qed

section \<open>Concrete runs\<close>

definition sample_code :: string where
  "sample_code = totpCode [] 1"

lemma sample_verify: "\<exists>st. verifyTOTP [] sample_code (30 * second) = Some st \<and> verifyTOTP [] sample_code (30 * second + 1) = Some st"
proof -
  have "b32_decode [] = Some []" using b32_roundtrip [of "[]"] by simp
  moreover have "totp_loop [] sample_code 1 [- totpSkew .. totpSkew] \<noteq> None"
    by (simp add: totp_loop_None sample_code_def totpSkew_def) (rule bexI [of _ 0], simp_all)
  ultimately show ?thesis by (auto simp: verifyTOTP_def unix_def second_def go_div_def)
qed


definition sample_totp_state :: "(string \<times> string \<times> time) list auth_state" where
  "sample_totp_state = sample_auth_state
     \<lparr>user_totp := [\<lparr>tt_user = ''u1'', tt_secret = [], tt_confirmed = Some 0, tt_created = 0\<rparr>],
      refresh_tokens := [], au_redis := [(totpChallengeKey (hashToken ''abc''), ''u1'', 40 * second)]\<rparr>"


theorem logout_ends_session_witness:
  "let at = sample_token ''key'' ''u1'' ''j1'' 60 0; s1 = snd (Logout sample_auth 5 ''abc'' at sample_auth_state)
   in VerifyAccessToken sample_auth 4 sample_auth_state at = Inr ''u1'' \<and> (\<exists>e. VerifyAccessToken sample_auth 30 s1 at = Inl e) \<and>
      refresh_tokens s1 = []"
proof -
  let ?at = "sample_token ''key'' ''u1'' ''j1'' 60 0"
  have v: "verify (as_jwt sample_auth) (as_issuer sample_auth) t ?at = Inr (''u1'', ''j1'', 60)" if "t < 60" for t
    using that by (simp add: verify_def verifyWithKey_def sample_jwt_def read_sample_token)
  have v5: "verify (as_jwt sample_auth) (as_issuer sample_auth) 5 ?at = Inr (''u1'', ''j1'', 60)" by (rule v) simp
  let ?t = "hd (refresh_tokens sample_auth_state)"
  have t: "?t \<in> set (refresh_tokens sample_auth_state)" "rf_hash ?t = hashToken ''abc''"
    by (simp_all add: sample_auth_state_def)
  have ne: "?at \<noteq> ''''" by (simp add: sample_token_def put_field_def)
  have laws: "redis_laws (as_redis sample_auth) sample_live" "jwt_laws (as_jwt sample_auth)"
    using sample_redis_laws sample_jwt_laws by simp_all
  have "fst (rd_set (as_redis sample_auth) 5 (blacklistKey ''j1'') ''1'' (60 - 5) (au_redis sample_auth_state)) = None"
    by (simp add: sample_redis_def)
  note out = logout_ends_session [OF laws ne v5 _ t sample_auth_ok this]
  have "VerifyAccessToken sample_auth 4 sample_auth_state ?at = Inr ''u1''"
    using v [of 4] by (simp add: VerifyAccessToken_def sample_redis_def sample_live_def sample_auth_state_def)
  then show ?thesis using out by (auto simp: Let_def sample_auth_state_def split: prod.splits)
qed

section \<open>Where the code departs from its comments\<close>

text \<open>A password reset \<^verbatim>\<open>revokes every existing session\<close>, but access tokens already issued stay valid
  until they expire: nothing is blacklisted.\<close>

lemma reset_keeps_access_tokens:
  assumes "ResetPassword sv now tok pw s = (r, s1)"
  shows "VerifyAccessToken sv now' s1 at = VerifyAccessToken sv now' s at"
proof -
  have redis: "au_redis s1 = au_redis s"
    using assms by (auto simp: ResetPassword_def repo_ResetPassword_def split: sum.splits prod.splits option.splits if_splits)
  show ?thesis unfolding VerifyAccessToken_def redis ..
qed

text \<open>The \<^verbatim>\<open>forgot password\<close> route is meant to answer 202 for known and unknown addresses alike; when
  the mailer fails it answers 500 for known ones only.\<close>

lemma forgot_password_distinguishes:
  assumes "as_mailer sv = Some (\<lambda>_ _ _. Some IOError)" and "CHR ''@'' \<in> set (normal_email email)"
  shows "GetUserByEmail (au_db s) (normal_email email) = Inl (Auth ErrUserNotFound) \<Longrightarrow>
      fst (auth_handler_ForgotPassword sv dr now (Some email) s) = Accepted"
    and "GetUserByEmail (au_db s) (normal_email email) = Inr u \<Longrightarrow>
      fst (auth_handler_ForgotPassword sv dr now (Some email) s) = WriteError http_ErrInternal ''could not send reset email''"
  using assms
  by (auto simp: auth_handler_ForgotPassword_def ForgotPassword_def newRefreshToken_def Let_def split: prod.splits sum.splits)

text \<open>A password that bcrypt refuses (longer than 72 bytes) passes the handler's check and is answered
  with 500.\<close>

lemma refused_password_internal:
  assumes "as_hashPassword sv (rg_password req) = Inl IOError" and "CHR ''@'' \<in> set (normal_email (rg_email req))"
    and "8 \<le> length (rg_password req)" and "length (TrimSpace (rg_orgName req)) \<le> 200"
  shows "fst (auth_handler_Register sv uuid g now (Some req) s) = WriteError http_ErrInternal ''registration failed''"
  using assms by (simp add: auth_handler_Register_def Register_def Let_def)

end
