(* ===== verification/Search.thy ===== *)
theory Search
  imports Paging Go_Strings Http "HOL-Library.List_Lexorder" "HOL-Library.Product_Lexorder"
begin

text \<open>
  File search, \<^verbatim>\<open>internal/search\<close>: the filtered query over the live files of an organization joined
  with their latest versions, keyset pagination on \<open>(created_at, id)\<close>, and the handler with its
  parameter checks. Full-text matching of a name (\<^verbatim>\<open>name_tsv @@ plainto_tsquery\<close>) and the
  RFC 3339 text of an instant are arguments. UUIDs compare as their lower-case text.
\<close>

section \<open>Filters and results\<close>

record Filters =
  sf_Query :: string
  sf_Type :: string
  sf_OwnerID :: id
  sf_DateFrom :: "time option"
  sf_DateTo :: "time option"
  sf_SizeMin :: "int option"
  sf_SizeMax :: "int option"
  sf_Cursor :: string
  sf_Limit :: int

record Result =
  r_id :: id
  r_name :: string
  r_folder :: id
  r_owner :: id
  r_created :: time
  r_size :: "int option"
  r_mime :: "string option"

text \<open>How instants are written into and read from text.\<close>

record clock_text =
  Format :: "time \<Rightarrow> string"
  Parse :: "string \<Rightarrow> time option"

section \<open>The repository\<close>

text \<open>\<^verbatim>\<open>ILIKE\<close> with its wildcards and escape, case folded on ASCII. A pattern that ends in the
  escape character is an error of its own; the pattern here always ends in a per cent sign.\<close>

fun ilike :: "string \<Rightarrow> string \<Rightarrow> bool" where
  "ilike [] s \<longleftrightarrow> s = []"
| "ilike (p # ps) [] \<longleftrightarrow> p = CHR ''%'' \<and> ilike ps []"
| "ilike (p # ps) (c # cs) \<longleftrightarrow>
     (if p = CHR ''%'' then ilike ps (c # cs) \<or> ilike (p # ps) cs
      else if p = CHR ''_'' then ilike ps cs
      else if p = CHR 0x5C then
        (case ps of [] \<Rightarrow> False | q # qs \<Rightarrow> lower_char q = lower_char c \<and> ilike qs cs)
      else lower_char p = lower_char c \<and> ilike ps cs)"

definition search_encodeCursor :: "clock_text \<Rightarrow> time \<Rightarrow> id \<Rightarrow> string" where
  "search_encodeCursor k t fileID = EncodeToString (Format k t @ CHR ''|'' # fileID)"

definition search_decodeCursor :: "clock_text \<Rightarrow> string \<Rightarrow> (time \<times> id) res" where
  "search_decodeCursor k cursor =
     (case DecodeString cursor of
        None \<Rightarrow> Inl ErrInvalidCursor
      | Some b \<Rightarrow>
          (case SplitN2 (CHR ''|'') b of
             [p, q] \<Rightarrow> (case Parse k p of None \<Rightarrow> Inl ErrInvalidCursor | Some t \<Rightarrow> Inr (t, q))
           | _ \<Rightarrow> Inl ErrInvalidCursor))"

definition nullableUUID :: "id \<Rightarrow> id option" where
  "nullableUUID i = (if i = [] then None else Some i)"

text \<open>The row comparison \<open>(created_at, id) < ($9, $10)\<close>; against a \<^verbatim>\<open>NULL\<close> id only the time
  can decide.\<close>

definition uuid_key :: "id \<Rightarrow> nat list" where
  "uuid_key i = map of_char i"

definition row_before :: "Result \<Rightarrow> time \<Rightarrow> id option \<Rightarrow> bool" where
  "row_before r t i \<longleftrightarrow> r_created r < t \<or>
     (r_created r = t \<and> (case i of None \<Rightarrow> False | Some x \<Rightarrow> uuid_key (r_id r) < uuid_key x))"

text \<open>The left join with the latest version.\<close>

definition joined :: "db \<Rightarrow> File \<Rightarrow> Result" where
  "joined d f =
     (let fv = Option.bind (f_latest f) (\<lambda>i. List.find (\<lambda>v. v_id v = i) (file_versions d))
      in \<lparr>r_id = f_id f, r_name = f_name f, r_folder = f_folder f, r_owner = f_created_by f,
          r_created = f_created f, r_size = map_option v_size fv, r_mime = map_option v_mime fv\<rparr>)"

text \<open>The \<^verbatim>\<open>WHERE\<close> clause on a joined row, apart from the organization, the trash and the cursor.
  A comparison with a \<^verbatim>\<open>NULL\<close> column does not hold.\<close>

definition filters_match :: "(string \<Rightarrow> string \<Rightarrow> bool) \<Rightarrow> Filters \<Rightarrow> Result \<Rightarrow> bool" where
  "filters_match name_matches f r \<longleftrightarrow>
     (sf_Query f = [] \<or> name_matches (r_name r) (sf_Query f)) \<and>
     (sf_Type f = [] \<or> (case r_mime r of None \<Rightarrow> False | Some m \<Rightarrow> ilike (sf_Type f @ ''%'') m)) \<and>
     (sf_OwnerID f = [] \<or> r_owner r = sf_OwnerID f) \<and>
     (case sf_DateFrom f of None \<Rightarrow> True | Some t \<Rightarrow> t \<le> r_created r) \<and>
     (case sf_DateTo f of None \<Rightarrow> True | Some t \<Rightarrow> r_created r \<le> t) \<and>
     (case sf_SizeMin f of None \<Rightarrow> True | Some n \<Rightarrow> (case r_size r of None \<Rightarrow> False | Some s \<Rightarrow> n \<le> s)) \<and>
     (case sf_SizeMax f of None \<Rightarrow> True | Some n \<Rightarrow> (case r_size r of None \<Rightarrow> False | Some s \<Rightarrow> s \<le> n))"

definition search_rows :: "(string \<Rightarrow> string \<Rightarrow> bool) \<Rightarrow> db \<Rightarrow> id \<Rightarrow> Filters \<Rightarrow> Result list" where
  "search_rows name_matches d orgID f = filter (filters_match name_matches f)
     (map (joined d) (filter (\<lambda>g. f_org g = orgID \<and> f_deleted g = None) (files d)))"

definition newest_first :: "Result list \<Rightarrow> Result list" where
  "newest_first rs = rev (sort_key (\<lambda>r. (r_created r, uuid_key (r_id r))) rs)"

definition search_repo_Search ::
  "(string \<Rightarrow> string \<Rightarrow> bool) \<Rightarrow> clock_text \<Rightarrow> db \<Rightarrow> id \<Rightarrow> Filters \<Rightarrow> (Result list \<times> string) res" where
  "search_repo_Search name_matches k d orgID f =
     (case (if sf_Cursor f \<noteq> [] then map_sum id Some (search_decodeCursor k (sf_Cursor f)) else Inr None) of
        Inl e \<Rightarrow> Inl e
      | Inr cur \<Rightarrow>
          (let out = take (nat (sf_Limit f)) (newest_first (filter
                 (\<lambda>r. case cur of None \<Rightarrow> True | Some (t, i) \<Rightarrow> row_before r t (nullableUUID i))
                 (search_rows name_matches d orgID f)))
           in Inr (out, if int (length out) = sf_Limit f
                then search_encodeCursor k (r_created (last out)) (r_id (last out)) else [])))"

section \<open>The service and the handler\<close>

definition search_Search ::
  "(string \<Rightarrow> string \<Rightarrow> bool) \<Rightarrow> clock_text \<Rightarrow> db \<Rightarrow> id \<Rightarrow> Filters \<Rightarrow> (Result list \<times> string) res" where
  "search_Search name_matches k d orgID f =
     search_repo_Search name_matches k d orgID (f\<lparr>sf_Limit := page_limit (sf_Limit f)\<rparr>)"

definition parseOptionalTime :: "clock_text \<Rightarrow> string \<Rightarrow> time option option" where
  "parseOptionalTime k v = (if v = [] then Some None else map_option Some (Parse k v))"

definition parseOptionalInt64 :: "string \<Rightarrow> int option option" where
  "parseOptionalInt64 v =
     (if v = [] then Some None else case ParseInt v of ParseOk n \<Rightarrow> Some (Some n) | _ \<Rightarrow> None)"

record search_query =
  q_q :: string
  q_type :: string
  q_owner :: string
  q_cursor :: string
  q_limit :: string
  q_date_from :: string
  q_date_to :: string
  q_size_min :: string
  q_size_max :: string

definition search_handler_Search ::
  "(string \<Rightarrow> string \<Rightarrow> bool) \<Rightarrow> clock_text \<Rightarrow> db \<Rightarrow> id \<Rightarrow> search_query \<Rightarrow> (Result list \<times> string) response" where
  "search_handler_Search name_matches k d orgID q =
     (let limit = (if q_limit q = [] then 0 else Atoi (q_limit q)) in
      case parseOptionalTime k (q_date_from q) of
        None \<Rightarrow> WriteError http_ErrInvalid ''date_from must be RFC3339''
      | Some from_date \<Rightarrow>
      (case parseOptionalTime k (q_date_to q) of
        None \<Rightarrow> WriteError http_ErrInvalid ''date_to must be RFC3339''
      | Some to_date \<Rightarrow>
      (case parseOptionalInt64 (q_size_min q) of
        None \<Rightarrow> WriteError http_ErrInvalid ''size_min must be an integer''
      | Some smin \<Rightarrow>
      (case parseOptionalInt64 (q_size_max q) of
        None \<Rightarrow> WriteError http_ErrInvalid ''size_max must be an integer''
      | Some smax \<Rightarrow>
      (case search_Search name_matches k d orgID
              \<lparr>sf_Query = q_q q, sf_Type = q_type q, sf_OwnerID = q_owner q, sf_DateFrom = from_date,
               sf_DateTo = to_date, sf_SizeMin = smin, sf_SizeMax = smax, sf_Cursor = q_cursor q,
               sf_Limit = limit\<rparr> of
        Inl _ \<Rightarrow> WriteError http_ErrInternal ''search failed''
      | Inr (results, next) \<Rightarrow> WriteJSON 200 (results, next))))))"

section \<open>Paging through the results\<close>

definition result_key :: "Result \<Rightarrow> time \<times> nat list" where
  "result_key r = (r_created r, uuid_key (r_id r))"

abbreviation later :: "Result \<Rightarrow> Result \<Rightarrow> bool" where
  "later r r' \<equiv> result_key r' < result_key r"

lemma uuid_key_inj: "uuid_key i = uuid_key j \<longleftrightarrow> i = j"
  by (simp add: uuid_key_def inj_map_eq_map inj_on_def)

lemma row_before_key: "i \<noteq> [] \<Longrightarrow> row_before r t (nullableUUID i) \<longleftrightarrow> result_key r < (t, uuid_key i)"
  by (auto simp: row_before_def nullableUUID_def result_key_def less_prod_def)

lemma set_newest_first [simp]: "set (newest_first rs) = set rs"
  by (simp add: newest_first_def)

lemma length_newest_first [simp]: "length (newest_first rs) = length rs"
  by (simp add: newest_first_def)

lemma filter_newest_first: "filter P (newest_first rs) = newest_first (filter P rs)"
  by (simp add: newest_first_def filter_sort flip: rev_filter)

lemma sorted_newest_first:
  assumes "distinct (map r_id rs)"
  shows "sorted_wrt later (newest_first rs)"
proof -
  have "distinct (map result_key rs)"
    using assms by (auto simp: distinct_map inj_on_def result_key_def uuid_key_inj)
  then have "sorted_wrt (<) (map result_key (sort_key result_key rs))"
    by (simp add: strict_sorted_iff distinct_map)
  then show ?thesis
    by (simp add: newest_first_def sorted_wrt_rev sorted_wrt_map result_key_def [abs_def])
qed

text \<open>What the listing relies on: the text of an instant reads back as the instant and contains no
  bar, and file ids are unique and not empty.\<close>

definition clock_text_ok :: "clock_text \<Rightarrow> bool" where
  "clock_text_ok k \<longleftrightarrow> (\<forall>t. Parse k (Format k t) = Some t \<and> CHR ''|'' \<notin> set (Format k t))"

definition file_ids_ok :: "db \<Rightarrow> bool" where
  "file_ids_ok d \<longleftrightarrow> distinct (map f_id (files d)) \<and> (\<forall>f \<in> set (files d). f_id f \<noteq> [])"

lemma search_cursor_roundtrip:
  assumes "clock_text_ok k"
  shows "search_decodeCursor k (search_encodeCursor k t i) = Inr (t, i)"
  using assms by (simp add: search_decodeCursor_def search_encodeCursor_def DecodeString_EncodeToString
    SplitN2_join clock_text_ok_def)

lemma search_encodeCursor_nonempty: "search_encodeCursor k t i \<noteq> []"
  unfolding search_encodeCursor_def by (rule EncodeToString_nonempty) simp

definition search_rest :: "(string \<Rightarrow> string \<Rightarrow> bool) \<Rightarrow> clock_text \<Rightarrow> id \<Rightarrow> Filters \<Rightarrow> db \<Rightarrow> string \<Rightarrow> Result list" where
  "search_rest nm k oid f d c = newest_first (filter (\<lambda>r. c = [] \<or>
     (case search_decodeCursor k c of Inl _ \<Rightarrow> True | Inr (t, i) \<Rightarrow> result_key r < (t, uuid_key i))) (search_rows nm d oid f))"

definition search_ok :: "clock_text \<Rightarrow> db \<Rightarrow> string \<Rightarrow> bool" where
  "search_ok k d c \<longleftrightarrow> clock_text_ok k \<and> file_ids_ok d \<and>
     (c = [] \<or> (\<exists>t i. search_decodeCursor k c = Inr (t, i) \<and> i \<noteq> []))"

lemma joined_id [simp]: "r_id (joined d f) = f_id f"
  by (simp add: joined_def Let_def)

lemma search_rows_ids:
  assumes "file_ids_ok d"
  shows "distinct (map r_id (search_rows nm d oid f))"
proof -
  have "distinct (map r_id (map (joined d) (filter (\<lambda>g. f_org g = oid \<and> f_deleted g = None) (files d))))"
    using assms by (auto simp: file_ids_ok_def comp_def intro: distinct_map_filter)
  then show ?thesis unfolding search_rows_def by (rule distinct_map_filter)
qed

lemma sorted_search_rest:
  "file_ids_ok d \<Longrightarrow> sorted_wrt later (search_rest nm k oid f d c)"
  unfolding search_rest_def
  by (rule sorted_newest_first) (rule distinct_map_filter, rule search_rows_ids)

lemma search_rows_cong: "search_rows nm d oid (f\<lparr>sf_Cursor := c, sf_Limit := n\<rparr>) = search_rows nm d oid f"
  unfolding search_rows_def
  by (rule filter_cong) (auto simp: filters_match_def split: option.splits)

lemma search_Search_page:
  assumes "search_ok k d c"
  shows "search_Search nm k d oid (f\<lparr>sf_Cursor := c\<rparr>) =
    (let rs = take (nat (page_limit (sf_Limit f))) (search_rest nm k oid f d c) in
     Inr (rs, if length rs = nat (page_limit (sf_Limit f))
       then search_encodeCursor k (r_created (last rs)) (r_id (last rs)) else []))"
proof -
  have len: "int (length rs) = page_limit (sf_Limit f) \<longleftrightarrow> length rs = nat (page_limit (sf_Limit f))"
    for rs :: "Result list" using page_limit_bounds(1) [of "sf_Limit f"] by auto
  have rows: "search_rows nm d oid (f\<lparr>sf_Cursor := c, sf_Limit := page_limit (sf_Limit f)\<rparr>) = search_rows nm d oid f"
    by (rule search_rows_cong)
  show ?thesis
  proof (cases "c = []")
    case True
    then show ?thesis using rows
      by (simp add: search_Search_def search_repo_Search_def search_rest_def Let_def len)
  next
    case False
    then obtain t i where "search_decodeCursor k c = Inr (t, i)" "i \<noteq> []"
      using assms by (auto simp: search_ok_def)
    with False rows show ?thesis
      by (simp add: search_Search_def search_repo_Search_def search_rest_def Let_def len row_before_key)
  qed
qed

lemma search_resume:
  assumes ok: "search_ok k d c" and pg: "search_Search nm k d oid (f\<lparr>sf_Cursor := c\<rparr>) = Inr (rs, next)"
    and more: "next \<noteq> []"
  shows "search_ok k d next \<and>
    search_rest nm k oid f d next = drop (nat (page_limit (sf_Limit f))) (search_rest nm k oid f d c)"
proof -
  define n where "n = nat (page_limit (sf_Limit f))"
  have n: "0 < n" using page_limit_bounds(1) [of "sf_Limit f"] by (simp add: n_def)
  have rs: "rs = take n (search_rest nm k oid f d c)" and len: "length rs = n"
      and nx: "next = search_encodeCursor k (r_created (last rs)) (r_id (last rs))"
    using pg more unfolding search_Search_page [OF ok] n_def Let_def by (auto split: if_splits)
  have k: "clock_text_ok k" and ids: "file_ids_ok d" using ok by (simp_all add: search_ok_def)
  have dec: "search_decodeCursor k next = Inr (r_created (last rs), r_id (last rs))"
    unfolding nx by (rule search_cursor_roundtrip [OF k])
  have "last rs \<in> set rs" using len n by (intro last_in_set) auto
  then have mem: "last rs \<in> set (search_rest nm k oid f d c)" using rs in_set_takeD by metis
  then have "last rs \<in> set (search_rows nm d oid f)" by (simp add: search_rest_def)
  then have "r_id (last rs) \<noteq> []" using ids by (auto simp: search_rows_def file_ids_ok_def)
  then have ok': "search_ok k d next" using k ids dec by (simp add: search_ok_def)
  have "filter (later (last rs)) (search_rest nm k oid f d c) = drop n (search_rest nm k oid f d c)"
    unfolding rs by (rule keyset_resume) (use sorted_search_rest [OF ids] n len rs in auto)
  moreover have "search_rest nm k oid f d next = filter (later (last rs)) (search_rest nm k oid f d c)"
  proof -
    have "\<forall>t i. search_decodeCursor k c = Inr (t, i) \<longrightarrow> result_key (last rs) < (t, uuid_key i)" if "c \<noteq> []"
      using mem that by (auto simp: search_rest_def)
    then have "(c = [] \<or> (case search_decodeCursor k c of Inl _ \<Rightarrow> True | Inr (t, i) \<Rightarrow> result_key r < (t, uuid_key i)))"
        if "later (last rs) r" for r
      using that by (auto split: sum.splits dest: less_trans)
    then show ?thesis using more
      by (auto simp: search_rest_def filter_newest_first dec result_key_def [of "last rs"]
          intro!: arg_cong [where f = newest_first] filter_cong)
  qed
  ultimately show ?thesis using ok' by (simp add: n_def)
qed


interpretation results: keyset_pages "nat (page_limit (sf_Limit f))"
  "\<lambda>d c. search_Search nm k d oid (f\<lparr>sf_Cursor := c\<rparr>)" "search_rest nm k oid f" "\<lambda>(_ :: unit) d. d" "search_ok k"
  for nm k oid f
proof unfold_locales
  show "0 < nat (page_limit (sf_Limit f))" using page_limit_bounds(1) [of "sf_Limit f"] by simp
next
  fix d c
  assume "search_ok k d c"
  then show "\<exists>next. search_Search nm k d oid (f\<lparr>sf_Cursor := c\<rparr>) =
        Inr (take (nat (page_limit (sf_Limit f))) (search_rest nm k oid f d c), next) \<and>
      (next = [] \<longleftrightarrow> length (search_rest nm k oid f d c) < nat (page_limit (sf_Limit f)))"
    by (auto simp: search_Search_page Let_def search_encodeCursor_nonempty)
next
  fix d c rs "next" and m :: unit
  assume "search_ok k d c" "search_Search nm k d oid (f\<lparr>sf_Cursor := c\<rparr>) = Inr (rs, next)" "next \<noteq> []"
  then show "search_ok k d next \<and>
      search_rest nm k oid f d next = drop (nat (page_limit (sf_Limit f))) (search_rest nm k oid f d c)"
    by (rule search_resume)
qed

text \<open>Following \<^verbatim>\<open>next_cursor\<close> through the results of a search ends after the number of requests
  the page size gives; the pages together hold every live file of the organization that passes the
  filters, exactly once, newest first with ties broken by id.\<close>

theorem search_pages_complete:
  assumes "clock_text_ok k" and "file_ids_ok d"
    and "length (search_rows nm d oid f) div nat (page_limit (sf_Limit f)) < n"
  shows "\<exists>pages. walk (\<lambda>d c. search_Search nm k d oid (f\<lparr>sf_Cursor := c\<rparr>)) (\<lambda>_ d. d) (replicate n ()) d [] = Some pages \<and>
    sorted_wrt later (concat pages) \<and>
    set (concat pages) = {r. filters_match nm f r \<and> (\<exists>g \<in> set (files d). f_org g = oid \<and> f_deleted g = None \<and> r = joined d g)} \<and>
    length pages = length (search_rows nm d oid f) div nat (page_limit (sf_Limit f)) + 1"
proof -
  have rest: "length (search_rest nm k oid f d []) = length (search_rows nm d oid f)"
    "set (search_rest nm k oid f d []) = set (search_rows nm d oid f)"
    by (simp_all add: search_rest_def)
  have rows: "set (search_rows nm d oid f) =
      {r. filters_match nm f r \<and> (\<exists>g \<in> set (files d). f_org g = oid \<and> f_deleted g = None \<and> r = joined d g)}"
    by (auto simp: search_rows_def)
  have "search_ok k d []" using assms by (simp add: search_ok_def)
  from results.walk_pages [OF this, of nm oid f "replicate n ()"] assms(3) rest
  obtain pages where "walk (\<lambda>d c. search_Search nm k d oid (f\<lparr>sf_Cursor := c\<rparr>)) (\<lambda>_ d. d) (replicate n ()) d [] = Some pages"
    "concat pages = search_rest nm k oid f d []"
    "length pages = length (search_rows nm d oid f) div nat (page_limit (sf_Limit f)) + 1" by auto
  then show ?thesis
    using sorted_search_rest [OF assms(2), of nm k oid f "[]"] rest(2) unfolding rows by (intro exI [of _ pages]) simp
qed

text \<open>A concrete clock text, in unary, and two files of one organization.\<close>

definition unary_clock :: clock_text where
  "unary_clock = \<lparr>Format = (\<lambda>t. (if t < 0 then CHR ''-'' else CHR ''+'') # replicate (nat \<bar>t\<bar>) CHR ''1''),
     Parse = (\<lambda>s. case s of [] \<Rightarrow> None | c # r \<Rightarrow> Some (if c = CHR ''-'' then - int (length r) else int (length r)))\<rparr>"

lemma unary_clock_ok: "clock_text_ok unary_clock"
  by (simp add: clock_text_ok_def unary_clock_def)

definition sample_search_db :: db where
  "sample_search_db = empty_db\<lparr>files :=
     [\<lparr>f_id = ''f1'', f_org = ''o1'', f_folder = ''d1'', f_name = ''a'', f_latest = None, f_created_by = ''u1'',
       f_created = 1, f_updated = 1, f_deleted = None\<rparr>,
      \<lparr>f_id = ''f2'', f_org = ''o1'', f_folder = ''d1'', f_name = ''b'', f_latest = None, f_created_by = ''u1'',
       f_created = 1, f_updated = 1, f_deleted = None\<rparr>]\<rparr>"

definition no_filters :: Filters where
  "no_filters = \<lparr>sf_Query = [], sf_Type = [], sf_OwnerID = [], sf_DateFrom = None, sf_DateTo = None,
     sf_SizeMin = None, sf_SizeMax = None, sf_Cursor = [], sf_Limit = 1\<rparr>"

theorem search_pages_complete_witness:
  "\<exists>pages. walk (\<lambda>d c. search_Search (=) unary_clock d ''o1'' (no_filters\<lparr>sf_Cursor := c\<rparr>)) (\<lambda>_ d. d)
      (replicate 3 ()) sample_search_db [] = Some pages \<and> sorted_wrt later (concat pages) \<and>
    set (concat pages) = {r. filters_match (=) no_filters r \<and> (\<exists>g \<in> set (files sample_search_db).
      f_org g = ''o1'' \<and> f_deleted g = None \<and> r = joined sample_search_db g)} \<and> length pages = 3"
proof -
  have ids: "file_ids_ok sample_search_db" by (simp add: file_ids_ok_def sample_search_db_def)
  have "length (search_rows (=) sample_search_db ''o1'' no_filters) div nat (page_limit (sf_Limit no_filters)) = 2"
    by (simp add: search_rows_def sample_search_db_def filters_match_def no_filters_def page_limit_def maxLimit_def)
  then show ?thesis
    using search_pages_complete [OF unary_clock_ok ids, of "(=)" "''o1''" no_filters 3] by (simp del: walk.simps)
qed

text \<open>A search parameter that does not parse is answered with 400, but a cursor with 500.\<close>

lemma search_bad_cursor_internal:
  assumes "c \<noteq> []" and "DecodeString c = None"
  shows "search_handler_Search nm k d oid \<lparr>q_q = [], q_type = [], q_owner = [], q_cursor = c, q_limit = [], q_date_from = [],
    q_date_to = [], q_size_min = [], q_size_max = []\<rparr> = WriteError http_ErrInternal ''search failed''"
  using assms by (simp add: search_handler_Search_def parseOptionalTime_def parseOptionalInt64_def
    search_Search_def search_repo_Search_def search_decodeCursor_def)

end
