(* ===== verification/Live.thy ===== *)
theory Live
  imports Activity Router Go_Strings
begin

text \<open>
  Live updates, \<^verbatim>\<open>internal/live\<close>: notifications and health changes as messages of Redis' publish and
  subscribe, and the event stream a member's browser reads. JSON texts are parameters: a
  notification's payload and the data of a health frame. The theory shows what a stream carries:
  exactly the activity of its own organization and the node transitions, in the order Redis
  delivers them, after a greeting.
\<close>

section \<open>Channels\<close>

definition activityChannelPrefix :: string where
  "activityChannelPrefix = ''nimbus:events:activity:''"

definition HealthChangesChannel :: string where
  "HealthChangesChannel = ''nimbus:health:changes''"

record pubsub_message =
  ms_channel :: string
  ms_payload :: string

text \<open>\<^verbatim>\<open>json.Marshal\<close> of the notification; a failure publishes nothing, and neither does Redis when it
  does not answer.\<close>

definition NotifyActivity :: "(notification \<Rightarrow> string option) \<Rightarrow> bool \<Rightarrow> notification \<Rightarrow> pubsub_message list" where
  "NotifyActivity marshal up n =
     (case marshal n of
        None \<Rightarrow> []
      | Some payload \<Rightarrow> if up then [\<lparr>ms_channel = activityChannelPrefix @ nt_org n, ms_payload = payload\<rparr>] else [])"

text \<open>The message of a health transition, as the router publishes it.\<close>

definition health_message :: "NodeID \<Rightarrow> NodeStatus \<Rightarrow> pubsub_message" where
  "health_message node s = \<lparr>ms_channel = HealthChangesChannel, ms_payload = node @ '':'' @ NodeStatus_String s\<rparr>"

section \<open>The stream\<close>

text \<open>\<^verbatim>\<open>strings.Cut(s, ":")\<close>.\<close>

definition Cut :: "string \<Rightarrow> string \<times> string" where
  "Cut s = (takeWhile (\<lambda>c. c \<noteq> CHR '':'') s, drop 1 (dropWhile (\<lambda>c. c \<noteq> CHR '':'') s))"

definition newline :: string where
  "newline = [char_of (10 :: nat)]"

definition frame :: "string \<Rightarrow> string \<Rightarrow> string" where
  "frame event payload = ''event: '' @ event @ newline @ ''data: '' @ payload @ newline @ newline"

text \<open>The channels a stream subscribes to.\<close>

definition subscribed :: "id \<Rightarrow> string \<Rightarrow> bool" where
  "subscribed orgID ch \<longleftrightarrow> ch = activityChannelPrefix @ orgID \<or> ch = HealthChangesChannel"

definition message_frame :: "(string \<Rightarrow> string \<Rightarrow> string) \<Rightarrow> pubsub_message \<Rightarrow> string" where
  "message_frame healthJSON m =
     (if ms_channel m = HealthChangesChannel
      then let (node, status) = Cut (ms_payload m) in frame ''node_health'' (healthJSON node status)
      else frame ''activity'' (ms_payload m))"

text \<open>What the \<^verbatim>\<open>select\<close> sees next, with whether the flush that follows a write succeeds.\<close>

datatype stream_event = Gone | Tick bool | Received pubsub_message bool | Closed

fun stream_loop :: "(string \<Rightarrow> string \<Rightarrow> string) \<Rightarrow> stream_event list \<Rightarrow> string list" where
  "stream_loop js [] = []"
| "stream_loop js (Gone # es) = []"
| "stream_loop js (Closed # es) = []"
| "stream_loop js (Tick ok # es) = ('': keepalive'' @ newline @ newline) # (if ok then stream_loop js es else [])"
| "stream_loop js (Received m ok # es) = message_frame js m # (if ok then stream_loop js es else [])"

definition Stream :: "(string \<Rightarrow> string \<Rightarrow> string) \<Rightarrow> bool \<Rightarrow> stream_event list \<Rightarrow> string list" where
  "Stream js ok es = frame ''hello'' ''{}'' # (if ok then stream_loop js es else [])"

text \<open>Redis hands a subscriber the messages published on its channels, in order.\<close>

definition delivered :: "id \<Rightarrow> pubsub_message list \<Rightarrow> pubsub_message list" where
  "delivered orgID ms = filter (\<lambda>m. subscribed orgID (ms_channel m)) ms"

section \<open>What a stream carries\<close>

lemma Cut_colon: "CHR '':'' \<notin> set node \<Longrightarrow> Cut (node @ CHR '':'' # status) = (node, status)"
  by (auto simp: Cut_def takeWhile_append dropWhile_append)

lemma activity_channel_inj: "activityChannelPrefix @ a = activityChannelPrefix @ b \<longleftrightarrow> a = b"
  by simp

lemma activity_not_health: "activityChannelPrefix @ a \<noteq> HealthChangesChannel"
  by (simp add: activityChannelPrefix_def HealthChangesChannel_def)

lemma stream_loop_received:
  "stream_loop js (map (\<lambda>m. Received m True) ms) = map (message_frame js) ms"
  by (induction ms) simp_all

lemma delivered_notifications:
  "delivered orgID (concat (map (NotifyActivity marshal True) ns)) =
     [\<lparr>ms_channel = activityChannelPrefix @ orgID, ms_payload = p\<rparr>. n \<leftarrow> ns, nt_org n = orgID, Some p \<leftarrow> [marshal n]]"
  by (induction ns)
    (auto simp: delivered_def NotifyActivity_def subscribed_def activity_not_health split: option.splits)

text \<open>A member sees the activity of the organization of the path and of no other, each
  notification once and in order.\<close>

lemma stream_activity:
  "Stream js True (map (\<lambda>m. Received m True) (delivered orgID (concat (map (NotifyActivity marshal True) ns)))) =
     frame ''hello'' ''{}'' # [frame ''activity'' p. n \<leftarrow> ns, nt_org n = orgID, Some p \<leftarrow> [marshal n]]"
proof -
  have "map (message_frame js) [\<lparr>ms_channel = activityChannelPrefix @ orgID, ms_payload = p\<rparr>. n \<leftarrow> ns, nt_org n = orgID, Some p \<leftarrow> [marshal n]] =
      [frame ''activity'' p. n \<leftarrow> ns, nt_org n = orgID, Some p \<leftarrow> [marshal n]]"
    by (induction ns) (simp_all add: message_frame_def activity_not_health split: option.splits)
  then show ?thesis by (simp add: Stream_def stream_loop_received delivered_notifications)
qed

text \<open>A node transition reaches every stream with the node's id and its new status.\<close>

lemma stream_health:
  assumes "CHR '':'' \<notin> set node"
  shows "delivered orgID [health_message node s] = [health_message node s]"
    and "message_frame js (health_message node s) = frame ''node_health'' (js node (NodeStatus_String s))"
  using assms by (simp_all add: delivered_def health_message_def subscribed_def message_frame_def Cut_colon)

end
