(* ===== verification/Org_Usage.thy ===== *)
theory Org_Usage
  imports Sharing Activity
begin

text \<open>
  The organization usage view, \<^verbatim>\<open>internal/org/usage.go\<close>, with the ports it reads through and the
  adapters of \<^verbatim>\<open>cmd/api/adapters.go\<close> that satisfy them over the file, sharing and activity
  repositories, and the remaining read handlers of \<^verbatim>\<open>internal/org/handler.go\<close>. The ports are the
  locale \<open>usage_ports\<close>: what the view promises is proved from their laws and holds for the wired
  repositories by interpretation.
\<close>

section \<open>Ports\<close>

record StorageStats =
  ss_used :: int
  ss_live :: nat
  ss_trashed :: nat

record MemberActivityStat =
  ms_events :: nat
  ms_last :: "time option"

record UsageSources =
  us_Storage :: "db \<Rightarrow> id \<Rightarrow> StorageStats res"
  us_Shares :: "time \<Rightarrow> db \<Rightarrow> id \<Rightarrow> nat res"
  us_ActorStats :: "activity_db \<Rightarrow> id \<Rightarrow> time \<Rightarrow> (id \<rightharpoonup> MemberActivityStat) res"
  us_VerbCounts :: "activity_db \<Rightarrow> id \<Rightarrow> time \<Rightarrow> (string \<rightharpoonup> nat) res"

definition usageWindow :: duration where
  "usageWindow = 30 * 24 * 3600 * 1000000000"

record UsageMember =
  um_user :: id
  um_email :: string
  um_role :: Role
  um_joined :: time
  um_last :: "time option"
  um_events :: nat

record Usage =
  ug_used :: int
  ug_quota :: int
  ug_live :: nat
  ug_trashed :: nat
  ug_links :: nat
  ug_members :: "UsageMember list"
  ug_verbs :: "string \<rightharpoonup> nat"

section \<open>The view\<close>

definition usage_member :: "(id \<rightharpoonup> MemberActivityStat) \<Rightarrow> Member \<Rightarrow> UsageMember" where
  "usage_member stats m =
     \<lparr>um_user = mb_user m, um_email = mb_email m, um_role = mb_role m, um_joined = mb_created m,
      um_last = (case stats (mb_user m) of None \<Rightarrow> None | Some s \<Rightarrow> ms_last s),
      um_events = (case stats (mb_user m) of None \<Rightarrow> 0 | Some s \<Rightarrow> ms_events s)\<rparr>"

definition org_Usage :: "UsageSources \<Rightarrow> int \<Rightarrow> time \<Rightarrow> db \<Rightarrow> activity_db \<Rightarrow> id \<Rightarrow> Usage res" where
  "org_Usage src quotaBytes now d a orgID =
     (case us_Storage src d orgID of
        Inl e \<Rightarrow> Inl e
      | Inr storage \<Rightarrow>
      (case EffectiveQuota quotaBytes d orgID of
        Inl e \<Rightarrow> Inl e
      | Inr quota \<Rightarrow>
      (case us_Shares src now d orgID of
        Inl e \<Rightarrow> Inl e
      | Inr links \<Rightarrow>
      (let since = now - usageWindow in
       case us_ActorStats src a orgID since of
        Inl e \<Rightarrow> Inl e
      | Inr stats \<Rightarrow>
      (case us_VerbCounts src a orgID since of
        Inl e \<Rightarrow> Inl e
      | Inr verbs \<Rightarrow>
          Inr \<lparr>ug_used = ss_used storage, ug_quota = quota, ug_live = ss_live storage,
               ug_trashed = ss_trashed storage, ug_links = links,
               ug_members = map (usage_member stats) (ListMembers d orgID), ug_verbs = verbs\<rparr>)))))"

definition org_handler_Usage :: "UsageSources \<Rightarrow> int \<Rightarrow> time \<Rightarrow> db \<Rightarrow> activity_db \<Rightarrow> id \<Rightarrow> Usage response" where
  "org_handler_Usage src quotaBytes now d a orgID =
     (case org_Usage src quotaBytes now d a orgID of
        Inl _ \<Rightarrow> WriteError http_ErrInternal ''failed to compute organization usage''
      | Inr u \<Rightarrow> WriteJSON 200 u)"

section \<open>The adapters\<close>

definition OrgStorageStats :: "db \<Rightarrow> id \<Rightarrow> StorageStats res" where
  "OrgStorageStats d orgID =
     (case OrgUsageBytes d orgID of
        Inl e \<Rightarrow> Inl e
      | Inr used \<Rightarrow>
          (case OrgFileCounts d orgID of
             (live, trashed) \<Rightarrow> Inr \<lparr>ss_used = used, ss_live = live, ss_trashed = trashed\<rparr>))"

definition adapter_ActorStats :: "activity_db \<Rightarrow> id \<Rightarrow> time \<Rightarrow> (id \<rightharpoonup> MemberActivityStat) res" where
  "adapter_ActorStats a orgID since =
     Inr (\<lambda>userID. map_option (\<lambda>s. \<lparr>ms_events = as_events s, ms_last = Some (as_last s)\<rparr>) (ActorStats a orgID since userID))"

definition adapter_VerbCounts :: "activity_db \<Rightarrow> id \<Rightarrow> time \<Rightarrow> (string \<rightharpoonup> nat) res" where
  "adapter_VerbCounts a orgID since = Inr (VerbCounts a orgID since)"

definition wired_usage :: UsageSources where
  "wired_usage = \<lparr>us_Storage = OrgStorageStats, us_Shares = (\<lambda>now d orgID. Inr (ActiveLinkCount now d orgID)),
     us_ActorStats = adapter_ActorStats, us_VerbCounts = adapter_VerbCounts\<rparr>"

section \<open>What the view promises\<close>

text \<open>The number of an actor's events of an organization since an instant.\<close>

definition events_since :: "activity_db \<Rightarrow> id \<Rightarrow> time \<Rightarrow> id \<Rightarrow> nat" where
  "events_since a oid since u = rows_affected (\<lambda>e. ev_org e = oid \<and> ev_actor e = Some u \<and> since \<le> ev_created e) (activity_events a)"

text \<open>The laws the view relies on: an organization that exists has storage figures, the activity
  figures count the recorded events, and an actor is reported exactly when it has an event.\<close>

locale usage_ports =
  fixes src :: UsageSources
  assumes storage: "us_Storage src d oid = Inr s \<Longrightarrow>
      OrgUsageBytes d oid = Inr (ss_used s) \<and> ss_live s + ss_trashed s = rows_affected (\<lambda>f. f_org f = oid) (files d)"
    and storage_total: "OrgUsageBytes d oid = Inr n \<Longrightarrow> \<exists>s. us_Storage src d oid = Inr s"
    and shares_total: "\<exists>n. us_Shares src now d oid = Inr n"
    and actors: "\<exists>stats. us_ActorStats src a oid since = Inr stats \<and>
      (\<forall>u. case stats u of
          None \<Rightarrow> \<forall>e \<in> set (activity_events a). \<not> (ev_org e = oid \<and> ev_actor e = Some u)
        | Some s \<Rightarrow> ms_events s = events_since a oid since u \<and>
            (\<exists>e \<in> set (activity_events a). ev_org e = oid \<and> ev_actor e = Some u \<and> ms_last s = Some (ev_created e) \<and>
              (\<forall>e' \<in> set (activity_events a). ev_org e' = oid \<and> ev_actor e' = Some u \<longrightarrow> ev_created e' \<le> ev_created e)))"
    and verbs_total: "\<exists>v. us_VerbCounts src a oid since = Inr v"
begin

lemma usage_view:
  assumes "OrgUsageBytes d oid = Inr used"
  shows "\<exists>u. org_Usage src q now d a oid = Inr u \<and> ug_used u = used \<and>
    ug_live u + ug_trashed u = rows_affected (\<lambda>f. f_org f = oid) (files d) \<and>
    map um_user (ug_members u) = map mb_user (ListMembers d oid) \<and>
    (\<forall>m \<in> set (ug_members u). um_events m = events_since a oid (now - usageWindow) (um_user m) \<and>
       (um_last m = None \<longleftrightarrow> (\<forall>e \<in> set (activity_events a). \<not> (ev_org e = oid \<and> ev_actor e = Some (um_user m)))))"
proof -
  obtain s where s: "us_Storage src d oid = Inr s" using storage_total [OF assms] by blast
  obtain g where "List.find (\<lambda>g. o_id g = oid) (organizations d) = Some g"
    using assms by (auto simp: OrgUsageBytes_def split: option.splits)
  then obtain quota where quota: "EffectiveQuota q d oid = Inr quota"
    by (cases "o_quota g") (auto simp: EffectiveQuota_def QuotaOverride_def)
  obtain links where links: "us_Shares src now d oid = Inr links" using shares_total by blast
  obtain verbs where verbs: "us_VerbCounts src a oid (now - usageWindow) = Inr verbs" using verbs_total by blast
  obtain stats where stats: "us_ActorStats src a oid (now - usageWindow) = Inr stats"
    and counts: "\<And>u. case stats u of
          None \<Rightarrow> \<forall>e \<in> set (activity_events a). \<not> (ev_org e = oid \<and> ev_actor e = Some u)
        | Some s \<Rightarrow> ms_events s = events_since a oid (now - usageWindow) u \<and>
            (\<exists>e \<in> set (activity_events a). ev_org e = oid \<and> ev_actor e = Some u \<and> ms_last s = Some (ev_created e) \<and>
              (\<forall>e' \<in> set (activity_events a). ev_org e' = oid \<and> ev_actor e' = Some u \<longrightarrow> ev_created e' \<le> ev_created e))"
    using actors [of a oid "now - usageWindow"] by blast
  have member: "um_events (usage_member stats m) = events_since a oid (now - usageWindow) (um_user (usage_member stats m)) \<and>
      (um_last (usage_member stats m) = None \<longleftrightarrow>
        (\<forall>e \<in> set (activity_events a). \<not> (ev_org e = oid \<and> ev_actor e = Some (um_user (usage_member stats m)))))" for m
    using counts [of "mb_user m"]
    by (cases "stats (mb_user m)") (auto simp: usage_member_def events_since_def rows_affected_zero)
  have users: "map um_user (map (usage_member stats) ms) = map mb_user ms" for ms
    by (simp add: usage_member_def)
  show ?thesis
    using storage [OF s] assms member users
    by (simp add: org_Usage_def s quota links stats verbs Let_def)
qed

end

lemma ActorStats_spec:
  "case map_option (\<lambda>s. \<lparr>ms_events = as_events s, ms_last = Some (as_last s)\<rparr>) (ActorStats a oid since u) of
      None \<Rightarrow> \<forall>e \<in> set (activity_events a). \<not> (ev_org e = oid \<and> ev_actor e = Some u)
    | Some s \<Rightarrow> ms_events s = events_since a oid since u \<and>
        (\<exists>e \<in> set (activity_events a). ev_org e = oid \<and> ev_actor e = Some u \<and> ms_last s = Some (ev_created e) \<and>
          (\<forall>e' \<in> set (activity_events a). ev_org e' = oid \<and> ev_actor e' = Some u \<longrightarrow> ev_created e' \<le> ev_created e))"
proof (cases "filter (\<lambda>e. ev_org e = oid \<and> ev_actor e = Some u) (activity_events a) = []")
  case True
  then show ?thesis by (simp add: ActorStats_def filter_empty_conv)
next
  case False
  define es where "es = filter (\<lambda>e. ev_org e = oid \<and> ev_actor e = Some u) (activity_events a)"
  have "Max (ev_created ` set es) \<in> ev_created ` set es" using False unfolding es_def [symmetric] by (intro Max_in) simp_all
  then obtain e where e: "e \<in> set es" "ev_created e = Max (ev_created ` set es)" by force
  have "\<forall>e' \<in> set es. ev_created e' \<le> ev_created e" unfolding e(2) by simp
  moreover have "filter (\<lambda>x. since \<le> ev_created x) es =
      filter (\<lambda>e. ev_org e = oid \<and> ev_actor e = Some u \<and> since \<le> ev_created e) (activity_events a)"
    by (auto simp: es_def intro: filter_cong)
  ultimately show ?thesis using False e
    by (auto simp: ActorStats_def Let_def es_def [symmetric] rows_affected_def events_since_def) (auto simp: es_def)
qed

interpretation usage: usage_ports wired_usage
proof unfold_locales
  fix d oid s
  assume "us_Storage wired_usage d oid = Inr s"
  then show "OrgUsageBytes d oid = Inr (ss_used s) \<and> ss_live s + ss_trashed s = rows_affected (\<lambda>f. f_org f = oid) (files d)"
    using sum_length_filter_compl [of "\<lambda>f. f_deleted f = None" "filter (\<lambda>f. f_org f = oid) (files d)"]
    by (auto simp: wired_usage_def OrgStorageStats_def OrgFileCounts_def rows_affected_def conj_commute split: sum.splits)
next
  fix a oid since
  show "\<exists>stats. us_ActorStats wired_usage a oid since = Inr stats \<and>
      (\<forall>u. case stats u of
          None \<Rightarrow> \<forall>e \<in> set (activity_events a). \<not> (ev_org e = oid \<and> ev_actor e = Some u)
        | Some s \<Rightarrow> ms_events s = events_since a oid since u \<and>
            (\<exists>e \<in> set (activity_events a). ev_org e = oid \<and> ev_actor e = Some u \<and> ms_last s = Some (ev_created e) \<and>
              (\<forall>e' \<in> set (activity_events a). ev_org e' = oid \<and> ev_actor e' = Some u \<longrightarrow> ev_created e' \<le> ev_created e)))"
    using ActorStats_spec by (simp add: wired_usage_def adapter_ActorStats_def)
qed (auto simp: wired_usage_def OrgStorageStats_def adapter_VerbCounts_def split: sum.splits prod.splits)

text \<open>The usage view of an existing organization always answers; its storage figure is the exact
  sum of the sizes of the organization's versions, its two file counts add up to all the
  organization's files, and it lists each member once, in membership order, with the number of the
  member's events within the last thirty days and a last activity exactly when there is any event
  of the member.\<close>

theorem usage_view_exact:
  assumes "db_inv d" and "has_org d oid"
  shows "\<exists>u. org_Usage wired_usage q now d a oid = Inr u \<and> ug_used u = org_bytes (files d) (file_versions d) oid \<and>
    ug_live u + ug_trashed u = rows_affected (\<lambda>f. f_org f = oid) (files d) \<and>
    map um_user (ug_members u) = map mb_user (ListMembers d oid) \<and>
    (\<forall>m \<in> set (ug_members u). um_events m = events_since a oid (now - usageWindow) (um_user m) \<and>
       (um_last m = None \<longleftrightarrow> (\<forall>e \<in> set (activity_events a). \<not> (ev_org e = oid \<and> ev_actor e = Some (um_user m)))))"
proof -
  obtain g where "List.find (\<lambda>g. o_id g = oid) (organizations d) = Some g"
    using assms(2) by (cases "List.find (\<lambda>g. o_id g = oid) (organizations d)") (auto simp: has_org_def find_None_iff)
  with assms(1) have "OrgUsageBytes d oid = Inr (org_bytes (files d) (file_versions d) oid)"
    by (auto simp: OrgUsageBytes_def db_inv_def usage_ok_def dest: find_SomeD)
  from usage.usage_view [OF this] show ?thesis .
qed


theorem usage_view_exact_witness:
  "\<exists>u. org_Usage wired_usage 100 50 sample_files_db sample_activity ''o1'' = Inr u \<and>
    ug_used u = org_bytes (files sample_files_db) (file_versions sample_files_db) ''o1'' \<and>
    ug_live u + ug_trashed u = rows_affected (\<lambda>f. f_org f = ''o1'') (files sample_files_db) \<and>
    map um_user (ug_members u) = map mb_user (ListMembers sample_files_db ''o1'')"
proof -
  have "has_org sample_files_db ''o1''" by (simp add: has_org_def sample_files_db_def sample_folders_db_def sample_org_db_def)
  from usage_view_exact [OF sample_files_inv this] show ?thesis by blast
qed

end
