(* ===== verification/Config.thy ===== *)
theory Config
  imports Go_Strings Paging
begin

text \<open>
  Process configuration, \<^verbatim>\<open>internal/platform/config\<close>: reading the environment with defaults, the
  storage node list, and the checks that make a service refuse to start. The environment is a
  function from names to values, empty when unset; \<^verbatim>\<open>time.ParseDuration\<close> is an argument. Errors
  are the variable they name, or the list of missing variables. Passwords are ASCII.
\<close>

section \<open>Configuration values\<close>

record ConfigNode =
  cn_id :: string
  cn_endpoint :: string
  cn_public :: string

record Config =
  cf_Env :: string
  cf_HTTPPort :: string
  cf_CORSOrigin :: string
  cf_PostgresDSN :: string
  cf_RedisAddr :: string
  cf_NATSURL :: string
  cf_JWTSecret :: string
  cf_JWTSecretPrevious :: string
  cf_SMTPAddr :: string
  cf_SMTPFrom :: string
  cf_WebBaseURL :: string
  cf_MinIOAccessKey :: string
  cf_MinIOSecretKey :: string
  cf_AdminEmail :: string
  cf_AdminPassword :: string
  cf_OTel :: string
  cf_TrashRetentionDays :: int
  cf_ChunkSizeBytes :: int
  cf_ReplicationFactor :: int
  cf_WriteQuorum :: int
  cf_MaxUploadBytes :: int
  cf_OrgQuotaBytes :: int
  cf_RateLimitRPS :: int
  cf_RateLimitBurst :: int
  cf_LoginRateLimitRPS :: int
  cf_LoginRateLimitBurst :: int
  cf_AccessTokenTTL :: duration
  cf_RefreshTokenTTL :: duration
  cf_GCInterval :: duration
  cf_GCGrace :: duration
  cf_StorageSlowThreshold :: duration
  cf_StorageNodes :: "ConfigNode list"

datatype config_error =
    BadVariable string | BadStorageNode string | SecretTooShort string | AdminPasswordTooShort | AdminPasswordTooSimple
  | Missing "string list" | QuorumTooLarge | BurstTooSmall string

type_synonym env = "string \<Rightarrow> string"

section \<open>Reading the environment\<close>

definition getEnv :: "env \<Rightarrow> string \<Rightarrow> string \<Rightarrow> string" where
  "getEnv env key fallback = (if env key \<noteq> [] then env key else fallback)"

definition getDuration ::
  "(string \<Rightarrow> duration option) \<Rightarrow> env \<Rightarrow> string \<Rightarrow> duration \<Rightarrow> config_error + duration" where
  "getDuration parse env key fallback =
     (if env key = [] then Inr fallback
      else case parse (env key) of None \<Rightarrow> Inl (BadVariable key) | Some d \<Rightarrow> Inr d)"

text \<open>The integer settings of \<^verbatim>\<open>Load\<close> all follow one pattern.\<close>

definition getInt :: "env \<Rightarrow> string \<Rightarrow> int \<Rightarrow> config_error + int" where
  "getInt env key fallback =
     (if env key = [] then Inr fallback
      else case ParseInt (env key) of ParseOk n \<Rightarrow> Inr n | _ \<Rightarrow> Inl (BadVariable key))"

fun parse_node_entries :: "string list \<Rightarrow> config_error + ConfigNode list" where
  "parse_node_entries [] = Inr []"
| "parse_node_entries (raw # rest) =
     (let pair = TrimSpace raw
      in if pair = [] then parse_node_entries rest
         else case SplitN2 (CHR ''='') pair of
             [i, eps] \<Rightarrow>
               if i = [] \<or> eps = [] then Inl (BadStorageNode pair)
               else
                 (let endpoints = SplitN2 (CHR ''|'') eps;
                      endpoint = hd endpoints;
                      public = (case endpoints of [_, p] \<Rightarrow> if p \<noteq> [] then p else endpoint | _ \<Rightarrow> endpoint)
                  in map_sum (\<lambda>e. e) (\<lambda>ns. \<lparr>cn_id = i, cn_endpoint = endpoint, cn_public = public\<rparr> # ns)
                       (parse_node_entries rest))
           | _ \<Rightarrow> Inl (BadStorageNode pair))"

definition parseStorageNodes :: "string \<Rightarrow> config_error + ConfigNode list" where
  "parseStorageNodes raw = (if raw = [] then Inr [] else parse_node_entries (Split (CHR '','') raw))"

section \<open>Validation\<close>

definition char_class :: "char \<Rightarrow> nat" where
  "char_class c =
     (let n = of_char c :: nat
      in if 65 \<le> n \<and> n \<le> 90 then 0 else if 97 \<le> n \<and> n \<le> 122 then 1 else if 48 \<le> n \<and> n \<le> 57 then 2 else 3)"

definition validateAdminPassword :: "string \<Rightarrow> config_error option" where
  "validateAdminPassword pw =
     (if length pw < 12 then Some AdminPasswordTooShort
      else if length (filter (\<lambda>k. \<exists>c \<in> set pw. char_class c = k) [0, 1, 2, 3]) < 3 then Some AdminPasswordTooSimple
      else None)"

definition missing_if :: "bool \<Rightarrow> string \<Rightarrow> string list" where
  "missing_if b name = (if b then [name] else [])"

definition missing_vars :: "Config \<Rightarrow> string list" where
  "missing_vars c =
     missing_if (cf_PostgresDSN c = []) ''NIMBUS_POSTGRES_DSN'' @
     missing_if (cf_JWTSecret c = []) ''NIMBUS_JWT_SECRET'' @
     missing_if (cf_StorageNodes c \<noteq> [] \<and> cf_MinIOAccessKey c = []) ''NIMBUS_MINIO_ACCESS_KEY'' @
     missing_if (cf_StorageNodes c \<noteq> [] \<and> cf_MinIOSecretKey c = []) ''NIMBUS_MINIO_SECRET_KEY'' @
     missing_if (cf_AdminEmail c = []) ''NIMBUS_ADMIN_EMAIL'' @
     missing_if (cf_AdminPassword c = []) ''NIMBUS_ADMIN_PASSWORD''"

definition config_validate :: "Config \<Rightarrow> config_error option" where
  "config_validate c =
     (if cf_JWTSecret c \<noteq> [] \<and> length (cf_JWTSecret c) < 32 then Some (SecretTooShort ''NIMBUS_JWT_SECRET'')
      else if cf_JWTSecretPrevious c \<noteq> [] \<and> length (cf_JWTSecretPrevious c) < 32
        then Some (SecretTooShort ''NIMBUS_JWT_SECRET_PREVIOUS'')
      else
        (case (if cf_AdminPassword c = [] then None else validateAdminPassword (cf_AdminPassword c)) of
           Some e \<Rightarrow> Some e
         | None \<Rightarrow>
             if missing_vars c \<noteq> [] then Some (Missing (missing_vars c))
             else if cf_ReplicationFactor c < cf_WriteQuorum c then Some QuorumTooLarge
             else if 0 < cf_RateLimitRPS c \<and> cf_RateLimitBurst c < 1 then Some (BurstTooSmall ''NIMBUS_RATE_LIMIT_BURST'')
             else if 0 < cf_LoginRateLimitRPS c \<and> cf_LoginRateLimitBurst c < 1
               then Some (BurstTooSmall ''NIMBUS_LOGIN_RATE_LIMIT_BURST'')
             else None))"

section \<open>Loading\<close>

abbreviation (input) minutes :: "int \<Rightarrow> duration" where
  "minutes n \<equiv> n * 60 * 1000000000"

text \<open>The first reading of the environment, with the fixed defaults.\<close>

definition base_config :: "env \<Rightarrow> Config" where
  "base_config env =
     \<lparr>cf_Env = getEnv env ''NIMBUS_ENV'' ''dev'', cf_HTTPPort = getEnv env ''NIMBUS_HTTP_PORT'' ''8080'',
      cf_CORSOrigin = getEnv env ''NIMBUS_CORS_ORIGIN'' ''*'', cf_PostgresDSN = env ''NIMBUS_POSTGRES_DSN'',
      cf_RedisAddr = getEnv env ''NIMBUS_REDIS_ADDR'' ''localhost:6379'',
      cf_NATSURL = getEnv env ''NIMBUS_NATS_URL'' ''nats://localhost:4222'',
      cf_JWTSecret = env ''NIMBUS_JWT_SECRET'', cf_JWTSecretPrevious = env ''NIMBUS_JWT_SECRET_PREVIOUS'',
      cf_SMTPAddr = env ''NIMBUS_SMTP_ADDR'', cf_SMTPFrom = getEnv env ''NIMBUS_SMTP_FROM'' ''no-reply@nimbus.dev'',
      cf_WebBaseURL = getEnv env ''NIMBUS_WEB_BASE_URL'' ''http://localhost:3000'',
      cf_MinIOAccessKey = env ''NIMBUS_MINIO_ACCESS_KEY'', cf_MinIOSecretKey = env ''NIMBUS_MINIO_SECRET_KEY'',
      cf_AdminEmail = map lower_char (TrimSpace (env ''NIMBUS_ADMIN_EMAIL'')),
      cf_AdminPassword = env ''NIMBUS_ADMIN_PASSWORD'', cf_OTel = env ''NIMBUS_OTEL_EXPORTER_ENDPOINT'',
      cf_TrashRetentionDays = 30, cf_ChunkSizeBytes = 8 * 1024 * 1024, cf_ReplicationFactor = 2, cf_WriteQuorum = 2,
      cf_MaxUploadBytes = 100 * 1024 * 1024, cf_OrgQuotaBytes = 10 * 1024 * 1024 * 1024, cf_RateLimitRPS = 25,
      cf_RateLimitBurst = 50, cf_LoginRateLimitRPS = 1, cf_LoginRateLimitBurst = 5, cf_AccessTokenTTL = 0,
      cf_RefreshTokenTTL = 0, cf_GCInterval = 0, cf_GCGrace = 0, cf_StorageSlowThreshold = 0, cf_StorageNodes = []\<rparr>"

text \<open>One setting after the other; the first that fails ends the loading.\<close>

definition load_step ::
  "(config_error + 'v) \<Rightarrow> ('v \<Rightarrow> Config \<Rightarrow> Config) \<Rightarrow> config_error + Config \<Rightarrow> config_error + Config" where
  "load_step v upd c = (case c of Inl e \<Rightarrow> Inl e | Inr c1 \<Rightarrow> (case v of Inl e \<Rightarrow> Inl e | Inr x \<Rightarrow> Inr (upd x c1)))"

definition load_durations :: "(string \<Rightarrow> duration option) \<Rightarrow> env \<Rightarrow> config_error + Config \<Rightarrow> config_error + Config" where
  "load_durations pd env c0 =
     (let c1 = load_step (getDuration pd env ''NIMBUS_ACCESS_TOKEN_TTL'' (minutes 15)) (\<lambda>x c. c\<lparr>cf_AccessTokenTTL := x\<rparr>) c0;
          c2 = load_step (getDuration pd env ''NIMBUS_REFRESH_TOKEN_TTL'' (minutes (7 * 24 * 60))) (\<lambda>x c. c\<lparr>cf_RefreshTokenTTL := x\<rparr>) c1;
          c3 = load_step (getDuration pd env ''NIMBUS_GC_INTERVAL'' (minutes 10)) (\<lambda>x c. c\<lparr>cf_GCInterval := x\<rparr>) c2;
          c4 = load_step (getDuration pd env ''NIMBUS_GC_GRACE'' (minutes 60)) (\<lambda>x c. c\<lparr>cf_GCGrace := x\<rparr>) c3
      in load_step (getDuration pd env ''NIMBUS_STORAGE_SLOW_THRESHOLD'' (200 * 1000000)) (\<lambda>x c. c\<lparr>cf_StorageSlowThreshold := x\<rparr>) c4)"

definition load_limits :: "env \<Rightarrow> config_error + Config \<Rightarrow> config_error + Config" where
  "load_limits env c0 =
     (let c1 = load_step (getInt env ''NIMBUS_TRASH_RETENTION_DAYS'' 30) (\<lambda>x c. c\<lparr>cf_TrashRetentionDays := x\<rparr>) c0;
          c2 = load_step (getInt env ''NIMBUS_CHUNK_SIZE_BYTES'' (8 * 1024 * 1024)) (\<lambda>x c. c\<lparr>cf_ChunkSizeBytes := x\<rparr>) c1;
          c3 = load_step (getInt env ''NIMBUS_MAX_UPLOAD_BYTES'' (100 * 1024 * 1024)) (\<lambda>x c. c\<lparr>cf_MaxUploadBytes := x\<rparr>) c2
      in load_step (getInt env ''NIMBUS_ORG_QUOTA_BYTES'' (10 * 1024 * 1024 * 1024)) (\<lambda>x c. c\<lparr>cf_OrgQuotaBytes := x\<rparr>) c3)"

definition load_rates :: "env \<Rightarrow> config_error + Config \<Rightarrow> config_error + Config" where
  "load_rates env c0 =
     (let c1 = load_step (getInt env ''NIMBUS_RATE_LIMIT_RPS'' 25) (\<lambda>x c. c\<lparr>cf_RateLimitRPS := x\<rparr>) c0;
          c2 = load_step (getInt env ''NIMBUS_RATE_LIMIT_BURST'' 50) (\<lambda>x c. c\<lparr>cf_RateLimitBurst := x\<rparr>) c1;
          c3 = load_step (getInt env ''NIMBUS_LOGIN_RATE_LIMIT_RPS'' 1) (\<lambda>x c. c\<lparr>cf_LoginRateLimitRPS := x\<rparr>) c2;
          c4 = load_step (getInt env ''NIMBUS_LOGIN_RATE_LIMIT_BURST'' 5) (\<lambda>x c. c\<lparr>cf_LoginRateLimitBurst := x\<rparr>) c3;
          c5 = load_step (getInt env ''NIMBUS_REPLICATION_FACTOR'' 2) (\<lambda>x c. c\<lparr>cf_ReplicationFactor := x\<rparr>) c4
      in load_step (getInt env ''NIMBUS_WRITE_QUORUM'' 2) (\<lambda>x c. c\<lparr>cf_WriteQuorum := x\<rparr>) c5)"

definition config_Load :: "(string \<Rightarrow> duration option) \<Rightarrow> env \<Rightarrow> config_error + Config" where
  "config_Load pd env =
     (case load_step (parseStorageNodes (env ''NIMBUS_STORAGE_NODES'')) (\<lambda>x c. c\<lparr>cf_StorageNodes := x\<rparr>)
             (load_rates env (load_limits env (load_durations pd env (Inr (base_config env))))) of
        Inl e \<Rightarrow> Inl e
      | Inr c \<Rightarrow> (case config_validate c of Some e \<Rightarrow> Inl e | None \<Rightarrow> Inr c))"

section \<open>The storage node list\<close>

text \<open>How an operator writes a node list, and which nodes can be written that way.\<close>

definition show_node :: "ConfigNode \<Rightarrow> string" where
  "show_node n = cn_id n @ CHR ''='' # cn_endpoint n @ CHR ''|'' # cn_public n"

definition plain :: "char list \<Rightarrow> string \<Rightarrow> bool" where
  "plain special s \<longleftrightarrow> s \<noteq> [] \<and> (\<forall>c \<in> set s. c \<notin> set special \<and> \<not> is_space c)"

definition node_ok :: "ConfigNode \<Rightarrow> bool" where
  "node_ok n \<longleftrightarrow> plain '',='' (cn_id n) \<and> plain '',|'' (cn_endpoint n) \<and> plain '','' (cn_public n)"

lemma plainD:
  assumes "plain special s"
  shows "s \<noteq> []" and "c \<in> set special \<Longrightarrow> c \<notin> set s" and "\<not> is_space (hd s)" and "\<not> is_space (last s)"
  using assms by (auto simp: plain_def)

lemma parse_show_node:
  assumes "node_ok n"
  shows "parse_node_entries (show_node n # rest) = map_sum (\<lambda>e. e) (\<lambda>ns. n # ns) (parse_node_entries rest)"
proof -
  have plain: "plain '',='' (cn_id n)" "plain '',|'' (cn_endpoint n)" "plain '','' (cn_public n)"
    using assms unfolding node_ok_def by blast+
  note parts = plain [THEN plainD(1)] plainD(2) [OF plain(1), of "CHR ''=''"] plainD(2) [OF plain(2), of "CHR ''|''"]
  have trim: "TrimSpace (show_node n) = show_node n"
    using parts(1,3) plainD(3) [OF plain(1)] plainD(4) [OF plain(3)] by (intro TrimSpace_id) (simp_all add: show_node_def)
  have split: "SplitN2 (CHR ''='') (show_node n) = [cn_id n, cn_endpoint n @ CHR ''|'' # cn_public n]"
    unfolding show_node_def by (rule SplitN2_join) (rule parts(4), simp)
  have "show_node n \<noteq> []" by (simp add: show_node_def)
  then show ?thesis using trim split parts(1-3) SplitN2_join [OF parts(5), of "cn_public n"]
    by (cases n) simp
qed

lemma parse_show_nodes: "\<forall>n \<in> set ns. node_ok n \<Longrightarrow> parse_node_entries (map show_node ns) = Inr ns"
  by (induction ns) (simp_all add: parse_show_node del: parse_node_entries.simps(2))

lemma show_node_no_comma: "node_ok n \<Longrightarrow> CHR '','' \<notin> set (show_node n)"
  unfolding node_ok_def show_node_def
  using plainD(2) [of "'',=''" _ "CHR '',''"] plainD(2) [of "'',|''" _ "CHR '',''"] plainD(2) [of "'',''" _ "CHR '',''"] by simp

lemma parseStorageNodes_show:
  assumes "\<forall>n \<in> set ns. node_ok n"
  shows "parseStorageNodes (Join (CHR '','') (map show_node ns)) = Inr ns"
proof (cases "ns = []")
  case True
  then show ?thesis by (simp add: parseStorageNodes_def)
next
  case False
  then have "Split (CHR '','') (Join (CHR '','') (map show_node ns)) = map show_node ns"
    using assms show_node_no_comma by (intro Split_Join) auto
  moreover have "Join (CHR '','') (map show_node ns) \<noteq> []"
    using False by (cases ns; cases "tl ns") (auto simp: show_node_def)
  ultimately show ?thesis using assms by (simp add: parseStorageNodes_def parse_show_nodes)
qed

section \<open>What a loaded configuration guarantees\<close>

lemma load_step_Inr:
  "load_step v upd c = Inr c' \<longleftrightarrow> (\<exists>c1 x. c = Inr c1 \<and> v = Inr x \<and> c' = upd x c1)"
  by (auto simp: load_step_def split: sum.splits)

lemma config_validate_None:
  assumes "config_validate c = None"
  shows "missing_vars c = []" "32 \<le> length (cf_JWTSecret c)" "cf_JWTSecretPrevious c = [] \<or> 32 \<le> length (cf_JWTSecretPrevious c)"
    "validateAdminPassword (cf_AdminPassword c) = None" "cf_WriteQuorum c \<le> cf_ReplicationFactor c"
    "0 < cf_RateLimitRPS c \<longrightarrow> 1 \<le> cf_RateLimitBurst c" "0 < cf_LoginRateLimitRPS c \<longrightarrow> 1 \<le> cf_LoginRateLimitBurst c"
proof -
  from assms show miss: "missing_vars c = []" by (auto simp: config_validate_def split: if_splits option.splits)
  then have set: "cf_JWTSecret c \<noteq> []" "cf_AdminPassword c \<noteq> []" by (auto simp: missing_vars_def missing_if_def split: if_splits)
  show "32 \<le> length (cf_JWTSecret c)" "cf_JWTSecretPrevious c = [] \<or> 32 \<le> length (cf_JWTSecretPrevious c)"
    "validateAdminPassword (cf_AdminPassword c) = None" "cf_WriteQuorum c \<le> cf_ReplicationFactor c"
    "0 < cf_RateLimitRPS c \<longrightarrow> 1 \<le> cf_RateLimitBurst c" "0 < cf_LoginRateLimitRPS c \<longrightarrow> 1 \<le> cf_LoginRateLimitBurst c"
    using assms set by (auto simp: config_validate_def split: if_splits option.splits)
qed

lemma config_Load_sound_facts:
  assumes "config_Load pd env = Inr c"
  shows "32 \<le> length (cf_JWTSecret c) \<and> (cf_JWTSecretPrevious c = [] \<or> 32 \<le> length (cf_JWTSecretPrevious c)) \<and>
      cf_PostgresDSN c \<noteq> [] \<and> cf_AdminEmail c \<noteq> [] \<and> 12 \<le> length (cf_AdminPassword c) \<and>
      (cf_StorageNodes c = [] \<or> cf_MinIOAccessKey c \<noteq> [] \<and> cf_MinIOSecretKey c \<noteq> []) \<and>
      cf_WriteQuorum c \<le> cf_ReplicationFactor c \<and>
      (0 < cf_RateLimitRPS c \<longrightarrow> 1 \<le> cf_RateLimitBurst c) \<and> (0 < cf_LoginRateLimitRPS c \<longrightarrow> 1 \<le> cf_LoginRateLimitBurst c)"
    and "parseStorageNodes (env ''NIMBUS_STORAGE_NODES'') = Inr (cf_StorageNodes c)"
    and "env ''NIMBUS_STORAGE_NODES'' = Join (CHR '','') (map show_node ns) \<Longrightarrow> \<forall>n \<in> set ns. node_ok n \<Longrightarrow> cf_StorageNodes c = ns"
proof -
  from assms have ok: "config_validate c = None" and
    ld: "load_step (parseStorageNodes (env ''NIMBUS_STORAGE_NODES'')) (\<lambda>x c. c\<lparr>cf_StorageNodes := x\<rparr>)
      (load_rates env (load_limits env (load_durations pd env (Inr (base_config env))))) = Inr c"
    by (auto simp: config_Load_def split: sum.splits option.splits)
  have "cf_PostgresDSN c \<noteq> []" "cf_AdminEmail c \<noteq> []"
      "cf_StorageNodes c = [] \<or> cf_MinIOAccessKey c \<noteq> [] \<and> cf_MinIOSecretKey c \<noteq> []"
    using config_validate_None(1) [OF ok] by (auto simp: missing_vars_def missing_if_def split: if_splits)
  moreover have "12 \<le> length (cf_AdminPassword c)"
    using config_validate_None(4) [OF ok] by (auto simp: validateAdminPassword_def split: if_splits)
  ultimately show "32 \<le> length (cf_JWTSecret c) \<and> (cf_JWTSecretPrevious c = [] \<or> 32 \<le> length (cf_JWTSecretPrevious c)) \<and>
      cf_PostgresDSN c \<noteq> [] \<and> cf_AdminEmail c \<noteq> [] \<and> 12 \<le> length (cf_AdminPassword c) \<and>
      (cf_StorageNodes c = [] \<or> cf_MinIOAccessKey c \<noteq> [] \<and> cf_MinIOSecretKey c \<noteq> []) \<and>
      cf_WriteQuorum c \<le> cf_ReplicationFactor c \<and>
      (0 < cf_RateLimitRPS c \<longrightarrow> 1 \<le> cf_RateLimitBurst c) \<and> (0 < cf_LoginRateLimitRPS c \<longrightarrow> 1 \<le> cf_LoginRateLimitBurst c)"
    using config_validate_None [OF ok] by simp
  from ld show nodes: "parseStorageNodes (env ''NIMBUS_STORAGE_NODES'') = Inr (cf_StorageNodes c)"
    by (auto simp: load_step_Inr)
  show "cf_StorageNodes c = ns" if "env ''NIMBUS_STORAGE_NODES'' = Join (CHR '','') (map show_node ns)" "\<forall>n \<in> set ns. node_ok n"
    using nodes parseStorageNodes_show [OF that(2)] that(1) by simp
qed


definition sample_env :: env where
  "sample_env = (\<lambda>_. [])(''NIMBUS_POSTGRES_DSN'' := ''postgres://db'', ''NIMBUS_JWT_SECRET'' := replicate 32 CHR ''s'',
     ''NIMBUS_ADMIN_EMAIL'' := '' Root@x '', ''NIMBUS_ADMIN_PASSWORD'' := ''Sesame-Open-1'', ''NIMBUS_WRITE_QUORUM'' := ''0'')"

lemma sample_env_loads: "\<exists>c. config_Load (\<lambda>_. None) sample_env = Inr c \<and> cf_WriteQuorum c = 0"
  by (simp add: config_Load_def sample_env_def load_rates_def load_limits_def load_durations_def load_step_def getInt_def
    getDuration_def parseStorageNodes_def base_config_def getEnv_def config_validate_def missing_vars_def missing_if_def
    validateAdminPassword_def char_class_def Let_def ParseInt_def signed_value_def decimal_digit_def TrimSpace_def is_space_def lower_char_def)


text \<open>A write quorum of zero passes the checks: nothing bounds it from below.\<close>

lemma config_accepts_zero_quorum: "\<exists>env c. config_Load (\<lambda>_. None) env = Inr c \<and> cf_WriteQuorum c = 0"
  using sample_env_loads by blast

end
