(* ===== verification/Node_Registry.thy ===== *)
theory Node_Registry
  imports Router Http
begin

text \<open>
  The durable record of the storage nodes: the statements of \<^verbatim>\<open>internal/storage/repository.go\<close> on
  \<^verbatim>\<open>storage_nodes\<close>, the bootstrap of the router's nodes into the table, the administrators' node
  list, and how the probes of \<^verbatim>\<open>Router\<close> move the table. A probe's writes are its \<open>probe_effect\<close>s.
\<close>

section \<open>The table\<close>

record NodeRecord =
  nr_id :: string
  nr_endpoint :: string
  nr_status :: string
  nr_heartbeat :: "time option"

definition UpsertNode :: "string \<Rightarrow> string \<Rightarrow> NodeRecord list \<Rightarrow> NodeRecord list" where
  "UpsertNode i endpoint t =
     (if \<exists>n \<in> set t. nr_id n = i
        then update_where (\<lambda>n. nr_id n = i) (\<lambda>n. n\<lparr>nr_endpoint := endpoint\<rparr>) t
      else t @ [\<lparr>nr_id = i, nr_endpoint = endpoint, nr_status = ''healthy'', nr_heartbeat = None\<rparr>])"

definition SetHealthy :: "string \<Rightarrow> time \<Rightarrow> NodeRecord list \<Rightarrow> NodeRecord list" where
  "SetHealthy i tm t = update_where (\<lambda>n. nr_id n = i) (\<lambda>n. n\<lparr>nr_status := ''healthy'', nr_heartbeat := Some tm\<rparr>) t"

definition SetDown :: "string \<Rightarrow> NodeRecord list \<Rightarrow> NodeRecord list" where
  "SetDown i t = update_where (\<lambda>n. nr_id n = i) (\<lambda>n. n\<lparr>nr_status := ''down''\<rparr>) t"

text \<open>\<^verbatim>\<open>ORDER BY id\<close> in the collation of the database.\<close>

definition ListNodes :: "(string \<Rightarrow> 'k :: linorder) \<Rightarrow> NodeRecord list \<Rightarrow> NodeRecord list" where
  "ListNodes collate t = sort_key (\<lambda>n. collate (nr_id n)) t"

definition storage_handler_ListNodes :: "(string \<Rightarrow> 'k :: linorder) \<Rightarrow> NodeRecord list \<Rightarrow> NodeRecord list response" where
  "storage_handler_ListNodes collate t = WriteJSON 200 (ListNodes collate t)"

text \<open>\<^verbatim>\<open>Bootstrap\<close>: Go's map order is some order of the configured nodes.\<close>

definition Bootstrap :: "Router \<Rightarrow> NodeRecord list \<Rightarrow> NodeRecord list" where
  "Bootstrap rt t = fold (\<lambda>(i, n) t. UpsertNode i (sn_endpoint n) t) (rt_nodes rt) t"

definition probeAll_order :: "Router \<Rightarrow> NodeID list" where
  "probeAll_order rt = map fst (rt_nodes rt)"

definition statusRedisKey :: "NodeID \<Rightarrow> string" where
  "statusRedisKey i = ''nimbus:node:'' @ i @ '':status''"

definition heartbeatRedisKey :: "NodeID \<Rightarrow> string" where
  "heartbeatRedisKey i = ''nimbus:node:'' @ i @ '':last_heartbeat''"

section \<open>Probes and the table\<close>

fun persist_effect :: "probe_effect \<Rightarrow> NodeRecord list \<Rightarrow> NodeRecord list" where
  "persist_effect (RepoSetHealthy i tm) t = SetHealthy i tm t"
| "persist_effect (RepoSetDown i) t = SetDown i t"
| "persist_effect _ t = t"

definition persist :: "probe_effect list \<Rightarrow> NodeRecord list \<Rightarrow> NodeRecord list" where
  "persist es t = fold persist_effect es t"

definition row_of :: "string \<Rightarrow> NodeRecord list \<Rightarrow> NodeRecord option" where
  "row_of i t = List.find (\<lambda>n. nr_id n = i) t"

lemma row_of_SetHealthy:
  "row_of j (SetHealthy i tm t) =
     (if j = i then map_option (\<lambda>n. n\<lparr>nr_status := ''healthy'', nr_heartbeat := Some tm\<rparr>) (row_of j t) else row_of j t)"
  by (induction t) (auto simp: row_of_def SetHealthy_def)

lemma row_of_SetDown:
  "row_of j (SetDown i t) = (if j = i then map_option (\<lambda>n. n\<lparr>nr_status := ''down''\<rparr>) (row_of j t) else row_of j t)"
  by (induction t) (auto simp: row_of_def SetDown_def)

lemma row_of_UpsertNode:
  "row_of j (UpsertNode i e t) =
     (if j = i then Some (case row_of i t of None \<Rightarrow> \<lparr>nr_id = i, nr_endpoint = e, nr_status = ''healthy'', nr_heartbeat = None\<rparr>
                                           | Some n \<Rightarrow> n\<lparr>nr_endpoint := e\<rparr>) else row_of j t)"
proof (cases "row_of i t")
  case None
  then have "\<not> (\<exists>n \<in> set t. nr_id n = i)" by (auto simp: row_of_def find_None_iff)
  with None show ?thesis by (auto simp: UpsertNode_def row_of_def find_append_rows split: option.splits)
next
  case (Some n)
  then have hit: "\<exists>n \<in> set t. nr_id n = i" by (auto simp: row_of_def dest: find_SomeD)
  have "row_of j (update_where (\<lambda>n. nr_id n = i) (\<lambda>n. n\<lparr>nr_endpoint := e\<rparr>) t) =
      map_option (\<lambda>n. if nr_id n = i then n\<lparr>nr_endpoint := e\<rparr> else n) (row_of j t)"
    unfolding row_of_def by (rule find_update_where) simp
  with hit Some show ?thesis
    by (cases "row_of j t") (auto simp: UpsertNode_def row_of_def dest: find_SomeD)
qed

lemma Bootstrap_rows:
  "row_of j (fold (\<lambda>(i, n) t. UpsertNode i (sn_endpoint n) t) ns t) \<noteq> None \<longleftrightarrow> row_of j t \<noteq> None \<or> j \<in> fst ` set ns"
  by (induction ns arbitrary: t) (auto simp: row_of_UpsertNode)

text \<open>The table agrees with the breakers, node by node.\<close>

definition registry_ok :: "Router \<Rightarrow> NodeRecord list \<Rightarrow> bool" where
  "registry_ok rt t \<longleftrightarrow> (\<forall>i b. map_of (rt_breakers rt) i = Some b \<longrightarrow>
     (\<exists>n. row_of i t = Some n \<and> nr_status n = NodeStatus_String (status_of b)))"

lemma probe_persists:
  assumes "registry_ok rt t" and b: "map_of (rt_breakers rt) i = Some b"
    and "probeOne fl now i ok rtt rt = Some (rt', es)"
  shows "registry_ok rt' (persist es t)"
proof -
  have br: "map_of (rt_breakers rt') = (map_of (rt_breakers rt))(i \<mapsto> breaker_step ok b)"
    and es: "persist es t = (if ok then SetHealthy i now t
      else if status_of (breaker_step ok b) \<noteq> status_of b then SetDown i t else t)"
    using assms(3) by (auto simp: probeOne_eq [OF b] update_conv' persist_def)
  have "status_of (breaker_step True b) = StatusHealthy"
    by (simp add: breaker_step_def recordSuccess_def status_of_def isOpen_def)
  moreover have "status_of (breaker_step False b) = status_of b \<or> status_of (breaker_step False b) = StatusDown"
    by (auto simp: breaker_step_def recordFailure_def status_of_def isOpen_def Let_def split: if_splits)
  moreover obtain n where "row_of i t = Some n" "nr_status n = NodeStatus_String (status_of b)"
    using assms(1) b by (auto simp: registry_ok_def)
  ultimately show ?thesis
    using assms(1) unfolding registry_ok_def br es
    by (cases ok) (auto simp: row_of_SetHealthy row_of_SetDown NodeStatus_String_def)
qed

lemma probe_run_persists:
  assumes "registry_ok rt t" and "\<forall>(_, i, _, _) \<in> set ps. map_of (rt_breakers rt) i \<noteq> None"
    and "probe_run fl ps rt = Some (rt', es)"
  shows "registry_ok rt' (persist es t)"
  using assms
proof (induction ps arbitrary: rt t es)
  case Nil
  then show ?case by (simp add: persist_def)
next
  case (Cons p ps)
  obtain now i ok rtt where p: "p = (now, i, ok, rtt)" by (cases p)
  obtain b where b: "map_of (rt_breakers rt) i = Some b" using Cons.prems(2) p by auto
  obtain rt1 es1 es2 where one: "probeOne fl now i ok rtt rt = Some (rt1, es1)" and
    rest: "probe_run fl ps rt1 = Some (rt', es2)" and es: "es = es1 @ es2"
    using Cons.prems(3) p by (auto split: option.splits)
  have "map_of (rt_breakers rt1) = (map_of (rt_breakers rt))(i \<mapsto> breaker_step ok b)"
    using one by (auto simp: probeOne_eq [OF b] update_conv')
  then have "\<forall>(_, j, _, _) \<in> set ps. map_of (rt_breakers rt1) j \<noteq> None" using Cons.prems(2) by auto
  from Cons.IH [OF probe_persists [OF Cons.prems(1) b one] this rest] show ?case by (simp add: es persist_def)
qed


definition sample_registry :: "NodeRecord list" where
  "sample_registry = [\<lparr>nr_id = ''n1'', nr_endpoint = ''e1'', nr_status = ''healthy'', nr_heartbeat = None\<rparr>]"

definition sample_probe_router :: Router where
  "sample_probe_router = (empty_router 0)\<lparr>rt_breakers := [(''n1'', newBreaker)], rt_health := [(''n1'', StatusHealthy)]\<rparr>"


end
