(* ===== verification/Startup.thy ===== *)
theory Startup
  imports Config System Node_Registry
begin

text \<open>
  The start of the processes, \<^verbatim>\<open>cmd/worker/main.go\<close> and the storage part of
  \<^verbatim>\<open>cmd/api/wire_storage.go\<close>: the configuration is read, the connections are opened in order, the
  router is built, its nodes are registered and given their bucket, and the background tasks are
  started. Every failure ends the start. Whether a connection opens, and what a node answers about its
  bucket, are parameters. The theory shows what holds once a process runs.
\<close>

section \<open>Buckets\<close>

text \<open>\<^verbatim>\<open>BucketExists\<close> and \<^verbatim>\<open>MakeBucket\<close> of the object store at an endpoint.\<close>

record 'st bucket_api =
  bk_exists :: "string \<Rightarrow> 'st \<Rightarrow> bool res"
  bk_make :: "string \<Rightarrow> 'st \<Rightarrow> goerr option \<times> 'st"

fun ensure_buckets :: "'st bucket_api \<Rightarrow> Router \<Rightarrow> NodeID list \<Rightarrow> 'st \<Rightarrow> goerr option \<times> 'st" where
  "ensure_buckets bk rt [] st = (None, st)"
| "ensure_buckets bk rt (n # ns) st =
     (case map_of (rt_internal rt) n of
        None \<Rightarrow> (Some (Storage ErrNoMinioClient), st)
      | Some cli \<Rightarrow>
          (case bk_exists bk cli st of
             Inl e \<Rightarrow> (Some e, st)
           | Inr True \<Rightarrow> ensure_buckets bk rt ns st
           | Inr False \<Rightarrow>
               (case bk_make bk cli st of
                  (Some e, st1) \<Rightarrow> (Some e, st1)
                | (None, st1) \<Rightarrow> ensure_buckets bk rt ns st1)))"

definition EnsureBuckets :: "'st bucket_api \<Rightarrow> Router \<Rightarrow> 'st \<Rightarrow> goerr option \<times> 'st" where
  "EnsureBuckets bk rt st = ensure_buckets bk rt (map fst (rt_nodes rt)) st"

section \<open>Starting\<close>

datatype startup_error =
    ConfigFailed config_error | Unavailable string | RouterFailed goerr | BucketsFailed goerr

definition storage_node :: "ConfigNode \<Rightarrow> StorageNode" where
  "storage_node n = \<lparr>sn_id = cn_id n, sn_endpoint = cn_endpoint n, sn_public = cn_public n\<rparr>"

text \<open>The router, its rows and its buckets, as both processes set them up.\<close>

definition start_storage ::
  "(string \<Rightarrow> bool) \<Rightarrow> 'st bucket_api \<Rightarrow> Config \<Rightarrow> NodeRecord list \<times> 'st \<Rightarrow> (startup_error + Router) \<times> NodeRecord list \<times> 'st" where
  "start_storage mkClient bk cfg w =
     (case NewRouter mkClient (map storage_node (cf_StorageNodes cfg)) (cf_StorageSlowThreshold cfg) of
        Inl e \<Rightarrow> (Inl (RouterFailed e), w)
      | Inr rt \<Rightarrow>
          (let t = Bootstrap rt (fst w)
           in case EnsureBuckets bk rt (snd w) of
                (Some e, st) \<Rightarrow> (Inl (BucketsFailed e), t, st)
              | (None, st) \<Rightarrow> (Inr rt, t, st)))"

text \<open>The background tasks; the sweeper with its interval.\<close>

datatype task =
    HealthCheckLoop | WarmupPDFium | ConsumeUploads | PollConsumerLag
  | RunSweeper duration Sweeper | ServeHTTP string

text \<open>The services the worker reaches for in turn, by name: tracing, Postgres, Redis, NATS, JetStream and
  the stream; the first that is unavailable ends the start. The subscription comes after the storage.\<close>

fun connect :: "(string \<Rightarrow> bool) \<Rightarrow> string list \<Rightarrow> startup_error option" where
  "connect up [] = None"
| "connect up (s # ss) = (if up s then connect up ss else Some (Unavailable s))"

definition worker_services :: "string list" where
  "worker_services = [''tracing'', ''postgres'', ''redis'', ''nats'', ''jetstream'', ''stream'']"

definition worker_tasks :: "Config \<Rightarrow> Router \<Rightarrow> task list" where
  "worker_tasks cfg rt =
     [HealthCheckLoop, WarmupPDFium, ConsumeUploads, PollConsumerLag] @
     (if 0 < cf_GCInterval cfg
      then [RunSweeper (cf_GCInterval cfg) (wired_sweeper rt (cf_GCGrace cfg) (cf_TrashRetentionDays cfg))] else []) @
     [ServeHTTP ('':'' @ cf_HTTPPort cfg)]"

definition worker_run ::
  "(string \<Rightarrow> duration option) \<Rightarrow> (string \<Rightarrow> bool) \<Rightarrow> 'st bucket_api \<Rightarrow> (string \<Rightarrow> bool) \<Rightarrow> env \<Rightarrow> NodeRecord list \<times> 'st \<Rightarrow>
     (startup_error + Config \<times> Router \<times> task list) \<times> NodeRecord list \<times> 'st" where
  "worker_run pd mkClient bk up env w =
     (case config_Load pd env of
        Inl e \<Rightarrow> (Inl (ConfigFailed e), w)
      | Inr cfg \<Rightarrow>
          (case connect up worker_services of
             Some e \<Rightarrow> (Inl e, w)
           | None \<Rightarrow>
               (case start_storage mkClient bk cfg w of
                  (Inl e, w1) \<Rightarrow> (Inl e, w1)
                | (Inr rt, w1) \<Rightarrow>
                    if \<not> up ''subscription'' then (Inl (Unavailable ''subscription''), w1)
                    else (Inr (cfg, rt, worker_tasks cfg rt), w1))))"

text \<open>\<^verbatim>\<open>pollConsumerLag\<close>: each tick sets the gauge to the pending count the consumer reports, and leaves it
  when the report fails.\<close>

fun pollConsumerLag :: "nat option list \<Rightarrow> nat option \<Rightarrow> nat option" where
  "pollConsumerLag [] gauge = gauge"
| "pollConsumerLag (info # rest) gauge =
     pollConsumerLag rest (case info of None \<Rightarrow> gauge | Some n \<Rightarrow> Some n)"

text \<open>\<^verbatim>\<open>Sweeper.Run\<close> and \<^verbatim>\<open>HealthCheckLoop\<close> run their body at each tick of the clock until they are cancelled.\<close>

fun sweeper_Run :: "'st minio \<Rightarrow> Sweeper \<Rightarrow> time list \<Rightarrow> db \<times> 'st \<Rightarrow> db \<times> 'st" where
  "sweeper_Run mn s [] w = w"
| "sweeper_Run mn s (now # rest) w = sweeper_Run mn s rest (tick mn s now w)"

section \<open>What holds once the worker runs\<close>

text \<open>What the start relies on: a successful answer is true, making a bucket gives the endpoint its bucket
  and takes none away.\<close>

definition bucket_laws :: "'st bucket_api \<Rightarrow> ('st \<Rightarrow> string \<Rightarrow> bool) \<Rightarrow> bool" where
  "bucket_laws bk has \<longleftrightarrow>
     (\<forall>e st. bk_exists bk e st = Inr True \<longrightarrow> has st e) \<and>
     (\<forall>e st st1. bk_make bk e st = (None, st1) \<longrightarrow> has st1 e) \<and>
     (\<forall>e e1 st x st1. bk_make bk e st = (x, st1) \<longrightarrow> has st e1 \<longrightarrow> has st1 e1)"

lemma ensure_buckets_has:
  assumes laws: "bucket_laws bk has" and "ensure_buckets bk rt ns st = (None, st1)"
  shows "(\<forall>e. has st e \<longrightarrow> has st1 e) \<and> (\<forall>n \<in> set ns. \<exists>cli. map_of (rt_internal rt) n = Some cli \<and> has st1 cli)"
  using assms(2)
proof (induction ns arbitrary: st)
  case (Cons n ns)
  obtain cli where cli: "map_of (rt_internal rt) n = Some cli" using Cons(2) by (cases "map_of (rt_internal rt) n") auto
  obtain x where x: "bk_exists bk cli st = Inr x" using Cons(2) cli by (cases "bk_exists bk cli st") auto
  show ?case
  proof (cases x)
    case True
    then have "has st cli" using laws x by (auto simp: bucket_laws_def)
    moreover have "ensure_buckets bk rt ns st = (None, st1)" using Cons(2) cli x True by simp
    ultimately show ?thesis using Cons(1) [of st] cli by auto
  next
    case False
    then obtain st2 where st2: "bk_make bk cli st = (None, st2)" "ensure_buckets bk rt ns st2 = (None, st1)"
      using Cons(2) cli x by (auto split: prod.splits option.splits)
    then have "has st2 cli" "\<forall>e. has st e \<longrightarrow> has st2 e" using laws unfolding bucket_laws_def by blast+
    then show ?thesis using Cons(1) [OF st2(2)] cli by auto
  qed
qed simp

lemma add_nodes_maps:
  "add_nodes mkClient ns rt = Inr rt1 \<Longrightarrow>
     map_of (rt_nodes rt1) = map_of (rt_nodes rt) ++ map_of (rev (map (\<lambda>n. (sn_id n, n)) ns)) \<and>
     map_of (rt_internal rt1) = map_of (rt_internal rt) ++ map_of (rev (map (\<lambda>n. (sn_id n, sn_endpoint n)) ns))"
proof (induction ns arbitrary: rt)
  case (Cons n ns)
  then show ?case by (auto simp: add_node_def Let_def update_conv' fun_eq_iff map_add_def split: sum.splits if_splits option.splits)
qed simp

lemma add_nodes_distinct: "add_nodes mkClient ns rt = Inr rt1 \<Longrightarrow> distinct (map fst (rt_nodes rt)) \<Longrightarrow> distinct (map fst (rt_nodes rt1))"
  by (induction ns arbitrary: rt) (auto simp: add_node_def Let_def distinct_update split: sum.splits if_splits)

text \<open>A configured node has an entry and a client at the entry's endpoint.\<close>

lemma NewRouter_nodes:
  assumes "NewRouter mkClient ns slow = Inr rt"
  shows "distinct (map fst (rt_nodes rt))" and "n \<in> set ns \<Longrightarrow> \<exists>m. map_of (rt_nodes rt) (sn_id n) = Some m"
    and "map_of (rt_nodes rt) i = Some m \<Longrightarrow> map_of (rt_internal rt) i = Some (sn_endpoint m)"
proof -
  obtain rt0 where rt0: "add_nodes mkClient ns (empty_router slow) = Inr rt0" and rt: "rt = rt0\<lparr>rt_ring := BuildRing (map sn_id ns)\<rparr>"
    using assms by (auto simp: NewRouter_def split: sum.splits)
  have nodes: "map_of (rt_nodes rt) = map_of (rev (map (\<lambda>n. (sn_id n, n)) ns))"
    and internal: "map_of (rt_internal rt) = map_of (rev (map (\<lambda>n. (sn_id n, sn_endpoint n)) ns))"
    using add_nodes_maps [OF rt0] by (simp_all add: rt empty_router_def)
  show "distinct (map fst (rt_nodes rt))" using add_nodes_distinct [OF rt0] by (simp add: rt empty_router_def)
  show "n \<in> set ns \<Longrightarrow> \<exists>m. map_of (rt_nodes rt) (sn_id n) = Some m"
    unfolding nodes by (metis (mono_tags, lifting) image_eqI list.set_map not_None_eq map_of_eq_None_iff set_rev fst_conv)
  have "rev (map (\<lambda>n. (sn_id n, sn_endpoint n)) ns) = map (\<lambda>(i, n). (i, sn_endpoint n)) (rev (map (\<lambda>n. (sn_id n, n)) ns))"
    by (simp add: rev_map)
  then have "map_of (rt_internal rt) i = map_option sn_endpoint (map_of (rt_nodes rt) i)"
    unfolding nodes internal by (simp only: map_of_map comp_apply)
  then show "map_of (rt_nodes rt) i = Some m \<Longrightarrow> map_of (rt_internal rt) i = Some (sn_endpoint m)" by simp
qed

lemma Bootstrap_endpoint:
  "distinct (map fst ns) \<Longrightarrow> map_of ns i = Some m \<Longrightarrow>
     \<exists>r. row_of i (fold (\<lambda>(i, n) t. UpsertNode i (sn_endpoint n) t) ns t) = Some r \<and> nr_endpoint r = sn_endpoint m"
proof (induction ns arbitrary: t)
  case (Cons a ns)
  have keep: "row_of i (fold (\<lambda>(i, n) t. UpsertNode i (sn_endpoint n) t) ns t) = row_of i t" if "i \<notin> fst ` set ns" for t
    using that by (induction ns arbitrary: t) (auto simp: row_of_UpsertNode)
  show ?case
  proof (cases "fst a = i")
    case True
    then have "i \<notin> fst ` set ns" "snd a = m" using Cons.prems by (auto split: if_splits)
    then show ?thesis using True keep by (cases a) (auto simp: row_of_UpsertNode split: option.splits)
  next
    case False
    then show ?thesis using Cons by (cases a) auto
  qed
qed simp

lemma start_storage_ready:
  assumes laws: "bucket_laws bk has" and run: "start_storage mkClient bk cfg (t, st) = (Inr rt, t1, st1)"
    and n: "n \<in> set (cf_StorageNodes cfg)"
  shows "\<exists>cli row. map_of (rt_internal rt) (cn_id n) = Some cli \<and> has st1 cli \<and>
    row_of (cn_id n) t1 = Some row \<and> nr_endpoint row = cli \<and> health_of rt (cn_id n) = StatusHealthy"
proof -
  have rt: "NewRouter mkClient (map storage_node (cf_StorageNodes cfg)) (cf_StorageSlowThreshold cfg) = Inr rt"
    and t1: "t1 = Bootstrap rt t" and ens: "EnsureBuckets bk rt st = (None, st1)"
    using run by (auto simp: start_storage_def Let_def split: sum.splits prod.splits option.splits)
  have sn: "sn_id (storage_node n) = cn_id n" by (simp add: storage_node_def)
  obtain m where m: "map_of (rt_nodes rt) (cn_id n) = Some m"
    using NewRouter_nodes(2) [OF rt, of "storage_node n"] n sn by auto
  then have "cn_id n \<in> set (map fst (rt_nodes rt))" by (force dest: map_of_SomeD)
  then obtain cli where cli: "map_of (rt_internal rt) (cn_id n) = Some cli" "has st1 cli"
    using ensure_buckets_has [OF laws ens [unfolded EnsureBuckets_def]] by blast
  obtain row where row: "row_of (cn_id n) t1 = Some row" "nr_endpoint row = sn_endpoint m"
    using Bootstrap_endpoint [OF NewRouter_nodes(1) [OF rt] m, of t] by (auto simp: t1 Bootstrap_def)
  have "map_of (rt_breakers rt) (cn_id n) = Some newBreaker"
    using NewRouter_spec(4) [OF rt] n sn by (force simp: image_iff)
  then have "health_of rt (cn_id n) = StatusHealthy"
    using router_health [OF NewRouter_spec(2) [OF rt]] by (simp add: status_of_def isOpen_def newBreaker_def)
  with cli row NewRouter_nodes(3) [OF rt m] show ?thesis by auto
qed

text \<open>A worker that runs was started from a valid configuration. Every storage node it is configured with
  has a client, a bucket at its endpoint and a row with that endpoint, and counts as healthy until the
  first probe. It consumes upload events and probes the nodes, and runs the sweeper exactly when the
  configured interval is positive, with the configured grace; up to 106751 days of trash retention
  become exactly that many days.\<close>

theorem worker_ready:
  assumes laws: "bucket_laws bk has"
    and run: "worker_run pd mkClient bk up env (t, st) = (Inr (cfg, rt, tasks), t1, st1)"
  shows "config_Load pd env = Inr cfg \<and>
    (\<forall>n \<in> set (cf_StorageNodes cfg). \<exists>cli row. map_of (rt_internal rt) (cn_id n) = Some cli \<and> has st1 cli \<and>
       row_of (cn_id n) t1 = Some row \<and> nr_endpoint row = cli \<and> health_of rt (cn_id n) = StatusHealthy) \<and>
    {ConsumeUploads, HealthCheckLoop, PollConsumerLag} \<subseteq> set tasks \<and>
    (\<forall>i s. RunSweeper i s \<in> set tasks \<longleftrightarrow> 0 < i \<and> i = cf_GCInterval cfg \<and>
       s = wired_sweeper rt (cf_GCGrace cfg) (cf_TrashRetentionDays cfg)) \<and>
    (0 \<le> cf_TrashRetentionDays cfg \<and> cf_TrashRetentionDays cfg \<le> 106751 \<longrightarrow>
       sw_trashRetention (wired_sweeper rt (cf_GCGrace cfg) (cf_TrashRetentionDays cfg)) =
         cf_TrashRetentionDays cfg * (24 * 3600 * 1000000000))"
proof -
  have cfg: "config_Load pd env = Inr cfg" and start: "start_storage mkClient bk cfg (t, st) = (Inr rt, t1, st1)"
    and tasks: "tasks = worker_tasks cfg rt"
    using run by (auto simp: worker_run_def split: sum.splits option.splits prod.splits if_splits)
  have "in_int64 (days * (24 * 3600 * 1000000000))" if "0 \<le> days \<and> days \<le> 106751" for days :: int
    using that by (simp add: in_int64_def)
  then show ?thesis
    using cfg start_storage_ready [OF laws start] by (auto simp: tasks worker_tasks_def wired_sweeper_def wrap64_id)
qed

definition sample_buckets :: "(string \<Rightarrow> bool) bucket_api" where
  "sample_buckets = \<lparr>bk_exists = (\<lambda>e st. Inr (st e)), bk_make = (\<lambda>e st. (None, st(e := True)))\<rparr>"

definition one_node_env :: env where
  "one_node_env = sample_env(''NIMBUS_STORAGE_NODES'' := ''n1=e1|p1'', ''NIMBUS_MINIO_ACCESS_KEY'' := ''a'', ''NIMBUS_MINIO_SECRET_KEY'' := ''b'')"

lemma one_node_env_loads:
  "\<exists>c. config_Load (\<lambda>_. None) one_node_env = Inr c \<and> cf_StorageNodes c = [\<lparr>cn_id = ''n1'', cn_endpoint = ''e1'', cn_public = ''p1''\<rparr>]"
  by (simp add: config_Load_def one_node_env_def sample_env_def load_rates_def load_limits_def load_durations_def load_step_def getInt_def
    getDuration_def parseStorageNodes_def base_config_def getEnv_def config_validate_def missing_vars_def missing_if_def SplitN2_def
    validateAdminPassword_def char_class_def Let_def ParseInt_def signed_value_def decimal_digit_def TrimSpace_def is_space_def lower_char_def)

theorem worker_ready_witness:
  "\<exists>cfg rt tasks t1 st1. worker_run (\<lambda>_. None) (\<lambda>_. True) sample_buckets (\<lambda>_. True) one_node_env ([], \<lambda>_. False) =
      (Inr (cfg, rt, tasks), t1, st1) \<and>
    (\<exists>cli row. map_of (rt_internal rt) ''n1'' = Some cli \<and> st1 cli \<and> row_of ''n1'' t1 = Some row \<and> nr_endpoint row = cli)"
proof -
  obtain c where c: "config_Load (\<lambda>_. None) one_node_env = Inr c" "cf_StorageNodes c = [\<lparr>cn_id = ''n1'', cn_endpoint = ''e1'', cn_public = ''p1''\<rparr>]"
    using one_node_env_loads by blast
  have "\<exists>rt tasks t1 st1. worker_run (\<lambda>_. None) (\<lambda>_. True) sample_buckets (\<lambda>_. True) one_node_env ([], \<lambda>_. False) =
      (Inr (c, rt, tasks), t1, st1)"
    by (simp add: worker_run_def c worker_services_def start_storage_def NewRouter_def add_node_def storage_node_def empty_router_def
      EnsureBuckets_def sample_buckets_def Let_def)
  then obtain rt tasks t1 st1 where run: "worker_run (\<lambda>_. None) (\<lambda>_. True) sample_buckets (\<lambda>_. True) one_node_env ([], \<lambda>_. False) =
      (Inr (c, rt, tasks), t1, st1)" by blast
  have "bucket_laws sample_buckets (\<lambda>st. st)" by (auto simp: bucket_laws_def sample_buckets_def)
  from worker_ready [OF this run] c(2) run show ?thesis by force
qed

text \<open>Beyond that the retention wraps around: at 213504 days trash is purged after 26 minutes.\<close>

lemma retention_wraps: "sw_trashRetention (wired_sweeper rt grace 213504) = 1526290448384"
  by (simp add: wired_sweeper_def wrap64_def)

text \<open>However often the sweeper ticks, the database stays sound.\<close>

lemma sweeper_Run_inv:
  assumes "minio_laws mn holds" "0 \<le> grace" "db_inv d"
  shows "db_inv (fst (sweeper_Run mn (wired_sweeper rt grace retentionDays) nows (d, st)))"
  using assms(3)
proof (induction nows arbitrary: d st)
  case (Cons now nows)
  obtain d1 st1 where "tick mn (wired_sweeper rt grace retentionDays) now (d, st) = (d1, st1)" by fastforce
  with tick_inv [OF assms(1,2) Cons(2) this] Cons(1) show ?case by simp
qed simp

end
