(* ===== verification/Rate_Limit.thy ===== *)
theory Rate_Limit
  imports Complex_Main Go_Strings Http
begin

text \<open>
  The token-bucket rate limiter, \<^verbatim>\<open>internal/platform/ratelimit\<close>: the Lua script that Redis runs
  atomically per request, the expiry of idle buckets, the middleware and the caller's address. Lua
  numbers are modelled as exact rationals. One clock reading per request serves as the caller's
  \<^verbatim>\<open>time.Now().UnixMilli()\<close> and as Redis' own clock; times are milliseconds.
\<close>

section \<open>The script\<close>

record bucket =
  bk_tokens :: rat
  bk_ts :: int

record Limiter =
  lm_rate :: rat
  lm_burst :: int

definition NewLimiter :: "int \<Rightarrow> int \<Rightarrow> Limiter" where
  "NewLimiter ratePerSecond burst = \<lparr>lm_rate = of_int ratePerSecond, lm_burst = burst\<rparr>"

definition earned :: "rat \<Rightarrow> int \<Rightarrow> int \<Rightarrow> rat" where
  "earned rate ts now = of_int (max 0 (now - ts)) / 1000 * rate"

definition refill :: "rat \<Rightarrow> rat \<Rightarrow> int \<Rightarrow> bucket \<Rightarrow> rat" where
  "refill rate burst now b = min burst (bk_tokens b + earned rate (bk_ts b) now)"

definition script :: "rat \<Rightarrow> rat \<Rightarrow> int \<Rightarrow> bucket option \<Rightarrow> bool \<times> bucket" where
  "script rate burst now state =
     (let b = (case state of None \<Rightarrow> \<lparr>bk_tokens = burst, bk_ts = now\<rparr> | Some b \<Rightarrow> b);
          tokens = refill rate burst now b
      in if 1 \<le> tokens then (True, \<lparr>bk_tokens = tokens - 1, bk_ts = now\<rparr>)
         else (False, \<lparr>bk_tokens = tokens, bk_ts = now\<rparr>))"

definition bucket_ttl :: "Limiter \<Rightarrow> int" where
  "bucket_ttl l = \<lceil>of_int (lm_burst l) / lm_rate l * 2000\<rceil>"

text \<open>The buckets in Redis with the instant each expires.\<close>

type_synonym rl_store = "string \<Rightarrow> (bucket \<times> int) option"

definition rl_key :: "string \<Rightarrow> string" where
  "rl_key key = ''nimbus:rl:'' @ key"

definition live_bucket :: "int \<Rightarrow> rl_store \<Rightarrow> string \<Rightarrow> bucket option" where
  "live_bucket now st key =
     (case st key of None \<Rightarrow> None | Some (b, expires) \<Rightarrow> if expires < now then None else Some b)"

text \<open>\<^verbatim>\<open>Allow\<close>; \<open>up\<close> says whether Redis answers.\<close>

definition Allow :: "Limiter \<Rightarrow> bool \<Rightarrow> int \<Rightarrow> string \<Rightarrow> rl_store \<Rightarrow> bool res \<times> rl_store" where
  "Allow l up now key st =
     (if \<not> up then (Inl IOError, st)
      else
        (let k = rl_key key;
             (allowed, b) = script (lm_rate l) (of_int (lm_burst l)) now (live_bucket now st k)
         in (Inr allowed, st(k \<mapsto> (b, now + bucket_ttl l)))))"

section \<open>The middleware\<close>

definition exempt_paths :: "string list" where
  "exempt_paths = [''/healthz'', ''/readyz'', ''/metrics'']"

text \<open>The answer, or \<open>None\<close> when the request is passed on to the next handler.\<close>

definition rl_Middleware ::
  "Limiter \<Rightarrow> bool \<Rightarrow> int \<Rightarrow> string \<Rightarrow> string \<Rightarrow> rl_store \<Rightarrow> 'a response option \<times> rl_store" where
  "rl_Middleware l up now path key st =
     (if path \<in> set exempt_paths then (None, st)
      else case Allow l up now key st of
          (Inl _, st1) \<Rightarrow> (None, st1)
        | (Inr allowed, st1) \<Rightarrow>
            (if allowed then None else Some (WriteError http_ErrRateLimited ''too many requests, slow down''), st1))"

section \<open>The caller's address\<close>

text \<open>The host part of \<^verbatim>\<open>net.SplitHostPort\<close>, \<open>None\<close> for its errors: the port starts after the last
  colon, a bracketed host must end just before it, a bare host holds no colon, and no other
  bracket may occur.\<close>

definition SplitHostPort :: "string \<Rightarrow> string option" where
  "SplitHostPort s =
     (if CHR '':'' \<notin> set s then None
      else
        (let port = rev (takeWhile (\<lambda>c. c \<noteq> CHR '':'') (rev s));
             before = take (length s - length port - 1) s
         in if hd s = CHR ''['' then
              (if CHR '']'' \<notin> set s then None
               else
                 (let host = takeWhile (\<lambda>c. c \<noteq> CHR '']'') s
                  in if length host + 1 = length before \<and> CHR ''['' \<notin> set (tl s) \<and> CHR '']'' \<notin> set port
                       then Some (tl host) else None))
            else if CHR '':'' \<in> set before \<or> CHR ''['' \<in> set s \<or> CHR '']'' \<in> set s then None
            else Some before))"

definition ClientIP :: "string \<Rightarrow> string \<Rightarrow> string" where
  "ClientIP xff remoteAddr =
     (if xff \<noteq> [] then TrimSpace (last (Split (CHR '','') xff))
      else case SplitHostPort remoteAddr of None \<Rightarrow> remoteAddr | Some host \<Rightarrow> host)"

text \<open>Only the hop the proxy appended counts, whatever the caller wrote before it.\<close>

lemma ClientIP_last_hop:
  assumes "CHR '','' \<notin> set hop"
  shows "ClientIP (p @ CHR '','' # hop) addr = TrimSpace hop"
  using assms by (simp add: ClientIP_def last_Split)

lemma ClientIP_remote_examples:
  "ClientIP [] ''10.0.0.7:5123'' = ''10.0.0.7''" "ClientIP [] ''[::1]:80'' = ''::1''"
  "ClientIP [] ''::1:80'' = ''::1:80''" "ClientIP '' 1.1.1.1, 10.0.0.9 '' ''x'' = ''10.0.0.9''"
  by (simp_all add: ClientIP_def SplitHostPort_def Let_def TrimSpace_def is_space_def)

section \<open>A caller's requests\<close>

text \<open>The decisions of a key's successive requests, and the same run on buckets that never
  expire.\<close>

fun allow_run :: "Limiter \<Rightarrow> string \<Rightarrow> int list \<Rightarrow> rl_store \<Rightarrow> bool list" where
  "allow_run l key [] st = []"
| "allow_run l key (now # ts) st =
     (case Allow l True now key st of
        (r, st1) \<Rightarrow> (r = Inr True) # allow_run l key ts st1)"

fun bucket_run :: "Limiter \<Rightarrow> int list \<Rightarrow> bucket option \<Rightarrow> bool list" where
  "bucket_run l [] state = []"
| "bucket_run l (now # ts) state =
     (case script (lm_rate l) (of_int (lm_burst l)) now state of
        (allowed, b) \<Rightarrow> allowed # bucket_run l ts (Some b))"

definition limiter_ok :: "Limiter \<Rightarrow> bool" where
  "limiter_ok l \<longleftrightarrow> 0 < lm_rate l \<and> 1 \<le> lm_burst l"

definition bucket_ok :: "Limiter \<Rightarrow> bucket \<Rightarrow> bool" where
  "bucket_ok l b \<longleftrightarrow> 0 \<le> bk_tokens b \<and> bk_tokens b \<le> of_int (lm_burst l)"

lemma refill_bounds:
  assumes "limiter_ok l" and "bucket_ok l b"
  shows "0 \<le> refill (lm_rate l) (of_int (lm_burst l)) now b" "refill (lm_rate l) (of_int (lm_burst l)) now b \<le> of_int (lm_burst l)"
proof -
  have "0 \<le> (of_int (lm_burst l) :: rat)" using assms by (simp add: limiter_ok_def)
  moreover have "0 \<le> earned (lm_rate l) (bk_ts b) now" using assms by (simp add: earned_def limiter_ok_def)
  ultimately show "0 \<le> refill (lm_rate l) (of_int (lm_burst l)) now b"
    using assms by (simp add: refill_def bucket_ok_def)
  show "refill (lm_rate l) (of_int (lm_burst l)) now b \<le> of_int (lm_burst l)" by (simp add: refill_def)
qed

text \<open>An idle bucket is full by the time it expires, so forgetting it decides nothing.\<close>

lemma refill_full:
  assumes "limiter_ok l" and "bucket_ok l b" and "bk_ts b + bucket_ttl l < now"
  shows "refill (lm_rate l) (of_int (lm_burst l)) now b = of_int (lm_burst l)"
proof -
  have rate: "0 < lm_rate l" and burst: "0 < (of_int (lm_burst l) :: rat)" using assms(1) by (auto simp: limiter_ok_def)
  have "of_int (lm_burst l) / lm_rate l * 2000 \<le> of_int (bucket_ttl l)" by (simp add: bucket_ttl_def)
  also have "\<dots> \<le> of_int (now - bk_ts b)" using assms(3) by (simp only: of_int_le_iff)
  finally have "of_int (lm_burst l) / lm_rate l * 2000 \<le> (of_int (max 0 (now - bk_ts b)) :: rat)"
    by (meson max.cobounded2 of_int_le_iff order_trans)
  then have "of_int (lm_burst l) / lm_rate l * 2000 * lm_rate l \<le> of_int (max 0 (now - bk_ts b)) * lm_rate l"
    using rate by (intro mult_right_mono) simp_all
  then have "of_int (lm_burst l) * 2 \<le> earned (lm_rate l) (bk_ts b) now"
    using rate by (simp add: earned_def field_simps)
  moreover have "0 \<le> bk_tokens b" using assms(2) by (simp add: bucket_ok_def)
  ultimately have "of_int (lm_burst l) \<le> bk_tokens b + earned (lm_rate l) (bk_ts b) now"
    using burst by linarith
  then show ?thesis unfolding refill_def by (rule min_absorb1)
qed

lemma script_bucket:
  assumes "limiter_ok l" and "case state of None \<Rightarrow> True | Some b \<Rightarrow> bucket_ok l b"
    and "script (lm_rate l) (of_int (lm_burst l)) now state = (allowed, b)"
  shows "bucket_ok l b" "bk_ts b = now"
proof -
  define b0 where "b0 = (case state of None \<Rightarrow> \<lparr>bk_tokens = of_int (lm_burst l), bk_ts = now\<rparr> | Some b \<Rightarrow> b)"
  have "bucket_ok l b0"
    using assms(1,2) by (auto simp: b0_def bucket_ok_def limiter_ok_def split: option.splits)
  from refill_bounds [OF assms(1) this, of now] assms(3)
  show "bucket_ok l b" "bk_ts b = now"
    by (auto simp: script_def Let_def bucket_ok_def b0_def [symmetric] split: if_splits)
qed

section \<open>Expiry is not observable\<close>

definition store_ok :: "Limiter \<Rightarrow> string \<Rightarrow> rl_store \<Rightarrow> bool" where
  "store_ok l key st \<longleftrightarrow>
     (case st (rl_key key) of
        None \<Rightarrow> True
      | Some (b, expires) \<Rightarrow> bucket_ok l b \<and> expires = bk_ts b + bucket_ttl l)"

lemma script_expired:
  assumes "limiter_ok l" and "bucket_ok l b" and "bk_ts b + bucket_ttl l < now"
  shows "script (lm_rate l) (of_int (lm_burst l)) now (Some b) = script (lm_rate l) (of_int (lm_burst l)) now None"
  using refill_full [OF assms] by (simp add: script_def Let_def refill_def [of _ _ _ "\<lparr>bk_tokens = _, bk_ts = _\<rparr>"] earned_def)

lemma script_live_bucket:
  assumes "limiter_ok l" and "store_ok l key st"
  shows "script (lm_rate l) (of_int (lm_burst l)) now (live_bucket now st (rl_key key)) =
    script (lm_rate l) (of_int (lm_burst l)) now (map_option fst (st (rl_key key)))"
  using assms by (auto simp: live_bucket_def store_ok_def script_expired split: option.splits)

lemma allow_run_bucket_run:
  assumes "limiter_ok l" and "store_ok l key st"
  shows "allow_run l key ts st = bucket_run l ts (map_option fst (st (rl_key key)))"
  using assms(2)
proof (induction ts arbitrary: st)
  case (Cons now ts)
  define state where "state = map_option fst (st (rl_key key))"
  obtain allowed b where s: "script (lm_rate l) (of_int (lm_burst l)) now state = (allowed, b)" by fastforce
  have "case state of None \<Rightarrow> True | Some b \<Rightarrow> bucket_ok l b"
    using Cons.prems by (auto simp: state_def store_ok_def split: option.splits)
  from script_bucket [OF assms(1) this s]
  have "store_ok l key (st(rl_key key \<mapsto> (b, now + bucket_ttl l)))" by (simp add: store_ok_def)
  from Cons.IH [OF this] s script_live_bucket [OF assms(1) Cons.prems, of now]
  show ?case by (simp add: Allow_def Let_def state_def fun_upd_def)
qed simp

section \<open>The rate bound\<close>

lemma script_spends:
  assumes "limiter_ok l" and "bucket_ok l b" and "bk_ts b \<le> now"
    and "script (lm_rate l) (of_int (lm_burst l)) now (Some b) = (allowed, b')"
  shows "(if allowed then 1 else 0) + bk_tokens b' \<le> bk_tokens b + of_int (now - bk_ts b) / 1000 * lm_rate l"
proof -
  have "refill (lm_rate l) (of_int (lm_burst l)) now b \<le> bk_tokens b + of_int (now - bk_ts b) / 1000 * lm_rate l"
    using assms(3) by (simp add: refill_def earned_def)
  with assms(4) show ?thesis by (auto simp: script_def Let_def split: if_splits)
qed

lemma bucket_run_bound:
  assumes "limiter_ok l" and "bucket_ok l b" and "sorted (bk_ts b # ts)"
  shows "of_nat (length (filter (\<lambda>a. a) (bucket_run l ts (Some b)))) \<le>
    bk_tokens b + of_int (last (bk_ts b # ts) - bk_ts b) / 1000 * lm_rate l"
  using assms(2,3)
proof (induction ts arbitrary: b)
  case Nil
  then show ?case by (simp add: bucket_ok_def)
next
  case (Cons now ts)
  obtain allowed b' where s: "script (lm_rate l) (of_int (lm_burst l)) now (Some b) = (allowed, b')" by fastforce
  have b': "bucket_ok l b'" "bk_ts b' = now" using script_bucket [OF assms(1) _ s] Cons.prems(1) by simp_all
  have "of_nat (length (filter (\<lambda>a. a) (bucket_run l ts (Some b')))) \<le>
      bk_tokens b' + of_int (last (now # ts) - now) / 1000 * lm_rate l"
    using Cons.IH [OF b'(1)] Cons.prems(2) by (simp add: b'(2))
  moreover have "(if allowed then 1 else 0) + bk_tokens b' \<le> bk_tokens b + of_int (now - bk_ts b) / 1000 * lm_rate l"
    using script_spends [OF assms(1) Cons.prems(1) _ s] Cons.prems(2) by simp
  moreover have "of_int (last (now # ts) - now) / 1000 * lm_rate l + of_int (now - bk_ts b) / 1000 * lm_rate l =
      of_int (last (bk_ts b # now # ts) - bk_ts b) / 1000 * lm_rate l"
    by (simp add: field_simps)
  ultimately show ?case by (auto simp: s split: if_splits)
qed

lemma script_ready:
  assumes "limiter_ok l" and "bucket_ok l b" and "1000 \<le> of_int (now - bk_ts b) * lm_rate l"
  shows "fst (script (lm_rate l) (of_int (lm_burst l)) now (Some b))"
proof -
  have "of_int (now - bk_ts b) * lm_rate l \<le> of_int (max 0 (now - bk_ts b)) * lm_rate l"
    using assms(1) by (intro mult_right_mono) (auto simp only: of_int_le_iff limiter_ok_def)
  then have "1 \<le> earned (lm_rate l) (bk_ts b) now" using assms(3) by (simp add: earned_def)
  then have "1 \<le> refill (lm_rate l) (of_int (lm_burst l)) now b"
    using assms(1,2) by (simp add: refill_def bucket_ok_def limiter_ok_def)
  then show ?thesis by (simp add: script_def Let_def)
qed

lemma bucket_run_ready:
  assumes "limiter_ok l" and "bucket_ok l b" and "i < length ts"
    and "1000 \<le> of_int (ts ! i - (bk_ts b # ts) ! i) * lm_rate l"
  shows "bucket_run l ts (Some b) ! i"
  using assms(2-)
proof (induction ts arbitrary: b i)
  case (Cons now ts)
  obtain allowed b' where s: "script (lm_rate l) (of_int (lm_burst l)) now (Some b) = (allowed, b')" by fastforce
  have b': "bucket_ok l b'" "bk_ts b' = now" using script_bucket [OF assms(1) _ s] Cons.prems(1) by simp_all
  show ?case
  proof (cases i)
    case 0
    then show ?thesis using script_ready [OF assms(1) Cons.prems(1), of now] Cons.prems(3) s by simp
  next
    case (Suc j)
    then show ?thesis using Cons.IH [OF b'(1), of j] Cons.prems(2,3) s b'(2) by simp
  qed
qed simp

text \<open>The bound of a window of requests, from any state of the bucket.\<close>

lemma bucket_run_window:
  assumes "limiter_ok l" and "case state of None \<Rightarrow> True | Some b \<Rightarrow> bucket_ok l b" and "sorted (t # ts)"
  shows "of_nat (length (filter (\<lambda>a. a) (bucket_run l (t # ts) state))) \<le>
    of_int (lm_burst l) + of_int (last (t # ts) - t) / 1000 * lm_rate l"
proof -
  obtain allowed b where s: "script (lm_rate l) (of_int (lm_burst l)) t state = (allowed, b)" by fastforce
  have b: "bucket_ok l b" "bk_ts b = t" using script_bucket [OF assms(1,2) s] by simp_all
  have "of_nat (length (filter (\<lambda>a. a) (bucket_run l ts (Some b)))) \<le>
      bk_tokens b + of_int (last (t # ts) - t) / 1000 * lm_rate l"
    using bucket_run_bound [OF assms(1) b(1), of ts] assms(3) by (simp add: b(2))
  moreover have "(if allowed then 1 else 0) + bk_tokens b \<le> of_int (lm_burst l)"
    using s by (auto simp: script_def Let_def refill_def split: if_splits)
  ultimately show ?thesis by (auto simp: s split: if_splits)
qed

lemma rate_limit_bound_facts:
  assumes "limiter_ok l" and "store_ok l key st" and "sorted (t # ts)"
  shows "of_nat (length (filter (\<lambda>a. a) (allow_run l key (t # ts) st))) \<le>
      of_int (lm_burst l) + of_int (last (t # ts) - t) / 1000 * lm_rate l"
    and "allow_run l key (t # ts) st = bucket_run l (t # ts) (map_option fst (st (rl_key key)))"
    and "\<forall>i < length ts. 1000 \<le> of_int (ts ! i - (t # ts) ! i) * lm_rate l \<longrightarrow> allow_run l key (t # ts) st ! Suc i"
proof -
  let ?state = "map_option fst (st (rl_key key))"
  have ok: "case ?state of None \<Rightarrow> True | Some b \<Rightarrow> bucket_ok l b"
    using assms(2) by (auto simp: store_ok_def split: option.splits)
  show run: "allow_run l key (t # ts) st = bucket_run l (t # ts) ?state"
    by (rule allow_run_bucket_run [OF assms(1,2)])
  show "of_nat (length (filter (\<lambda>a. a) (allow_run l key (t # ts) st))) \<le>
      of_int (lm_burst l) + of_int (last (t # ts) - t) / 1000 * lm_rate l"
    unfolding run by (rule bucket_run_window [OF assms(1) ok assms(3)])
  obtain allowed b where s: "script (lm_rate l) (of_int (lm_burst l)) t ?state = (allowed, b)" by fastforce
  have b: "bucket_ok l b" "bk_ts b = t" using script_bucket [OF assms(1) ok s] by simp_all
  show "\<forall>i < length ts. 1000 \<le> of_int (ts ! i - (t # ts) ! i) * lm_rate l \<longrightarrow> allow_run l key (t # ts) st ! Suc i"
    unfolding run using bucket_run_ready [OF assms(1) b(1)] by (simp add: s b(2))
qed

text \<open>C31: Whatever other windows came before, in any window of a key's requests at non-decreasing times
  at most \<^verbatim>\<open>burst\<close> requests plus \<^verbatim>\<open>rate\<close> per elapsed second are let through; the clean-up of idle
  buckets makes no difference to a single decision; and a request that keeps the distance
  \<open>1/rate\<close> to the one before it is always let through.\<close>

theorem rate_limit_bound:
  assumes "limiter_ok l" and "store_ok l key st" and "sorted (t # ts)"
  shows "of_nat (length (filter (\<lambda>a. a) (allow_run l key (t # ts) st))) \<le>
      of_int (lm_burst l) + of_int (last (t # ts) - t) / 1000 * lm_rate l \<and>
    allow_run l key (t # ts) st = bucket_run l (t # ts) (map_option fst (st (rl_key key))) \<and>
    (\<forall>i < length ts. 1000 \<le> of_int (ts ! i - (t # ts) ! i) * lm_rate l \<longrightarrow> allow_run l key (t # ts) st ! Suc i)"
  using rate_limit_bound_facts [OF assms] by blast

theorem rate_limit_bound_witness:
  "of_nat (length (filter (\<lambda>a. a) (allow_run (NewLimiter 1 2) ''k'' [0, 10, 20, 1500] (\<lambda>_. None)))) \<le> (7 / 2 :: rat) \<and>
   allow_run (NewLimiter 1 2) ''k'' [0, 10, 20, 1500] (\<lambda>_. None) ! 3"
proof -
  have ok: "limiter_ok (NewLimiter 1 2)" "store_ok (NewLimiter 1 2) ''k'' (\<lambda>_. None)"
    by (simp_all add: limiter_ok_def NewLimiter_def store_ok_def)
  have srt: "sorted (0 # [10, 20, 1500 :: int])" by simp
  note bound = rate_limit_bound [OF ok srt, THEN conjunct1] rate_limit_bound [OF ok srt, THEN conjunct2, THEN conjunct2]
  have "of_nat (length (filter (\<lambda>a. a) (allow_run (NewLimiter 1 2) ''k'' [0, 10, 20, 1500] (\<lambda>_. None)))) \<le> (7 / 2 :: rat)"
    using bound(1) by (simp del: allow_run.simps add: NewLimiter_def)
  moreover have "\<forall>i < length [10, 20, 1500 :: int]. 1000 \<le> of_int ([10, 20, 1500] ! i - [0, 10, 20, 1500] ! i) * lm_rate (NewLimiter 1 2) \<longrightarrow>
      allow_run (NewLimiter 1 2) ''k'' [0, 10, 20, 1500] (\<lambda>_. None) ! Suc i"
    by (rule bound(2))
  then have "allow_run (NewLimiter 1 2) ''k'' [0, 10, 20, 1500] (\<lambda>_. None) ! 3"
    by (simp del: allow_run.simps add: NewLimiter_def) (drule spec [of _ 2], simp)
  ultimately show ?thesis ..
qed

text \<open>Buckets of different keys are independent.\<close>

lemma Allow_other_key:
  "key' \<noteq> key \<Longrightarrow> live_bucket now' (snd (Allow l up now key st)) (rl_key key') = live_bucket now' st (rl_key key')"
  by (auto simp: Allow_def Let_def live_bucket_def rl_key_def split: prod.splits)

text \<open>The time stamp of a bucket is set back by a request from a replica whose clock is behind, so
  the time in between is refilled again: with two clocks one second apart a bucket of one token
  lets every other request through, however fast they come.\<close>

lemma skewed_clocks_refill:
  "allow_run (NewLimiter 1 1) ''k'' [1000, 0, 1000, 0, 1000] (\<lambda>_. None) = [True, False, True, False, True]"
  by (simp add: Allow_def Let_def script_def refill_def earned_def live_bucket_def NewLimiter_def bucket_ttl_def)

end
