(* ===== verification/Server.thy ===== *)
theory Server
  imports Encoding Http Go_Strings
begin

text \<open>
  The health endpoints of \<^verbatim>\<open>internal/platform/httpserver\<close> and the identifiers of
  \<^verbatim>\<open>internal/platform/idgen\<close>: the readiness report, and UUIDs from random bytes.
\<close>

section \<open>Health\<close>

definition Liveness :: "string response" where
  "Liveness = WriteJSON 200 ''ok''"

definition statusLabel :: "bool \<Rightarrow> string" where
  "statusLabel ok = (if ok then ''ready'' else ''not_ready'')"

text \<open>The checks with their error texts; \<open>None\<close> is a check that passed.\<close>

definition readiness :: "(string \<times> string option) list \<Rightarrow> (string \<times> (string \<times> string) list) response" where
  "readiness checks =
     (let allOK = list_all (\<lambda>(_, e). e = None) checks
      in WriteJSON (if allOK then 200 else 503)
           (statusLabel allOK, map (\<lambda>(n, e). (n, case e of None \<Rightarrow> ''ok'' | Some t \<Rightarrow> t)) checks))"

section \<open>UUIDs\<close>

unbundle bit_operations_syntax

definition NewUUID :: "byte list \<Rightarrow> string" where
  "NewUUID r =
     (let b = r[6 := ((r ! 6) AND 15) OR 64, 8 := ((r ! 8) AND 63) OR 128]
      in hex_encode (take 4 b) @ ''-'' @ hex_encode (take 2 (drop 4 b)) @ ''-'' @ hex_encode (take 2 (drop 6 b)) @ ''-'' @
         hex_encode (take 2 (drop 8 b)) @ ''-'' @ hex_encode (drop 10 b))"

lemma length_hex_encode [simp]: "length (hex_encode bs) = 2 * length bs"
  by (induction bs) auto

lemma version_nibble: "unat ((x AND 15) OR 64 :: byte) div 16 = 4"
proof -
  have "drop_bit 4 ((x AND 15) OR 64) = (4 :: byte)"
    by (simp add: drop_bit_and drop_bit_or)
  then have "unat (drop_bit 4 ((x AND 15) OR 64 :: byte)) = 4" by simp
  then show ?thesis by (simp add: drop_bit_eq_div unat_div_distrib)
qed

lemma variant_nibble: "unat ((x AND 63) OR 128 :: byte) div 16 \<in> {8, 9, 10, 11}"
proof -
  have "drop_bit 6 ((x AND 63) OR 128) = (2 :: byte)"
    by (simp add: drop_bit_and drop_bit_or)
  then have "unat (drop_bit 6 ((x AND 63) OR 128 :: byte)) = 2" by simp
  then have "unat ((x AND 63) OR 128 :: byte) div 64 = 2" by (simp add: drop_bit_eq_div unat_div_distrib)
  then have "8 \<le> unat ((x AND 63) OR 128 :: byte) div 16" "unat ((x AND 63) OR 128 :: byte) div 16 \<le> 11"
    by linarith+
  then show ?thesis by auto
qed

lemma list_of_16:
  assumes "length r = 16"
  obtains a b c d e f g h i j k l m n p q where "r = [a, b, c, d, e, f, g, h, i, j, k, l, m, n, p, q]"
proof -
  have "take 16 r = r" using assms by simp
  with assms that show ?thesis
    by (auto simp: length_Suc_conv numeral_eq_Suc)
qed

text \<open>C40: the identifiers are version-4 UUIDs. From any sixteen random bytes \<^verbatim>\<open>NewUUID\<close> gives 36
  characters with dashes at the four positions of the \<^verbatim>\<open>uuid\<close> text form, the version digit 4 and a
  variant digit among 8, 9, a, b.
\<close>

theorem NewUUID_version4:
  assumes "length r = 16"
  shows "length (NewUUID r) = 36
    \<and> NewUUID r ! 8 = CHR ''-'' \<and> NewUUID r ! 13 = CHR ''-'' \<and> NewUUID r ! 18 = CHR ''-'' \<and> NewUUID r ! 23 = CHR ''-''
    \<and> NewUUID r ! 14 = CHR ''4'' \<and> NewUUID r ! 19 \<in> set ''89ab''"
proof -
  obtain a b c d e f g h i j k l m n p q where r: "r = [a, b, c, d, e, f, g, h, i, j, k, l, m, n, p, q]"
    by (rule list_of_16 [OF assms])
  show ?thesis unfolding r NewUUID_def
    using version_nibble [of g] variant_nibble [of i]
    by (elim insertE emptyE) (simp_all add: hex_alphabet_def)
qed

theorem NewUUID_version4_witness:
  "NewUUID (replicate 16 255) ! 14 = CHR ''4'' \<and> length (NewUUID (replicate 16 255)) = 36"
  using NewUUID_version4 [of "replicate 16 255"] by simp

end
