(* ===== verification/Api_Routes.thy ===== *)
theory Api_Routes
  imports Auth_Laws Upload_Session Rate_Limit Server
begin

text \<open>
  The API process as \<^verbatim>\<open>cmd/api\<close> wires it: the table of routes of \<^verbatim>\<open>main.go\<close> and the
  \<^verbatim>\<open>wire_*.go\<close> files, Go's pattern matching on it, the middlewares each route is wrapped in, and the
  global rate limiter. Each \<^verbatim>\<open>RequireRole\<close> instance keeps its own cache across requests. The
  theory shows that the patterns never overlap and that a handler only runs for a caller with
  the rights its route asks for.
\<close>

section \<open>The routes\<close>

text \<open>The handlers, by the package that declares them.\<close>

datatype platform_endpoint =
    EpLiveness | EpReadiness | EpMetrics

datatype auth_endpoint =
    EpRegister | EpLogin | EpTOTPLogin | EpRefresh | EpLogout | EpForgotPassword
  | EpResetPassword | EpMe | EpTOTPStatus | EpTOTPSetup | EpTOTPConfirm | EpTOTPDisable

datatype org_endpoint =
    EpOrgCreate | EpOrgListMine | EpListMembers
  | EpAddMember | EpRemoveMember | EpUsage | EpSetQuota

datatype admin_endpoint =
    EpListNodes | EpRing | EpRepair | EpDLQList | EpDLQRetry

datatype folder_endpoint =
    EpFolderCreate | EpFolderListRoot | EpFolderListTrashed | EpFolderListChildren
  | EpFolderPath | EpFolderUpdate | EpFolderDelete | EpFolderRestore

datatype file_endpoint =
    EpFileListTrashed | EpFileUpdate | EpFileDelete | EpFileRestore
  | EpFilePurge | EpThumbnail | EpListVersions | EpDownloadPlan | EpRestoreVersion

datatype feed_endpoint =
    EpSearch | EpActivityList | EpStream

datatype upload_endpoint =
    EpInitUpload | EpCheckChunks | EpInitChunk | EpCommitChunk | EpComplete

datatype sharing_endpoint =
    EpShareCreate | EpShareCreateFolder | EpShareCreateBundle
  | EpShareResolve | EpShareChildren | EpShareDownloadPlan | EpShareDelete

datatype endpoint =
    PlatformHandler platform_endpoint
  | AuthHandler auth_endpoint
  | OrgHandler org_endpoint
  | AdminHandler admin_endpoint
  | FolderHandler folder_endpoint
  | FileHandler file_endpoint
  | FeedHandler feed_endpoint
  | UploadHandler upload_endpoint
  | SharingHandler sharing_endpoint

text \<open>The middlewares a route is wrapped in, outermost first.\<close>

datatype gate_kind =
    GLoginLimit | GAuth | GMember | GOrgAdmin | GPlatformAdmin | GFolder | GFile | GUpload

record route =
  ro_method :: string
  ro_pattern :: string
  ro_gates :: "gate_kind list"
  ro_endpoint :: endpoint

definition main_routes :: "route list" where
  "main_routes =
     [\<lparr>ro_method = ''GET'', ro_pattern = ''/healthz'', ro_gates = [], ro_endpoint = PlatformHandler EpLiveness\<rparr>,
      \<lparr>ro_method = ''GET'', ro_pattern = ''/readyz'', ro_gates = [], ro_endpoint = PlatformHandler EpReadiness\<rparr>,
      \<lparr>ro_method = ''GET'', ro_pattern = ''/metrics'', ro_gates = [], ro_endpoint = PlatformHandler EpMetrics\<rparr>]"

text \<open>\<^verbatim>\<open>wireAuth\<close>; the login limiter is wired when its configured rate is positive.\<close>

definition wireAuth :: "bool \<Rightarrow> route list" where
  "wireAuth loginLimited =
     [\<lparr>ro_method = ''POST'', ro_pattern = ''/v1/auth/register'', ro_gates = [], ro_endpoint = AuthHandler EpRegister\<rparr>,
      \<lparr>ro_method = ''POST'', ro_pattern = ''/v1/auth/login'', ro_gates = if loginLimited then [GLoginLimit] else [], ro_endpoint = AuthHandler EpLogin\<rparr>,
      \<lparr>ro_method = ''POST'', ro_pattern = ''/v1/auth/login/totp'', ro_gates = if loginLimited then [GLoginLimit] else [], ro_endpoint = AuthHandler EpTOTPLogin\<rparr>,
      \<lparr>ro_method = ''POST'', ro_pattern = ''/v1/auth/refresh'', ro_gates = [], ro_endpoint = AuthHandler EpRefresh\<rparr>,
      \<lparr>ro_method = ''POST'', ro_pattern = ''/v1/auth/logout'', ro_gates = [], ro_endpoint = AuthHandler EpLogout\<rparr>,
      \<lparr>ro_method = ''POST'', ro_pattern = ''/v1/auth/password/forgot'', ro_gates = [], ro_endpoint = AuthHandler EpForgotPassword\<rparr>,
      \<lparr>ro_method = ''POST'', ro_pattern = ''/v1/auth/password/reset'', ro_gates = [], ro_endpoint = AuthHandler EpResetPassword\<rparr>,
      \<lparr>ro_method = ''GET'', ro_pattern = ''/v1/auth/me'', ro_gates = [GAuth], ro_endpoint = AuthHandler EpMe\<rparr>,
      \<lparr>ro_method = ''GET'', ro_pattern = ''/v1/auth/totp'', ro_gates = [GAuth], ro_endpoint = AuthHandler EpTOTPStatus\<rparr>,
      \<lparr>ro_method = ''POST'', ro_pattern = ''/v1/auth/totp/setup'', ro_gates = [GAuth], ro_endpoint = AuthHandler EpTOTPSetup\<rparr>,
      \<lparr>ro_method = ''POST'', ro_pattern = ''/v1/auth/totp/confirm'', ro_gates = [GAuth], ro_endpoint = AuthHandler EpTOTPConfirm\<rparr>,
      \<lparr>ro_method = ''DELETE'', ro_pattern = ''/v1/auth/totp'', ro_gates = [GAuth], ro_endpoint = AuthHandler EpTOTPDisable\<rparr>,
      \<lparr>ro_method = ''POST'', ro_pattern = ''/v1/orgs'', ro_gates = [GAuth], ro_endpoint = OrgHandler EpOrgCreate\<rparr>,
      \<lparr>ro_method = ''GET'', ro_pattern = ''/v1/orgs'', ro_gates = [GAuth], ro_endpoint = OrgHandler EpOrgListMine\<rparr>,
      \<lparr>ro_method = ''GET'', ro_pattern = ''/v1/orgs/{orgId}/members'', ro_gates = [GAuth, GMember], ro_endpoint = OrgHandler EpListMembers\<rparr>,
      \<lparr>ro_method = ''POST'', ro_pattern = ''/v1/orgs/{orgId}/members'', ro_gates = [GAuth, GOrgAdmin], ro_endpoint = OrgHandler EpAddMember\<rparr>,
      \<lparr>ro_method = ''DELETE'', ro_pattern = ''/v1/orgs/{orgId}/members/{userId}'', ro_gates = [GAuth, GOrgAdmin], ro_endpoint = OrgHandler EpRemoveMember\<rparr>,
      \<lparr>ro_method = ''GET'', ro_pattern = ''/v1/orgs/{orgId}/usage'', ro_gates = [GAuth, GOrgAdmin], ro_endpoint = OrgHandler EpUsage\<rparr>,
      \<lparr>ro_method = ''PATCH'', ro_pattern = ''/v1/orgs/{orgId}/quota'', ro_gates = [GAuth, GPlatformAdmin], ro_endpoint = OrgHandler EpSetQuota\<rparr>]"

definition wireStorage :: "route list" where
  "wireStorage =
     [\<lparr>ro_method = ''GET'', ro_pattern = ''/v1/admin/nodes'', ro_gates = [GAuth, GPlatformAdmin], ro_endpoint = AdminHandler EpListNodes\<rparr>,
      \<lparr>ro_method = ''GET'', ro_pattern = ''/v1/admin/ring'', ro_gates = [GAuth, GPlatformAdmin], ro_endpoint = AdminHandler EpRing\<rparr>,
      \<lparr>ro_method = ''POST'', ro_pattern = ''/v1/admin/nodes/{nodeId}/repair'', ro_gates = [GAuth, GPlatformAdmin], ro_endpoint = AdminHandler EpRepair\<rparr>,
      \<lparr>ro_method = ''GET'', ro_pattern = ''/v1/admin/dlq'', ro_gates = [GAuth, GPlatformAdmin], ro_endpoint = AdminHandler EpDLQList\<rparr>,
      \<lparr>ro_method = ''POST'', ro_pattern = ''/v1/admin/dlq/{id}/retry'', ro_gates = [GAuth, GPlatformAdmin], ro_endpoint = AdminHandler EpDLQRetry\<rparr>]"

definition wireFiles :: "route list" where
  "wireFiles =
     [\<lparr>ro_method = ''POST'', ro_pattern = ''/v1/orgs/{orgId}/folders'', ro_gates = [GAuth, GMember], ro_endpoint = FolderHandler EpFolderCreate\<rparr>,
      \<lparr>ro_method = ''GET'', ro_pattern = ''/v1/orgs/{orgId}/folders'', ro_gates = [GAuth, GMember], ro_endpoint = FolderHandler EpFolderListRoot\<rparr>,
      \<lparr>ro_method = ''GET'', ro_pattern = ''/v1/orgs/{orgId}/trash/folders'', ro_gates = [GAuth, GMember], ro_endpoint = FolderHandler EpFolderListTrashed\<rparr>,
      \<lparr>ro_method = ''GET'', ro_pattern = ''/v1/orgs/{orgId}/trash/files'', ro_gates = [GAuth, GMember], ro_endpoint = FileHandler EpFileListTrashed\<rparr>,
      \<lparr>ro_method = ''GET'', ro_pattern = ''/v1/folders/{folderId}/children'', ro_gates = [GAuth, GFolder], ro_endpoint = FolderHandler EpFolderListChildren\<rparr>,
      \<lparr>ro_method = ''GET'', ro_pattern = ''/v1/folders/{folderId}/path'', ro_gates = [GAuth, GFolder], ro_endpoint = FolderHandler EpFolderPath\<rparr>,
      \<lparr>ro_method = ''PATCH'', ro_pattern = ''/v1/folders/{folderId}'', ro_gates = [GAuth, GFolder], ro_endpoint = FolderHandler EpFolderUpdate\<rparr>,
      \<lparr>ro_method = ''DELETE'', ro_pattern = ''/v1/folders/{folderId}'', ro_gates = [GAuth, GFolder], ro_endpoint = FolderHandler EpFolderDelete\<rparr>,
      \<lparr>ro_method = ''POST'', ro_pattern = ''/v1/folders/{folderId}/restore'', ro_gates = [GAuth], ro_endpoint = FolderHandler EpFolderRestore\<rparr>,
      \<lparr>ro_method = ''PATCH'', ro_pattern = ''/v1/files/{fileId}'', ro_gates = [GAuth, GFile], ro_endpoint = FileHandler EpFileUpdate\<rparr>,
      \<lparr>ro_method = ''DELETE'', ro_pattern = ''/v1/files/{fileId}'', ro_gates = [GAuth, GFile], ro_endpoint = FileHandler EpFileDelete\<rparr>,
      \<lparr>ro_method = ''POST'', ro_pattern = ''/v1/files/{fileId}/restore'', ro_gates = [GAuth], ro_endpoint = FileHandler EpFileRestore\<rparr>,
      \<lparr>ro_method = ''DELETE'', ro_pattern = ''/v1/files/{fileId}/purge'', ro_gates = [GAuth], ro_endpoint = FileHandler EpFilePurge\<rparr>,
      \<lparr>ro_method = ''GET'', ro_pattern = ''/v1/files/{fileId}/thumbnail'', ro_gates = [GAuth, GFile], ro_endpoint = FileHandler EpThumbnail\<rparr>,
      \<lparr>ro_method = ''GET'', ro_pattern = ''/v1/files/{fileId}/versions'', ro_gates = [GAuth, GFile], ro_endpoint = FileHandler EpListVersions\<rparr>,
      \<lparr>ro_method = ''GET'', ro_pattern = ''/v1/files/{fileId}/versions/{versionId}/download-plan'', ro_gates = [GAuth, GFile], ro_endpoint = FileHandler EpDownloadPlan\<rparr>,
      \<lparr>ro_method = ''POST'', ro_pattern = ''/v1/files/{fileId}/versions/{versionId}/restore'', ro_gates = [GAuth, GFile], ro_endpoint = FileHandler EpRestoreVersion\<rparr>,
      \<lparr>ro_method = ''GET'', ro_pattern = ''/v1/orgs/{orgId}/search'', ro_gates = [GAuth, GMember], ro_endpoint = FeedHandler EpSearch\<rparr>]"

definition wireActivity :: "route list" where
  "wireActivity =
     [\<lparr>ro_method = ''GET'', ro_pattern = ''/v1/orgs/{orgId}/activity'', ro_gates = [GAuth, GMember], ro_endpoint = FeedHandler EpActivityList\<rparr>,
      \<lparr>ro_method = ''GET'', ro_pattern = ''/v1/orgs/{orgId}/events'', ro_gates = [GAuth, GMember], ro_endpoint = FeedHandler EpStream\<rparr>]"

definition wireUpload :: "route list" where
  "wireUpload =
     [\<lparr>ro_method = ''POST'', ro_pattern = ''/v1/uploads'', ro_gates = [GAuth], ro_endpoint = UploadHandler EpInitUpload\<rparr>,
      \<lparr>ro_method = ''POST'', ro_pattern = ''/v1/uploads/{uploadId}/chunks/check'', ro_gates = [GAuth, GUpload], ro_endpoint = UploadHandler EpCheckChunks\<rparr>,
      \<lparr>ro_method = ''POST'', ro_pattern = ''/v1/uploads/{uploadId}/chunks/{hash}/init'', ro_gates = [GAuth, GUpload], ro_endpoint = UploadHandler EpInitChunk\<rparr>,
      \<lparr>ro_method = ''POST'', ro_pattern = ''/v1/uploads/{uploadId}/chunks/{hash}/commit'', ro_gates = [GAuth, GUpload], ro_endpoint = UploadHandler EpCommitChunk\<rparr>,
      \<lparr>ro_method = ''POST'', ro_pattern = ''/v1/uploads/{uploadId}/complete'', ro_gates = [GAuth, GUpload], ro_endpoint = UploadHandler EpComplete\<rparr>,
      \<lparr>ro_method = ''POST'', ro_pattern = ''/v1/files/{fileId}/share'', ro_gates = [GAuth, GFile], ro_endpoint = SharingHandler EpShareCreate\<rparr>,
      \<lparr>ro_method = ''POST'', ro_pattern = ''/v1/folders/{folderId}/share'', ro_gates = [GAuth, GFolder], ro_endpoint = SharingHandler EpShareCreateFolder\<rparr>,
      \<lparr>ro_method = ''POST'', ro_pattern = ''/v1/orgs/{orgId}/shares'', ro_gates = [GAuth, GMember], ro_endpoint = SharingHandler EpShareCreateBundle\<rparr>,
      \<lparr>ro_method = ''GET'', ro_pattern = ''/v1/shares/{token}'', ro_gates = [], ro_endpoint = SharingHandler EpShareResolve\<rparr>,
      \<lparr>ro_method = ''GET'', ro_pattern = ''/v1/shares/{token}/folders/{folderId}'', ro_gates = [], ro_endpoint = SharingHandler EpShareChildren\<rparr>,
      \<lparr>ro_method = ''GET'', ro_pattern = ''/v1/shares/{token}/files/{fileId}/download-plan'', ro_gates = [], ro_endpoint = SharingHandler EpShareDownloadPlan\<rparr>,
      \<lparr>ro_method = ''DELETE'', ro_pattern = ''/v1/shares/{token}'', ro_gates = [GAuth], ro_endpoint = SharingHandler EpShareDelete\<rparr>]"

definition routes :: "bool \<Rightarrow> route list" where
  "routes loginLimited =
     main_routes @ wireAuth loginLimited @ wireStorage @ wireFiles @ wireActivity @ wireUpload"

section \<open>Matching requests\<close>

text \<open>
  \<^verbatim>\<open>aq_path\<close> holds the segments of the escaped path; \<^verbatim>\<open>http.ServeMux\<close> cleans the escaped path and
  matches the unescaped segments. A trailing slash is a last empty segment. Absent headers are empty.
\<close>

record api_request =
  aq_method :: string
  aq_path :: "string list"
  aq_authorization :: string
  aq_forwardedFor :: string
  aq_remoteAddr :: string

datatype seg = Lit string | Wild string

definition parse_seg :: "string \<Rightarrow> seg" where
  "parse_seg s = (if take 1 s = ''{'' then Wild (butlast (tl s)) else Lit s)"

definition pattern_segs :: "string \<Rightarrow> seg list" where
  "pattern_segs p = map parse_seg (Split (CHR ''/'') (tl p))"

fun match_segs :: "seg list \<Rightarrow> string list \<Rightarrow> (string \<times> string) list option" where
  "match_segs [] [] = Some []"
| "match_segs (Lit l # ps) (s # ss) = (if l = s then match_segs ps ss else None)"
| "match_segs (Wild n # ps) (s # ss) =
     (if s = [] then None else map_option (\<lambda>v. (n, s) # v) (match_segs ps ss))"
| "match_segs _ _ = None"

text \<open>A \<^verbatim>\<open>GET\<close> pattern serves \<^verbatim>\<open>HEAD\<close> requests too.\<close>

definition method_ok :: "string \<Rightarrow> string \<Rightarrow> bool" where
  "method_ok m q \<longleftrightarrow> m = q \<or> m = ''GET'' \<and> q = ''HEAD''"

definition segments :: "api_request \<Rightarrow> string list" where
  "segments q = map PathUnescape (aq_path q)"

definition route_match :: "api_request \<Rightarrow> route \<Rightarrow> (string \<times> string) list option" where
  "route_match q r =
     (if method_ok (ro_method r) (aq_method q) then match_segs (pattern_segs (ro_pattern r)) (segments q) else None)"

fun find_route :: "route list \<Rightarrow> api_request \<Rightarrow> (route \<times> (string \<times> string) list) option" where
  "find_route [] q = None"
| "find_route (r # rs) q =
     (case route_match q r of Some v \<Rightarrow> Some (r, v) | None \<Rightarrow> find_route rs q)"

definition url_path :: "api_request \<Rightarrow> string" where
  "url_path q = CHR ''/'' # Join (CHR ''/'') (segments q)"

text \<open>\<^verbatim>\<open>cleanPath\<close> leaves the path alone: no empty segment but a trailing one, and no dots.\<close>

definition clean_path :: "string list \<Rightarrow> bool" where
  "clean_path ss \<longleftrightarrow> [] \<notin> set (butlast ss) \<and> ''.'' \<notin> set ss \<and> ''..'' \<notin> set ss"

definition PathValue :: "(string \<times> string) list \<Rightarrow> string \<Rightarrow> string" where
  "PathValue v name = (case map_of v name of None \<Rightarrow> [] | Some s \<Rightarrow> s)"

section \<open>The middleware chains\<close>

text \<open>What the middlewares put into the request's context; \<^verbatim>\<open>UserIDFromContext\<close> is empty by default.\<close>

record request_ctx =
  rc_user :: id
  rc_member :: "Member option"
  rc_folder :: "Folder option"
  rc_file :: "File option"
  rc_upload :: "Upload option"

definition no_ctx :: request_ctx where
  "no_ctx = \<lparr>rc_user = [], rc_member = None, rc_folder = None, rc_file = None, rc_upload = None\<rparr>"

record 'r api =
  ap_auth :: "'r AuthService"
  ap_limiter :: "Limiter option"
  ap_loginLimiter :: "Limiter option"

text \<open>What lives across requests: the caches of \<^verbatim>\<open>requireMember\<close> and \<^verbatim>\<open>requireOrgAdmin\<close>, and the buckets.\<close>

record api_state =
  as_memberCache :: membershipCache
  as_adminCache :: membershipCache
  as_buckets :: rl_store

definition new_api_state :: api_state where
  "new_api_state = \<lparr>as_memberCache = newMembershipCache, as_adminCache = newMembershipCache, as_buckets = Map.empty\<rparr>"

text \<open>One arriving request: the clock, whether Redis answers the limiter, the database and token store
  it is served on.\<close>

record 'r arrival =
  ar_now :: time
  ar_up :: bool
  ar_state :: "'r auth_state"
  ar_request :: api_request

definition millis :: "time \<Rightarrow> int" where
  "millis now = now div 1000000"

definition loginKeyFn :: "api_request \<Rightarrow> string" where
  "loginKeyFn q = ''login-ip:'' @ ClientIP (aq_forwardedFor q) (aq_remoteAddr q)"

definition limiterKeyFn :: "'r AuthService \<Rightarrow> time \<Rightarrow> api_request \<Rightarrow> string" where
  "limiterKeyFn sv now q =
     (let h = aq_authorization q;
          uid = (if HasPrefix h ''Bearer '' then PeekUserID sv now (TrimSpace (drop 7 h)) else [])
      in if uid \<noteq> [] then ''user:'' @ uid else ''ip:'' @ ClientIP (aq_forwardedFor q) (aq_remoteAddr q))"

definition limited ::
  "Limiter option \<Rightarrow> 'r arrival \<Rightarrow> string \<Rightarrow> api_state \<Rightarrow> unit response option \<times> api_state" where
  "limited l a key st =
     (case l of
        None \<Rightarrow> (None, st)
      | Some l \<Rightarrow>
          (let (r, b) = rl_Middleware l (ar_up a) (millis (ar_now a)) (url_path (ar_request a)) key (as_buckets st)
           in (r, st\<lparr>as_buckets := b\<rparr>)))"

fun run_gate ::
  "'r api \<Rightarrow> 'r arrival \<Rightarrow> (string \<times> string) list \<Rightarrow> gate_kind \<Rightarrow> request_ctx \<Rightarrow> api_state \<Rightarrow>
     (unit response + request_ctx) \<times> api_state" where
  "run_gate api a v GLoginLimit c st =
     (case limited (ap_loginLimiter api) a (loginKeyFn (ar_request a)) st of
        (Some r, st1) \<Rightarrow> (Inl r, st1) | (None, st1) \<Rightarrow> (Inr c, st1))"
| "run_gate api a v GAuth c st =
     (case Middleware (ap_auth api) (ar_now a) (ar_state a) (aq_authorization (ar_request a)) of
        Inl r \<Rightarrow> (Inl r, st) | Inr u \<Rightarrow> (Inr (c\<lparr>rc_user := u\<rparr>), st))"
| "run_gate api a v GMember c st =
     (case RequireRole RoleMember (ar_now a) (au_db (ar_state a)) (PathValue v ''orgId'') (rc_user c) (as_memberCache st) of
        (Inl r, k) \<Rightarrow> (Inl r, st\<lparr>as_memberCache := k\<rparr>)
      | (Inr m, k) \<Rightarrow> (Inr (c\<lparr>rc_member := Some m\<rparr>), st\<lparr>as_memberCache := k\<rparr>))"
| "run_gate api a v GOrgAdmin c st =
     (case RequireRole RoleAdmin (ar_now a) (au_db (ar_state a)) (PathValue v ''orgId'') (rc_user c) (as_adminCache st) of
        (Inl r, k) \<Rightarrow> (Inl r, st\<lparr>as_adminCache := k\<rparr>)
      | (Inr m, k) \<Rightarrow> (Inr (c\<lparr>rc_member := Some m\<rparr>), st\<lparr>as_adminCache := k\<rparr>))"
| "run_gate api a v GPlatformAdmin c st =
     (case RequirePlatformAdmin (au_db (ar_state a)) (rc_user c) of Some r \<Rightarrow> (Inl r, st) | None \<Rightarrow> (Inr c, st))"
| "run_gate api a v GFolder c st =
     (case folder_RequireAccess IsMember (au_db (ar_state a)) (PathValue v ''folderId'') (rc_user c) of
        Inl r \<Rightarrow> (Inl r, st) | Inr f \<Rightarrow> (Inr (c\<lparr>rc_folder := Some f\<rparr>), st))"
| "run_gate api a v GFile c st =
     (case file_RequireAccess IsMember (au_db (ar_state a)) (PathValue v ''fileId'') (rc_user c) of
        Inl r \<Rightarrow> (Inl r, st) | Inr f \<Rightarrow> (Inr (c\<lparr>rc_file := Some f\<rparr>), st))"
| "run_gate api a v GUpload c st =
     (case upload_RequireAccess IsMember (au_db (ar_state a)) (PathValue v ''uploadId'') (rc_user c) of
        Inl r \<Rightarrow> (Inl r, st) | Inr u \<Rightarrow> (Inr (c\<lparr>rc_upload := Some u\<rparr>), st))"

fun run_gates ::
  "'r api \<Rightarrow> 'r arrival \<Rightarrow> (string \<times> string) list \<Rightarrow> gate_kind list \<Rightarrow> request_ctx \<Rightarrow> api_state \<Rightarrow>
     (unit response + request_ctx) \<times> api_state" where
  "run_gates api a v [] c st = (Inr c, st)"
| "run_gates api a v (g # gs) c st =
     (case run_gate api a v g c st of
        (Inl r, st1) \<Rightarrow> (Inl r, st1)
      | (Inr c1, st1) \<Rightarrow> run_gates api a v gs c1 st1)"

text \<open>What becomes of a request: the mux answers it itself, a middleware refuses it, or a handler runs.\<close>

datatype outcome =
    MuxRedirect | MuxNotFound | MuxMethodNotAllowed
  | Refused "unit response"
  | Reached endpoint "(string \<times> string) list" request_ctx

definition api_routes :: "'r api \<Rightarrow> route list" where
  "api_routes api = routes (ap_loginLimiter api \<noteq> None)"

definition serve_mux :: "'r api \<Rightarrow> 'r arrival \<Rightarrow> api_state \<Rightarrow> outcome \<times> api_state" where
  "serve_mux api a st =
     (let q = ar_request a; rs = api_routes api
      in if \<not> clean_path (aq_path q) then (MuxRedirect, st)
         else case find_route rs q of
             None \<Rightarrow>
               (if list_ex (\<lambda>r. match_segs (pattern_segs (ro_pattern r)) (segments q) \<noteq> None) rs
                then MuxMethodNotAllowed else MuxNotFound, st)
           | Some (r, v) \<Rightarrow>
               (case run_gates api a v (ro_gates r) no_ctx st of
                  (Inl e, st1) \<Rightarrow> (Refused e, st1)
                | (Inr c, st1) \<Rightarrow> (Reached (ro_endpoint r) v c, st1)))"

definition serve :: "'r api \<Rightarrow> 'r arrival \<Rightarrow> api_state \<Rightarrow> outcome \<times> api_state" where
  "serve api a st =
     (case limited (ap_limiter api) a (limiterKeyFn (ap_auth api) (ar_now a) (ar_request a)) st of
        (Some r, st1) \<Rightarrow> (Refused r, st1)
      | (None, st1) \<Rightarrow> serve_mux api a st1)"

fun serve_run :: "'r api \<Rightarrow> 'r arrival list \<Rightarrow> api_state \<Rightarrow> api_state" where
  "serve_run api [] st = st"
| "serve_run api (a # rest) st = serve_run api rest (snd (serve api a st))"

section \<open>Routing is unambiguous\<close>

text \<open>Two patterns overlap when some path matches both.\<close>

fun segs_overlap :: "seg list \<Rightarrow> seg list \<Rightarrow> bool" where
  "segs_overlap [] [] \<longleftrightarrow> True"
| "segs_overlap (Lit l # ps) (Lit k # qs) \<longleftrightarrow> l = k \<and> segs_overlap ps qs"
| "segs_overlap (Lit l # ps) (Wild n # qs) \<longleftrightarrow> l \<noteq> [] \<and> segs_overlap ps qs"
| "segs_overlap (Wild n # ps) (Lit l # qs) \<longleftrightarrow> l \<noteq> [] \<and> segs_overlap ps qs"
| "segs_overlap (Wild n # ps) (Wild k # qs) \<longleftrightarrow> segs_overlap ps qs"
| "segs_overlap _ _ \<longleftrightarrow> False"

lemma match_segs_iff:
  "match_segs [] ss = Some v \<longleftrightarrow> ss = [] \<and> v = []"
  "match_segs (Lit l # ps) ss = Some v \<longleftrightarrow> (\<exists>ss'. ss = l # ss' \<and> match_segs ps ss' = Some v)"
  "match_segs (Wild n # ps) ss = Some v \<longleftrightarrow>
     (\<exists>s ss' v'. ss = s # ss' \<and> s \<noteq> [] \<and> match_segs ps ss' = Some v' \<and> v = (n, s) # v')"
  by (cases ss; auto)+

lemma match_segs_overlap:
  "match_segs ps ss = Some v \<Longrightarrow> match_segs qs ss = Some w \<Longrightarrow> segs_overlap ps qs"
  by (induction ps qs arbitrary: ss v w rule: segs_overlap.induct) (auto simp: match_segs_iff)

type_synonym signature = "string \<times> seg list"

definition signature :: "route \<Rightarrow> signature" where
  "signature r = (ro_method r, pattern_segs (ro_pattern r))"

definition clash :: "signature \<Rightarrow> signature \<Rightarrow> bool" where
  "clash g g' \<longleftrightarrow> fst g = fst g' \<and> segs_overlap (snd g) (snd g')"

fun clash_free :: "signature list \<Rightarrow> bool" where
  "clash_free [] \<longleftrightarrow> True"
| "clash_free (g # gs) \<longleftrightarrow> list_all (\<lambda>g'. \<not> clash g g') gs \<and> clash_free gs"

lemma signatures: "map signature (routes b) = map signature (routes False)"
  by (simp add: routes_def wireAuth_def signature_def)

lemma signatures_clash_free: "clash_free (map signature (routes False))"
  by code_simp

lemma no_HEAD_routes: "list_all (\<lambda>g. fst g \<noteq> ''HEAD'') (map signature (routes False))"
  by code_simp

lemma clash_free_nth:
  "clash_free gs \<Longrightarrow> i < j \<Longrightarrow> j < length gs \<Longrightarrow> \<not> clash (gs ! i) (gs ! j)"
proof (induction gs arbitrary: i j)
  case (Cons g gs)
  then show ?case by (cases i; cases j) (auto simp: list_all_length)
qed simp

lemma routes_no_clash:
  assumes "i < length (routes b)" and "j < length (routes b)" and "i \<noteq> j"
  shows "\<not> clash (signature (routes b ! i)) (signature (routes b ! j)) \<or> \<not> clash (signature (routes b ! j)) (signature (routes b ! i))"
  using clash_free_nth [OF signatures_clash_free, of i j] clash_free_nth [OF signatures_clash_free, of j i] assms
  unfolding signatures [of b, symmetric] by (simp add: neq_iff) blast

lemma matches_clash:
  assumes "route_match q r = Some x" and "route_match q r' = Some y"
    and "ro_method r \<noteq> ''HEAD''" and "ro_method r' \<noteq> ''HEAD''"
  shows "clash (signature r) (signature r')"
  using assms by (auto simp: route_match_def clash_def signature_def method_ok_def split: if_splits intro: match_segs_overlap)

text \<open>C1: routing is unambiguous. No request matches two routes of the table, so which handler serves a
  request does not depend on the order of registration or on precedence between patterns (and
  \<^verbatim>\<open>ServeMux\<close>, which panics on conflicting patterns, accepts the table).
\<close>

theorem routes_unambiguous:
  assumes "i < length (routes b)" and "j < length (routes b)"
    and "route_match q (routes b ! i) = Some v" and "route_match q (routes b ! j) = Some w"
  shows "i = j"
proof (rule ccontr)
  assume "i \<noteq> j"
  have "ro_method (routes b ! k) \<noteq> ''HEAD''" if "k < length (routes b)" for k
    using no_HEAD_routes that unfolding signatures [of b, symmetric] by (simp add: list_all_length signature_def)
  then show False
    using routes_no_clash [OF assms(1,2) \<open>i \<noteq> j\<close>] matches_clash [OF assms(3,4)] matches_clash [OF assms(4,3)] assms(1,2)
    by blast
qed

section \<open>What each endpoint asks of its caller\<close>

datatype access =
    Public | Authenticated | OrgRole Role | PlatformAdmin | FolderMember | FileMember | UploadMember

text \<open>
  The access policy, independent of the table: which right a caller needs for each handler. Restoring
  and purging take an authenticated caller at the route, because the handlers load the trashed row
  and check membership themselves; so do starting an upload and deleting a share.
\<close>

fun auth_access :: "auth_endpoint \<Rightarrow> access" where
  "auth_access e =
     (if e \<in> {EpMe, EpTOTPStatus, EpTOTPSetup, EpTOTPConfirm, EpTOTPDisable} then Authenticated else Public)"

fun org_access :: "org_endpoint \<Rightarrow> access" where
  "org_access EpOrgCreate = Authenticated"
| "org_access EpOrgListMine = Authenticated"
| "org_access EpListMembers = OrgRole RoleMember"
| "org_access EpSetQuota = PlatformAdmin"
| "org_access _ = OrgRole RoleAdmin"

fun folder_access :: "folder_endpoint \<Rightarrow> access" where
  "folder_access EpFolderCreate = OrgRole RoleMember"
| "folder_access EpFolderListRoot = OrgRole RoleMember"
| "folder_access EpFolderListTrashed = OrgRole RoleMember"
| "folder_access EpFolderRestore = Authenticated"
| "folder_access _ = FolderMember"

fun file_access :: "file_endpoint \<Rightarrow> access" where
  "file_access EpFileListTrashed = OrgRole RoleMember"
| "file_access EpFileRestore = Authenticated"
| "file_access EpFilePurge = Authenticated"
| "file_access _ = FileMember"

fun upload_access :: "upload_endpoint \<Rightarrow> access" where
  "upload_access EpInitUpload = Authenticated"
| "upload_access _ = UploadMember"

fun sharing_access :: "sharing_endpoint \<Rightarrow> access" where
  "sharing_access EpShareCreate = FileMember"
| "sharing_access EpShareCreateFolder = FolderMember"
| "sharing_access EpShareCreateBundle = OrgRole RoleMember"
| "sharing_access EpShareDelete = Authenticated"
| "sharing_access _ = Public"

fun access_of :: "endpoint \<Rightarrow> access" where
  "access_of (PlatformHandler _) = Public"
| "access_of (AuthHandler e) = auth_access e"
| "access_of (OrgHandler e) = org_access e"
| "access_of (AdminHandler _) = PlatformAdmin"
| "access_of (FolderHandler e) = folder_access e"
| "access_of (FileHandler e) = file_access e"
| "access_of (FeedHandler _) = OrgRole RoleMember"
| "access_of (UploadHandler e) = upload_access e"
| "access_of (SharingHandler e) = sharing_access e"

text \<open>
  That a caller holds the right: the token of the request verifies at this moment; a platform
  administrator and the members of a folder's, file's or upload's organization are so in the database
  the request is served on; an organization role was read from the database of this request or of an
  earlier one, at most \<^verbatim>\<open>membershipCacheTTL\<close> ago.
\<close>

definition authenticated :: "'r api \<Rightarrow> 'r arrival \<Rightarrow> id \<Rightarrow> bool" where
  "authenticated api a u \<longleftrightarrow>
     (\<exists>token. bearerToken (aq_authorization (ar_request a)) = Some token \<and>
        VerifyAccessToken (ap_auth api) (ar_now a) (ar_state a) token = Inr u)"

definition role_read :: "'r arrival list \<Rightarrow> time \<Rightarrow> Role \<Rightarrow> id \<Rightarrow> id \<Rightarrow> Member \<Rightarrow> bool" where
  "role_read history now r oid u m \<longleftrightarrow>
     roleRank r \<le> roleRank (mb_role m) \<and>
     (\<exists>b \<in> set history. GetMembership (au_db (ar_state b)) oid u = Inr m \<and> now \<le> ar_now b + membershipCacheTTL)"

fun holds :: "'r api \<Rightarrow> 'r arrival list \<Rightarrow> 'r arrival \<Rightarrow> (string \<times> string) list \<Rightarrow> request_ctx \<Rightarrow> access \<Rightarrow> bool" where
  "holds api history a v c Public \<longleftrightarrow> True"
| "holds api history a v c Authenticated \<longleftrightarrow> True"
| "holds api history a v c (OrgRole r) \<longleftrightarrow>
     (\<exists>m. rc_member c = Some m \<and> role_read history (ar_now a) r (PathValue v ''orgId'') (rc_user c) m)"
| "holds api history a v c PlatformAdmin \<longleftrightarrow>
     (\<exists>u. GetUserByID (au_db (ar_state a)) (rc_user c) = Inr u \<and> us_admin u)"
| "holds api history a v c FolderMember \<longleftrightarrow>
     (\<exists>f. rc_folder c = Some f \<and> folder_Get (au_db (ar_state a)) (PathValue v ''folderId'') = Inr f \<and>
        is_member (au_db (ar_state a)) (fo_org f) (rc_user c))"
| "holds api history a v c FileMember \<longleftrightarrow>
     (\<exists>f. rc_file c = Some f \<and> file_Get (au_db (ar_state a)) (PathValue v ''fileId'') = Inr f \<and>
        is_member (au_db (ar_state a)) (f_org f) (rc_user c))"
| "holds api history a v c UploadMember \<longleftrightarrow>
     (\<exists>u. rc_upload c = Some u \<and> GetUpload (au_db (ar_state a)) (PathValue v ''uploadId'') = Inr u \<and>
        is_member (au_db (ar_state a)) (u_org u) (rc_user c))"

text \<open>The table implements the policy: each route carries the middlewares its handler's access asks for.\<close>

fun gates_for :: "bool \<Rightarrow> endpoint \<Rightarrow> access \<Rightarrow> gate_kind list" where
  "gates_for b e Public =
     (if b \<and> e \<in> {AuthHandler EpLogin, AuthHandler EpTOTPLogin} then [GLoginLimit] else [])"
| "gates_for b e Authenticated = [GAuth]"
| "gates_for b e (OrgRole r) = [GAuth, if r = RoleMember then GMember else GOrgAdmin]"
| "gates_for b e PlatformAdmin = [GAuth, GPlatformAdmin]"
| "gates_for b e FolderMember = [GAuth, GFolder]"
| "gates_for b e FileMember = [GAuth, GFile]"
| "gates_for b e UploadMember = [GAuth, GUpload]"

lemma routes_follow_policy:
  "list_all (\<lambda>r. ro_gates r = gates_for b (ro_endpoint r) (access_of (ro_endpoint r))) (routes b)"
  by (cases b) (simp_all add: routes_def main_routes_def wireAuth_def wireStorage_def wireFiles_def wireActivity_def wireUpload_def)

lemma access_of_roles: "access_of e = OrgRole r \<Longrightarrow> r = RoleMember \<or> r = RoleAdmin"
  by (cases e rule: access_of.cases)
    (auto elim!: org_access.elims folder_access.elims file_access.elims upload_access.elims sharing_access.elims split: if_splits)

lemma find_route_Some: "find_route rs q = Some (r, v) \<Longrightarrow> r \<in> set rs \<and> route_match q r = Some v"
  by (induction rs) (auto split: option.splits)

section \<open>Access control\<close>

text \<open>The membership reads a request can have put into a cache.\<close>

definition reads_of :: "'r api \<Rightarrow> 'r arrival \<Rightarrow> (time \<times> db \<times> id \<times> id) list" where
  "reads_of api a =
     (case find_route (api_routes api) (ar_request a) of
        None \<Rightarrow> []
      | Some (_, v) \<Rightarrow>
          (case Middleware (ap_auth api) (ar_now a) (ar_state a) (aq_authorization (ar_request a)) :: unit response + id of
             Inl _ \<Rightarrow> []
           | Inr u \<Rightarrow> [(ar_now a, au_db (ar_state a), PathValue v ''orgId'', u)]))"

definition cached_from :: "'r api \<Rightarrow> 'r arrival list \<Rightarrow> api_state \<Rightarrow> bool" where
  "cached_from api history st \<longleftrightarrow>
     (\<forall>(k, e) \<in> set (as_memberCache st) \<union> set (as_adminCache st).
        from_request (concat (map (reads_of api) history)) k e)"

lemma limited_caches [simp]:
  "as_memberCache (snd (limited l a key st)) = as_memberCache st"
  "as_adminCache (snd (limited l a key st)) = as_adminCache st"
  by (simp_all add: limited_def split: option.splits prod.splits)

lemma limited_cachesD:
  "limited l a key st = (r, st1) \<Longrightarrow> as_memberCache st1 = as_memberCache st \<and> as_adminCache st1 = as_adminCache st"
  using limited_caches [of l a key st] by simp

lemma from_request_mono: "from_request xs k e \<Longrightarrow> set xs \<subseteq> set ys \<Longrightarrow> from_request ys k e"
  by (auto simp: from_request_def)

lemma role_gate_cache:
  assumes "(k, e) \<in> set (snd (RequireRole r (ar_now a) (au_db (ar_state a)) (PathValue v ''orgId'') u c))"
    and "find_route (api_routes api) (ar_request a) = Some (ro, v)"
    and "Middleware (ap_auth api) (ar_now a) (ar_state a) (aq_authorization (ar_request a)) = (Inr u :: unit response + id)"
  shows "(k, e) \<in> set c \<or> from_request (reads_of api a) k e"
  using RequireRole_cache [OF assms(1)] assms(2,3) by (simp add: reads_of_def)

lemma two_gates_cache:
  assumes "snd (run_gates api a v gs no_ctx st) = st1" and "gs \<in> range (\<lambda>g. [GAuth, g]) \<union> {[], [GLoginLimit], [GAuth]}"
    and "find_route (api_routes api) (ar_request a) = Some (ro, v)"
    and "(k, e) \<in> set (as_memberCache st1) \<union> set (as_adminCache st1)"
  shows "(k, e) \<in> set (as_memberCache st) \<union> set (as_adminCache st) \<or> from_request (reads_of api a) k e"
proof -
  note gate = role_gate_cache [OF _ assms(3)]
  consider "gs = []" | "gs = [GLoginLimit]" | "gs = [GAuth]" | g where "gs = [GAuth, g]" using assms(2) by auto
  then show ?thesis
  proof cases
    case (4 g)
    then show ?thesis using assms(1,4)
      by (cases g) (auto split: sum.splits prod.splits option.splits dest!: arg_cong [where f = snd] dest: gate)
  qed (use assms(1,4) in \<open>auto split: sum.splits prod.splits option.splits dest!: limited_cachesD\<close>)
qed

lemma serve_cache:
  assumes "(k, e) \<in> set (as_memberCache (snd (serve api a st))) \<union> set (as_adminCache (snd (serve api a st)))"
  shows "(k, e) \<in> set (as_memberCache st) \<union> set (as_adminCache st) \<or> from_request (reads_of api a) k e"
proof -
  obtain r st1 where l: "limited (ap_limiter api) a (limiterKeyFn (ap_auth api) (ar_now a) (ar_request a)) st = (r, st1)"
    by (cases "limited (ap_limiter api) a (limiterKeyFn (ap_auth api) (ar_now a) (ar_request a)) st")
  have same: "as_memberCache st1 = as_memberCache st" "as_adminCache st1 = as_adminCache st"
    using limited_caches [of "ap_limiter api" a "limiterKeyFn (ap_auth api) (ar_now a) (ar_request a)" st] by (simp_all add: l)
  show ?thesis
  proof (cases "\<exists>ro v. r = None \<and> clean_path (aq_path (ar_request a)) \<and>
      find_route (api_routes api) (ar_request a) = Some (ro, v)")
    case True
    then obtain ro v where f: "find_route (api_routes api) (ar_request a) = Some (ro, v)"
      and r: "r = None" "clean_path (aq_path (ar_request a))" by blast
    have "ro_gates ro = gates_for (ap_loginLimiter api \<noteq> None) (ro_endpoint ro) (access_of (ro_endpoint ro))"
      using routes_follow_policy find_route_Some [OF f] by (auto simp: list_all_iff api_routes_def)
    then have "ro_gates ro \<in> range (\<lambda>g. [GAuth, g]) \<union> {[], [GLoginLimit], [GAuth]}"
      by (cases "access_of (ro_endpoint ro)") auto
    moreover have "snd (serve api a st) = snd (run_gates api a v (ro_gates ro) no_ctx st1)"
      using r by (simp add: serve_def l serve_mux_def f Let_def split: prod.splits sum.splits)
    ultimately show ?thesis using two_gates_cache [OF refl _ f] assms same by metis
  next
    case False
    then have "snd (serve api a st) = st1"
      by (cases "find_route (api_routes api) (ar_request a)")
        (auto simp: serve_def l serve_mux_def Let_def split: option.splits)
    then show ?thesis using assms same by simp
  qed
qed

lemma serve_run_cached:
  "cached_from api history st \<Longrightarrow> cached_from api (history @ rs) (serve_run api rs st)"
proof (induction rs arbitrary: history st)
  case (Cons a rs)
  have "cached_from api (history @ [a]) (snd (serve api a st))"
    unfolding cached_from_def
  proof (intro ballI prod.case [THEN iffD2] case_prodI2)
    fix p k e
    assume "p \<in> set (as_memberCache (snd (serve api a st))) \<union> set (as_adminCache (snd (serve api a st)))" and "p = (k, e)"
    then have "from_request (concat (map (reads_of api) history)) k e \<or> from_request (reads_of api a) k e"
      using serve_cache [of k e api a st] Cons.prems by (auto simp: cached_from_def)
    then show "from_request (concat (map (reads_of api) (history @ [a]))) k e"
      by (auto elim: from_request_mono)
  qed
  from Cons.IH [OF this] show ?case by simp
qed simp

lemma Middleware_authenticated:
  "(Middleware (ap_auth api) (ar_now a) (ar_state a) (aq_authorization (ar_request a)) = (Inr u :: 'x response + id))
     \<longleftrightarrow> authenticated api a u"
  by (auto simp: Middleware_def authenticated_def split: option.splits sum.splits)

definition plain_users :: "'r api \<Rightarrow> 'r arrival list \<Rightarrow> bool" where
  "plain_users api rs \<longleftrightarrow> (\<forall>b \<in> set rs. \<forall>u. authenticated api b u \<longrightarrow> CHR '':'' \<notin> set u)"

lemma reads_ofD:
  assumes "(t, d, oid, u) \<in> set (concat (map (reads_of api) rs))"
  shows "\<exists>b \<in> set rs. t = ar_now b \<and> d = au_db (ar_state b) \<and> authenticated api b u"
  using assms
  by (auto simp: reads_of_def split: option.splits sum.splits)
    (metis Middleware_authenticated)

lemma role_held:
  assumes "cached_from api rs st" and "set cache \<subseteq> set (as_memberCache st) \<union> set (as_adminCache st)"
    and "plain_users api (rs @ [a])" and "authenticated api a u"
    and "RequireRole r (ar_now a) (au_db (ar_state a)) oid u cache = (Inr m, k)"
  shows "role_read (rs @ [a]) (ar_now a) r oid u m"
proof -
  have rank: "roleRank r \<le> roleRank (mb_role m)"
    using assms(5) by (auto simp: RequireRole_def Let_def split: option.splits sum.splits if_splits)
  have ttl: "ar_now a \<le> ar_now a + membershipCacheTTL" by (simp add: membershipCacheTTL_def)
  show ?thesis
  proof (cases "cache_get (ar_now a) oid u cache")
    case None
    then have "GetMembership (au_db (ar_state a)) oid u = Inr m"
      using assms(5) by (auto simp: RequireRole_def Let_def split: sum.splits if_splits)
    then show ?thesis using rank ttl by (auto simp: role_read_def)
  next
    case (Some m')
    then have "m' = m" using assms(5) by (auto simp: RequireRole_def Let_def split: if_splits)
    with Some obtain e where e: "map_of cache (cache_key oid u) = Some e" "ce_member e = m" "ar_now a \<le> ce_expiresAt e"
      by (auto simp: cache_get_def split: option.splits if_splits)
    then have "from_request (concat (map (reads_of api) rs)) (cache_key oid u) e"
      using map_of_SomeD [OF e(1)] assms(1,2) by (auto simp: cached_from_def)
    then obtain t d oid' u' where f: "(t, d, oid', u') \<in> set (concat (map (reads_of api) rs))"
      "cache_key oid u = cache_key oid' u'" "GetMembership d oid' u' = Inr m" "ce_expiresAt e = t + membershipCacheTTL"
      using e(2) unfolding from_request_def by fast
    obtain b where b: "b \<in> set rs" "t = ar_now b" "d = au_db (ar_state b)" "authenticated api b u'"
      using reads_ofD [OF f(1)] by blast
    have "oid = oid' \<and> u = u'"
      using cache_key_inj [OF f(2)] assms(3,4) b(1,4) by (auto simp: plain_users_def)
    then show ?thesis using f b e(3) rank by (auto simp: role_read_def)
  qed
qed

lemma gates_hold:
  assumes "cached_from api rs st" and "plain_users api (rs @ [a])"
    and "run_gates api a v (gates_for b e (access_of e)) no_ctx st = (Inr c, st1)"
  shows "holds api (rs @ [a]) a v c (access_of e) \<and> (access_of e \<noteq> Public \<longrightarrow> authenticated api a (rc_user c))"
proof (cases "access_of e")
  case (OrgRole r)
  note held = role_held [OF assms(1) _ assms(2)]
  from OrgRole have "r = RoleMember \<or> r = RoleAdmin" by (rule access_of_roles)
  then show ?thesis using assms(3) OrgRole
    by (elim disjE)
      (auto simp: Middleware_authenticated split: sum.splits prod.splits intro!: held)
next
  case PlatformAdmin
  then show ?thesis using assms(3)
    by (auto simp: Middleware_authenticated RequirePlatformAdmin_def split: sum.splits if_splits option.splits)
qed (use assms(3) in \<open>auto simp: Middleware_authenticated folder_RequireAccess_def file_RequireAccess_def upload_RequireAccess_def
   split: sum.splits dest: org_members.gate_granted\<close>)

text \<open>C2: access control of the whole API. Whatever requests were served before and however the database
  changed between them, a handler only runs for a request that matches its route, and then the caller
  holds the right the policy asks for: outside the public endpoints the request carries a bearer
  token that verifies now, and its user is a platform administrator, a member of the organization
  that owns the folder, file or upload of the path, or has the organization role, read from the
  database at most \<^verbatim>\<open>membershipCacheTTL\<close> ago. User ids contain no colon, as UUIDs do not.
\<close>

theorem access_control:
  assumes "plain_users api (rs @ [a])"
    and "fst (serve api a (serve_run api rs new_api_state)) = Reached e v c"
  shows "holds api (rs @ [a]) a v c (access_of e) \<and>
    (access_of e \<noteq> Public \<longrightarrow> authenticated api a (rc_user c)) \<and>
    (\<exists>r \<in> set (api_routes api). ro_endpoint r = e \<and> route_match (ar_request a) r = Some v)"
proof -
  define st where "st = serve_run api rs new_api_state"
  have from0: "cached_from api rs st"
    using serve_run_cached [of api "[]" new_api_state rs]
    by (simp add: st_def cached_from_def new_api_state_def newMembershipCache_def)
  obtain st1 where l: "limited (ap_limiter api) a (limiterKeyFn (ap_auth api) (ar_now a) (ar_request a)) st = (None, st1)"
    using assms(2) by (auto simp: serve_def st_def split: prod.splits option.splits)
  have "cached_from api rs st1" using from0 limited_cachesD [OF l] by (simp add: cached_from_def)
  moreover obtain r st2 where r: "find_route (api_routes api) (ar_request a) = Some (r, v)" "ro_endpoint r = e"
    and g: "run_gates api a v (ro_gates r) no_ctx st1 = (Inr c, st2)"
    using assms(2) l unfolding st_def [symmetric]
    by (auto simp: serve_def serve_mux_def Let_def split: if_splits option.splits prod.splits sum.splits)
  moreover have "ro_gates r = gates_for (ap_loginLimiter api \<noteq> None) e (access_of e)"
    using routes_follow_policy find_route_Some [OF r(1)] r(2) by (auto simp: list_all_iff api_routes_def)
  ultimately show ?thesis
    using gates_hold [OF _ assms(1), of st1 v] find_route_Some [OF r(1)] by metis
qed

definition sample_api :: "(string \<times> string \<times> time) list api" where
  "sample_api = \<lparr>ap_auth = sample_auth, ap_limiter = None, ap_loginLimiter = None\<rparr>"

definition sample_bearer :: string where
  "sample_bearer = sample_token ''key'' ''u1'' ''j1'' 60 0"

definition sample_request :: api_request where
  "sample_request = \<lparr>aq_method = ''GET'', aq_path = [''v1'', ''orgs'', ''o1'', ''members''],
     aq_authorization = ''Bearer '' @ sample_bearer, aq_forwardedFor = [], aq_remoteAddr = ''10.0.0.1:80''\<rparr>"

definition sample_arrival :: "(string \<times> string \<times> time) list arrival" where
  "sample_arrival = \<lparr>ar_now = 4, ar_up = True, ar_state = sample_auth_state, ar_request = sample_request\<rparr>"

lemma sample_authenticated: "authenticated sample_api sample_arrival u \<longleftrightarrow> u = ''u1''"
proof -
  have "bearerToken (''Bearer '' @ sample_bearer) = Some sample_bearer"
    by code_simp
  moreover have "verify (as_jwt sample_auth) (as_issuer sample_auth) 4 sample_bearer = Inr (''u1'', ''j1'', 60)"
    by (simp add: verify_def verifyWithKey_def sample_jwt_def read_sample_token sample_bearer_def)
  ultimately show ?thesis
    by (auto simp: authenticated_def sample_api_def sample_arrival_def sample_request_def VerifyAccessToken_def
        sample_redis_def sample_live_def sample_auth_state_def)
qed

lemma sample_route:
  "find_route (routes False) sample_request = Some
     (\<lparr>ro_method = ''GET'', ro_pattern = ''/v1/orgs/{orgId}/members'', ro_gates = [GAuth, GMember], ro_endpoint = OrgHandler EpListMembers\<rparr>,
      [(''orgId'', ''o1'')])"
  by code_simp

theorem access_control_witness:
  "\<exists>c. fst (serve sample_api sample_arrival (serve_run sample_api [] new_api_state)) =
       Reached (OrgHandler EpListMembers) [(''orgId'', ''o1'')] c \<and>
     holds sample_api [sample_arrival] sample_arrival [(''orgId'', ''o1'')] c (OrgRole RoleMember) \<and>
     authenticated sample_api sample_arrival (rc_user c)"
proof -
  have auth: "Middleware sample_auth 4 sample_auth_state (''Bearer '' @ sample_bearer) = (Inr ''u1'' :: unit response + id)"
    using Middleware_authenticated [of sample_api sample_arrival "''u1''"] sample_authenticated
    by (simp add: sample_api_def sample_arrival_def sample_request_def)
  have clean: "clean_path (aq_path sample_request)" by code_simp
  have "GetMembership sample_org_db ''o1'' ''u1'' = Inr \<lparr>mb_org = ''o1'', mb_user = ''u1'', mb_email = [], mb_role = RoleOwner, mb_created = 0\<rparr>"
    by (simp add: GetMembership_def sample_org_db_def empty_db_def)
  then have "\<exists>c. fst (serve sample_api sample_arrival (serve_run sample_api [] new_api_state)) =
       Reached (OrgHandler EpListMembers) [(''orgId'', ''o1'')] c"
    using sample_route clean auth
    by (simp add: serve_def limited_def serve_mux_def api_routes_def sample_api_def sample_arrival_def new_api_state_def
        newMembershipCache_def no_ctx_def RequireRole_def cache_get_def PathValue_def Let_def roleRank_def
        sample_auth_state_def sample_request_def)
  then obtain c where c: "fst (serve sample_api sample_arrival (serve_run sample_api [] new_api_state)) =
       Reached (OrgHandler EpListMembers) [(''orgId'', ''o1'')] c" ..
  moreover have "plain_users sample_api ([] @ [sample_arrival])"
    by (simp add: plain_users_def sample_authenticated)
  ultimately show ?thesis using access_control [OF _ c] by auto
qed

theorem routes_unambiguous_witness:
  "\<exists>!j. j < length (routes False) \<and> (\<exists>v. route_match sample_request (routes False ! j) = Some v)"
proof -
  have *: "17 < length (routes False)" "route_match sample_request (routes False ! 17) = Some [(''orgId'', ''o1'')]"
    by code_simp+
  show ?thesis
  proof (rule ex1I [of _ 17])
    fix j
    assume "j < length (routes False) \<and> (\<exists>v. route_match sample_request (routes False ! j) = Some v)"
    then show "j = 17" using routes_unambiguous [OF _ *(1) _ *(2)] by blast
  qed (use * in blast)
qed

end
