(* ===== verification/Middleware.thy ===== *)
theory Middleware
  imports Api_Routes
begin

text \<open>
  The middlewares every request of the API process passes, \<^verbatim>\<open>internal/platform/httpserver\<close>, in the chain
  \<^verbatim>\<open>cmd/api/main.go\<close> builds. A handler gets the request and the response headers set so far and runs:
  it leaves the headers, the calls on the response writer in order, whether it panicked, and what was
  observed of it: log lines, metric samples and spans. Durations are left out. The theory shows what a
  client and an operator see of every request, those whose handler panics included.
\<close>

section \<open>Handlers\<close>

record http_request =
  hr_method :: string
  hr_path :: "string list"
  hr_headers :: "string \<rightharpoonup> string"
  hr_requestID :: string

type_synonym header_map = "string \<rightharpoonup> string"

datatype 'a body = ErrorEnvelope ErrorCode string string | JSON 'a

text \<open>\<^verbatim>\<open>w.WriteHeader\<close> and \<^verbatim>\<open>w.Write\<close>.\<close>

datatype 'a w_call = WriteHeader nat | Write "'a body"

text \<open>A span carries its attributes when it was ended after the handler returned.\<close>

datatype observation =
    LogRequest (lg_method: string) (lg_path: "string list") (lg_status: nat) (lg_requestID: string)
  | LogPanic (lg_requestID: string)
  | Sample (sm_method: string) (sm_route: string) (sm_status: nat)
  | Span (sp_name: string) (sp_attributes: "(string \<times> nat \<times> string) option") (sp_error: bool)

record 'a run =
  rn_headers :: header_map
  rn_writes :: "'a w_call list"
  rn_panicked :: bool
  rn_observed :: "observation list"

type_synonym 'a handler = "http_request \<Rightarrow> header_map \<Rightarrow> 'a run"
type_synonym 'a middleware = "'a handler \<Rightarrow> 'a handler"

definition header_get :: "header_map \<Rightarrow> string \<Rightarrow> string" where
  "header_get hs name = (case hs name of None \<Rightarrow> [] | Some v \<Rightarrow> v)"

text \<open>What the client gets: \<^verbatim>\<open>net/http\<close> sends the header once, at the first call.\<close>

fun client_status :: "'a w_call list \<Rightarrow> nat" where
  "client_status (WriteHeader s # ws) = s"
| "client_status _ = 200"

text \<open>The \<^verbatim>\<open>status\<close> field of a \<^verbatim>\<open>statusWriter\<close> the calls went through: it starts at 200 and every \<^verbatim>\<open>WriteHeader\<close>
  sets it.\<close>

primrec status_step :: "'a w_call \<Rightarrow> nat \<Rightarrow> nat" where
  "status_step (WriteHeader s) _ = s"
| "status_step (Write _) n = n"

definition writer_status :: "'a w_call list \<Rightarrow> nat" where
  "writer_status ws = fold status_step ws 200"

definition write_error :: "http_request \<Rightarrow> ErrorCode \<Rightarrow> string \<Rightarrow> 'a w_call list" where
  "write_error r code message = [WriteHeader (statusForCode code), Write (ErrorEnvelope code message (hr_requestID r))]"

section \<open>The middlewares\<close>

text \<open>\<^verbatim>\<open>Chain\<close>: the loop from the last middleware to the first, so the first wraps outermost.\<close>

definition Chain :: "'a handler \<Rightarrow> 'a middleware list \<Rightarrow> 'a handler" where
  "Chain h mw = foldr (\<lambda>m h. m h) mw h"

definition CORS :: "string \<Rightarrow> 'a middleware" where
  "CORS allowedOrigin next r hs =
     (let hs = hs(''Access-Control-Allow-Origin'' \<mapsto> allowedOrigin,
                  ''Access-Control-Allow-Methods'' \<mapsto> ''GET, POST, PATCH, DELETE, OPTIONS'',
                  ''Access-Control-Allow-Headers'' \<mapsto> ''Content-Type, Authorization, Idempotency-Key'',
                  ''Access-Control-Max-Age'' \<mapsto> ''600'')
      in if hr_method r = ''OPTIONS''
         then \<lparr>rn_headers = hs, rn_writes = [WriteHeader 204], rn_panicked = False, rn_observed = []\<rparr>
         else next r hs)"

definition newRequestID :: "byte list \<Rightarrow> string" where
  "newRequestID b = hex_encode b"

definition request_id :: "byte list \<Rightarrow> http_request \<Rightarrow> string" where
  "request_id random r =
     (let id = header_get (hr_headers r) ''X-Request-ID'' in if id = [] then newRequestID random else id)"

definition RequestID :: "byte list \<Rightarrow> 'a middleware" where
  "RequestID random next r hs =
     (let id = request_id random r in next (r\<lparr>hr_requestID := id\<rparr>) (hs(''X-Request-ID'' \<mapsto> id)))"

text \<open>The deferred \<^verbatim>\<open>recover\<close>: what the handler wrote before the panic stays written.\<close>

definition Recoverer :: "'a middleware" where
  "Recoverer next r hs =
     (let run = next r hs
      in if rn_panicked run
         then run\<lparr>rn_headers := (rn_headers run)(''Content-Type'' \<mapsto> ''application/json''),
                  rn_writes := rn_writes run @ write_error r http_ErrInternal ''internal error'',
                  rn_panicked := False,
                  rn_observed := rn_observed run @ [LogPanic (hr_requestID r)]\<rparr>
         else run)"

text \<open>The observers run after the handler returns, so not when it panics; \<^verbatim>\<open>Tracing\<close> defers the end of its
  span.\<close>

definition observe :: "('a run \<Rightarrow> observation) \<Rightarrow> 'a run \<Rightarrow> 'a run" where
  "observe f run = (if rn_panicked run then run else run\<lparr>rn_observed := rn_observed run @ [f run]\<rparr>)"

definition RequestLogger :: "'a middleware" where
  "RequestLogger next r hs =
     observe (\<lambda>run. LogRequest (hr_method r) (hr_path r) (writer_status (rn_writes run)) (hr_requestID r)) (next r hs)"

definition route_label :: "string \<Rightarrow> string" where
  "route_label pattern = (if pattern = [] then ''unmatched'' else pattern)"

definition Metrics :: "(http_request \<Rightarrow> string) \<Rightarrow> 'a middleware" where
  "Metrics mux next r hs =
     observe (\<lambda>run. Sample (hr_method r) (route_label (mux r)) (writer_status (rn_writes run))) (next r hs)"

definition Tracing :: "(http_request \<Rightarrow> string) \<Rightarrow> 'a middleware" where
  "Tracing mux next r hs =
     (let run = next r hs; status = writer_status (rn_writes run)
      in run\<lparr>rn_observed := rn_observed run @
           [if rn_panicked run then Span (route_label (mux r)) None False
            else Span (route_label (mux r))
              (Some (hr_method r, status, header_get (rn_headers run) ''X-Request-ID'')) (500 \<le> status)]\<rparr>)"

text \<open>The limiter with its verdict on the request, when one is configured.\<close>

definition limit :: "(http_request \<Rightarrow> bool) \<Rightarrow> 'a middleware" where
  "limit refused next r hs =
     (if refused r
      then \<lparr>rn_headers = hs(''Retry-After'' \<mapsto> ''1'', ''Content-Type'' \<mapsto> ''application/json''),
            rn_writes = write_error r http_ErrRateLimited ''too many requests, slow down'', rn_panicked = False, rn_observed = []\<rparr>
      else next r hs)"

section \<open>The chain of the API process\<close>

text \<open>
  \<^verbatim>\<open>hr_path\<close> holds the segments of the escaped path. \<^verbatim>\<open>mux.Handler(r)\<close> names the pattern that serves the request, also when the mux redirects to a cleaned
  path. \<^verbatim>\<open>cleanPath\<close> drops empty and \<^verbatim>\<open>.\<close> segments, resolves \<^verbatim>\<open>..\<close> and keeps a trailing slash.
\<close>

fun clean_segments :: "string list \<Rightarrow> string list \<Rightarrow> string list" where
  "clean_segments acc [] = rev acc"
| "clean_segments acc (s # ss) =
     (if s = [] \<or> s = ''.'' then clean_segments acc ss
      else if s = ''..'' then clean_segments (tl acc) ss
      else clean_segments (s # acc) ss)"

definition cleanPath :: "string list \<Rightarrow> string list" where
  "cleanPath ss =
     (let cs = clean_segments [] ss
      in if cs = [] then [[]] else if ss \<noteq> [] \<and> last ss = [] then cs @ [[]] else cs)"

definition mux_pattern :: "bool \<Rightarrow> http_request \<Rightarrow> string" where
  "mux_pattern loginLimited r =
     (case find_route (routes loginLimited)
          \<lparr>aq_method = hr_method r, aq_path = cleanPath (hr_path r), aq_authorization = [], aq_forwardedFor = [], aq_remoteAddr = []\<rparr> of
        None \<Rightarrow> []
      | Some (ro, _) \<Rightarrow> ro_method ro @ '' '' @ ro_pattern ro)"

definition middlewares ::
  "string \<Rightarrow> byte list \<Rightarrow> bool \<Rightarrow> (http_request \<Rightarrow> bool) option \<Rightarrow> 'a middleware list" where
  "middlewares origin random loginLimited limiter =
     [CORS origin, RequestID random, Tracing (mux_pattern loginLimited), Recoverer, RequestLogger,
      Metrics (mux_pattern loginLimited)] @
     (case limiter of None \<Rightarrow> [] | Some refused \<Rightarrow> [limit refused])"

definition api_handler ::
  "string \<Rightarrow> byte list \<Rightarrow> bool \<Rightarrow> (http_request \<Rightarrow> bool) option \<Rightarrow> 'a handler \<Rightarrow> 'a handler" where
  "api_handler origin random loginLimited limiter mux =
     Chain mux (middlewares origin random loginLimited limiter)"

section \<open>What is observed of a request\<close>

text \<open>The request and headers the routes get, and what they or the limiter in front of them do.\<close>

definition inner_run ::
  "string \<Rightarrow> byte list \<Rightarrow> (http_request \<Rightarrow> bool) option \<Rightarrow> 'a handler \<Rightarrow> 'a handler" where
  "inner_run origin random limiter mux r hs =
     CORS origin (RequestID random (case limiter of None \<Rightarrow> mux | Some refused \<Rightarrow> limit refused mux)) r hs"

lemma writer_status_append: "writer_status (ws @ vs) = fold status_step vs (writer_status ws)"
  by (simp add: writer_status_def)

lemma status_bodies: "\<forall>w \<in> set ws. \<exists>b. w = Write b \<Longrightarrow> fold status_step ws s = s"
  by (induction ws) auto

text \<open>A handler that sets the status once, before the body, as \<^verbatim>\<open>WriteJSON\<close> and \<^verbatim>\<open>WriteError\<close> do.\<close>

definition well_behaved :: "'a w_call list \<Rightarrow> bool" where
  "well_behaved ws \<longleftrightarrow> (\<forall>w \<in> set (tl ws). \<exists>b. w = Write b)"

lemma writer_status_client: "well_behaved ws \<Longrightarrow> writer_status ws = client_status ws"
proof (cases ws)
  case (Cons w vs)
  moreover assume "well_behaved ws"
  ultimately show ?thesis
    by (cases w) (auto simp: well_behaved_def writer_status_def status_bodies)
qed (simp add: writer_status_def)

lemma route_label_bounded:
  "route_label (mux_pattern b r) \<in> insert ''unmatched'' ((\<lambda>ro. ro_method ro @ '' '' @ ro_pattern ro) ` set (routes b))"
  by (auto simp: route_label_def mux_pattern_def dest: find_route_Some split: option.splits)

lemmas chain_defs = api_handler_def middlewares_def Chain_def CORS_def RequestID_def Tracing_def Recoverer_def
  RequestLogger_def Metrics_def observe_def inner_run_def Let_def

lemma chain_returned:
  assumes "hr_method r \<noteq> ''OPTIONS''" and "\<not> rn_panicked (inner_run origin random limiter mux r hs)"
  shows "api_handler origin random b limiter mux r hs =
    (let run = inner_run origin random limiter mux r hs; s = writer_status (rn_writes run); id = request_id random r;
         label = route_label (mux_pattern b (r\<lparr>hr_requestID := id\<rparr>))
     in run\<lparr>rn_observed := rn_observed run @
         [Sample (hr_method r) label s, LogRequest (hr_method r) (hr_path r) s id,
          Span label (Some (hr_method r, s, header_get (rn_headers run) ''X-Request-ID'')) (500 \<le> s)]\<rparr>)"
  using assms by (cases limiter) (simp_all add: chain_defs)

lemma chain_panicked:
  assumes "hr_method r \<noteq> ''OPTIONS''" and "rn_panicked (inner_run origin random limiter mux r hs)"
  shows "api_handler origin random b limiter mux r hs =
    (let run = inner_run origin random limiter mux r hs; id = request_id random r;
         label = route_label (mux_pattern b (r\<lparr>hr_requestID := id\<rparr>));
         hs1 = (rn_headers run)(''Content-Type'' \<mapsto> ''application/json'')
     in run\<lparr>rn_headers := hs1,
         rn_writes := rn_writes run @ write_error (r\<lparr>hr_requestID := id\<rparr>) http_ErrInternal ''internal error'',
         rn_panicked := False,
         rn_observed := rn_observed run @
           [LogPanic id, Span label (Some (hr_method r, 500, header_get hs1 ''X-Request-ID'')) True]\<rparr>)"
  using assms by (cases limiter) (simp_all add: chain_defs write_error_def writer_status_append)

lemma mux_pattern_requestID [simp]: "mux_pattern b (r\<lparr>hr_requestID := i\<rparr>) = mux_pattern b r"
  by (simp add: mux_pattern_def)

text \<open>C39: What the chain of middlewares makes of a request that is not a preflight. No panic leaves it. A
  request whose handler returns is answered as the handler answered it, and leaves one metric sample,
  one log line and one span, in this order and all with the same status, which is the one the client
  got when the handler sets it once. A request whose handler panics leaves the log of the panic and a
  span with status 500, and neither a sample nor a request line; the client gets a 500 when nothing
  had been written. The route label of samples and spans is a registered pattern or \<^verbatim>\<open>unmatched\<close>.\<close>

theorem request_observed:
  assumes "hr_method r \<noteq> ''OPTIONS''" and "inner_run origin random limiter mux r hs = run"
    and "api_handler origin random b limiter mux r hs = out"
  shows "\<not> rn_panicked out \<and>
    (\<exists>label \<in> insert ''unmatched'' ((\<lambda>ro. ro_method ro @ '' '' @ ro_pattern ro) ` set (routes b)).
      (\<not> rn_panicked run \<longrightarrow>
        (let s = writer_status (rn_writes run)
         in rn_writes out = rn_writes run \<and> rn_headers out = rn_headers run \<and>
            (well_behaved (rn_writes run) \<longrightarrow> s = client_status (rn_writes out)) \<and>
            rn_observed out = rn_observed run @
              [Sample (hr_method r) label s, LogRequest (hr_method r) (hr_path r) s (request_id random r),
               Span label (Some (hr_method r, s, header_get (rn_headers out) ''X-Request-ID'')) (500 \<le> s)])) \<and>
      (rn_panicked run \<longrightarrow>
        (rn_writes run = [] \<longrightarrow> client_status (rn_writes out) = 500) \<and>
        rn_observed out = rn_observed run @
          [LogPanic (request_id random r),
           Span label (Some (hr_method r, 500, header_get (rn_headers out) ''X-Request-ID'')) True]))"
proof (cases "rn_panicked run")
  case False
  then show ?thesis
    using chain_returned [of r origin random limiter mux hs b] assms route_label_bounded [of b r] writer_status_client [of "rn_writes run"]
    by (auto simp: Let_def)
next
  case True
  then show ?thesis
    using chain_panicked [of r origin random limiter mux hs b] assms route_label_bounded [of b r]
    by (auto simp: Let_def write_error_def)
qed

definition panicking :: "unit handler" where
  "panicking r hs = \<lparr>rn_headers = hs, rn_writes = [], rn_panicked = True, rn_observed = []\<rparr>"

definition get_nodes :: http_request where
  "get_nodes = \<lparr>hr_method = ''GET'', hr_path = [''v1'', ''admin'', ''nodes''], hr_headers = [''X-Request-ID'' \<mapsto> ''r1''], hr_requestID = []\<rparr>"

theorem request_observed_witness:
  "client_status (rn_writes (api_handler ''*'' [] False None panicking get_nodes Map.empty)) = 500 \<and>
   (\<exists>label. rn_observed (api_handler ''*'' [] False None panicking get_nodes Map.empty) =
      [LogPanic ''r1'',
       Span label (Some (''GET'', 500, header_get (rn_headers (api_handler ''*'' [] False None panicking get_nodes Map.empty)) ''X-Request-ID'')) True])"
proof -
  have "rn_panicked (inner_run ''*'' [] None panicking get_nodes Map.empty)"
    "rn_writes (inner_run ''*'' [] None panicking get_nodes Map.empty) = []"
    "rn_observed (inner_run ''*'' [] None panicking get_nodes Map.empty) = []"
    "request_id [] get_nodes = ''r1''" "hr_method get_nodes = ''GET''"
    by (simp_all add: inner_run_def CORS_def RequestID_def panicking_def get_nodes_def request_id_def header_get_def Let_def)
  with request_observed [of get_nodes "''*''" "[]" None panicking Map.empty _ False, OF _ refl refl] show ?thesis by auto
qed

text \<open>A request the limiter refuses reaches the metrics, the log and the span, and not the routes.\<close>

lemma limited_observed:
  assumes "hr_method r \<noteq> ''OPTIONS''" and "refused (r\<lparr>hr_requestID := request_id random r\<rparr>)"
  shows "\<exists>label. map (\<lambda>e. case e of Sample _ l s \<Rightarrow> (l, s) | LogRequest _ _ s _ \<Rightarrow> (label, s)
        | Span l (Some (_, s, _)) _ \<Rightarrow> (l, s) | _ \<Rightarrow> ([], 0))
      (rn_observed (api_handler origin random b (Some refused) mux r hs)) = [(label, 429), (label, 429), (label, 429)]"
    and "rn_writes (api_handler origin random b (Some refused) mux r hs) =
      write_error (r\<lparr>hr_requestID := request_id random r\<rparr>) http_ErrRateLimited ''too many requests, slow down''"
  using assms by (simp_all add: chain_defs limit_def write_error_def writer_status_def)

text \<open>A preflight is answered by \<^verbatim>\<open>CORS\<close> alone.\<close>

lemma preflight_answered:
  "hr_method r = ''OPTIONS'' \<Longrightarrow>
     rn_writes (api_handler origin random b limiter mux r hs) = [WriteHeader 204] \<and>
     rn_observed (api_handler origin random b limiter mux r hs) = [] \<and>
     rn_headers (api_handler origin random b limiter mux r hs) ''Access-Control-Allow-Origin'' = Some origin"
  by (simp add: chain_defs)

end
