(* ===== verification/Open_Api.thy ===== *)
theory Open_Api
  imports Api_Routes "HOL-Library.AList" "HOL-Library.Char_ord" "HOL-Library.List_Lexorder" "HOL-Library.Product_Lexorder"
begin

text \<open>
  The generator of the API description, \<^verbatim>\<open>cmd/openapi-gen\<close>: the extraction of routes from the calls
  that register them, the schema builder over Go types, and the assembly of the document. Go maps are association lists without
  duplicate keys. \<^verbatim>\<open>go/parser\<close> is outside: a registration is given by the parts of its call that
  \<^verbatim>\<open>parseRoutes\<close> looks at. The theory shows that the builder ends on every closed set of types,
  recursive ones included, that every reference in the document resolves, and that the document
  has exactly one operation per registered route, marked as needing a token exactly when the
  route is not public.
\<close>

section \<open>Document model\<close>

datatype schema =
  Schema (sc_ref: string) (sc_type: string) (sc_format: string) (sc_nullable: bool)
    (sc_props: "(string \<times> schema) list") (sc_required: "string list")
    (sc_items: "schema option") (sc_additional: "schema option") (sc_oneOf: "schema list")
    (sc_description: string)

definition empty_schema :: schema where
  "empty_schema = Schema [] [] [] False [] [] None None [] []"

definition typed :: "string \<Rightarrow> schema" where
  "typed t = Schema [] t [] False [] [] None None [] []"

definition date_time :: schema where
  "date_time = Schema [] ''string'' ''date-time'' False [] [] None None [] []"

definition array_of :: "schema \<Rightarrow> schema" where
  "array_of s = Schema [] ''array'' [] False [] [] (Some s) None [] []"

definition map_of_schema :: "schema \<Rightarrow> schema" where
  "map_of_schema s = Schema [] ''object'' [] False [] [] None (Some s) [] []"

definition object_schema :: "(string \<times> schema) list \<Rightarrow> string list \<Rightarrow> schema" where
  "object_schema props required = Schema [] ''object'' [] False props required None None [] []"

definition ref_prefix :: string where
  "ref_prefix = ''#/components/schemas/''"

definition ref_schema :: "string \<Rightarrow> schema" where
  "ref_schema name = Schema (ref_prefix @ name) [] [] False [] [] None None [] []"

definition one_of :: "schema list \<Rightarrow> schema" where
  "one_of ss = Schema [] [] [] False [] [] None None ss []"

fun nullable :: "schema \<Rightarrow> schema" where
  "nullable (Schema r t f _ p q i a one d) = Schema r t f True p q i a one d"

section \<open>The schema builder\<close>

text \<open>The Go types as \<^verbatim>\<open>reflect\<close> shows them; the fields of a named struct are found in an environment.
  A field has a name, whether it is exported, its \<^verbatim>\<open>json\<close> tag and its type.\<close>

datatype gotype =
    GString | GBool | GInt | GFloat | GTime | GAny | GOther
  | GPointer gotype | GSlice gotype | GMap gotype
  | GNamed string | GAnon "gofield list"
and gofield = GField (gf_name: string) (gf_exported: bool) (gf_tag: string) (gf_type: gotype)

type_synonym go_env = "(string \<times> gofield list) list"
type_synonym components = "(string \<times> schema) list"

fun Contains :: "string \<Rightarrow> string \<Rightarrow> bool" where
  "Contains [] sub \<longleftrightarrow> sub = []"
| "Contains (c # cs) sub \<longleftrightarrow> HasPrefix (c # cs) sub \<or> Contains cs sub"

text \<open>\<^verbatim>\<open>strings.Cut(tag, ",")\<close>, with the field's own name when the tag names none.\<close>

definition field_name :: "gofield \<Rightarrow> string" where
  "field_name f = (let name = takeWhile (\<lambda>c. c \<noteq> CHR '','') (gf_tag f) in if name = [] then gf_name f else name)"

definition field_opts :: "gofield \<Rightarrow> string" where
  "field_opts f = drop 1 (dropWhile (\<lambda>c. c \<noteq> CHR '','') (gf_tag f))"

definition field_skipped :: "gofield \<Rightarrow> bool" where
  "field_skipped f \<longleftrightarrow> \<not> gf_exported f \<or> gf_tag f = ''-''"

definition field_required :: "gofield \<Rightarrow> bool" where
  "field_required f \<longleftrightarrow>
     \<not> Contains (field_opts f) ''omitempty'' \<and> (case gf_type f of GPointer _ \<Rightarrow> False | _ \<Rightarrow> True)"

text \<open>
  \<^verbatim>\<open>schemaFor\<close> with \<^verbatim>\<open>refFor\<close>, and the loop of \<^verbatim>\<open>structSchema\<close> over the fields. The fuel bounds the depth
  of the recursion; \<open>None\<close> is running out of it, or a name without a type.
\<close>

function schemaFor :: "nat \<Rightarrow> go_env \<Rightarrow> gotype \<Rightarrow> components \<Rightarrow> (schema \<times> components) option"
  and structSchema :: "nat \<Rightarrow> go_env \<Rightarrow> gofield list \<Rightarrow> (string \<times> schema) list \<Rightarrow> string list \<Rightarrow> components \<Rightarrow>
    (schema \<times> components) option" where
  "schemaFor 0 env t c = None"
| "schemaFor (Suc n) env (GPointer t) c = map_option (\<lambda>(s, c1). (nullable s, c1)) (schemaFor n env t c)"
| "schemaFor (Suc n) env GTime c = Some (date_time, c)"
| "schemaFor (Suc n) env GString c = Some (typed ''string'', c)"
| "schemaFor (Suc n) env GBool c = Some (typed ''boolean'', c)"
| "schemaFor (Suc n) env GInt c = Some (typed ''integer'', c)"
| "schemaFor (Suc n) env GFloat c = Some (typed ''number'', c)"
| "schemaFor (Suc n) env (GSlice t) c = map_option (\<lambda>(s, c1). (array_of s, c1)) (schemaFor n env t c)"
| "schemaFor (Suc n) env (GMap t) c = map_option (\<lambda>(s, c1). (map_of_schema s, c1)) (schemaFor n env t c)"
| "schemaFor (Suc n) env GAny c = Some (empty_schema, c)"
| "schemaFor (Suc n) env GOther c = Some (typed ''object'', c)"
| "schemaFor (Suc n) env (GAnon fs) c = structSchema n env fs [] [] c"
| "schemaFor (Suc n) env (GNamed name) c =
     (if name \<in> fst ` set c then Some (ref_schema name, c)
      else case map_of env name of
          None \<Rightarrow> None
        | Some fs \<Rightarrow>
            (case structSchema n env fs [] [] (AList.update name empty_schema c) of
               None \<Rightarrow> None
             | Some (s, c1) \<Rightarrow> Some (ref_schema name, AList.update name s c1)))"
| "structSchema n env [] props required c = Some (object_schema props required, c)"
| "structSchema n env (f # fs) props required c =
     (if field_skipped f then structSchema n env fs props required c
      else case schemaFor n env (gf_type f) c of
          None \<Rightarrow> None
        | Some (s, c1) \<Rightarrow>
            structSchema n env fs (AList.update (field_name f) s props)
              (if field_required f then required @ [field_name f] else required) c1)"
  by pat_completeness auto
termination
  by (relation "measures [\<lambda>x. case x of Inl (n, env, t, c) \<Rightarrow> n | Inr (n, env, fs, p, q, c) \<Rightarrow> n,
      \<lambda>x. case x of Inl _ \<Rightarrow> 0 | Inr (n, env, fs, p, q, c) \<Rightarrow> Suc (length fs)]") auto

section \<open>The routes in the source\<close>

text \<open>
  What \<^verbatim>\<open>parseRoutes\<close> sees of a call: the function called when it is a selector on an identifier, the
  arguments, each a string literal or else the identifiers in it in source order, and the line. A file
  that does not parse is \<open>None\<close>.
\<close>

datatype call_arg = StringLit string | Expr "string list"

record call_expr =
  ce_recv :: "string option"
  ce_sel :: string
  ce_args :: "call_arg list"
  ce_line :: nat

type_synonym source_file = "string \<times> call_expr list option"

record Route =
  rt_Method :: string
  rt_Path :: string
  rt_Auth :: "string list"
  rt_File :: string
  rt_Line :: nat

definition authMarkers :: "string list" where
  "authMarkers = [''requireAuth'', ''requireMember'', ''requireOrgAdmin'', ''requirePlatformAdmin'',
     ''requireFolderAccess'', ''requireFileAccess'', ''requireUploadAccess'']"

definition HasSuffix :: "string \<Rightarrow> string \<Rightarrow> bool" where
  "HasSuffix s suf \<longleftrightarrow> HasPrefix (rev s) (rev suf)"

definition Base :: "string \<Rightarrow> string" where
  "Base path = rev (takeWhile (\<lambda>c. c \<noteq> CHR ''/'') (rev path))"

primrec arg_idents :: "call_arg \<Rightarrow> string list" where
  "arg_idents (StringLit _) = []"
| "arg_idents (Expr ids) = ids"

text \<open>The visitor of one call; \<open>None\<close> where the source goes on without a route.\<close>

definition visit_call :: "string \<Rightarrow> call_expr \<Rightarrow> Route option" where
  "visit_call base call =
     (if ce_recv call \<noteq> Some ''mux'' then None
      else if ce_sel call \<noteq> ''Handle'' \<and> ce_sel call \<noteq> ''HandleFunc'' then None
      else case ce_args call of
          StringLit pattern # handler # _ \<Rightarrow>
            if CHR '' '' \<in> set pattern
            then Some \<lparr>rt_Method = takeWhile (\<lambda>c. c \<noteq> CHR '' '') pattern,
                       rt_Path = drop 1 (dropWhile (\<lambda>c. c \<noteq> CHR '' '') pattern),
                       rt_Auth = filter (\<lambda>i. i \<in> set authMarkers) (arg_idents handler),
                       rt_File = base, rt_Line = ce_line call\<rparr>
            else None
        | _ \<Rightarrow> None)"

fun walk_files :: "source_file list \<Rightarrow> string + Route list" where
  "walk_files [] = Inr []"
| "walk_files ((path, calls) # fs) =
     (if HasSuffix path ''_test.go'' then walk_files fs
      else case calls of
          None \<Rightarrow> Inl path
        | Some cs \<Rightarrow> map_sum id (\<lambda>rs. List.map_filter (visit_call (Base path)) cs @ rs) (walk_files fs))"

text \<open>\<^verbatim>\<open>sort.Slice\<close> orders by path and then method; routes equal in both keep their order here.\<close>

definition parseRoutes :: "source_file list \<Rightarrow> string + Route list" where
  "parseRoutes srcs = map_sum id (sort_key (\<lambda>r. (rt_Path r, rt_Method r))) (walk_files srcs)"

definition openAPIPath :: "string \<Rightarrow> string" where
  "openAPIPath pattern = pattern"

section \<open>Assembling the document\<close>

record queryParam =
  qp_Name :: string
  qp_Type :: string
  qp_Required :: bool

record responseDoc =
  rd_Status :: string
  rd_Description :: string
  rd_Body :: "gotype option"
  rd_OneOf :: "gotype list"
  rd_ContentType :: string

record routeDoc =
  rd_Summary :: string
  rd_Tags :: "string list"
  rd_Request :: "gotype option"
  rd_Response :: responseDoc
  rd_Query :: "queryParam list"

record Parameter =
  pm_Name :: string
  pm_In :: string
  pm_Required :: bool
  pm_Schema :: schema

type_synonym media = "(string \<times> schema option) list"

record RequestBody =
  rb_Required :: bool
  rb_Content :: media

record Response =
  rp_Description :: string
  rp_Content :: media

record Operation =
  op_Summary :: string
  op_Tags :: "string list"
  op_Parameters :: "Parameter list"
  op_RequestBody :: "RequestBody option"
  op_Responses :: "(string \<times> Response) list"
  op_Security :: "(string \<times> string list) list list"

type_synonym paths = "(string \<times> (string \<times> Operation) list) list"

record SecurityScheme =
  ss_Type :: string
  ss_Scheme :: string
  ss_BearerFormat :: string

record Document =
  do_OpenAPI :: string
  do_Title :: string
  do_Version :: string
  do_Servers :: "(string \<times> string) list"
  do_Paths :: paths
  do_Schemas :: components
  do_SecuritySchemes :: "(string \<times> SecurityScheme) list"

text \<open>\<^verbatim>\<open>pathParamPattern.FindAllStringSubmatch\<close>: the names in braces, left to right. At an opening brace the
  longest run of name characters must be non-empty and end at a closing brace.\<close>

definition name_char :: "char \<Rightarrow> bool" where
  "name_char c \<longleftrightarrow>
     list_ex (\<lambda>(lo, hi). lo \<le> c \<and> c \<le> hi)
       [(CHR ''a'', CHR ''z''), (CHR ''A'', CHR ''Z''), (CHR ''0'', CHR ''9''), (CHR ''_'', CHR ''_'')]"

function path_params :: "string \<Rightarrow> string list" where
  "path_params [] = []"
| "path_params (c # s) =
     (let name = takeWhile name_char s; rest = dropWhile name_char s in
      if c = CHR ''{'' \<and> name \<noteq> [] \<and> take 1 rest = ''}'' then name # path_params (tl rest) else path_params s)"
  by pat_completeness auto
termination
  by (relation "measure length") (auto simp: less_Suc_eq_le intro: order_trans [OF diff_le_self length_dropWhile_le])

primrec oneOfRefs_loop :: "nat \<Rightarrow> go_env \<Rightarrow> gotype list \<Rightarrow> components \<Rightarrow> (schema list \<times> components) option" where
  "oneOfRefs_loop n env [] c = Some ([], c)"
| "oneOfRefs_loop n env (v # vs) c =
     (case schemaFor n env v c of
        None \<Rightarrow> None
      | Some (s, c1) \<Rightarrow> map_option (\<lambda>(ss, c2). (s # ss, c2)) (oneOfRefs_loop n env vs c1))"

definition oneOfRefs :: "nat \<Rightarrow> go_env \<Rightarrow> gotype list \<Rightarrow> components \<Rightarrow> (schema \<times> components) option" where
  "oneOfRefs n env vs c = map_option (\<lambda>(ss, c1). (one_of ss, c1)) (oneOfRefs_loop n env vs c)"

definition parameters :: "Route \<Rightarrow> routeDoc \<Rightarrow> Parameter list" where
  "parameters route rd =
     map (\<lambda>name. \<lparr>pm_Name = name, pm_In = ''path'', pm_Required = True, pm_Schema = typed ''string''\<rparr>) (path_params (rt_Path route)) @
     map (\<lambda>q. \<lparr>pm_Name = qp_Name q, pm_In = ''query'', pm_Required = qp_Required q,
              pm_Schema = typed (if qp_Type q = [] then ''string'' else qp_Type q)\<rparr>) (rd_Query rd)"

definition request_body :: "nat \<Rightarrow> go_env \<Rightarrow> routeDoc \<Rightarrow> components \<Rightarrow> (RequestBody option \<times> components) option" where
  "request_body n env rd c =
     (case rd_Request rd of
        None \<Rightarrow> Some (None, c)
      | Some t \<Rightarrow>
          map_option (\<lambda>(s, c1). (Some \<lparr>rb_Required = True, rb_Content = [(''application/json'', Some s)]\<rparr>, c1)) (schemaFor n env t c))"

definition response_content :: "nat \<Rightarrow> go_env \<Rightarrow> responseDoc \<Rightarrow> components \<Rightarrow> (media \<times> components) option" where
  "response_content n env rs c =
     (let ct = if rd_ContentType rs = [] then ''application/json'' else rd_ContentType rs in
      if rd_OneOf rs \<noteq> [] then map_option (\<lambda>(s, c1). ([(ct, Some s)], c1)) (oneOfRefs n env (rd_OneOf rs) c)
      else case rd_Body rs of
          Some t \<Rightarrow> map_option (\<lambda>(s, c1). ([(ct, Some s)], c1)) (schemaFor n env t c)
        | None \<Rightarrow> Some (if ct \<noteq> ''application/json'' then [(ct, None)] else [], c))"

text \<open>The body of the loop of \<^verbatim>\<open>main\<close> for a documented route.\<close>

definition operation :: "nat \<Rightarrow> go_env \<Rightarrow> Route \<Rightarrow> routeDoc \<Rightarrow> components \<Rightarrow> (Operation \<times> components) option" where
  "operation n env route rd c =
     (case request_body n env rd c of
        None \<Rightarrow> None
      | Some (body, c1) \<Rightarrow>
          (case response_content n env (rd_Response rd) c1 of
             None \<Rightarrow> None
           | Some (content, c2) \<Rightarrow>
               (case schemaFor n env (GNamed ''ErrorResponse'') c2 of
                  None \<Rightarrow> None
                | Some (e, c3) \<Rightarrow>
                    (let status = if rd_Status (rd_Response rd) = [] then ''200'' else rd_Status (rd_Response rd);
                         resp = \<lparr>rp_Description = rd_Description (rd_Response rd), rp_Content = content\<rparr>;
                         err = \<lparr>rp_Description = ''error'', rp_Content = [(''application/json'', Some e)]\<rparr>
                     in Some (\<lparr>op_Summary = rd_Summary rd, op_Tags = rd_Tags rd, op_Parameters = parameters route rd,
                          op_RequestBody = body, op_Responses = AList.update ''default'' err [(status, resp)],
                          op_Security = if rt_Auth route \<noteq> [] then [[(''bearerAuth'', [])]] else []\<rparr>, c3)))))"

definition route_key :: "Route \<Rightarrow> string" where
  "route_key route = rt_Method route @ '' '' @ rt_Path route"

definition add_operation :: "Route \<Rightarrow> Operation \<Rightarrow> paths \<Rightarrow> paths" where
  "add_operation route op ps =
     (let item = case map_of ps (rt_Path route) of Some item \<Rightarrow> item | None \<Rightarrow> [] in
      AList.update (rt_Path route) (AList.update (map lower_char (rt_Method route)) op item) ps)"

fun route_loop :: "nat \<Rightarrow> go_env \<Rightarrow> (string \<times> routeDoc) list \<Rightarrow> Route list \<Rightarrow> paths \<Rightarrow> components \<Rightarrow> string list \<Rightarrow>
    (paths \<times> components \<times> string list) option" where
  "route_loop n env table [] ps c missing = Some (ps, c, missing)"
| "route_loop n env table (route # rs) ps c missing =
     (case map_of table (route_key route) of
        None \<Rightarrow> route_loop n env table rs ps c (missing @ [route_key route])
      | Some rd \<Rightarrow>
          (case operation n env route rd c of
             None \<Rightarrow> None
           | Some (op, c1) \<Rightarrow> route_loop n env table rs (add_operation route op ps) c1 missing))"

datatype gen_error = ParseFailed string | MissingDocs "string list"

text \<open>\<^verbatim>\<open>main\<close> up to the marshalling of the document; each error is an exit with status 1.\<close>

definition openapi_gen :: "nat \<Rightarrow> go_env \<Rightarrow> (string \<times> routeDoc) list \<Rightarrow> source_file list \<Rightarrow> (gen_error + Document) option" where
  "openapi_gen n env table srcs =
     (case parseRoutes srcs of
        Inl path \<Rightarrow> Some (Inl (ParseFailed path))
      | Inr rs \<Rightarrow>
          map_option (\<lambda>(ps, c, missing).
            if missing \<noteq> [] then Inl (MissingDocs missing)
            else Inr \<lparr>do_OpenAPI = ''3.0.3'', do_Title = ''Nimbus Storage API'', do_Version = ''1'',
              do_Servers = [(''http://localhost:8080'', ''local dev (Compose or kind)'')],
              do_Paths = ps, do_Schemas = c,
              do_SecuritySchemes = [(''bearerAuth'', \<lparr>ss_Type = ''http'', ss_Scheme = ''bearer'', ss_BearerFormat = ''JWT''\<rparr>)]\<rparr>)
            (route_loop n env table rs [] [] []))"

definition doc_operation :: "paths \<Rightarrow> string \<Rightarrow> string \<Rightarrow> Operation option" where
  "doc_operation ps path m = Option.bind (map_of ps path) (\<lambda>item. map_of item m)"

section \<open>References resolve\<close>

text \<open>The references a schema holds, at any depth.\<close>

primrec schema_refs :: "schema \<Rightarrow> string set" where
  "schema_refs (Schema r t f nl props required items additional one descr) =
     (if r = [] then {} else {r}) \<union> \<Union> (snd ` set (map (map_prod id schema_refs) props)) \<union>
     \<Union> (set_option (map_option schema_refs items)) \<union> \<Union> (set_option (map_option schema_refs additional)) \<union>
     \<Union> (set (map schema_refs one))"

lemma schema_refs_simps [simp]:
  "schema_refs (object_schema props required) = (\<Union>(n, s) \<in> set props. schema_refs s)"
  "schema_refs (array_of s) = schema_refs s" "schema_refs (map_of_schema s) = schema_refs s"
  "schema_refs (one_of ss) = (\<Union>s \<in> set ss. schema_refs s)"
  "schema_refs (ref_schema name) = {ref_prefix @ name}"
  "schema_refs empty_schema = {}" "schema_refs (typed t) = {}" "schema_refs date_time = {}"
  by (auto simp: object_schema_def array_of_def map_of_schema_def one_of_def ref_schema_def ref_prefix_def
      empty_schema_def typed_def date_time_def)

lemma schema_refs_nullable [simp]: "schema_refs (nullable s) = schema_refs s"
  by (cases s) simp

definition resolved :: "components \<Rightarrow> schema \<Rightarrow> bool" where
  "resolved c s \<longleftrightarrow> schema_refs s \<subseteq> (\<lambda>n. ref_prefix @ n) ` fst ` set c"

definition components_ok :: "components \<Rightarrow> bool" where
  "components_ok c \<longleftrightarrow> distinct (map fst c) \<and> (\<forall>(n, s) \<in> set c. resolved c s)"

lemma resolved_simps [simp]:
  "resolved c (object_schema props required) \<longleftrightarrow> (\<forall>(k, x) \<in> set props. resolved c x)"
  "resolved c (array_of s) \<longleftrightarrow> resolved c s" "resolved c (map_of_schema s) \<longleftrightarrow> resolved c s"
  "resolved c (nullable s) \<longleftrightarrow> resolved c s" "resolved c (one_of ss) \<longleftrightarrow> (\<forall>x \<in> set ss. resolved c x)"
  "resolved c (ref_schema name) \<longleftrightarrow> name \<in> fst ` set c"
  "resolved c empty_schema" "resolved c (typed t)" "resolved c date_time"
  by (auto simp: resolved_def)

lemma resolved_mono: "resolved c s \<Longrightarrow> fst ` set c \<subseteq> fst ` set c' \<Longrightarrow> resolved c' s"
  unfolding resolved_def by (meson image_mono order_trans)

lemma update_names [simp]: "fst ` set (AList.update k v c) = insert k (fst ` set c)"
  using dom_map_of_conv_image_fst [of "AList.update k v c"] dom_map_of_conv_image_fst [of c]
  by (simp add: update_conv')

lemma set_update: "(n, s) \<in> set (AList.update k v c) \<Longrightarrow> n = k \<and> s = v \<or> (n, s) \<in> set c"
  by (induction c) (auto split: if_splits)

lemma resolved_update: "resolved c s \<Longrightarrow> resolved (AList.update k v c) s"
  by (erule resolved_mono) (simp only: update_names subset_insertI)

lemma components_ok_update:
  assumes "components_ok c" and "resolved (AList.update k v c) v"
  shows "components_ok (AList.update k v c)"
  unfolding components_ok_def
proof (intro conjI ballI, goal_cases)
  case 1
  show ?case using assms(1) by (simp add: components_ok_def distinct_update)
next
  case (2 x)
  then show ?case
    using assms resolved_mono [of c _ "AList.update k v c"] set_update [of "fst x" "snd x" k v c]
    by (auto simp: components_ok_def split: prod.splits)
qed

text \<open>Names only grow, and what was registered keeps resolving.\<close>

lemma schemaFor_ok:
  "schemaFor n env t c = Some (s, c1) \<Longrightarrow> components_ok c \<Longrightarrow>
     fst ` set c \<subseteq> fst ` set c1 \<and> components_ok c1 \<and> resolved c1 s"
  and structSchema_ok:
  "structSchema n env fs props required c = Some (s, c1) \<Longrightarrow> components_ok c \<Longrightarrow> \<forall>(k, x) \<in> set props. resolved c x \<Longrightarrow>
     fst ` set c \<subseteq> fst ` set c1 \<and> components_ok c1 \<and> resolved c1 s"
proof (induction n env t c and n env fs props required c arbitrary: s c1 and s c1 rule: schemaFor_structSchema.induct)
  case (13 n env name c)
  show ?case
  proof (cases "name \<in> fst ` set c")
    case False
    then obtain fs x c2 where x: "map_of env name = Some fs" "structSchema n env fs [] [] (AList.update name empty_schema c) = Some (x, c2)"
      "s = ref_schema name" "c1 = AList.update name x c2"
      using 13(2) by (auto split: option.splits)
    have "components_ok (AList.update name empty_schema c)"
      by (rule components_ok_update [OF 13(3)]) simp
    from 13(1) [OF False x(1,2) this] have "insert name (fst ` set c) \<subseteq> fst ` set c2" "components_ok c2" "resolved c2 x" by simp_all
    moreover from this(2,3) have "components_ok c1" unfolding x(4)
      by (rule components_ok_update [OF _ resolved_update])
    ultimately show ?thesis unfolding x(3,4) by auto
  next
    case True
    then have "c1 = c" "s = ref_schema name" using 13(2) by simp_all
    then show ?thesis using 13(3) True by simp
  qed
next
  case (15 n env f fs props required c)
  show ?case
  proof (cases "field_skipped f")
    case False
    then obtain x c2 where x: "schemaFor n env (gf_type f) c = Some (x, c2)"
      "structSchema n env fs (AList.update (field_name f) x props)
         (if field_required f then required @ [field_name f] else required) c2 = Some (s, c1)"
      using 15(4) by (auto split: option.splits)
    from 15(2) [OF False x(1) 15(5)] have c2: "fst ` set c \<subseteq> fst ` set c2" "components_ok c2" "resolved c2 x" by simp_all
    have "\<forall>(k, y) \<in> set (AList.update (field_name f) x props). resolved c2 y"
      using 15(6) c2(1,3) resolved_mono by (fastforce dest: set_update)
    from 15(3) [OF False x(1) refl x(2) c2(2) this] c2(1) show ?thesis by blast
  qed (use 15 in auto)
qed (auto split: option.splits prod.splits simp del: image_subset_iff del: subsetI)

section \<open>The builder ends\<close>

text \<open>The names a type mentions; an environment is closed when it has a type for each of them.\<close>

primrec type_names :: "gotype \<Rightarrow> string set" and field_names :: "gofield \<Rightarrow> string set" where
  "type_names GString = {}" | "type_names GBool = {}" | "type_names GInt = {}" | "type_names GFloat = {}"
| "type_names GTime = {}" | "type_names GAny = {}" | "type_names GOther = {}"
| "type_names (GPointer t) = type_names t" | "type_names (GSlice t) = type_names t" | "type_names (GMap t) = type_names t"
| "type_names (GNamed n) = {n}" | "type_names (GAnon fs) = \<Union> (set (map field_names fs))"
| "field_names (GField n e g t) = type_names t"

primrec type_depth :: "gotype \<Rightarrow> nat" and field_depth :: "gofield \<Rightarrow> nat" where
  "type_depth GString = 1" | "type_depth GBool = 1" | "type_depth GInt = 1" | "type_depth GFloat = 1"
| "type_depth GTime = 1" | "type_depth GAny = 1" | "type_depth GOther = 1"
| "type_depth (GPointer t) = Suc (type_depth t)" | "type_depth (GSlice t) = Suc (type_depth t)" | "type_depth (GMap t) = Suc (type_depth t)"
| "type_depth (GNamed n) = 1" | "type_depth (GAnon fs) = Suc (sum_list (map field_depth fs))"
| "field_depth (GField n e g t) = type_depth t"

definition fields_closed :: "go_env \<Rightarrow> gofield list \<Rightarrow> bool" where
  "fields_closed env fs \<longleftrightarrow> (\<forall>f \<in> set fs. type_names (gf_type f) \<subseteq> fst ` set env)"

definition env_closed :: "go_env \<Rightarrow> bool" where
  "env_closed env \<longleftrightarrow> (\<forall>(n, fs) \<in> set env. fields_closed env fs)"

definition env_depth :: "go_env \<Rightarrow> nat" where
  "env_depth env = sum_list (map (\<lambda>(n, fs). sum_list (map field_depth fs)) env)"

definition unregistered :: "go_env \<Rightarrow> components \<Rightarrow> nat" where
  "unregistered env c = card (fst ` set env - fst ` set c)"

definition enough :: "go_env \<Rightarrow> components \<Rightarrow> nat \<Rightarrow> nat" where
  "enough env c depth = unregistered env c * Suc (env_depth env) + depth"

lemma field_names_type [simp]: "field_names f = type_names (gf_type f)"
  by (cases f) simp

lemma field_depth_type: "field_depth f = type_depth (gf_type f)"
  by (cases f) simp

lemma unregistered_mono: "fst ` set c \<subseteq> fst ` set c1 \<Longrightarrow> unregistered env c1 \<le> unregistered env c"
  unfolding unregistered_def by (intro card_mono) auto

lemma unregistered_update:
  assumes "name \<in> fst ` set env" and "name \<notin> fst ` set c"
  shows "unregistered env c = Suc (unregistered env (AList.update name s c))"
proof -
  have "fst ` set env - insert name (fst ` set c) = fst ` set env - fst ` set c - {name}" by blast
  moreover have "card (fst ` set env - fst ` set c) = Suc (card (fst ` set env - fst ` set c - {name}))"
    by (rule card.remove) (use assms in auto)
  ultimately show ?thesis by (simp only: unregistered_def update_names)
qed

lemma depth_in_env: "map_of env name = Some fs \<Longrightarrow> sum_list (map field_depth fs) \<le> env_depth env"
  unfolding env_depth_def by (induction env) (auto split: if_splits)

lemma closed_in_env: "env_closed env \<Longrightarrow> map_of env name = Some fs \<Longrightarrow> fields_closed env fs"
  by (auto simp: env_closed_def dest: map_of_SomeD)

lemma schemaFor_total:
  "env_closed env \<Longrightarrow> components_ok c \<Longrightarrow> type_names t \<subseteq> fst ` set env \<Longrightarrow> enough env c (type_depth t) \<le> n \<Longrightarrow>
     schemaFor n env t c \<noteq> None"
  and structSchema_total:
  "env_closed env \<Longrightarrow> components_ok c \<Longrightarrow> \<forall>(k, x) \<in> set props. resolved c x \<Longrightarrow> fields_closed env fs \<Longrightarrow>
     enough env c (sum_list (map field_depth fs)) \<le> n \<Longrightarrow> structSchema n env fs props required c \<noteq> None"
proof (induction n env t c and n env fs props required c rule: schemaFor_structSchema.induct)
  case (1 env t c)
  have "0 < type_depth t" by (cases t) auto
  then show ?case using 1 by (simp add: enough_def)
next
  case (12 n env fs c)
  have "fields_closed env fs" using 12(4) by (auto simp: fields_closed_def)
  then show ?case using 12(1) [OF 12(2,3)] 12(5) by (auto simp: enough_def)
next
  case (13 n env name c)
  show ?case
  proof (cases "name \<in> fst ` set c")
    case False
    obtain fs where fs: "map_of env name = Some fs"
      using 13(4) by (cases "map_of env name") (auto simp: map_of_eq_None_iff)
    have ok: "components_ok (AList.update name empty_schema c)"
      by (rule components_ok_update [OF 13(3)]) simp
    have "enough env (AList.update name empty_schema c) (sum_list (map field_depth fs)) \<le> n"
      using 13(4,5) unregistered_update [of name env c empty_schema] False depth_in_env [OF fs] by (simp add: enough_def)
    from 13(1) [OF False fs 13(2) ok _ closed_in_env [OF 13(2) fs] this] fs False show ?thesis
      by (auto split: option.splits)
  qed simp
next
  case (15 n env f fs props required c)
  show ?case
  proof (cases "field_skipped f")
    case True
    then show ?thesis using 15(1) [OF True 15(4,5,6)] 15(7,8) by (simp add: fields_closed_def enough_def)
  next
    case False
    have f: "type_names (gf_type f) \<subseteq> fst ` set env" "fields_closed env fs" using 15(7) by (simp_all add: fields_closed_def)
    from 15(2) [OF False 15(4,5) f(1)] 15(8) obtain x c1 where x: "schemaFor n env (gf_type f) c = Some (x, c1)"
      by (auto simp: enough_def field_depth_type)
    note ok = schemaFor_ok [OF x 15(5)]
    have props: "\<forall>(k, y) \<in> set (AList.update (field_name f) x props). resolved c1 y"
      using 15(6) ok resolved_mono by (fastforce dest: set_update)
    have "unregistered env c1 * Suc (env_depth env) \<le> unregistered env c * Suc (env_depth env)"
      by (intro mult_le_mono1 unregistered_mono) (use ok in simp)
    then have "enough env c1 (sum_list (map field_depth fs)) \<le> n" using 15(8) by (simp add: enough_def)
    from 15(3) [OF False x refl 15(4) _ props f(2) this] ok show ?thesis using False x by simp
  qed
qed (auto simp: enough_def)

section \<open>The document\<close>

text \<open>The schemas an operation holds, and what the table of the routes must give: its types are known.\<close>

definition media_schemas :: "media \<Rightarrow> schema set" where
  "media_schemas m = {s. \<exists>ct. (ct, Some s) \<in> set m}"

lemma media_schemas_simps [simp]:
  "media_schemas [] = {}" "media_schemas [(ct, Some s)] = {s}" "media_schemas [(ct, None)] = {}"
  by (auto simp: media_schemas_def)

definition operation_schemas :: "Operation \<Rightarrow> schema set" where
  "operation_schemas op =
     pm_Schema ` set (op_Parameters op) \<union>
     (case op_RequestBody op of None \<Rightarrow> {} | Some b \<Rightarrow> media_schemas (rb_Content b)) \<union>
     (\<Union>(st, r) \<in> set (op_Responses op). media_schemas (rp_Content r))"

definition doc_types :: "routeDoc \<Rightarrow> gotype list" where
  "doc_types rd = (case rd_Request rd of None \<Rightarrow> [] | Some t \<Rightarrow> [t]) @
     (case rd_Body (rd_Response rd) of None \<Rightarrow> [] | Some t \<Rightarrow> [t]) @ rd_OneOf (rd_Response rd)"

definition known :: "go_env \<Rightarrow> nat \<Rightarrow> gotype \<Rightarrow> bool" where
  "known env depth t \<longleftrightarrow> type_names t \<subseteq> fst ` set env \<and> type_depth t \<le> depth"

definition table_ok :: "go_env \<Rightarrow> nat \<Rightarrow> (string \<times> routeDoc) list \<Rightarrow> bool" where
  "table_ok env depth table \<longleftrightarrow>
     env_closed env \<and> known env depth (GNamed ''ErrorResponse'') \<and> (\<forall>(k, rd) \<in> set table. \<forall>t \<in> set (doc_types rd). known env depth t)"

text \<open>One step of the builder: it succeeds, keeps the components resolved and only adds names.\<close>

definition grows :: "components \<Rightarrow> components \<Rightarrow> bool" where
  "grows c c1 \<longleftrightarrow> components_ok c1 \<and> fst ` set c \<subseteq> fst ` set c1"

lemma grows_refl: "components_ok c \<Longrightarrow> grows c c"
  by (simp add: grows_def)

lemma grows_trans: "grows c c1 \<Longrightarrow> grows c1 c2 \<Longrightarrow> grows c c2"
  by (auto simp: grows_def)

lemma grows_resolved: "grows c c1 \<Longrightarrow> resolved c s \<Longrightarrow> resolved c1 s"
  by (auto simp: grows_def intro: resolved_mono)

lemma grows_ok: "grows c c1 \<Longrightarrow> components_ok c1"
  by (simp add: grows_def)

definition gen_fuel :: "go_env \<Rightarrow> nat \<Rightarrow> nat" where
  "gen_fuel env depth = enough env [] depth"

lemma schemaFor_known:
  assumes "env_closed env" "known env depth t" "gen_fuel env depth \<le> n" "components_ok c"
  obtains s c1 where "schemaFor n env t c = Some (s, c1)" "grows c c1" "resolved c1 s"
proof -
  have "unregistered env c * Suc (env_depth env) \<le> unregistered env [] * Suc (env_depth env)"
    by (intro mult_le_mono1 unregistered_mono) simp
  then have "enough env c (type_depth t) \<le> n" using assms(2,3) by (simp add: enough_def gen_fuel_def known_def)
  then have "schemaFor n env t c \<noteq> None" using assms by (intro schemaFor_total) (simp_all add: known_def)
  then obtain s c1 where s: "schemaFor n env t c = Some (s, c1)" by auto
  from schemaFor_ok [OF this assms(4)] have "grows c c1" "resolved c1 s" by (simp_all only: grows_def)
  with s show ?thesis by (rule that)
qed

lemma oneOfRefs_known:
  assumes "env_closed env" "\<forall>t \<in> set vs. known env depth t" "gen_fuel env depth \<le> n" "components_ok c"
  shows "\<exists>ss c1. oneOfRefs_loop n env vs c = Some (ss, c1) \<and> grows c c1 \<and> (\<forall>s \<in> set ss. resolved c1 s)"
  using assms(2,4)
proof (induction vs arbitrary: c)
  case (Cons v vs)
  obtain s c1 where s: "schemaFor n env v c = Some (s, c1)" "grows c c1" "resolved c1 s"
    using schemaFor_known [OF assms(1) _ assms(3) Cons(3)] Cons(2) by auto
  from Cons(1) [OF _ grows_ok [OF s(2)]] Cons(2) obtain ss c2
    where "oneOfRefs_loop n env vs c1 = Some (ss, c2)" "grows c1 c2" "\<forall>s \<in> set ss. resolved c2 s" by auto
  with s show ?case by (auto intro: grows_trans grows_resolved)
qed (simp add: grows_refl)

lemma request_body_known:
  assumes "table_ok env depth table" "(k, rd) \<in> set table" "gen_fuel env depth \<le> n" "components_ok c"
  obtains b c1 where "request_body n env rd c = Some (b, c1)" "grows c c1"
    "\<forall>x. b = Some x \<longrightarrow> (\<forall>s \<in> media_schemas (rb_Content x). resolved c1 s)"
proof (cases "rd_Request rd")
  case None
  then show ?thesis using assms(4) by (intro that) (auto simp: request_body_def grows_refl)
next
  case (Some t)
  then have "known env depth t" using assms(1,2) by (fastforce simp: table_ok_def doc_types_def)
  then obtain s c1 where "schemaFor n env t c = Some (s, c1)" "grows c c1" "resolved c1 s"
    using schemaFor_known [OF _ _ assms(3,4)] assms(1) by (auto simp: table_ok_def)
  then show ?thesis using Some by (intro that) (auto simp: request_body_def media_schemas_def)
qed

lemma response_content_known:
  assumes "table_ok env depth table" "(k, rd) \<in> set table" "gen_fuel env depth \<le> n" "components_ok c"
  obtains m c1 where "response_content n env (rd_Response rd) c = Some (m, c1)" "grows c c1"
    "\<forall>s \<in> media_schemas m. resolved c1 s"
proof -
  have closed: "env_closed env" and known: "\<forall>t \<in> set (doc_types rd). known env depth t"
    using assms(1,2) by (auto simp: table_ok_def)
  consider (one) "rd_OneOf (rd_Response rd) \<noteq> []" | (body) t where "rd_OneOf (rd_Response rd) = []" "rd_Body (rd_Response rd) = Some t"
    | (none) "rd_OneOf (rd_Response rd) = []" "rd_Body (rd_Response rd) = None" by (cases "rd_Body (rd_Response rd)") auto
  then show ?thesis
  proof cases
    case one
    obtain ss c1 where "oneOfRefs_loop n env (rd_OneOf (rd_Response rd)) c = Some (ss, c1)" "grows c c1" "\<forall>s \<in> set ss. resolved c1 s"
      using oneOfRefs_known [OF closed _ assms(3,4), of "rd_OneOf (rd_Response rd)"] known by (auto simp: doc_types_def)
    with one show ?thesis by (intro that) (auto simp: response_content_def oneOfRefs_def Let_def media_schemas_def)
  next
    case body
    obtain s c1 where "schemaFor n env t c = Some (s, c1)" "grows c c1" "resolved c1 s"
      using schemaFor_known [OF closed _ assms(3,4), of t] known body by (auto simp: doc_types_def)
    with body show ?thesis by (intro that) (auto simp: response_content_def Let_def media_schemas_def)
  next
    case none
    then show ?thesis using assms(4) by (intro that) (auto simp: response_content_def Let_def media_schemas_def grows_refl)
  qed
qed

text \<open>What is said of the operation of a route: the security requirement, the path parameters.\<close>

definition describes :: "Route \<Rightarrow> Operation \<Rightarrow> bool" where
  "describes route op \<longleftrightarrow>
     (op_Security op = [[(''bearerAuth'', [])]] \<longleftrightarrow> rt_Auth route \<noteq> []) \<and>
     map pm_Name (filter (\<lambda>p. pm_In p = ''path'') (op_Parameters op)) = path_params (rt_Path route)"

lemma update_pair: "(x, y) \<in> set (AList.update k v [(l, w)]) \<Longrightarrow> y = v \<or> y = w"
  by (auto split: if_splits)

lemma operation_known:
  assumes "table_ok env depth table" "(k, rd) \<in> set table" "gen_fuel env depth \<le> n" "components_ok c"
  obtains op c1 where "operation n env route rd c = Some (op, c1)" "grows c c1"
    "\<forall>s \<in> operation_schemas op. resolved c1 s" "describes route op"
proof -
  obtain b c1 where b: "request_body n env rd c = Some (b, c1)" "grows c c1"
    "\<forall>x. b = Some x \<longrightarrow> (\<forall>s \<in> media_schemas (rb_Content x). resolved c1 s)" by (rule request_body_known [OF assms])
  obtain m c2 where m: "response_content n env (rd_Response rd) c1 = Some (m, c2)" "grows c1 c2"
    "\<forall>s \<in> media_schemas m. resolved c2 s" by (rule response_content_known [OF assms(1-3) grows_ok [OF b(2)]])
  obtain e c3 where e: "schemaFor n env (GNamed ''ErrorResponse'') c2 = Some (e, c3)" "grows c2 c3" "resolved c3 e"
    using assms(1) by (auto intro: schemaFor_known [OF _ _ assms(3) grows_ok [OF m(2)]] simp: table_ok_def)
  have grow: "grows c1 c3" "grows c c3" by (rule grows_trans [OF m(2) e(2)], rule grows_trans [OF b(2) grows_trans [OF m(2) e(2)]])
  have "\<forall>s \<in> media_schemas m. resolved c3 s" "\<forall>x. b = Some x \<longrightarrow> (\<forall>s \<in> media_schemas (rb_Content x). resolved c3 s)"
    using m(3) b(3) grows_resolved [OF e(2)] grows_resolved [OF grow(1)] by blast+
  then show ?thesis
    by (intro that [OF _ grow(2)])
      (use b(1) m(1) e(1,3) in \<open>auto simp: operation_def Let_def operation_schemas_def parameters_def describes_def
        filter_map comp_def map_idI simp del: AList.update.simps dest!: update_pair split: option.splits\<close>)
qed

lemma doc_operation_add:
  "doc_operation (add_operation route op ps) p m =
     (if p = rt_Path route \<and> m = map lower_char (rt_Method route) then Some op else doc_operation ps p m)"
  by (auto simp: doc_operation_def add_operation_def Let_def update_conv' split: option.splits)

text \<open>The operations of the routes seen so far, each described by one of them and with resolved references.\<close>

definition paths_ok :: "Route set \<Rightarrow> paths \<Rightarrow> components \<Rightarrow> bool" where
  "paths_ok R ps c \<longleftrightarrow>
     (\<forall>p m op. doc_operation ps p m = Some op \<longrightarrow>
        (\<exists>r \<in> R. p = rt_Path r \<and> m = map lower_char (rt_Method r) \<and> describes r op) \<and> (\<forall>s \<in> operation_schemas op. resolved c s)) \<and>
     (\<forall>r \<in> R. doc_operation ps (rt_Path r) (map lower_char (rt_Method r)) \<noteq> None)"

lemma paths_ok_add:
  assumes "paths_ok R ps c" "grows c c1" "\<forall>s \<in> operation_schemas op. resolved c1 s" "describes route op"
  shows "paths_ok (insert route R) (add_operation route op ps) c1"
  using assms grows_resolved [OF assms(2)] unfolding paths_ok_def doc_operation_add by (auto split: if_splits)

lemma route_loop_complete:
  assumes "table_ok env depth table" "gen_fuel env depth \<le> n" "\<forall>r \<in> set rs. route_key r \<in> fst ` set table"
    "components_ok c" "paths_ok R ps c"
  shows "\<exists>ps1 c1. route_loop n env table rs ps c missing = Some (ps1, c1, missing) \<and> grows c c1 \<and> paths_ok (R \<union> set rs) ps1 c1"
  using assms(3-5)
proof (induction rs arbitrary: ps c R)
  case (Cons r rs)
  obtain rd where rd: "map_of table (route_key r) = Some rd" using Cons(2) by (cases "map_of table (route_key r)") (auto simp: map_of_eq_None_iff)
  obtain op c1 where op: "operation n env r rd c = Some (op, c1)" "grows c c1" "\<forall>s \<in> operation_schemas op. resolved c1 s" "describes r op"
    by (rule operation_known [OF assms(1) map_of_SomeD [OF rd] assms(2) Cons(3)])
  from Cons(1) [OF _ grows_ok [OF op(2)] paths_ok_add [OF Cons(4) op(2-4)]] Cons(2) rd op show ?case
    by (auto intro: grows_trans)
qed (simp add: grows_refl)

lemma route_loop_missing:
  "route_loop n env table rs ps c missing = Some (ps1, c1, missing1) \<Longrightarrow>
     missing1 = missing @ filter (\<lambda>k. k \<notin> fst ` set table) (map route_key rs)"
proof (induction n env table rs ps c missing rule: route_loop.induct)
  case (2 n env table r rs ps c missing)
  then show ?case
  proof (cases "map_of table (route_key r)")
    case None
    then have "route_key r \<notin> fst ` set table" by (simp add: map_of_eq_None_iff)
    then show ?thesis using 2 None by simp
  next
    case (Some rd)
    then have "route_key r \<in> fst ` set table" by (metis map_of_eq_None_iff option.distinct(1))
    then show ?thesis using 2 Some by (auto split: option.splits prod.splits)
  qed
qed simp


text \<open>A route without documentation makes the generator stop, naming every such route.\<close>

lemma openapi_gen_missing:
  assumes "parseRoutes srcs = Inr rs" "openapi_gen n env table srcs = Some r"
  shows "case r of
      Inl e \<Rightarrow> e = MissingDocs (filter (\<lambda>k. k \<notin> fst ` set table) (map route_key rs)) \<and> (\<exists>q \<in> set rs. route_key q \<notin> fst ` set table)
    | Inr doc \<Rightarrow> \<forall>q \<in> set rs. route_key q \<in> fst ` set table"
proof -
  obtain ps c missing where loop: "route_loop n env table rs [] [] [] = Some (ps, c, missing)"
    and r: "r = (if missing \<noteq> [] then Inl (MissingDocs missing)
            else Inr \<lparr>do_OpenAPI = ''3.0.3'', do_Title = ''Nimbus Storage API'', do_Version = ''1'',
              do_Servers = [(''http://localhost:8080'', ''local dev (Compose or kind)'')],
              do_Paths = ps, do_Schemas = c,
              do_SecuritySchemes = [(''bearerAuth'', \<lparr>ss_Type = ''http'', ss_Scheme = ''bearer'', ss_BearerFormat = ''JWT''\<rparr>)]\<rparr>)"
    using assms by (auto simp: openapi_gen_def)
  have m: "missing = filter (\<lambda>k. k \<notin> fst ` set table) (map route_key rs)" using route_loop_missing [OF loop] by simp
  show ?thesis
  proof (cases "missing = []")
    case True
    then show ?thesis using m r by (auto simp: filter_empty_conv)
  next
    case False
    then obtain k where "k \<in> set missing" by (cases missing) auto
    then have "\<exists>q \<in> set rs. route_key q \<notin> fst ` set table" using m by auto
    then show ?thesis using False m r by simp
  qed
qed

end
