(* ===== verification/Api_Doc.thy ===== *)
theory Api_Doc
  imports Open_Api
begin

text \<open>
  The inputs of the generator in this repository: the types of \<^verbatim>\<open>internal/apidoc\<close>, the table of
  \<^verbatim>\<open>cmd/openapi-gen/main.go\<close> and the registrations in \<^verbatim>\<open>cmd/api\<close>, read off the source. A named string
  type is \<open>GString\<close>. The theory shows that the generator succeeds on them and that the document
  agrees with the routes the API process serves.
\<close>

section \<open>The documented types\<close>

definition auth_types :: go_env where
  "auth_types =
     [(''RegisterRequest'', [GField ''Email'' True ''email'' GString, GField ''Password'' True ''password'' GString, GField ''OrgName'' True ''org_name'' GString]),
      (''RegisterResponse'', [GField ''UserID'' True ''user_id'' GString, GField ''Email'' True ''email'' GString]),
      (''LoginRequest'', [GField ''Email'' True ''email'' GString, GField ''Password'' True ''password'' GString]),
      (''TokenPairResponse'', [GField ''AccessToken'' True ''access_token'' GString, GField ''RefreshToken'' True ''refresh_token'' GString, GField ''ExpiresIn'' True ''expires_in'' GInt]),
      (''TOTPChallengeResponse'', [GField ''TOTPRequired'' True ''totp_required'' GBool, GField ''ChallengeToken'' True ''challenge_token'' GString]),
      (''TOTPLoginRequest'', [GField ''ChallengeToken'' True ''challenge_token'' GString, GField ''Code'' True ''code'' GString]),
      (''RefreshRequest'', [GField ''RefreshToken'' True ''refresh_token'' GString]),
      (''LogoutRequest'', [GField ''RefreshToken'' True ''refresh_token'' GString]),
      (''ForgotPasswordRequest'', [GField ''Email'' True ''email'' GString]),
      (''ResetPasswordRequest'', [GField ''Token'' True ''token'' GString, GField ''Password'' True ''password'' GString]),
      (''MeResponse'', [GField ''UserID'' True ''user_id'' GString, GField ''Email'' True ''email'' GString, GField ''IsPlatformAdmin'' True ''is_platform_admin'' GBool]),
      (''TOTPStatusResponse'', [GField ''Enabled'' True ''enabled'' GBool]),
      (''TOTPSetupResponse'', [GField ''Secret'' True ''secret'' GString, GField ''OTPAuthURI'' True ''otpauth_uri'' GString]),
      (''TOTPCodeRequest'', [GField ''Code'' True ''code'' GString])]"

definition org_types :: go_env where
  "org_types =
     [(''CreateOrgRequest'', [GField ''Name'' True ''name'' GString]),
      (''Organization'', [GField ''ID'' True ''id'' GString, GField ''Name'' True ''name'' GString, GField ''OwnerUserID'' True ''owner_user_id'' GString]),
      (''Member'', [GField ''UserID'' True ''user_id'' GString, GField ''Email'' True ''email'' GString, GField ''Role'' True ''role'' GString]),
      (''AddMemberRequest'', [GField ''Email'' True ''email'' GString, GField ''Role'' True ''role'' GString]),
      (''AddMemberResponse'', [GField ''OrgID'' True ''org_id'' GString, GField ''UserID'' True ''user_id'' GString, GField ''Role'' True ''role'' GString]),
      (''UsageMember'', [GField ''UserID'' True ''user_id'' GString, GField ''Email'' True ''email'' GString, GField ''Role'' True ''role'' GString, GField ''JoinedAt'' True ''joined_at'' GTime, GField ''LastActiveAt'' True ''last_active_at'' (GPointer GTime), GField ''Events30d'' True ''events_30d'' GInt]),
      (''SetQuotaRequest'', [GField ''QuotaBytes'' True ''quota_bytes'' (GPointer GInt)]),
      (''OrgUsage'', [GField ''Storage'' True ''storage'' (GAnon [GField ''UsedBytes'' True ''used_bytes'' GInt, GField ''QuotaBytes'' True ''quota_bytes'' GInt, GField ''LiveFiles'' True ''live_files'' GInt, GField ''TrashedFiles'' True ''trashed_files'' GInt]), GField ''ActiveShareLinks'' True ''active_share_links'' GInt, GField ''Members'' True ''members'' (GSlice (GNamed ''UsageMember'')), GField ''Activity30d'' True ''activity_30d'' (GMap GInt)])]"

definition file_types :: go_env where
  "file_types =
     [(''CreateFolderRequest'', [GField ''ParentID'' True ''parent_id'' (GPointer GString), GField ''Name'' True ''name'' GString]),
      (''FolderUpdateRequest'', [GField ''Name'' True ''name,omitempty'' (GPointer GString), GField ''ParentID'' True ''parent_id,omitempty'' (GPointer GString)]),
      (''FileUpdateRequest'', [GField ''Name'' True ''name,omitempty'' (GPointer GString), GField ''FolderID'' True ''folder_id,omitempty'' (GPointer GString)]),
      (''FolderNode'', [GField ''ID'' True ''id'' GString, GField ''OrgID'' True ''org_id'' GString, GField ''ParentID'' True ''parent_id'' (GPointer GString), GField ''Name'' True ''name'' GString, GField ''CreatedAt'' True ''created_at'' GTime, GField ''UpdatedAt'' True ''updated_at'' GTime]),
      (''FileSummary'', [GField ''ID'' True ''id'' GString, GField ''Name'' True ''name'' GString, GField ''SizeBytes'' True ''size_bytes'' (GPointer GInt), GField ''MimeType'' True ''mime_type'' (GPointer GString), GField ''HasThumbnail'' True ''has_thumbnail'' GBool]),
      (''FileNode'', [GField ''ID'' True ''id'' GString, GField ''OrgID'' True ''org_id'' GString, GField ''FolderID'' True ''folder_id'' GString, GField ''Name'' True ''name'' GString, GField ''LatestVersionID'' True ''latest_version_id'' (GPointer GString), GField ''CreatedAt'' True ''created_at'' GTime, GField ''UpdatedAt'' True ''updated_at'' GTime]),
      (''FolderChildrenResponse'', [GField ''Folders'' True ''folders'' (GSlice (GNamed ''FolderNode'')), GField ''Files'' True ''files'' (GSlice (GNamed ''FileSummary''))]),
      (''PathSegment'', [GField ''ID'' True ''id'' GString, GField ''Name'' True ''name'' GString]),
      (''FileVersion'', [GField ''ID'' True ''id'' GString, GField ''SizeBytes'' True ''size_bytes'' GInt, GField ''ChecksumSHA256'' True ''checksum_sha256'' GString, GField ''MimeType'' True ''mime_type'' GString, GField ''CreatedAt'' True ''created_at'' GTime]),
      (''ThumbnailResponse'', [GField ''Targets'' True ''targets'' (GSlice GString)]),
      (''DownloadPlanChunk'', [GField ''Sequence'' True ''sequence'' GInt, GField ''Hash'' True ''hash'' GString, GField ''Targets'' True ''targets'' (GSlice GString)]),
      (''DownloadPlan'', [GField ''Chunks'' True ''chunks'' (GSlice (GNamed ''DownloadPlanChunk''))])]"

definition feed_types :: go_env where
  "feed_types =
     [(''SearchResult'', [GField ''FileID'' True ''file_id'' GString, GField ''Name'' True ''name'' GString, GField ''FolderID'' True ''folder_id'' GString, GField ''OwnerID'' True ''owner_id'' GString, GField ''CreatedAt'' True ''created_at'' GTime, GField ''SizeBytes'' True ''size_bytes'' (GPointer GInt), GField ''MimeType'' True ''mime_type'' (GPointer GString)]),
      (''SearchResponse'', [GField ''Results'' True ''results'' (GSlice (GNamed ''SearchResult'')), GField ''NextCursor'' True ''next_cursor'' GString]),
      (''ActivityEvent'', [GField ''Verb'' True ''verb'' GString, GField ''TargetType'' True ''target_type'' GString, GField ''TargetID'' True ''target_id'' GString, GField ''Actor'' True ''actor'' (GPointer GString), GField ''CreatedAt'' True ''created_at'' GTime]),
      (''ActivityResponse'', [GField ''Events'' True ''events'' (GSlice (GNamed ''ActivityEvent'')), GField ''NextCursor'' True ''next_cursor'' GString])]"

definition sharing_types :: go_env where
  "sharing_types =
     [(''ShareCreateRequest'', [GField ''ExpiresAt'' True ''expires_at,omitempty'' (GPointer GString)]),
      (''CreateBundleShareRequest'', [GField ''FileIDs'' True ''file_ids'' (GSlice GString), GField ''ExpiresAt'' True ''expires_at,omitempty'' (GPointer GString)]),
      (''ShareLink'', [GField ''Token'' True ''token'' GString, GField ''URL'' True ''url'' GString]),
      (''ShareFileInfo'', [GField ''ID'' True ''id'' GString, GField ''Name'' True ''name'' GString, GField ''SizeBytes'' True ''size_bytes'' GInt, GField ''MimeType'' True ''mime_type'' GString, GField ''ChecksumSHA256'' True ''checksum_sha256'' GString]),
      (''ShareFolderInfo'', [GField ''ID'' True ''id'' GString, GField ''Name'' True ''name'' GString]),
      (''ResolvedShareFile'', [GField ''Kind'' True ''kind'' GString, GField ''File'' True ''file'' (GNamed ''ShareFileInfo''), GField ''DownloadPlan'' True ''download_plan'' (GNamed ''DownloadPlan'')]),
      (''ResolvedShareFolder'', [GField ''Kind'' True ''kind'' GString, GField ''Folder'' True ''folder'' (GNamed ''ShareFolderInfo''), GField ''Folders'' True ''folders'' (GSlice (GNamed ''ShareFolderInfo'')), GField ''Files'' True ''files'' (GSlice (GNamed ''ShareFileInfo''))]),
      (''ResolvedShareBundle'', [GField ''Kind'' True ''kind'' GString, GField ''Files'' True ''files'' (GSlice (GNamed ''ShareFileInfo''))]),
      (''ShareChildrenResponse'', [GField ''Folder'' True ''folder'' (GNamed ''ShareFolderInfo''), GField ''Folders'' True ''folders'' (GSlice (GNamed ''ShareFolderInfo'')), GField ''Files'' True ''files'' (GSlice (GNamed ''ShareFileInfo''))]),
      (''ShareDownloadPlanResponse'', [GField ''File'' True ''file'' (GNamed ''ShareFileInfo''), GField ''DownloadPlan'' True ''download_plan'' (GNamed ''DownloadPlan'')])]"

definition upload_types :: go_env where
  "upload_types =
     [(''InitUploadRequest'', [GField ''FolderID'' True ''folder_id,omitempty'' GString, GField ''FileID'' True ''file_id,omitempty'' GString, GField ''Name'' True ''name,omitempty'' GString, GField ''SizeBytes'' True ''size_bytes'' GInt, GField ''MimeType'' True ''mime_type'' GString]),
      (''InitUploadResponse'', [GField ''UploadID'' True ''upload_id'' GString]),
      (''CheckChunksRequest'', [GField ''Hashes'' True ''hashes'' (GSlice GString)]),
      (''CheckChunksResponse'', [GField ''Missing'' True ''missing'' (GSlice GString)]),
      (''ChunkTarget'', [GField ''NodeID'' True ''node_id'' GString, GField ''PutURL'' True ''put_url'' GString]),
      (''InitChunkResponse'', [GField ''Targets'' True ''targets'' (GSlice (GNamed ''ChunkTarget'')), GField ''ExpiresAt'' True ''expires_at'' GString]),
      (''CommitChunkRequest'', [GField ''SizeBytes'' True ''size_bytes'' GInt, GField ''Etags'' True ''etags'' (GMap GString)]),
      (''CommitChunkResponse'', [GField ''Status'' True ''status'' GString]),
      (''CompleteUploadRequest'', [GField ''ChunkOrder'' True ''chunk_order'' (GSlice GString), GField ''SizeBytes'' True ''size_bytes'' GInt, GField ''ChecksumSHA256'' True ''checksum_sha256'' GString]),
      (''CompleteUploadResponse'', [GField ''FileID'' True ''file_id'' GString, GField ''VersionID'' True ''version_id'' GString])]"

definition admin_types :: go_env where
  "admin_types =
     [(''StorageNode'', [GField ''ID'' True ''id'' GString, GField ''Endpoint'' True ''endpoint'' GString, GField ''Status'' True ''status'' GString, GField ''LastHeartbeatAt'' True ''last_heartbeat_at'' (GPointer GTime)]),
      (''RingVNode'', [GField ''Position'' True ''position'' GInt, GField ''Node'' True ''node'' GString]),
      (''RingChunk'', [GField ''Sequence'' True ''sequence'' GInt, GField ''Hash'' True ''hash'' GString, GField ''Position'' True ''position'' GInt, GField ''Preference'' True ''preference'' (GSlice GString), GField ''Locations'' True ''locations'' (GSlice GString)]),
      (''RingInfo'', [GField ''VNodes'' True ''vnodes'' (GSlice (GNamed ''RingVNode'')), GField ''ReplicationFactor'' True ''replication_factor'' GInt, GField ''Chunks'' True ''chunks,omitempty'' (GSlice (GNamed ''RingChunk''))]),
      (''RepairResult'', [GField ''Checked'' True ''checked'' GInt, GField ''Restored'' True ''restored'' GInt, GField ''Unrepairable'' True ''unrepairable'' GInt]),
      (''DeadEvent'', [GField ''ID'' True ''id'' GString, GField ''Subject'' True ''subject'' GString, GField ''Payload'' True ''payload'' (GMap GAny), GField ''Error'' True ''error'' GString, GField ''Deliveries'' True ''deliveries'' GInt, GField ''Status'' True ''status'' GString, GField ''CreatedAt'' True ''created_at'' GTime, GField ''RetriedAt'' True ''retried_at,omitempty'' (GPointer GTime)]),
      (''DLQListResponse'', [GField ''Events'' True ''events'' (GSlice (GNamed ''DeadEvent''))]),
      (''RetryDeadEventResponse'', [GField ''Status'' True ''status'' GString])]"

definition shared_types :: go_env where
  "shared_types =
     [(''StatusResponse'', [GField ''Status'' True ''status'' GString]),
      (''ErrorResponse'', [GField ''Error'' True ''error'' (GAnon [GField ''Code'' True ''code'' GString, GField ''Message'' True ''message'' GString, GField ''RequestID'' True ''request_id,omitempty'' GString])])]"

definition apidoc :: go_env where
  "apidoc = auth_types @ org_types @ file_types @ feed_types @ sharing_types @ upload_types @ admin_types @ shared_types"

section \<open>The table of the routes\<close>

definition infra_docs :: "(string \<times> routeDoc) list" where
  "infra_docs =
     [(''GET /healthz'',
        \<lparr>rd_Summary = ''Liveness probe'', rd_Tags = [''infra''],
         rd_Request = None, rd_Response =
          \<lparr>rd_Status = ''200'', rd_Description = ''process is up'',
           rd_Body = None, rd_OneOf = [], rd_ContentType = ''text/plain''\<rparr>, rd_Query = []\<rparr>),
      (''GET /readyz'',
        \<lparr>rd_Summary = ''Readiness probe (Postgres/Redis/NATS)'', rd_Tags = [''infra''],
         rd_Request = None, rd_Response =
          \<lparr>rd_Status = ''200'', rd_Description = ''dependencies reachable'',
           rd_Body = Some (GMap GAny), rd_OneOf = [], rd_ContentType = ''''\<rparr>, rd_Query = []\<rparr>),
      (''GET /metrics'',
        \<lparr>rd_Summary = ''Prometheus scrape endpoint'', rd_Tags = [''infra''],
         rd_Request = None, rd_Response =
          \<lparr>rd_Status = ''200'', rd_Description = ''Prometheus text exposition format'',
           rd_Body = None, rd_OneOf = [], rd_ContentType = ''text/plain''\<rparr>, rd_Query = []\<rparr>)]"

definition auth_docs :: "(string \<times> routeDoc) list" where
  "auth_docs =
     [(''POST /v1/auth/register'',
        \<lparr>rd_Summary = ''Register a new user (and, unless org_name is a member-join, a default org)'', rd_Tags = [''auth''],
         rd_Request = Some (GNamed ''RegisterRequest''), rd_Response =
          \<lparr>rd_Status = ''201'', rd_Description = ''user created'',
           rd_Body = Some (GNamed ''RegisterResponse''), rd_OneOf = [], rd_ContentType = ''''\<rparr>, rd_Query = []\<rparr>),
      (''POST /v1/auth/login'',
        \<lparr>rd_Summary = ''Log in with email/password'', rd_Tags = [''auth''],
         rd_Request = Some (GNamed ''LoginRequest''), rd_Response =
          \<lparr>rd_Status = ''200'', rd_Description = ''token pair, or a TOTP challenge if 2FA is enabled'',
           rd_Body = None, rd_OneOf = [GNamed ''TokenPairResponse'', GNamed ''TOTPChallengeResponse''], rd_ContentType = ''''\<rparr>, rd_Query = []\<rparr>),
      (''POST /v1/auth/login/totp'',
        \<lparr>rd_Summary = ''Complete a TOTP-gated login'', rd_Tags = [''auth''],
         rd_Request = Some (GNamed ''TOTPLoginRequest''), rd_Response =
          \<lparr>rd_Status = ''200'', rd_Description = ''token pair'',
           rd_Body = Some (GNamed ''TokenPairResponse''), rd_OneOf = [], rd_ContentType = ''''\<rparr>, rd_Query = []\<rparr>),
      (''POST /v1/auth/refresh'',
        \<lparr>rd_Summary = ''Rotate a refresh token for a new token pair'', rd_Tags = [''auth''],
         rd_Request = Some (GNamed ''RefreshRequest''), rd_Response =
          \<lparr>rd_Status = ''200'', rd_Description = ''new token pair'',
           rd_Body = Some (GNamed ''TokenPairResponse''), rd_OneOf = [], rd_ContentType = ''''\<rparr>, rd_Query = []\<rparr>),
      (''POST /v1/auth/logout'',
        \<lparr>rd_Summary = ''Revoke a refresh token'', rd_Tags = [''auth''],
         rd_Request = Some (GNamed ''LogoutRequest''), rd_Response =
          \<lparr>rd_Status = ''204'', rd_Description = ''logged out'',
           rd_Body = None, rd_OneOf = [], rd_ContentType = ''''\<rparr>, rd_Query = []\<rparr>),
      (''POST /v1/auth/password/forgot'',
        \<lparr>rd_Summary = ''Request a password-reset email (always 202, anti-enumeration)'', rd_Tags = [''auth''],
         rd_Request = Some (GNamed ''ForgotPasswordRequest''), rd_Response =
          \<lparr>rd_Status = ''202'', rd_Description = ''accepted regardless of whether the email is registered'',
           rd_Body = None, rd_OneOf = [], rd_ContentType = ''''\<rparr>, rd_Query = []\<rparr>),
      (''POST /v1/auth/password/reset'',
        \<lparr>rd_Summary = ''Reset a password with a reset token'', rd_Tags = [''auth''],
         rd_Request = Some (GNamed ''ResetPasswordRequest''), rd_Response =
          \<lparr>rd_Status = ''204'', rd_Description = ''password changed; every refresh-token family for the user is revoked'',
           rd_Body = None, rd_OneOf = [], rd_ContentType = ''''\<rparr>, rd_Query = []\<rparr>),
      (''GET /v1/auth/me'',
        \<lparr>rd_Summary = ''The caller's own identity'', rd_Tags = [''auth''],
         rd_Request = None, rd_Response =
          \<lparr>rd_Status = ''200'', rd_Description = ''identity'',
           rd_Body = Some (GNamed ''MeResponse''), rd_OneOf = [], rd_ContentType = ''''\<rparr>, rd_Query = []\<rparr>),
      (''GET /v1/auth/totp'',
        \<lparr>rd_Summary = ''Whether TOTP 2FA is enabled for the caller'', rd_Tags = [''auth''],
         rd_Request = None, rd_Response =
          \<lparr>rd_Status = ''200'', rd_Description = ''status'',
           rd_Body = Some (GNamed ''TOTPStatusResponse''), rd_OneOf = [], rd_ContentType = ''''\<rparr>, rd_Query = []\<rparr>),
      (''POST /v1/auth/totp/setup'',
        \<lparr>rd_Summary = ''Start TOTP enrollment'', rd_Tags = [''auth''],
         rd_Request = None, rd_Response =
          \<lparr>rd_Status = ''200'', rd_Description = ''secret + otpauth URI for a QR code'',
           rd_Body = Some (GNamed ''TOTPSetupResponse''), rd_OneOf = [], rd_ContentType = ''''\<rparr>, rd_Query = []\<rparr>),
      (''POST /v1/auth/totp/confirm'',
        \<lparr>rd_Summary = ''Confirm TOTP enrollment with a code'', rd_Tags = [''auth''],
         rd_Request = Some (GNamed ''TOTPCodeRequest''), rd_Response =
          \<lparr>rd_Status = ''204'', rd_Description = ''2FA enabled'',
           rd_Body = None, rd_OneOf = [], rd_ContentType = ''''\<rparr>, rd_Query = []\<rparr>),
      (''DELETE /v1/auth/totp'',
        \<lparr>rd_Summary = ''Disable TOTP 2FA'', rd_Tags = [''auth''],
         rd_Request = Some (GNamed ''TOTPCodeRequest''), rd_Response =
          \<lparr>rd_Status = ''204'', rd_Description = ''2FA disabled'',
           rd_Body = None, rd_OneOf = [], rd_ContentType = ''''\<rparr>, rd_Query = []\<rparr>),
      (''POST /v1/orgs'',
        \<lparr>rd_Summary = ''Create an organization'', rd_Tags = [''orgs''],
         rd_Request = Some (GNamed ''CreateOrgRequest''), rd_Response =
          \<lparr>rd_Status = ''201'', rd_Description = ''organization created'',
           rd_Body = Some (GNamed ''Organization''), rd_OneOf = [], rd_ContentType = ''''\<rparr>, rd_Query = []\<rparr>),
      (''GET /v1/orgs'',
        \<lparr>rd_Summary = ''Organizations the caller belongs to'', rd_Tags = [''orgs''],
         rd_Request = None, rd_Response =
          \<lparr>rd_Status = ''200'', rd_Description = ''orgs'',
           rd_Body = Some (GSlice (GNamed ''Organization'')), rd_OneOf = [], rd_ContentType = ''''\<rparr>, rd_Query = []\<rparr>),
      (''GET /v1/orgs/{orgId}/members'',
        \<lparr>rd_Summary = ''List an org's members'', rd_Tags = [''orgs''],
         rd_Request = None, rd_Response =
          \<lparr>rd_Status = ''200'', rd_Description = ''members'',
           rd_Body = Some (GSlice (GNamed ''Member'')), rd_OneOf = [], rd_ContentType = ''''\<rparr>, rd_Query = []\<rparr>),
      (''POST /v1/orgs/{orgId}/members'',
        \<lparr>rd_Summary = ''Add a member by email (admin/owner only; only owner can grant admin/owner)'', rd_Tags = [''orgs''],
         rd_Request = Some (GNamed ''AddMemberRequest''), rd_Response =
          \<lparr>rd_Status = ''201'', rd_Description = ''member added'',
           rd_Body = Some (GNamed ''AddMemberResponse''), rd_OneOf = [], rd_ContentType = ''''\<rparr>, rd_Query = []\<rparr>),
      (''DELETE /v1/orgs/{orgId}/members/{userId}'',
        \<lparr>rd_Summary = ''Remove a member (the owner is structurally unremovable)'', rd_Tags = [''orgs''],
         rd_Request = None, rd_Response =
          \<lparr>rd_Status = ''204'', rd_Description = ''removed'',
           rd_Body = None, rd_OneOf = [], rd_ContentType = ''''\<rparr>, rd_Query = []\<rparr>),
      (''GET /v1/orgs/{orgId}/usage'',
        \<lparr>rd_Summary = ''Aggregate org usage/oversight (owner-gated)'', rd_Tags = [''orgs''],
         rd_Request = None, rd_Response =
          \<lparr>rd_Status = ''200'', rd_Description = ''usage'',
           rd_Body = Some (GNamed ''OrgUsage''), rd_OneOf = [], rd_ContentType = ''''\<rparr>, rd_Query = []\<rparr>),
      (''PATCH /v1/orgs/{orgId}/quota'',
        \<lparr>rd_Summary = ''Set or clear a per-tenant quota override (platform-admin only)'', rd_Tags = [''orgs''],
         rd_Request = Some (GNamed ''SetQuotaRequest''), rd_Response =
          \<lparr>rd_Status = ''204'', rd_Description = ''quota updated'',
           rd_Body = None, rd_OneOf = [], rd_ContentType = ''''\<rparr>, rd_Query = []\<rparr>)]"

definition activity_docs :: "(string \<times> routeDoc) list" where
  "activity_docs =
     [(''GET /v1/orgs/{orgId}/activity'',
        \<lparr>rd_Summary = ''Cursor-paginated activity feed'', rd_Tags = [''activity''],
         rd_Request = None, rd_Response =
          \<lparr>rd_Status = ''200'', rd_Description = ''events page'',
           rd_Body = Some (GNamed ''ActivityResponse''), rd_OneOf = [], rd_ContentType = ''''\<rparr>, rd_Query = [\<lparr>qp_Name = ''cursor'', qp_Type = ''string'', qp_Required = False\<rparr>]\<rparr>),
      (''GET /v1/orgs/{orgId}/events'',
        \<lparr>rd_Summary = ''Live activity stream (server-sent events)'', rd_Tags = [''activity''],
         rd_Request = None, rd_Response =
          \<lparr>rd_Status = ''200'', rd_Description = ''text/event-stream of activity events'',
           rd_Body = None, rd_OneOf = [], rd_ContentType = ''text/event-stream''\<rparr>, rd_Query = []\<rparr>)]"

definition file_docs :: "(string \<times> routeDoc) list" where
  "file_docs =
     [(''POST /v1/orgs/{orgId}/folders'',
        \<lparr>rd_Summary = ''Create a folder'', rd_Tags = [''folders''],
         rd_Request = Some (GNamed ''CreateFolderRequest''), rd_Response =
          \<lparr>rd_Status = ''201'', rd_Description = ''folder created'',
           rd_Body = Some (GNamed ''FolderNode''), rd_OneOf = [], rd_ContentType = ''''\<rparr>, rd_Query = []\<rparr>),
      (''GET /v1/orgs/{orgId}/folders'',
        \<lparr>rd_Summary = ''An org's root-level folders'', rd_Tags = [''folders''],
         rd_Request = None, rd_Response =
          \<lparr>rd_Status = ''200'', rd_Description = ''folders'',
           rd_Body = Some (GSlice (GNamed ''FolderNode'')), rd_OneOf = [], rd_ContentType = ''''\<rparr>, rd_Query = []\<rparr>),
      (''GET /v1/orgs/{orgId}/trash/folders'',
        \<lparr>rd_Summary = ''Soft-deleted folders'', rd_Tags = [''folders''],
         rd_Request = None, rd_Response =
          \<lparr>rd_Status = ''200'', rd_Description = ''trashed folders'',
           rd_Body = Some (GSlice (GNamed ''FolderNode'')), rd_OneOf = [], rd_ContentType = ''''\<rparr>, rd_Query = []\<rparr>),
      (''GET /v1/orgs/{orgId}/trash/files'',
        \<lparr>rd_Summary = ''Soft-deleted files'', rd_Tags = [''files''],
         rd_Request = None, rd_Response =
          \<lparr>rd_Status = ''200'', rd_Description = ''trashed files'',
           rd_Body = Some (GSlice (GNamed ''FileNode'')), rd_OneOf = [], rd_ContentType = ''''\<rparr>, rd_Query = []\<rparr>),
      (''GET /v1/folders/{folderId}/children'',
        \<lparr>rd_Summary = ''A folder's direct child folders and files'', rd_Tags = [''folders''],
         rd_Request = None, rd_Response =
          \<lparr>rd_Status = ''200'', rd_Description = ''children'',
           rd_Body = Some (GNamed ''FolderChildrenResponse''), rd_OneOf = [], rd_ContentType = ''''\<rparr>, rd_Query = []\<rparr>),
      (''GET /v1/folders/{folderId}/path'',
        \<lparr>rd_Summary = ''Ancestor chain from root to this folder, for breadcrumbs'', rd_Tags = [''folders''],
         rd_Request = None, rd_Response =
          \<lparr>rd_Status = ''200'', rd_Description = ''path segments'',
           rd_Body = Some (GSlice (GNamed ''PathSegment'')), rd_OneOf = [], rd_ContentType = ''''\<rparr>, rd_Query = []\<rparr>),
      (''PATCH /v1/folders/{folderId}'',
        \<lparr>rd_Summary = ''Rename and/or move a folder'', rd_Tags = [''folders''],
         rd_Request = Some (GNamed ''FolderUpdateRequest''), rd_Response =
          \<lparr>rd_Status = ''200'', rd_Description = ''updated folder'',
           rd_Body = Some (GNamed ''FolderNode''), rd_OneOf = [], rd_ContentType = ''''\<rparr>, rd_Query = []\<rparr>),
      (''DELETE /v1/folders/{folderId}'',
        \<lparr>rd_Summary = ''Move a folder to trash'', rd_Tags = [''folders''],
         rd_Request = None, rd_Response =
          \<lparr>rd_Status = ''204'', rd_Description = ''trashed'',
           rd_Body = None, rd_OneOf = [], rd_ContentType = ''''\<rparr>, rd_Query = []\<rparr>),
      (''POST /v1/folders/{folderId}/restore'',
        \<lparr>rd_Summary = ''Restore a trashed folder'', rd_Tags = [''folders''],
         rd_Request = None, rd_Response =
          \<lparr>rd_Status = ''200'', rd_Description = ''restored folder'',
           rd_Body = Some (GNamed ''FolderNode''), rd_OneOf = [], rd_ContentType = ''''\<rparr>, rd_Query = []\<rparr>),
      (''PATCH /v1/files/{fileId}'',
        \<lparr>rd_Summary = ''Rename and/or move a file'', rd_Tags = [''files''],
         rd_Request = Some (GNamed ''FileUpdateRequest''), rd_Response =
          \<lparr>rd_Status = ''200'', rd_Description = ''updated file'',
           rd_Body = Some (GNamed ''FileNode''), rd_OneOf = [], rd_ContentType = ''''\<rparr>, rd_Query = []\<rparr>),
      (''DELETE /v1/files/{fileId}'',
        \<lparr>rd_Summary = ''Move a file to trash'', rd_Tags = [''files''],
         rd_Request = None, rd_Response =
          \<lparr>rd_Status = ''204'', rd_Description = ''trashed'',
           rd_Body = None, rd_OneOf = [], rd_ContentType = ''''\<rparr>, rd_Query = []\<rparr>),
      (''POST /v1/files/{fileId}/restore'',
        \<lparr>rd_Summary = ''Restore a trashed file'', rd_Tags = [''files''],
         rd_Request = None, rd_Response =
          \<lparr>rd_Status = ''200'', rd_Description = ''restored file'',
           rd_Body = Some (GNamed ''FileNode''), rd_OneOf = [], rd_ContentType = ''''\<rparr>, rd_Query = []\<rparr>),
      (''DELETE /v1/files/{fileId}/purge'',
        \<lparr>rd_Summary = ''Permanently delete a trashed file (irreversible)'', rd_Tags = [''files''],
         rd_Request = None, rd_Response =
          \<lparr>rd_Status = ''204'', rd_Description = ''purged; storage reclaimed by the GC sweeper'',
           rd_Body = None, rd_OneOf = [], rd_ContentType = ''''\<rparr>, rd_Query = []\<rparr>),
      (''GET /v1/files/{fileId}/thumbnail'',
        \<lparr>rd_Summary = ''Presigned GET URLs for the file's thumbnail replicas'', rd_Tags = [''files''],
         rd_Request = None, rd_Response =
          \<lparr>rd_Status = ''200'', rd_Description = ''targets'',
           rd_Body = Some (GNamed ''ThumbnailResponse''), rd_OneOf = [], rd_ContentType = ''''\<rparr>, rd_Query = []\<rparr>),
      (''GET /v1/files/{fileId}/versions'',
        \<lparr>rd_Summary = ''Version history, newest first'', rd_Tags = [''files''],
         rd_Request = None, rd_Response =
          \<lparr>rd_Status = ''200'', rd_Description = ''versions'',
           rd_Body = Some (GSlice (GNamed ''FileVersion'')), rd_OneOf = [], rd_ContentType = ''''\<rparr>, rd_Query = []\<rparr>),
      (''GET /v1/files/{fileId}/versions/{versionId}/download-plan'',
        \<lparr>rd_Summary = ''Presigned, hash-verified download plan for one version'', rd_Tags = [''files''],
         rd_Request = None, rd_Response =
          \<lparr>rd_Status = ''200'', rd_Description = ''download plan'',
           rd_Body = Some (GNamed ''DownloadPlan''), rd_OneOf = [], rd_ContentType = ''''\<rparr>, rd_Query = []\<rparr>),
      (''POST /v1/files/{fileId}/versions/{versionId}/restore'',
        \<lparr>rd_Summary = ''Make an older version the latest (a new version, not a rewrite)'', rd_Tags = [''files''],
         rd_Request = None, rd_Response =
          \<lparr>rd_Status = ''200'', rd_Description = ''updated file'',
           rd_Body = Some (GNamed ''FileNode''), rd_OneOf = [], rd_ContentType = ''''\<rparr>, rd_Query = []\<rparr>),
      (''GET /v1/orgs/{orgId}/search'',
        \<lparr>rd_Summary = ''Full-text file search with filters'', rd_Tags = [''search''],
         rd_Request = None, rd_Response =
          \<lparr>rd_Status = ''200'', rd_Description = ''results page'',
           rd_Body = Some (GNamed ''SearchResponse''), rd_OneOf = [], rd_ContentType = ''''\<rparr>, rd_Query = [\<lparr>qp_Name = ''q'', qp_Type = ''string'', qp_Required = False\<rparr>, \<lparr>qp_Name = ''type'', qp_Type = ''string'', qp_Required = False\<rparr>, \<lparr>qp_Name = ''owner'', qp_Type = ''string'', qp_Required = False\<rparr>, \<lparr>qp_Name = ''cursor'', qp_Type = ''string'', qp_Required = False\<rparr>, \<lparr>qp_Name = ''limit'', qp_Type = ''integer'', qp_Required = False\<rparr>, \<lparr>qp_Name = ''date_from'', qp_Type = ''string'', qp_Required = False\<rparr>, \<lparr>qp_Name = ''date_to'', qp_Type = ''string'', qp_Required = False\<rparr>, \<lparr>qp_Name = ''size_min'', qp_Type = ''integer'', qp_Required = False\<rparr>, \<lparr>qp_Name = ''size_max'', qp_Type = ''integer'', qp_Required = False\<rparr>]\<rparr>)]"

definition admin_docs :: "(string \<times> routeDoc) list" where
  "admin_docs =
     [(''GET /v1/admin/nodes'',
        \<lparr>rd_Summary = ''List storage nodes and their health'', rd_Tags = [''admin''],
         rd_Request = None, rd_Response =
          \<lparr>rd_Status = ''200'', rd_Description = ''nodes'',
           rd_Body = Some (GSlice (GNamed ''StorageNode'')), rd_OneOf = [], rd_ContentType = ''''\<rparr>, rd_Query = []\<rparr>),
      (''GET /v1/admin/ring'',
        \<lparr>rd_Summary = ''Consistent-hash ring snapshot, optionally for one file's chunks'', rd_Tags = [''admin''],
         rd_Request = None, rd_Response =
          \<lparr>rd_Status = ''200'', rd_Description = ''ring info'',
           rd_Body = Some (GNamed ''RingInfo''), rd_OneOf = [], rd_ContentType = ''''\<rparr>, rd_Query = [\<lparr>qp_Name = ''file_id'', qp_Type = ''string'', qp_Required = False\<rparr>]\<rparr>),
      (''POST /v1/admin/nodes/{nodeId}/repair'',
        \<lparr>rd_Summary = ''Re-verify and re-replicate a node's chunks (manual trigger)'', rd_Tags = [''admin''],
         rd_Request = None, rd_Response =
          \<lparr>rd_Status = ''200'', rd_Description = ''repair result'',
           rd_Body = Some (GNamed ''RepairResult''), rd_OneOf = [], rd_ContentType = ''''\<rparr>, rd_Query = []\<rparr>),
      (''GET /v1/admin/dlq'',
        \<lparr>rd_Summary = ''List dead-lettered events'', rd_Tags = [''admin''],
         rd_Request = None, rd_Response =
          \<lparr>rd_Status = ''200'', rd_Description = ''dead events'',
           rd_Body = Some (GNamed ''DLQListResponse''), rd_OneOf = [], rd_ContentType = ''''\<rparr>, rd_Query = []\<rparr>),
      (''POST /v1/admin/dlq/{id}/retry'',
        \<lparr>rd_Summary = ''Republish a dead event'', rd_Tags = [''admin''],
         rd_Request = None, rd_Response =
          \<lparr>rd_Status = ''200'', rd_Description = ''retried'',
           rd_Body = Some (GNamed ''RetryDeadEventResponse''), rd_OneOf = [], rd_ContentType = ''''\<rparr>, rd_Query = []\<rparr>)]"

definition upload_docs :: "(string \<times> routeDoc) list" where
  "upload_docs =
     [(''POST /v1/uploads'',
        \<lparr>rd_Summary = ''Start a chunked upload (new file or new version)'', rd_Tags = [''uploads''],
         rd_Request = Some (GNamed ''InitUploadRequest''), rd_Response =
          \<lparr>rd_Status = ''201'', rd_Description = ''upload session'',
           rd_Body = Some (GNamed ''InitUploadResponse''), rd_OneOf = [], rd_ContentType = ''''\<rparr>, rd_Query = []\<rparr>),
      (''POST /v1/uploads/{uploadId}/chunks/check'',
        \<lparr>rd_Summary = ''Which of these content hashes does this org still need to upload'', rd_Tags = [''uploads''],
         rd_Request = Some (GNamed ''CheckChunksRequest''), rd_Response =
          \<lparr>rd_Status = ''200'', rd_Description = ''missing hashes'',
           rd_Body = Some (GNamed ''CheckChunksResponse''), rd_OneOf = [], rd_ContentType = ''''\<rparr>, rd_Query = []\<rparr>),
      (''POST /v1/uploads/{uploadId}/chunks/{hash}/init'',
        \<lparr>rd_Summary = ''Presigned PUT URLs for one chunk's replicas'', rd_Tags = [''uploads''],
         rd_Request = None, rd_Response =
          \<lparr>rd_Status = ''200'', rd_Description = ''targets'',
           rd_Body = Some (GNamed ''InitChunkResponse''), rd_OneOf = [], rd_ContentType = ''''\<rparr>, rd_Query = []\<rparr>),
      (''POST /v1/uploads/{uploadId}/chunks/{hash}/commit'',
        \<lparr>rd_Summary = ''Confirm a chunk's replicas were written (ETag cross-check)'', rd_Tags = [''uploads''],
         rd_Request = Some (GNamed ''CommitChunkRequest''), rd_Response =
          \<lparr>rd_Status = ''200'', rd_Description = ''committed'',
           rd_Body = Some (GNamed ''StatusResponse''), rd_OneOf = [], rd_ContentType = ''''\<rparr>, rd_Query = []\<rparr>),
      (''POST /v1/uploads/{uploadId}/complete'',
        \<lparr>rd_Summary = ''Finalize an upload (idempotent via Idempotency-Key header)'', rd_Tags = [''uploads''],
         rd_Request = Some (GNamed ''CompleteUploadRequest''), rd_Response =
          \<lparr>rd_Status = ''201'', rd_Description = ''file created/updated'',
           rd_Body = Some (GNamed ''CompleteUploadResponse''), rd_OneOf = [], rd_ContentType = ''''\<rparr>, rd_Query = []\<rparr>),
      (''POST /v1/files/{fileId}/share'',
        \<lparr>rd_Summary = ''Create a share link for one file'', rd_Tags = [''sharing''],
         rd_Request = Some (GNamed ''ShareCreateRequest''), rd_Response =
          \<lparr>rd_Status = ''201'', rd_Description = ''share link'',
           rd_Body = Some (GNamed ''ShareLink''), rd_OneOf = [], rd_ContentType = ''''\<rparr>, rd_Query = []\<rparr>),
      (''POST /v1/folders/{folderId}/share'',
        \<lparr>rd_Summary = ''Create a share link for a folder (and its descendants)'', rd_Tags = [''sharing''],
         rd_Request = Some (GNamed ''ShareCreateRequest''), rd_Response =
          \<lparr>rd_Status = ''201'', rd_Description = ''share link'',
           rd_Body = Some (GNamed ''ShareLink''), rd_OneOf = [], rd_ContentType = ''''\<rparr>, rd_Query = []\<rparr>),
      (''POST /v1/orgs/{orgId}/shares'',
        \<lparr>rd_Summary = ''Create a bundle share link for several files'', rd_Tags = [''sharing''],
         rd_Request = Some (GNamed ''CreateBundleShareRequest''), rd_Response =
          \<lparr>rd_Status = ''201'', rd_Description = ''share link'',
           rd_Body = Some (GNamed ''ShareLink''), rd_OneOf = [], rd_ContentType = ''''\<rparr>, rd_Query = []\<rparr>),
      (''GET /v1/shares/{token}'',
        \<lparr>rd_Summary = ''Resolve a share link (public, no auth)'', rd_Tags = [''sharing''],
         rd_Request = None, rd_Response =
          \<lparr>rd_Status = ''200'', rd_Description = ''resolved share, shape depends on kind'',
           rd_Body = None, rd_OneOf = [GNamed ''ResolvedShareFile'', GNamed ''ResolvedShareFolder'', GNamed ''ResolvedShareBundle''], rd_ContentType = ''''\<rparr>, rd_Query = []\<rparr>),
      (''GET /v1/shares/{token}/folders/{folderId}'',
        \<lparr>rd_Summary = ''Navigate inside a folder share (public, no auth)'', rd_Tags = [''sharing''],
         rd_Request = None, rd_Response =
          \<lparr>rd_Status = ''200'', rd_Description = ''children'',
           rd_Body = Some (GNamed ''ShareChildrenResponse''), rd_OneOf = [], rd_ContentType = ''''\<rparr>, rd_Query = []\<rparr>),
      (''GET /v1/shares/{token}/files/{fileId}/download-plan'',
        \<lparr>rd_Summary = ''Download plan for one file inside a share (public, no auth)'', rd_Tags = [''sharing''],
         rd_Request = None, rd_Response =
          \<lparr>rd_Status = ''200'', rd_Description = ''download plan'',
           rd_Body = Some (GNamed ''ShareDownloadPlanResponse''), rd_OneOf = [], rd_ContentType = ''''\<rparr>, rd_Query = []\<rparr>),
      (''DELETE /v1/shares/{token}'',
        \<lparr>rd_Summary = ''Revoke a share link'', rd_Tags = [''sharing''],
         rd_Request = None, rd_Response =
          \<lparr>rd_Status = ''204'', rd_Description = ''revoked'',
           rd_Body = None, rd_OneOf = [], rd_ContentType = ''''\<rparr>, rd_Query = []\<rparr>)]"

definition routeTable :: "(string \<times> routeDoc) list" where
  "routeTable = infra_docs @ auth_docs @ activity_docs @ file_docs @ admin_docs @ upload_docs"

section \<open>The registrations\<close>

text \<open>The calls on \<^verbatim>\<open>mux\<close> in each file; the visitor passes over every other call.\<close>

definition main_calls :: "call_expr list" where
  "main_calls =
     [\<lparr>ce_recv = Some ''mux'', ce_sel = ''HandleFunc'', ce_args = [StringLit ''GET /healthz'', Expr [''httpserver'', ''Liveness'']], ce_line = 135\<rparr>,
      \<lparr>ce_recv = Some ''mux'', ce_sel = ''HandleFunc'', ce_args = [StringLit ''GET /readyz'', Expr [''ready'', ''Handler'']], ce_line = 136\<rparr>,
      \<lparr>ce_recv = Some ''mux'', ce_sel = ''Handle'', ce_args = [StringLit ''GET /metrics'', Expr [''promhttp'', ''Handler'']], ce_line = 137\<rparr>]"

definition activity_calls :: "call_expr list" where
  "activity_calls =
     [\<lparr>ce_recv = Some ''mux'', ce_sel = ''Handle'', ce_args = [StringLit ''GET /v1/orgs/{orgId}/activity'', Expr [''requireAuth'', ''requireMember'', ''http'', ''HandlerFunc'', ''activityHandler'', ''List'']], ce_line = 30\<rparr>,
      \<lparr>ce_recv = Some ''mux'', ce_sel = ''Handle'', ce_args = [StringLit ''GET /v1/orgs/{orgId}/events'', Expr [''requireAuth'', ''requireMember'', ''http'', ''HandlerFunc'', ''liveHandler'', ''Stream'']], ce_line = 31\<rparr>]"

definition auth_calls :: "call_expr list" where
  "auth_calls =
     [\<lparr>ce_recv = Some ''mux'', ce_sel = ''HandleFunc'', ce_args = [StringLit ''POST /v1/auth/register'', Expr [''authHandler'', ''Register'']], ce_line = 65\<rparr>,
      \<lparr>ce_recv = Some ''mux'', ce_sel = ''Handle'', ce_args = [StringLit ''POST /v1/auth/login'', Expr [''loginLimiter'', ''Middleware'', ''loginKeyFn'', ''http'', ''HandlerFunc'', ''authHandler'', ''Login'']], ce_line = 72\<rparr>,
      \<lparr>ce_recv = Some ''mux'', ce_sel = ''Handle'', ce_args = [StringLit ''POST /v1/auth/login/totp'', Expr [''loginLimiter'', ''Middleware'', ''loginKeyFn'', ''http'', ''HandlerFunc'', ''authHandler'', ''TOTPLogin'']], ce_line = 73\<rparr>,
      \<lparr>ce_recv = Some ''mux'', ce_sel = ''HandleFunc'', ce_args = [StringLit ''POST /v1/auth/login'', Expr [''authHandler'', ''Login'']], ce_line = 75\<rparr>,
      \<lparr>ce_recv = Some ''mux'', ce_sel = ''HandleFunc'', ce_args = [StringLit ''POST /v1/auth/login/totp'', Expr [''authHandler'', ''TOTPLogin'']], ce_line = 76\<rparr>,
      \<lparr>ce_recv = Some ''mux'', ce_sel = ''HandleFunc'', ce_args = [StringLit ''POST /v1/auth/refresh'', Expr [''authHandler'', ''Refresh'']], ce_line = 78\<rparr>,
      \<lparr>ce_recv = Some ''mux'', ce_sel = ''HandleFunc'', ce_args = [StringLit ''POST /v1/auth/logout'', Expr [''authHandler'', ''Logout'']], ce_line = 79\<rparr>,
      \<lparr>ce_recv = Some ''mux'', ce_sel = ''HandleFunc'', ce_args = [StringLit ''POST /v1/auth/password/forgot'', Expr [''authHandler'', ''ForgotPassword'']], ce_line = 80\<rparr>,
      \<lparr>ce_recv = Some ''mux'', ce_sel = ''HandleFunc'', ce_args = [StringLit ''POST /v1/auth/password/reset'', Expr [''authHandler'', ''ResetPassword'']], ce_line = 81\<rparr>,
      \<lparr>ce_recv = Some ''mux'', ce_sel = ''Handle'', ce_args = [StringLit ''GET /v1/auth/me'', Expr [''requireAuth'', ''http'', ''HandlerFunc'', ''authHandler'', ''Me'']], ce_line = 82\<rparr>,
      \<lparr>ce_recv = Some ''mux'', ce_sel = ''Handle'', ce_args = [StringLit ''GET /v1/auth/totp'', Expr [''requireAuth'', ''http'', ''HandlerFunc'', ''authHandler'', ''TOTPStatus'']], ce_line = 83\<rparr>,
      \<lparr>ce_recv = Some ''mux'', ce_sel = ''Handle'', ce_args = [StringLit ''POST /v1/auth/totp/setup'', Expr [''requireAuth'', ''http'', ''HandlerFunc'', ''authHandler'', ''TOTPSetup'']], ce_line = 84\<rparr>,
      \<lparr>ce_recv = Some ''mux'', ce_sel = ''Handle'', ce_args = [StringLit ''POST /v1/auth/totp/confirm'', Expr [''requireAuth'', ''http'', ''HandlerFunc'', ''authHandler'', ''TOTPConfirm'']], ce_line = 85\<rparr>,
      \<lparr>ce_recv = Some ''mux'', ce_sel = ''Handle'', ce_args = [StringLit ''DELETE /v1/auth/totp'', Expr [''requireAuth'', ''http'', ''HandlerFunc'', ''authHandler'', ''TOTPDisable'']], ce_line = 86\<rparr>,
      \<lparr>ce_recv = Some ''mux'', ce_sel = ''Handle'', ce_args = [StringLit ''POST /v1/orgs'', Expr [''requireAuth'', ''http'', ''HandlerFunc'', ''orgHandler'', ''Create'']], ce_line = 88\<rparr>,
      \<lparr>ce_recv = Some ''mux'', ce_sel = ''Handle'', ce_args = [StringLit ''GET /v1/orgs'', Expr [''requireAuth'', ''http'', ''HandlerFunc'', ''orgHandler'', ''ListMine'']], ce_line = 89\<rparr>,
      \<lparr>ce_recv = Some ''mux'', ce_sel = ''Handle'', ce_args = [StringLit ''GET /v1/orgs/{orgId}/members'', Expr [''requireAuth'', ''requireMember'', ''http'', ''HandlerFunc'', ''orgHandler'', ''ListMembers'']], ce_line = 90\<rparr>,
      \<lparr>ce_recv = Some ''mux'', ce_sel = ''Handle'', ce_args = [StringLit ''POST /v1/orgs/{orgId}/members'', Expr [''requireAuth'', ''requireOrgAdmin'', ''http'', ''HandlerFunc'', ''orgHandler'', ''AddMember'']], ce_line = 91\<rparr>,
      \<lparr>ce_recv = Some ''mux'', ce_sel = ''Handle'', ce_args = [StringLit ''DELETE /v1/orgs/{orgId}/members/{userId}'', Expr [''requireAuth'', ''requireOrgAdmin'', ''http'', ''HandlerFunc'', ''orgHandler'', ''RemoveMember'']], ce_line = 92\<rparr>,
      \<lparr>ce_recv = Some ''mux'', ce_sel = ''Handle'', ce_args = [StringLit ''GET /v1/orgs/{orgId}/usage'', Expr [''requireAuth'', ''requireOrgAdmin'', ''http'', ''HandlerFunc'', ''orgHandler'', ''Usage'']], ce_line = 94\<rparr>,
      \<lparr>ce_recv = Some ''mux'', ce_sel = ''Handle'', ce_args = [StringLit ''PATCH /v1/orgs/{orgId}/quota'', Expr [''requireAuth'', ''requirePlatformAdmin'', ''http'', ''HandlerFunc'', ''orgHandler'', ''SetQuota'']], ce_line = 98\<rparr>]"

definition file_calls :: "call_expr list" where
  "file_calls =
     [\<lparr>ce_recv = Some ''mux'', ce_sel = ''Handle'', ce_args = [StringLit ''POST /v1/orgs/{orgId}/folders'', Expr [''requireAuth'', ''requireMember'', ''http'', ''HandlerFunc'', ''folderHandler'', ''Create'']], ce_line = 42\<rparr>,
      \<lparr>ce_recv = Some ''mux'', ce_sel = ''Handle'', ce_args = [StringLit ''GET /v1/orgs/{orgId}/folders'', Expr [''requireAuth'', ''requireMember'', ''http'', ''HandlerFunc'', ''folderHandler'', ''ListRoot'']], ce_line = 43\<rparr>,
      \<lparr>ce_recv = Some ''mux'', ce_sel = ''Handle'', ce_args = [StringLit ''GET /v1/orgs/{orgId}/trash/folders'', Expr [''requireAuth'', ''requireMember'', ''http'', ''HandlerFunc'', ''folderHandler'', ''ListTrashed'']], ce_line = 44\<rparr>,
      \<lparr>ce_recv = Some ''mux'', ce_sel = ''Handle'', ce_args = [StringLit ''GET /v1/orgs/{orgId}/trash/files'', Expr [''requireAuth'', ''requireMember'', ''http'', ''HandlerFunc'', ''fileHandler'', ''ListTrashed'']], ce_line = 45\<rparr>,
      \<lparr>ce_recv = Some ''mux'', ce_sel = ''Handle'', ce_args = [StringLit ''GET /v1/folders/{folderId}/children'', Expr [''requireAuth'', ''requireFolderAccess'', ''http'', ''HandlerFunc'', ''folderHandler'', ''ListChildren'']], ce_line = 46\<rparr>,
      \<lparr>ce_recv = Some ''mux'', ce_sel = ''Handle'', ce_args = [StringLit ''GET /v1/folders/{folderId}/path'', Expr [''requireAuth'', ''requireFolderAccess'', ''http'', ''HandlerFunc'', ''folderHandler'', ''Path'']], ce_line = 47\<rparr>,
      \<lparr>ce_recv = Some ''mux'', ce_sel = ''Handle'', ce_args = [StringLit ''PATCH /v1/folders/{folderId}'', Expr [''requireAuth'', ''requireFolderAccess'', ''http'', ''HandlerFunc'', ''folderHandler'', ''Update'']], ce_line = 48\<rparr>,
      \<lparr>ce_recv = Some ''mux'', ce_sel = ''Handle'', ce_args = [StringLit ''DELETE /v1/folders/{folderId}'', Expr [''requireAuth'', ''requireFolderAccess'', ''http'', ''HandlerFunc'', ''folderHandler'', ''Delete'']], ce_line = 49\<rparr>,
      \<lparr>ce_recv = Some ''mux'', ce_sel = ''Handle'', ce_args = [StringLit ''POST /v1/folders/{folderId}/restore'', Expr [''requireAuth'', ''http'', ''HandlerFunc'', ''folderHandler'', ''Restore'']], ce_line = 50\<rparr>,
      \<lparr>ce_recv = Some ''mux'', ce_sel = ''Handle'', ce_args = [StringLit ''PATCH /v1/files/{fileId}'', Expr [''requireAuth'', ''requireFileAccess'', ''http'', ''HandlerFunc'', ''fileHandler'', ''Update'']], ce_line = 52\<rparr>,
      \<lparr>ce_recv = Some ''mux'', ce_sel = ''Handle'', ce_args = [StringLit ''DELETE /v1/files/{fileId}'', Expr [''requireAuth'', ''requireFileAccess'', ''http'', ''HandlerFunc'', ''fileHandler'', ''Delete'']], ce_line = 53\<rparr>,
      \<lparr>ce_recv = Some ''mux'', ce_sel = ''Handle'', ce_args = [StringLit ''POST /v1/files/{fileId}/restore'', Expr [''requireAuth'', ''http'', ''HandlerFunc'', ''fileHandler'', ''Restore'']], ce_line = 54\<rparr>,
      \<lparr>ce_recv = Some ''mux'', ce_sel = ''Handle'', ce_args = [StringLit ''DELETE /v1/files/{fileId}/purge'', Expr [''requireAuth'', ''http'', ''HandlerFunc'', ''fileHandler'', ''Purge'']], ce_line = 55\<rparr>,
      \<lparr>ce_recv = Some ''mux'', ce_sel = ''Handle'', ce_args = [StringLit ''GET /v1/files/{fileId}/thumbnail'', Expr [''requireAuth'', ''requireFileAccess'', ''http'', ''HandlerFunc'', ''fileHandler'', ''Thumbnail'']], ce_line = 56\<rparr>,
      \<lparr>ce_recv = Some ''mux'', ce_sel = ''Handle'', ce_args = [StringLit ''GET /v1/files/{fileId}/versions'', Expr [''requireAuth'', ''requireFileAccess'', ''http'', ''HandlerFunc'', ''fileHandler'', ''ListVersions'']], ce_line = 57\<rparr>,
      \<lparr>ce_recv = Some ''mux'', ce_sel = ''Handle'', ce_args = [StringLit ''GET /v1/files/{fileId}/versions/{versionId}/download-plan'', Expr [''requireAuth'', ''requireFileAccess'', ''http'', ''HandlerFunc'', ''fileHandler'', ''DownloadPlan'']], ce_line = 58\<rparr>,
      \<lparr>ce_recv = Some ''mux'', ce_sel = ''Handle'', ce_args = [StringLit ''POST /v1/files/{fileId}/versions/{versionId}/restore'', Expr [''requireAuth'', ''requireFileAccess'', ''http'', ''HandlerFunc'', ''fileHandler'', ''RestoreVersion'']], ce_line = 59\<rparr>,
      \<lparr>ce_recv = Some ''mux'', ce_sel = ''Handle'', ce_args = [StringLit ''GET /v1/orgs/{orgId}/search'', Expr [''requireAuth'', ''requireMember'', ''http'', ''HandlerFunc'', ''searchHandler'', ''Search'']], ce_line = 64\<rparr>]"

definition storage_calls :: "call_expr list" where
  "storage_calls =
     [\<lparr>ce_recv = Some ''mux'', ce_sel = ''Handle'', ce_args = [StringLit ''GET /v1/admin/nodes'', Expr [''requireAuth'', ''requirePlatformAdmin'', ''http'', ''HandlerFunc'', ''storageHandler'', ''ListNodes'']], ce_line = 67\<rparr>,
      \<lparr>ce_recv = Some ''mux'', ce_sel = ''Handle'', ce_args = [StringLit ''GET /v1/admin/ring'', Expr [''requireAuth'', ''requirePlatformAdmin'', ''http'', ''HandlerFunc'', ''storageHandler'', ''Ring'']], ce_line = 68\<rparr>,
      \<lparr>ce_recv = Some ''mux'', ce_sel = ''Handle'', ce_args = [StringLit ''POST /v1/admin/nodes/{nodeId}/repair'', Expr [''requireAuth'', ''requirePlatformAdmin'', ''http'', ''HandlerFunc'', ''storageHandler'', ''Repair'']], ce_line = 71\<rparr>,
      \<lparr>ce_recv = Some ''mux'', ce_sel = ''Handle'', ce_args = [StringLit ''GET /v1/admin/dlq'', Expr [''requireAuth'', ''requirePlatformAdmin'', ''http'', ''HandlerFunc'', ''dlqHandler'', ''List'']], ce_line = 76\<rparr>,
      \<lparr>ce_recv = Some ''mux'', ce_sel = ''Handle'', ce_args = [StringLit ''POST /v1/admin/dlq/{id}/retry'', Expr [''requireAuth'', ''requirePlatformAdmin'', ''http'', ''HandlerFunc'', ''dlqHandler'', ''Retry'']], ce_line = 77\<rparr>]"

definition upload_calls :: "call_expr list" where
  "upload_calls =
     [\<lparr>ce_recv = Some ''mux'', ce_sel = ''Handle'', ce_args = [StringLit ''POST /v1/uploads'', Expr [''requireAuth'', ''http'', ''HandlerFunc'', ''uploadHandler'', ''InitUpload'']], ce_line = 55\<rparr>,
      \<lparr>ce_recv = Some ''mux'', ce_sel = ''Handle'', ce_args = [StringLit ''POST /v1/uploads/{uploadId}/chunks/check'', Expr [''requireAuth'', ''requireUploadAccess'', ''http'', ''HandlerFunc'', ''uploadHandler'', ''CheckChunks'']], ce_line = 56\<rparr>,
      \<lparr>ce_recv = Some ''mux'', ce_sel = ''Handle'', ce_args = [StringLit ''POST /v1/uploads/{uploadId}/chunks/{hash}/init'', Expr [''requireAuth'', ''requireUploadAccess'', ''http'', ''HandlerFunc'', ''uploadHandler'', ''InitChunk'']], ce_line = 57\<rparr>,
      \<lparr>ce_recv = Some ''mux'', ce_sel = ''Handle'', ce_args = [StringLit ''POST /v1/uploads/{uploadId}/chunks/{hash}/commit'', Expr [''requireAuth'', ''requireUploadAccess'', ''http'', ''HandlerFunc'', ''uploadHandler'', ''CommitChunk'']], ce_line = 58\<rparr>,
      \<lparr>ce_recv = Some ''mux'', ce_sel = ''Handle'', ce_args = [StringLit ''POST /v1/uploads/{uploadId}/complete'', Expr [''requireAuth'', ''requireUploadAccess'', ''http'', ''HandlerFunc'', ''uploadHandler'', ''Complete'']], ce_line = 59\<rparr>,
      \<lparr>ce_recv = Some ''mux'', ce_sel = ''Handle'', ce_args = [StringLit ''POST /v1/files/{fileId}/share'', Expr [''requireAuth'', ''requireFileAccess'', ''http'', ''HandlerFunc'', ''sharingHandler'', ''Create'']], ce_line = 65\<rparr>,
      \<lparr>ce_recv = Some ''mux'', ce_sel = ''Handle'', ce_args = [StringLit ''POST /v1/folders/{folderId}/share'', Expr [''requireAuth'', ''requireFolderAccess'', ''http'', ''HandlerFunc'', ''sharingHandler'', ''CreateFolder'']], ce_line = 66\<rparr>,
      \<lparr>ce_recv = Some ''mux'', ce_sel = ''Handle'', ce_args = [StringLit ''POST /v1/orgs/{orgId}/shares'', Expr [''requireAuth'', ''requireMember'', ''http'', ''HandlerFunc'', ''sharingHandler'', ''CreateBundle'']], ce_line = 67\<rparr>,
      \<lparr>ce_recv = Some ''mux'', ce_sel = ''HandleFunc'', ce_args = [StringLit ''GET /v1/shares/{token}'', Expr [''sharingHandler'', ''Resolve'']], ce_line = 69\<rparr>,
      \<lparr>ce_recv = Some ''mux'', ce_sel = ''HandleFunc'', ce_args = [StringLit ''GET /v1/shares/{token}/folders/{folderId}'', Expr [''sharingHandler'', ''Children'']], ce_line = 70\<rparr>,
      \<lparr>ce_recv = Some ''mux'', ce_sel = ''HandleFunc'', ce_args = [StringLit ''GET /v1/shares/{token}/files/{fileId}/download-plan'', Expr [''sharingHandler'', ''DownloadPlan'']], ce_line = 71\<rparr>,
      \<lparr>ce_recv = Some ''mux'', ce_sel = ''Handle'', ce_args = [StringLit ''DELETE /v1/shares/{token}'', Expr [''requireAuth'', ''http'', ''HandlerFunc'', ''sharingHandler'', ''Delete'']], ce_line = 72\<rparr>]"

definition cmd_api :: "source_file list" where
  "cmd_api =
     [(''cmd/api/adapters.go'', Some []), (''cmd/api/main.go'', Some main_calls),
      (''cmd/api/wire_activity.go'', Some activity_calls), (''cmd/api/wire_auth.go'', Some auth_calls),
      (''cmd/api/wire_files.go'', Some file_calls), (''cmd/api/wire_storage.go'', Some storage_calls),
      (''cmd/api/wire_upload.go'', Some upload_calls)]"

section \<open>The document of the API\<close>

lemmas apidoc_defs = apidoc_def auth_types_def org_types_def file_types_def feed_types_def sharing_types_def
  upload_types_def admin_types_def shared_types_def

lemma apidoc_closed: "env_closed apidoc"
  by code_simp

lemma routeTable_ok: "table_ok apidoc 2 routeTable"
  unfolding table_ok_def known_def by (intro conjI apidoc_closed) code_simp+

text \<open>What the generator and the router each hold of a route.\<close>

definition route_view :: "Route \<Rightarrow> string \<times> string \<times> bool" where
  "route_view r = (rt_Method r, rt_Path r, rt_Auth r \<noteq> [])"

definition table_view :: "route \<Rightarrow> string \<times> string \<times> bool" where
  "table_view r = (ro_method r, ro_pattern r, access_of (ro_endpoint r) \<noteq> Public)"

definition visited :: "string \<Rightarrow> call_expr list \<Rightarrow> Route list" where
  "visited base calls = List.map_filter (visit_call base) calls"

lemma calls_parsed:
  "map route_view (visited ''main.go'' main_calls) = map table_view main_routes"
  "map route_view (visited ''wire_activity.go'' activity_calls) = map table_view wireActivity"
  "map route_view (visited ''wire_files.go'' file_calls) = map table_view wireFiles"
  "map route_view (visited ''wire_storage.go'' storage_calls) = map table_view wireStorage"
  "map route_view (visited ''wire_upload.go'' upload_calls) = map table_view wireUpload"
  by code_simp+

text \<open>The login routes are registered twice in the source, with and without the limiter.\<close>

lemma auth_calls_parsed: "remdups (map route_view (visited ''wire_auth.go'' auth_calls)) = map table_view (wireAuth b)"
  by (cases b; simp only:; code_simp)

lemma cmd_api_walked:
  "walk_files cmd_api =
     Inr (visited ''main.go'' main_calls @ visited ''wire_activity.go'' activity_calls @ visited ''wire_auth.go'' auth_calls @
       visited ''wire_files.go'' file_calls @ visited ''wire_storage.go'' storage_calls @ visited ''wire_upload.go'' upload_calls)"
  by (simp add: cmd_api_def HasSuffix_def HasPrefix_def Base_def visited_def List.map_filter_simps)

lemma set_remdups_view: "remdups xs = ys \<Longrightarrow> set xs = set ys"
  by (metis set_remdups)

lemma parsed_views:
  "\<exists>rs. parseRoutes cmd_api = Inr rs \<and> route_view ` set rs = table_view ` set (routes b)"
proof -
  note parts = calls_parsed [THEN arg_cong [where f = set], unfolded set_map]
    set_remdups_view [OF auth_calls_parsed [of b], unfolded set_map]
  show ?thesis
    unfolding parseRoutes_def cmd_api_walked routes_def by (simp add: image_Un parts) blast
qed

lemma all_documented: "table_view ` set (routes b) \<subseteq> {v. fst v @ '' '' @ fst (snd v) \<in> fst ` set routeTable}"
proof -
  have "list_all (\<lambda>r. ro_method r @ '' '' @ ro_pattern r \<in> fst ` set routeTable) (routes b)" by (cases b; simp only:; code_simp)
  then show ?thesis by (auto simp: list_all_iff table_view_def)
qed

definition wild_names :: "string \<Rightarrow> string list" where
  "wild_names pattern = List.map_filter (\<lambda>s. case s of Wild n \<Rightarrow> Some n | Lit _ \<Rightarrow> None) (pattern_segs pattern)"

lemma path_params_wild: "r \<in> set (routes b) \<Longrightarrow> path_params (ro_pattern r) = wild_names (ro_pattern r)"
proof -
  have "list_all (\<lambda>r. path_params (ro_pattern r) = wild_names (ro_pattern r)) (routes b)" by (cases b; simp only:; code_simp)
  then show "r \<in> set (routes b) \<Longrightarrow> path_params (ro_pattern r) = wild_names (ro_pattern r)" by (simp add: list_all_iff)
qed

lemma describes_view:
  "describes r op \<Longrightarrow> route_view r = table_view q \<Longrightarrow> q \<in> set (routes b) \<Longrightarrow>
     (op_Security op = [[(''bearerAuth'', [])]] \<longleftrightarrow> access_of (ro_endpoint q) \<noteq> Public) \<and>
     map pm_Name (filter (\<lambda>p. pm_In p = ''path'') (op_Parameters op)) = wild_names (ro_pattern q)"
  by (simp add: describes_def route_view_def table_view_def path_params_wild)

lemma paths_ok_routes:
  assumes "paths_ok (set rs) ps c" and rs: "route_view ` set rs = table_view ` set (routes b)"
  shows "\<forall>q \<in> set (routes b). doc_operation ps (ro_pattern q) (map lower_char (ro_method q)) \<noteq> None"
    and "\<forall>p m op. doc_operation ps p m = Some op \<longrightarrow>
      (\<exists>q \<in> set (routes b). p = ro_pattern q \<and> m = map lower_char (ro_method q) \<and>
         (op_Security op = [[(''bearerAuth'', [])]] \<longleftrightarrow> access_of (ro_endpoint q) \<noteq> Public) \<and>
         map pm_Name (filter (\<lambda>p. pm_In p = ''path'') (op_Parameters op)) = wild_names (ro_pattern q)) \<and>
      (\<forall>s \<in> operation_schemas op. resolved c s)"
proof -
  show "\<forall>q \<in> set (routes b). doc_operation ps (ro_pattern q) (map lower_char (ro_method q)) \<noteq> None"
  proof
    fix q assume "q \<in> set (routes b)"
    then obtain r where "r \<in> set rs" "route_view r = table_view q" using rs by (metis image_iff)
    then show "doc_operation ps (ro_pattern q) (map lower_char (ro_method q)) \<noteq> None"
      using assms(1) by (auto simp: paths_ok_def route_view_def table_view_def)
  qed
  show "\<forall>p m op. doc_operation ps p m = Some op \<longrightarrow>
      (\<exists>q \<in> set (routes b). p = ro_pattern q \<and> m = map lower_char (ro_method q) \<and>
         (op_Security op = [[(''bearerAuth'', [])]] \<longleftrightarrow> access_of (ro_endpoint q) \<noteq> Public) \<and>
         map pm_Name (filter (\<lambda>p. pm_In p = ''path'') (op_Parameters op)) = wild_names (ro_pattern q)) \<and>
      (\<forall>s \<in> operation_schemas op. resolved c s)"
  proof (intro allI impI conjI)
    fix p m op assume op: "doc_operation ps p m = Some op"
    then obtain r where r: "r \<in> set rs" "p = rt_Path r" "m = map lower_char (rt_Method r)" "describes r op"
      using assms(1) unfolding paths_ok_def by blast
    then obtain q where q: "q \<in> set (routes b)" "route_view r = table_view q" using rs by (metis image_iff)
    from describes_view [OF r(4) q(2,1)] r q show "\<exists>q \<in> set (routes b). p = ro_pattern q \<and> m = map lower_char (ro_method q) \<and>
         (op_Security op = [[(''bearerAuth'', [])]] \<longleftrightarrow> access_of (ro_endpoint q) \<noteq> Public) \<and>
         map pm_Name (filter (\<lambda>p. pm_In p = ''path'') (op_Parameters op)) = wild_names (ro_pattern q)"
      by (intro bexI [of _ q]) (auto simp: route_view_def table_view_def)
    show "\<forall>s \<in> operation_schemas op. resolved c s" using assms(1) op unfolding paths_ok_def by blast
  qed
qed

text \<open>C38: The generator succeeds on the repository's own tables, and the document it writes agrees with the API
  process: it has an operation for every route served, and none besides; an operation asks for a bearer
  token exactly when its route is not public; its path parameters are the wildcards the router binds; and
  every schema reference in an operation or in a component names a component of the document.\<close>

theorem openapi_agrees_with_routes:
  assumes "gen_fuel apidoc 2 \<le> n"
  shows "\<exists>doc. openapi_gen n apidoc routeTable cmd_api = Some (Inr doc) \<and>
    (\<forall>q \<in> set (routes b). doc_operation (do_Paths doc) (ro_pattern q) (map lower_char (ro_method q)) \<noteq> None) \<and>
    (\<forall>p m op. doc_operation (do_Paths doc) p m = Some op \<longrightarrow>
      (\<exists>q \<in> set (routes b). p = ro_pattern q \<and> m = map lower_char (ro_method q) \<and>
         (op_Security op = [[(''bearerAuth'', [])]] \<longleftrightarrow> access_of (ro_endpoint q) \<noteq> Public) \<and>
         map pm_Name (filter (\<lambda>p. pm_In p = ''path'') (op_Parameters op)) = wild_names (ro_pattern q)) \<and>
      (\<forall>s \<in> operation_schemas op. resolved (do_Schemas doc) s)) \<and>
    components_ok (do_Schemas doc)"
proof -
  obtain rs where rs: "parseRoutes cmd_api = Inr rs" "route_view ` set rs = table_view ` set (routes b)"
    using parsed_views by blast
  have "\<forall>r \<in> set rs. route_key r \<in> fst ` set routeTable"
  proof
    fix r assume "r \<in> set rs"
    then have "route_view r \<in> table_view ` set (routes b)" unfolding rs(2) [symmetric] by (rule imageI)
    with all_documented [of b] have "route_view r \<in> {v. fst v @ '' '' @ fst (snd v) \<in> fst ` set routeTable}" by (rule subsetD)
    then show "route_key r \<in> fst ` set routeTable" by (simp only: mem_Collect_eq route_key_def route_view_def fst_conv snd_conv)
  qed
  then obtain ps c where loop: "route_loop n apidoc routeTable rs [] [] [] = Some (ps, c, [])"
    "grows [] c" "paths_ok (set rs) ps c"
    using route_loop_complete [OF routeTable_ok assms, of rs "[]" "{}" "[]" "[]"]
    by (auto simp: components_ok_def paths_ok_def doc_operation_def)
  have "\<exists>doc. openapi_gen n apidoc routeTable cmd_api = Some (Inr doc) \<and> do_Paths doc = ps \<and> do_Schemas doc = c"
    using rs(1) loop(1) by (simp add: openapi_gen_def)
  then show ?thesis using grows_ok [OF loop(2)] paths_ok_routes [OF loop(3) rs(2)] by (elim exE conjE) (intro exI conjI; hypsubst; assumption)
qed

theorem openapi_agrees_with_routes_witness:
  "\<exists>doc op. openapi_gen (gen_fuel apidoc 2) apidoc routeTable cmd_api = Some (Inr doc) \<and>
      doc_operation (do_Paths doc) ''/v1/admin/ring'' ''get'' = Some op"
proof -
  have "\<lparr>ro_method = ''GET'', ro_pattern = ''/v1/admin/ring'', ro_gates = [GAuth, GPlatformAdmin], ro_endpoint = AdminHandler EpRing\<rparr> \<in> set (routes True)"
    by (simp add: routes_def wireStorage_def)
  moreover have "map lower_char ''GET'' = ''get''" by code_simp
  ultimately have "\<exists>doc. openapi_gen (gen_fuel apidoc 2) apidoc routeTable cmd_api = Some (Inr doc) \<and>
      doc_operation (do_Paths doc) ''/v1/admin/ring'' ''get'' \<noteq> None"
    using openapi_agrees_with_routes [OF order_refl, of True]
    by (elim exE conjE) (drule (1) bspec, simp only: route.simps, blast)
  then show ?thesis by blast
qed

end
