(* ===== verification/Spec2Isabelle.thy ===== *)
theory Spec2Isabelle
  imports System Auth_Codes Search Live Org_Usage Startup Middleware Api_Doc Sha256_Vectors
begin

text \<open>
  Verification of the Nimbus storage platform's Go backend (\<^verbatim>\<open>src/backend\<close>): an API process
  (\<^verbatim>\<open>cmd/api\<close>) and a worker (\<^verbatim>\<open>cmd/worker\<close>) over PostgreSQL, Redis, NATS JetStream and a set of
  MinIO storage nodes.

  \<^bold>\<open>How the program works.\<close> Users belong to organizations. An organization has a tree of folders;
  folders hold files, a file has versions, and a version is a list of content-addressed chunks. A
  client uploads by opening a session, asking which chunks the organization already has, putting
  the missing ones directly on storage nodes through presigned URLs, committing each with the
  acknowledgements of a write quorum, and completing the session, which creates the version and
  charges the organization's byte counter. Chunks are placed by a consistent-hash ring over the
  nodes that health probes report as up. The worker turns the event of a completed upload into a
  thumbnail, retries and finally dead-letters failures, and collects chunks no version uses.
  Deleted items go to a trash that a retention job empties. Share links give the public read
  access to a file, a folder or a bundle. Every route passes middlewares: rate limiting, the
  bearer token, and the role or resource membership the route asks for.

  \<^bold>\<open>Conventions.\<close> A database table is a list of records (\<open>Schema\<close>); SQL statements are list
  operations, with constraints, foreign keys and cascades written out; a transaction either
  applies or leaves the database as it was. Operations return \<open>goerr + 'a\<close>, and those that write
  return the new database beside it (\<open>'a dbop\<close>); Go's sentinel errors are constructors of \<open>goerr\<close>.
  Times and durations are integers in nanoseconds. \<^verbatim>\<open>int64\<close> sums wrap or overflow where the code or
  PostgreSQL does so. Handlers return the response they write (\<open>Http\<close>). Random bytes, drawn UUIDs
  and one clock reading per request are arguments.

  \<^bold>\<open>The theories.\<close>
  \<^item> \<open>Nimbus_Prelude\<close>: identifiers, errors, results, list-as-table operations and their lemmas;
    \<open>Go_Strings\<close>: the functions of Go's \<^verbatim>\<open>strings\<close>; \<open>Http\<close>: \<^verbatim>\<open>httpserver/errors.go\<close>; \<open>Encoding\<close>: hex,
    base64url and base32 with their decoders; \<open>Sha1\<close>, \<open>Sha256\<close>, \<open>Sha256_Vectors\<close>: the hash functions,
    executable, with test vectors.
  \<^item> \<open>Schema\<close>: the tables of \<^verbatim>\<open>migrations/\<close> and the database invariant \<open>db_inv\<close>, with the lemmas on
    cascading deletes and the byte counter that the components share.
  \<^item> \<open>Hash_Ring\<close> (\<^verbatim>\<open>storage/ring.go\<close>): the ring with binary search and the replica walk; replica
    selection refines the first healthy nodes of a key's preference list, and node changes move
    only the keys of that node. \<open>Router\<close> (\<^verbatim>\<open>breaker.go\<close>, \<^verbatim>\<open>router.go\<close>): circuit breakers, probes, latency
    tiers, \<^verbatim>\<open>Resolve\<close>. \<open>Node_Registry\<close>: the \<^verbatim>\<open>storage_nodes\<close> rows follow the router's view.
    \<open>Storage_Repair\<close> (\<^verbatim>\<open>fetch.go\<close>, \<^verbatim>\<open>repair.go\<close>): object access over any MinIO that obeys \<open>minio_laws\<close>, and the
    repair of a node's replicas.
  \<^item> \<open>Org\<close>, \<open>Org_Usage\<close> (\<^verbatim>\<open>internal/org\<close>): organizations, roles, quotas, the role cache with its staleness
    bound, the usage view.
  \<^item> \<open>Folder_Tree\<close>, \<open>Folder_Trash\<close> (\<^verbatim>\<open>internal/folder\<close>): the recursive queries as a fuelled closure, proved
    to compute the tree relation on acyclic tables (the fuel is the number of rows plus one); moves,
    trash and restore, the retention purge.
  \<^item> \<open>File_Store\<close>, \<open>File_Laws\<close> (\<^verbatim>\<open>internal/file\<close>): versions, purge, download plans.
    \<open>Upload_Session\<close>, \<open>Upload_Laws\<close> (\<^verbatim>\<open>internal/upload\<close>): the session protocol, quota, idempotent completion.
    \<open>Gc\<close> (\<^verbatim>\<open>internal/gc\<close>): mark, sweep and reap.
  \<^item> \<open>Sharing\<close>, \<open>Sharing_Laws\<close> (\<^verbatim>\<open>internal/sharing\<close>): links, their scope, and that nothing outside it is
    served or distinguishable.
  \<^item> \<open>Totp\<close>, \<open>Auth\<close>, \<open>Auth_Routes\<close>, \<open>Auth_Laws\<close>, \<open>Auth_Codes\<close> (\<^verbatim>\<open>internal/auth\<close>): registration, sessions,
    rotation of refresh tokens, password reset, one-time passwords, with single-use theorems over
    arbitrary sequences of requests.
  \<^item> \<open>Paging\<close>, \<open>Activity\<close>, \<open>Search\<close>: cursors and keyset pages; a client that follows the cursors ends and
    sees every row once. \<open>Live\<close> (\<^verbatim>\<open>internal/live\<close>): what an organization's event stream carries.
  \<^item> \<open>Events\<close> (\<^verbatim>\<open>internal/events\<close>): deliveries and redeliveries, dead letters, and concurrent retries as a
    step relation. \<open>Processing\<close> (\<^verbatim>\<open>internal/processing\<close>): verified reassembly and thumbnails.
  \<^item> \<open>Rate_Limit\<close> (\<^verbatim>\<open>ratelimit.go\<close>), \<open>Config\<close> (\<^verbatim>\<open>config.go\<close>), \<open>Server\<close> (\<^verbatim>\<open>health.go\<close>, \<^verbatim>\<open>idgen\<close>), \<open>Read_Routes\<close> (the
    listing handlers), \<open>Startup\<close> (the start of the worker and of the storage layer).
  \<^item> \<open>Api_Routes\<close> (\<^verbatim>\<open>cmd/api\<close>): the route table, Go's pattern matching, the middleware chains with their
    caches and limiters, and access control for the whole table. \<open>Middleware\<close> (\<^verbatim>\<open>httpserver\<close>): the
    global chain, with what is logged, sampled and traced of every request. \<open>System\<close>: all of it as one
    transition system whose reachable databases satisfy \<open>db_inv\<close>.

  \<^item> \<open>Open_Api\<close> (\<^verbatim>\<open>cmd/openapi-gen\<close>): the generator of the API description, with a fuelled schema builder
    that is shown to end on recursive types (\<open>gen_fuel\<close> bounds the fuel by the types not yet registered
    times the depth of the declarations). \<open>Api_Doc\<close> (\<^verbatim>\<open>internal/apidoc\<close>, the route table, the registrations):
    the generator's inputs, and that its output agrees with \<open>Api_Routes\<close>.

  \<^bold>\<open>Interfaces.\<close> Where the Go code depends on an interface, a locale states what the client relies on and
  is interpreted on the wired implementation: \<open>membership_checker\<close>, \<open>folder_org_lookup\<close>, \<open>trash_purger\<close>,
  \<open>file_creator\<close>, \<open>upload_ports\<close>, \<open>gc_ports\<close>, \<open>share_ports\<close>, \<open>usage_ports\<close>, and \<open>keyset_pages\<close> for the two paged
  listings.

  \<^bold>\<open>Parameters\<close>, with the laws assumed of them where a theorem needs any: MinIO (\<open>minio_laws\<close>, \<open>bucket_laws\<close>), Redis
  (\<open>redis_laws\<close>), the JWT library (\<open>jwt_laws\<close>), bcrypt, the mailer, URL signing, image and PDF codecs,
  the rounding of float64 (\<open>rounding_ok\<close>), JSON texts, the matching and ranking of full-text search,
  the collation of names, RFC 3339 texts and \<^verbatim>\<open>time.ParseDuration\<close>. Each theorem with such a hypothesis
  has a witness on a concrete instance.

  \<^bold>\<open>Abstractions.\<close> Identifiers and hashes are strings without the syntax checks of \<^verbatim>\<open>uuid\<close> and \<^verbatim>\<open>char(64)\<close>
  columns; transient failures of PostgreSQL are left out (its constraint violations are not); rows
  with equal sort keys keep their table order; lower-casing and trimming are ASCII; Lua numbers are
  exact rationals; requests are atomic in \<open>System\<close>, while the races the code exposes are modelled
  where they matter (moves of folders, completions, retries of dead events). \<open>upload_complete\<close> assumes
  that clients declare sizes that are not negative, which the code does not check
  (\<open>CompleteUpload_negative_size\<close>). Delivery is bounded by \<^verbatim>\<open>maxDeliver\<close> as the consumer is configured.

  \<^bold>\<open>Not modelled.\<close> The construction of the logger, of the metric collectors and of the trace exporter,
  durations, trace contexts across processes; dialling and closing of clients, signals and server
  shutdown; the timers that start probes and ticks; the creation of the event stream; the parsing of Go
  source and the JSON text of the API description; the frontend, the deployment files and the SQL of
  the migrations beyond the constraints the code relies on.
\<close>

end
